(* ===== verification/Prelude.thy ===== *)
theory Prelude
  imports
    Main
    "HOL-Library.Word"
    "HOL-Library.Multiset"
    "HOL-Library.Char_ord"
    "HOL-Library.List_Lexorder"
    "HOL-Library.Product_Lexorder"
begin

text \<open>
  Shared vocabulary of the development.

  A Go value of type \<open>string\<close> or \<open>[]byte\<close> is a HOL \<^typ>\<open>string\<close>: a list of
  \<^typ>\<open>char\<close>, each an eight bit value, so \<^const>\<open>length\<close> counts bytes as Go's
  \<open>len\<close> does and the lexicographic order on \<^typ>\<open>string\<close> is Go's byte order.
  A pair \<open>(value, error)\<close> of which exactly one half is meaningful is a sum, \<^const>\<open>Inl\<close>
  the error. A nil-able pointer is an option.

  The collections: \<open>go_defs\<close> unfolds the small non-recursive helpers of the Go standard
  library, \<open>res_splits\<close> holds the case splits that every early return needs.
\<close>

unbundle bit_operations_syntax

named_theorems go_defs
named_theorems go_size

type_synonym byte = "8 word"
type_synonym bytes = "8 word list"

text \<open>Go's \<open>int\<close> and \<open>int64\<close> on the 64 bit platforms the images pin.\<close>

abbreviation max_int64 :: int where
  "max_int64 \<equiv> 9223372036854775807"

abbreviation min_int64 :: int where
  "min_int64 \<equiv> - 9223372036854775808"

section \<open>Early returns\<close>

text \<open>
  \<open>guard_res b e k\<close> is \<open>if b { return e }; k\<close>, and \<open>try_res r k\<close> is
  \<open>v, err := r; if err != nil { return err }; k\<close>.
\<close>

definition try_res :: "'e + 'a \<Rightarrow> ('a \<Rightarrow> 'e + 'b) \<Rightarrow> 'e + 'b" where
  "try_res r k = (case r of Inl e \<Rightarrow> Inl e | Inr v \<Rightarrow> k v)"

lemma try_res_simps [simp]:
  "try_res (Inl e) k = Inl e"
  "try_res (Inr v) k = k v"
  by (simp_all add: try_res_def)

lemma try_res_Inr_iff: "try_res r k = Inr y \<longleftrightarrow> (\<exists>x. r = Inr x \<and> k x = Inr y)"
  by (cases r) simp_all

lemma try_res_Inl_iff: "try_res r k = Inl e \<longleftrightarrow> r = Inl e \<or> (\<exists>x. r = Inr x \<and> k x = Inl e)"
  by (cases r) simp_all

text \<open>The element-wise loop \<open>for _, x := range xs { if err := f(x); err != nil { return err } }\<close>.\<close>

fun first_error :: "('a \<Rightarrow> 'e option) \<Rightarrow> 'a list \<Rightarrow> 'e option" where
  "first_error f [] = None"
| "first_error f (x # xs) = (case f x of Some e \<Rightarrow> Some e | None \<Rightarrow> first_error f xs)"

lemma first_error_None_iff: "first_error f xs = None \<longleftrightarrow> (\<forall>x \<in> set xs. f x = None)"
  by (induction xs) (auto split: option.splits)

section \<open>Lists\<close>

lemma takeWhile_all [simp]: "(\<And>x. x \<in> set xs \<Longrightarrow> P x) \<Longrightarrow> takeWhile P xs = xs"
  by (induction xs) auto

lemma length_filter_eq_length_iff: "length (filter P xs) = length xs \<longleftrightarrow> (\<forall>x \<in> set xs. P x)"
proof
  assume "length (filter P xs) = length xs"
  then show "\<forall>x \<in> set xs. P x"
    by (metis length_filter_less less_irrefl)
qed simp

lemma sorted_wrt_nth_neq:
  assumes "sorted_wrt P xs" "i < length xs" "j < length xs" "i \<noteq> j"
  shows "P (xs ! i) (xs ! j) \<or> P (xs ! j) (xs ! i)"
  using assms by (metis linorder_neqE_nat sorted_wrt_iff_nth_less)

lemma distinct_map_filter_single:
  assumes "distinct (map f xs)" "x \<in> set xs"
  shows "filter (\<lambda>y. f y = f x) xs = [x]"
  using assms
proof (induction xs)
  case (Cons a xs)
  show ?case
  proof (cases "a = x")
    case True
    with Cons.prems have "filter (\<lambda>y. f y = f x) xs = []"
      by (auto simp: filter_empty_conv image_iff)
    with True show ?thesis by simp
  next
    case False
    with Cons show ?thesis by auto
  qed
qed simp

lemma sorted_strict_distinct:
  fixes xs :: "'a :: linorder list"
  shows "sorted_wrt (<) xs \<longleftrightarrow> sorted xs \<and> distinct xs"
  by (simp add: strict_sorted_iff)

end
