(* ===== verification/Go_Strings.thy ===== *)
theory Go_Strings
  imports Prelude
begin

text \<open>
  The parts of Go's packages \<open>strings\<close>, \<open>bytes\<close>, \<open>unicode/utf8\<close> and
  \<open>encoding/hex\<close> that the repository uses, on byte strings: prefixes and substrings,
  splitting, UTF-8 decoding forwards and backwards, white space trimming by Unicode
  rules, and hexadecimal encoding. The lemmas show what the clients rely on: trimming is
  idempotent and leaves no outer white space, decoding always makes progress, and
  hexadecimal decoding inverts encoding.
\<close>

section \<open>Prefixes, substrings, splitting\<close>

definition HasPrefix :: "string \<Rightarrow> string \<Rightarrow> bool" where
  "HasPrefix s p \<longleftrightarrow> take (length p) s = p"

definition HasSuffix :: "string \<Rightarrow> string \<Rightarrow> bool" where
  "HasSuffix s p \<longleftrightarrow> length p \<le> length s \<and> drop (length s - length p) s = p"

definition TrimPrefix :: "string \<Rightarrow> string \<Rightarrow> string" where
  "TrimPrefix s p = (if HasPrefix s p then drop (length p) s else s)"

fun Contains :: "string \<Rightarrow> string \<Rightarrow> bool" where
  "Contains [] sub \<longleftrightarrow> sub = []"
| "Contains (c # s) sub \<longleftrightarrow> HasPrefix (c # s) sub \<or> Contains s sub"

text \<open>\<open>strings.Split(s, sep)\<close> for a separator of one byte.\<close>

fun split_on :: "char \<Rightarrow> string \<Rightarrow> string list" where
  "split_on sep [] = [[]]"
| "split_on sep (c # s) =
     (if c = sep then [] # split_on sep s
      else (case split_on sep s of [] \<Rightarrow> [[c]] | w # ws \<Rightarrow> (c # w) # ws))"

text \<open>\<open>strings.ReplaceAll(s, "-", "")\<close> and its like: deleting one byte value.\<close>

definition remove_byte :: "char \<Rightarrow> string \<Rightarrow> string" where
  "remove_byte b s = filter (\<lambda>c. c \<noteq> b) s"

text \<open>\<open>strings.ReplaceAll(s, "\r\n", "\n")\<close>.\<close>

fun crlf_to_lf :: "string \<Rightarrow> string" where
  "crlf_to_lf (c # d # s) =
     (if c = CHR 0x0D \<and> d = CHR 0x0A then CHR 0x0A # crlf_to_lf s else c # crlf_to_lf (d # s))"
| "crlf_to_lf s = s"

lemma HasPrefix_append [simp]: "HasPrefix (p @ s) p"
  by (simp add: HasPrefix_def)

lemma HasPrefix_Nil [simp]: "HasPrefix s []"
  by (simp add: HasPrefix_def)

lemma HasPrefix_iff: "HasPrefix s p \<longleftrightarrow> (\<exists>t. s = p @ t)"
proof
  assume "HasPrefix s p"
  then have "s = p @ drop (length p) s"
    by (metis HasPrefix_def append_take_drop_id)
  then show "\<exists>t. s = p @ t" ..
qed auto

lemma HasPrefix_Cons [simp]: "HasPrefix (c # s) (d # p) \<longleftrightarrow> c = d \<and> HasPrefix s p"
  by (auto simp: HasPrefix_def)

lemma HasPrefix_Nil_left [simp]: "HasPrefix [] p \<longleftrightarrow> p = []"
  by (auto simp: HasPrefix_def)

lemma TrimPrefix_append [simp]: "TrimPrefix (p @ s) p = s"
  by (simp add: TrimPrefix_def)

lemma Contains_iff: "Contains s sub \<longleftrightarrow> (\<exists>a b. s = a @ sub @ b)"
proof (induction s)
  case (Cons c s)
  show ?case (is "?l \<longleftrightarrow> ?r")
  proof
    assume ?l
    then show ?r
    proof (cases "HasPrefix (c # s) sub")
      case True
      then obtain t where "c # s = sub @ t" by (auto simp: HasPrefix_iff)
      then have "c # s = [] @ sub @ t" by simp
      then show ?thesis by blast
    next
      case False
      with \<open>?l\<close> Cons.IH obtain a b where "s = a @ sub @ b" by auto
      then have "c # s = (c # a) @ sub @ b" by simp
      then show ?thesis by blast
    qed
  next
    assume ?r
    then obtain a b where ab: "c # s = a @ sub @ b" by blast
    show ?l
    proof (cases a)
      case Nil
      with ab have "HasPrefix (c # s) sub" by (auto simp: HasPrefix_iff)
      then show ?thesis by simp
    next
      case (Cons d a')
      with ab have "s = a' @ sub @ b" by simp
      with Cons.IH show ?thesis by auto
    qed
  qed
qed auto

lemma split_on_not_Nil [simp]: "split_on sep s \<noteq> []"
  by (induction s) (auto split: list.splits)

text \<open>No piece holds the separator, and joining the pieces with it gives the text back.\<close>

lemma split_on_no_sep: "w \<in> set (split_on sep s) \<Longrightarrow> sep \<notin> set w"
  by (induction s arbitrary: w) (auto split: list.splits if_splits)

fun join_on :: "char \<Rightarrow> string list \<Rightarrow> string" where
  "join_on sep [] = []"
| "join_on sep [w] = w"
| "join_on sep (w # v # ws) = w @ sep # join_on sep (v # ws)"

lemma join_split: "join_on sep (split_on sep s) = s"
proof (induction s)
  case (Cons c s)
  then show ?case
    by (cases "split_on sep s"; cases "tl (split_on sep s)") auto
qed simp

lemma length_split_on: "length (split_on sep s) = Suc (length (filter (\<lambda>c. c = sep) s))"
  by (induction s) (auto split: list.splits)

section \<open>UTF-8\<close>

text \<open>
  \<open>utf8.DecodeRuneInString\<close>: the code point at the front and its width. A byte that
  starts no valid sequence is \<open>RuneError\<close> of width 1; the empty string is
  \<open>RuneError\<close> of width 0. \<open>utf8_first\<close> is the table of the package: the length of
  a sequence by its first byte and the range of its second byte.
\<close>

definition RuneError :: nat where
  "RuneError = 65533"

definition utf8_first :: "nat \<Rightarrow> (nat \<times> nat \<times> nat) option" where
  "utf8_first x =
     (if x < 194 then None
      else if x < 224 then Some (2, 128, 191)
      else if x = 224 then Some (3, 160, 191)
      else if x = 237 then Some (3, 128, 159)
      else if x < 240 then Some (3, 128, 191)
      else if x = 240 then Some (4, 144, 191)
      else if x < 244 then Some (4, 128, 191)
      else if x = 244 then Some (4, 128, 143)
      else None)"

definition utf8_cont :: "nat \<Rightarrow> bool" where
  "utf8_cont x \<longleftrightarrow> 128 \<le> x \<and> x \<le> 191"

definition byte_at :: "string \<Rightarrow> nat \<Rightarrow> nat" where
  "byte_at s i = of_char (s ! i)"

definition DecodeRune :: "string \<Rightarrow> nat \<times> nat" where
  "DecodeRune s =
     (if s = [] then (RuneError, 0)
      else if byte_at s 0 < 128 then (byte_at s 0, 1)
      else (case utf8_first (byte_at s 0) of
          None \<Rightarrow> (RuneError, 1)
        | Some (sz, lo, hi) \<Rightarrow>
            (if length s < sz then (RuneError, 1)
             else if byte_at s 1 < lo \<or> hi < byte_at s 1 then (RuneError, 1)
             else if sz \<le> 2 then ((byte_at s 0 mod 32) * 64 + byte_at s 1 mod 64, 2)
             else if \<not> utf8_cont (byte_at s 2) then (RuneError, 1)
             else if sz \<le> 3 then
               ((byte_at s 0 mod 16) * 4096 + (byte_at s 1 mod 64) * 64 + byte_at s 2 mod 64, 3)
             else if \<not> utf8_cont (byte_at s 3) then (RuneError, 1)
             else ((byte_at s 0 mod 8) * 262144 + (byte_at s 1 mod 64) * 4096
                   + (byte_at s 2 mod 64) * 64 + byte_at s 3 mod 64, 4))))"

lemma utf8_first_Some:
  "utf8_first x = Some (sz, lo, hi) \<Longrightarrow>
     194 \<le> x \<and> 2 \<le> sz \<and> sz \<le> 4 \<and> 128 \<le> lo \<and> hi \<le> 191"
  by (auto simp: utf8_first_def split: if_splits)

lemma DecodeRune_Nil [simp]: "DecodeRune [] = (RuneError, 0)"
  by (simp add: DecodeRune_def)

lemma DecodeRune_size:
  assumes "s \<noteq> []"
  shows "1 \<le> snd (DecodeRune s) \<and> snd (DecodeRune s) \<le> length s"
proof -
  have "1 \<le> length s" using assms by (cases s) auto
  then show ?thesis
    using assms
    by (auto simp: DecodeRune_def dest: utf8_first_Some split: option.splits)
qed

lemma DecodeRune_size_bounds:
  assumes "s \<noteq> []"
  shows "0 < snd (DecodeRune s)" "snd (DecodeRune s) \<le> length s"
  using DecodeRune_size [OF assms] by auto

text \<open>Every byte of a decoded sequence after the first is a continuation byte.\<close>

lemma DecodeRune_cont:
  assumes "0 < i" "i < snd (DecodeRune s)"
  shows "utf8_cont (byte_at s i)"
proof -
  have "s \<noteq> []" using assms by (auto simp: DecodeRune_def split: if_splits)
  have "i < 4" using assms
    by (auto simp: DecodeRune_def split: if_splits option.splits)
  then have "i = 1 \<or> i = 2 \<or> i = 3" using assms by auto
  then show ?thesis using assms \<open>s \<noteq> []\<close>
    by (auto simp: DecodeRune_def utf8_cont_def dest!: utf8_first_Some
        split: if_splits option.splits)
qed

lemma byte_at_take [simp]: "i < m \<Longrightarrow> byte_at (take m s) i = byte_at s i"
  by (simp add: byte_at_def)

text \<open>Cutting a string behind its first rune does not change that rune.\<close>

lemma DecodeRune_take:
  assumes "snd (DecodeRune s) \<le> m"
  shows "DecodeRune (take m s) = DecodeRune s"
proof (cases "s = []")
  case False
  with assms have "0 < m" using DecodeRune_size [OF False] by simp
  with False have ne: "take m s \<noteq> []" by simp
  have b0: "byte_at (take m s) 0 = byte_at s 0" using \<open>0 < m\<close> by simp
  show ?thesis
  proof (cases "utf8_first (byte_at s 0)")
    case None
    with False ne b0 show ?thesis by (simp add: DecodeRune_def)
  next
    case (Some t)
    obtain sz lo hi where t: "t = (sz, lo, hi)" by (cases t)
    with Some have sz: "2 \<le> sz" "sz \<le> 4" "194 \<le> byte_at s 0"
      using utf8_first_Some by blast+
    show ?thesis
    proof (cases "m < sz")
      case True
      then have "DecodeRune (take m s) = (RuneError, 1)"
        using ne b0 sz Some t by (simp add: DecodeRune_def min_def)
      moreover have "DecodeRune s = (RuneError, 1)"
        using assms True False sz Some t by (auto simp: DecodeRune_def split: if_splits)
      ultimately show ?thesis by simp
    next
      case False
      then have "1 < m" "2 < sz \<Longrightarrow> 2 < m" "\<not> sz \<le> 3 \<Longrightarrow> 3 < m" using sz by auto
      then show ?thesis
        using ne \<open>s \<noteq> []\<close> b0 sz Some t False by (auto simp: DecodeRune_def min_def)
    qed
  qed
qed simp

function RuneCount :: "string \<Rightarrow> nat" where
  "RuneCount s = (if s = [] then 0 else Suc (RuneCount (drop (snd (DecodeRune s)) s)))"
  by pat_completeness auto
termination
  by (relation "measure length") (use DecodeRune_size_bounds in auto)

declare RuneCount.simps [simp del]

lemma RuneCount_code [code]:
  "RuneCount [] = 0"
  "RuneCount (c # s) = Suc (RuneCount (drop (snd (DecodeRune (c # s))) (c # s)))"
  by (simp_all add: RuneCount.simps)

lemma RuneCount_Nil [simp]: "RuneCount [] = 0"
  by (simp add: RuneCount.simps)

lemma RuneCount_pos_iff [simp]: "0 < RuneCount s \<longleftrightarrow> s \<noteq> []"
  by (subst RuneCount.simps) simp

lemma Suc_le_RuneCount_iff [simp]: "Suc 0 \<le> RuneCount s \<longleftrightarrow> s \<noteq> []"
  using RuneCount_pos_iff [of s] by linarith

lemma RuneCount_0_iff [simp]: "RuneCount s = 0 \<longleftrightarrow> s = []"
  using RuneCount_pos_iff [of s] by linarith

lemma RuneCount_le_length: "RuneCount s \<le> length s"
proof (induction s rule: RuneCount.induct)
  case (1 s)
  show ?case
  proof (cases "s = []")
    case False
    with "1.IH" have "RuneCount (drop (snd (DecodeRune s)) s) \<le> length s - snd (DecodeRune s)"
      by simp
    moreover have "0 < snd (DecodeRune s)" "snd (DecodeRune s) \<le> length s"
      using DecodeRune_size_bounds [OF False] by auto
    ultimately show ?thesis using False by (subst RuneCount.simps) simp
  qed simp
qed

text \<open>ASCII text has one rune per byte.\<close>

lemma DecodeRune_ascii:
  "of_char c < (128 :: nat) \<Longrightarrow> DecodeRune (c # s) = (of_char c, 1)"
  by (simp add: DecodeRune_def byte_at_def)

lemma RuneCount_ascii:
  "(\<And>c. c \<in> set s \<Longrightarrow> of_char c < (128 :: nat)) \<Longrightarrow> RuneCount s = length s"
proof (induction s)
  case (Cons c s)
  then have "DecodeRune (c # s) = (of_char c, 1)" by (simp add: DecodeRune_ascii)
  with Cons show ?case by (subst RuneCount.simps) simp
qed simp

text \<open>
  \<open>utf8.DecodeLastRuneInString\<close>: from the end, back over at most three bytes to a byte
  that can start a sequence, then forwards; the sequence must end where the string does.
\<close>

definition RuneStart :: "nat \<Rightarrow> bool" where
  "RuneStart x \<longleftrightarrow> \<not> utf8_cont x"

fun back_to_start :: "string \<Rightarrow> nat \<Rightarrow> nat \<Rightarrow> nat" where
  "back_to_start s lim 0 = 0"
| "back_to_start s lim (Suc i) =
     (if i < lim then i else if RuneStart (byte_at s i) then i else back_to_start s lim i)"

definition DecodeLastRune :: "string \<Rightarrow> nat \<times> nat" where
  "DecodeLastRune s =
     (if s = [] then (RuneError, 0)
      else (let n = length s; l = n - 1 in
        if byte_at s l < 128 then (byte_at s l, 1)
        else (let start = back_to_start s (n - 4) l; (r, size) = DecodeRune (drop start s)
              in if start + size \<noteq> n then (RuneError, 1) else (r, size))))"

lemma DecodeLastRune_cases:
  assumes "s \<noteq> []"
  obtains (one) "snd (DecodeLastRune s) = 1"
      "fst (DecodeLastRune s) = RuneError \<or> fst (DecodeLastRune s) = byte_at s (length s - 1)
         \<and> byte_at s (length s - 1) < 128"
  | (many) start where "start < length s" "DecodeLastRune s = DecodeRune (drop start s)"
      "snd (DecodeLastRune s) = length s - start"
proof -
  let ?l = "length s - 1"
  let ?st = "back_to_start s (length s - 4) ?l"
  have st_le: "back_to_start s lim i \<le> i" for lim i
    by (induction i) auto
  have "?st < length s" using assms st_le [of "length s - 4" ?l] by (cases s) auto
  show thesis
  proof (cases "byte_at s ?l < 128 \<or> ?st + snd (DecodeRune (drop ?st s)) \<noteq> length s")
    case True
    then show ?thesis using assms
      by (intro one) (auto simp: DecodeLastRune_def Let_def split: prod.splits)
  next
    case False
    then have last: "DecodeLastRune s = DecodeRune (drop ?st s)"
      using assms by (auto simp: DecodeLastRune_def Let_def split: prod.splits)
    with False have "?st + snd (DecodeLastRune s) = length s" by simp
    then show ?thesis by (intro many [OF \<open>?st < length s\<close> last]) linarith
  qed
qed

lemma DecodeLastRune_size:
  assumes "s \<noteq> []"
  shows "1 \<le> snd (DecodeLastRune s) \<and> snd (DecodeLastRune s) \<le> length s"
  using assms
proof (cases s rule: DecodeLastRune_cases)
  case one
  then show ?thesis using assms by (cases s) auto
next
  case (many start)
  then show ?thesis by simp
qed

section \<open>White space\<close>

text \<open>\<open>unicode.IsSpace\<close>: the Latin-1 white space and the White_Space property above it.\<close>

definition IsSpace :: "nat \<Rightarrow> bool" where
  "IsSpace r \<longleftrightarrow>
     r \<in> {9, 10, 11, 12, 13, 32, 133, 160, 5760, 8232, 8233, 8239, 8287, 12288}
     \<or> (8192 \<le> r \<and> r \<le> 8202)"

lemma not_IsSpace_RuneError [simp]: "\<not> IsSpace RuneError"
  by (simp add: IsSpace_def RuneError_def)

function TrimLeftSpace :: "string \<Rightarrow> string" where
  "TrimLeftSpace s =
     (if s \<noteq> [] \<and> IsSpace (fst (DecodeRune s))
      then TrimLeftSpace (drop (snd (DecodeRune s)) s) else s)"
  by pat_completeness auto
termination
  by (relation "measure length") (use DecodeRune_size_bounds in auto)

function TrimRightSpace :: "string \<Rightarrow> string" where
  "TrimRightSpace s =
     (if s \<noteq> [] \<and> IsSpace (fst (DecodeLastRune s))
      then TrimRightSpace (take (length s - snd (DecodeLastRune s)) s) else s)"
  by pat_completeness auto
termination
proof (relation "measure length")
  fix s :: string
  assume "s \<noteq> [] \<and> IsSpace (fst (DecodeLastRune s))"
  then have "1 \<le> snd (DecodeLastRune s)" "s \<noteq> []" using DecodeLastRune_size by auto
  then show "(take (length s - snd (DecodeLastRune s)) s, s) \<in> measure length"
    by (cases s) auto
qed simp

declare TrimLeftSpace.simps [simp del] TrimRightSpace.simps [simp del]

lemma TrimLeftSpace_code [code]:
  "TrimLeftSpace [] = []"
  "TrimLeftSpace (c # s) =
     (case IsSpace (fst (DecodeRune (c # s))) of
        True \<Rightarrow> TrimLeftSpace (drop (snd (DecodeRune (c # s))) (c # s)) | False \<Rightarrow> c # s)"
  by (simp_all add: TrimLeftSpace.simps split: bool.split)

lemma TrimRightSpace_code [code]:
  "TrimRightSpace [] = []"
  "TrimRightSpace (c # s) =
     (case IsSpace (fst (DecodeLastRune (c # s))) of
        True \<Rightarrow> TrimRightSpace (take (length (c # s) - snd (DecodeLastRune (c # s))) (c # s))
      | False \<Rightarrow> c # s)"
  by (simp_all add: TrimRightSpace.simps split: bool.split)

definition TrimSpace :: "string \<Rightarrow> string" where
  "TrimSpace s = TrimRightSpace (TrimLeftSpace s)"

lemma TrimLeftSpace_front: "TrimLeftSpace s = [] \<or> \<not> IsSpace (fst (DecodeRune (TrimLeftSpace s)))"
  by (induction s rule: TrimLeftSpace.induct) (subst (1 2) TrimLeftSpace.simps, auto)

lemma TrimRightSpace_back:
  "TrimRightSpace s = [] \<or> \<not> IsSpace (fst (DecodeLastRune (TrimRightSpace s)))"
  by (induction s rule: TrimRightSpace.induct) (subst (1 2) TrimRightSpace.simps, auto)

lemma TrimLeftSpace_id: "s = [] \<or> \<not> IsSpace (fst (DecodeRune s)) \<Longrightarrow> TrimLeftSpace s = s"
  by (subst TrimLeftSpace.simps) auto

lemma TrimRightSpace_id: "s = [] \<or> \<not> IsSpace (fst (DecodeLastRune s)) \<Longrightarrow> TrimRightSpace s = s"
  by (subst TrimRightSpace.simps) auto

text \<open>
  Removing a white space rune from the back never cuts into a first rune that is no white
  space: the bytes inside a rune are continuation bytes, and no white space sequence
  starts with one.
\<close>

lemma last_space_behind_first_rune:
  assumes ne: "s \<noteq> []"
    and last: "IsSpace (fst (DecodeLastRune s))"
    and first: "\<not> IsSpace (fst (DecodeRune s))"
  shows "snd (DecodeRune s) \<le> length s - snd (DecodeLastRune s)"
proof -
  let ?n = "snd (DecodeRune s)" and ?k = "length s - snd (DecodeLastRune s)"
  have k: "?k < length s" "0 < length s"
    using DecodeLastRune_size [OF ne] ne by auto
  have start: "\<not> utf8_cont (byte_at s ?k)" and zero: "?k \<noteq> 0"
  proof -
    have "\<not> utf8_cont (byte_at s ?k) \<and> ?k \<noteq> 0"
      using ne
    proof (cases s rule: DecodeLastRune_cases)
      case one
      with last have b: "fst (DecodeLastRune s) = byte_at s (length s - 1)"
        "byte_at s (length s - 1) < 128" by auto
      have "?k \<noteq> 0"
      proof
        assume "?k = 0"
        with one(1) k have "length s = 1" by linarith
        with b ne have "DecodeRune s = (byte_at s (length s - 1), 1)"
          by (simp add: DecodeRune_def)
        with b last first show False by simp
      qed
      with b one show ?thesis by (simp add: utf8_cont_def)
    next
      case (many start)
      then have "?k = start" by simp
      have "?k \<noteq> 0"
      proof
        assume "?k = 0"
        with many \<open>?k = start\<close> have "DecodeLastRune s = DecodeRune s" by simp
        with last first show False by simp
      qed
      moreover have "\<not> utf8_cont (byte_at s start)"
      proof
        assume c: "utf8_cont (byte_at s start)"
        have "byte_at (drop start s) 0 = byte_at s start"
          using many(1) by (simp add: byte_at_def)
        with c have "DecodeRune (drop start s) = (RuneError, 1)"
          using many(1) by (simp add: DecodeRune_def utf8_cont_def utf8_first_def)
        with many(2) last show False by simp
      qed
      ultimately show ?thesis using \<open>?k = start\<close> by simp
    qed
    then show "\<not> utf8_cont (byte_at s ?k)" "?k \<noteq> 0" by auto
  qed
  show ?thesis
  proof (rule ccontr)
    assume "\<not> ?thesis"
    with zero have "utf8_cont (byte_at s ?k)" by (intro DecodeRune_cont) auto
    with start show False by simp
  qed
qed

lemma TrimRightSpace_keeps_front:
  "s \<noteq> [] \<Longrightarrow> \<not> IsSpace (fst (DecodeRune s)) \<Longrightarrow>
     TrimRightSpace s \<noteq> [] \<and> DecodeRune (TrimRightSpace s) = DecodeRune s"
proof (induction s rule: TrimRightSpace.induct)
  case (1 s)
  show ?case
  proof (cases "IsSpace (fst (DecodeLastRune s))")
    case True
    let ?t = "take (length s - snd (DecodeLastRune s)) s"
    have le: "snd (DecodeRune s) \<le> length s - snd (DecodeLastRune s)"
      using last_space_behind_first_rune "1.prems" True by blast
    then have dec: "DecodeRune ?t = DecodeRune s" by (rule DecodeRune_take)
    have "0 < snd (DecodeRune s)" using DecodeRune_size_bounds "1.prems" by blast
    with le "1.prems" have "?t \<noteq> []" by auto
    then have "TrimRightSpace ?t \<noteq> [] \<and> DecodeRune (TrimRightSpace ?t) = DecodeRune ?t"
      using "1.IH" "1.prems" True dec by simp
    moreover have "TrimRightSpace s = TrimRightSpace ?t"
      using "1.prems" True by (subst TrimRightSpace.simps) simp
    ultimately show ?thesis using dec by simp
  next
    case False
    with "1.prems" show ?thesis by (simp add: TrimRightSpace_id)
  qed
qed

lemma TrimSpace_front: "TrimSpace s = [] \<or> \<not> IsSpace (fst (DecodeRune (TrimSpace s)))"
proof (cases "TrimLeftSpace s = []")
  case True
  then show ?thesis by (simp add: TrimSpace_def TrimRightSpace_id)
next
  case False
  with TrimLeftSpace_front [of s] have "\<not> IsSpace (fst (DecodeRune (TrimLeftSpace s)))" by simp
  with False TrimRightSpace_keeps_front show ?thesis by (simp add: TrimSpace_def)
qed

lemma TrimSpace_back: "TrimSpace s = [] \<or> \<not> IsSpace (fst (DecodeLastRune (TrimSpace s)))"
  unfolding TrimSpace_def by (rule TrimRightSpace_back)

lemma TrimSpace_idem [simp]: "TrimSpace (TrimSpace s) = TrimSpace s"
  using TrimSpace_front [of s] TrimSpace_back [of s]
  by (simp add: TrimSpace_def [of "TrimSpace s"] TrimLeftSpace_id TrimRightSpace_id)

lemma length_TrimRightSpace: "length (TrimRightSpace s) \<le> length s"
proof (induction s rule: TrimRightSpace.induct)
  case (1 s)
  then show ?case by (subst TrimRightSpace.simps) auto
qed

lemma length_TrimLeftSpace: "length (TrimLeftSpace s) \<le> length s"
proof (induction s rule: TrimLeftSpace.induct)
  case (1 s)
  then show ?case by (subst TrimLeftSpace.simps) auto
qed

lemma length_TrimSpace: "length (TrimSpace s) \<le> length s"
  unfolding TrimSpace_def using length_TrimRightSpace length_TrimLeftSpace le_trans by blast

text \<open>A text that starts with a visible ASCII character does not trim to nothing.\<close>

lemma DecodeLastRune_keeps_head:
  assumes "of_char c < (128 :: nat)" "s \<noteq> []"
  shows "snd (DecodeLastRune (c # s)) \<le> length s"
proof -
  have "c # s \<noteq> []" by simp
  then show ?thesis
  proof (cases "c # s" rule: DecodeLastRune_cases)
    case one
    then show ?thesis using assms(2) by (cases s) auto
  next
    case (many start)
    show ?thesis
    proof (cases start)
      case 0
      then have "snd (DecodeLastRune (c # s)) = 1" using many(2) DecodeRune_ascii [OF assms(1)] by simp
      then show ?thesis using assms(2) by (cases s) auto
    next
      case (Suc m)
      then show ?thesis using many(3) by simp
    qed
  qed
qed

lemma TrimRightSpace_head:
  assumes "of_char c < (128 :: nat)" "\<not> IsSpace (of_char c)"
  shows "TrimRightSpace (c # s) \<noteq> []"
proof (induction s rule: length_induct)
  case (1 s)
  show ?case
  proof (cases "IsSpace (fst (DecodeLastRune (c # s)))")
    case False
    then show ?thesis using TrimRightSpace_id [of "c # s"] by simp
  next
    case True
    have "s \<noteq> []" using True assms by (auto simp: DecodeLastRune_def byte_at_def)
    then obtain k where k: "length (c # s) - snd (DecodeLastRune (c # s)) = Suc k" "k < length s"
      using DecodeLastRune_keeps_head [OF assms(1), of s] DecodeLastRune_size [of "c # s"]
      by (metis Suc_diff_le diff_less length_Cons length_greater_0_conv less_eq_Suc_le list.distinct(1) One_nat_def)
    then have "TrimRightSpace (c # s) = TrimRightSpace (c # take k s)"
      using True by (subst TrimRightSpace.simps) simp
    then show ?thesis using 1 k(2) by simp
  qed
qed

lemma TrimSpace_head:
  assumes "of_char c < (128 :: nat)" "\<not> IsSpace (of_char c)"
  shows "TrimSpace (c # s) \<noteq> []"
proof -
  have "TrimLeftSpace (c # s) = c # s"
    by (rule TrimLeftSpace_id) (simp add: DecodeRune_ascii assms)
  then show ?thesis using TrimRightSpace_head [OF assms] by (simp add: TrimSpace_def)
qed

end
