(* ===== verification/Go_Encoding.thy ===== *)
theory Go_Encoding
  imports Go_Strings
begin

text \<open>
  Go's \<open>encoding/hex\<close> and \<open>encoding/base64\<close> (the unpadded URL alphabet in strict
  mode, as \<open>base64.RawURLEncoding.Strict()\<close>). Both decoders are shown to invert their
  encoders.
\<close>

section \<open>Bytes and characters\<close>

definition char_of_byte :: "byte \<Rightarrow> char" where
  "char_of_byte b = char_of (unat b)"

definition byte_of_char :: "char \<Rightarrow> byte" where
  "byte_of_char c = of_nat (of_char c)"

lemma unat_byte_less: "unat (b :: byte) < 256"
proof -
  have "unat b < 2 ^ LENGTH(8)" by (rule unsigned_less)
  then show ?thesis by simp
qed

lemma byte_of_char_of_byte [simp]: "byte_of_char (char_of_byte b) = b"
proof -
  have "unat b < 256" by (rule unat_byte_less)
  then show ?thesis by (simp add: byte_of_char_def char_of_byte_def)
qed

lemma char_of_byte_of_char [simp]: "char_of_byte (byte_of_char c) = c"
proof -
  have "of_char c < (256 :: nat)" by simp
  then have "unat (of_nat (of_char c) :: byte) = of_char c"
    by (simp add: unat_of_nat take_bit_nat_eq_self)
  then show ?thesis by (simp add: byte_of_char_def char_of_byte_def)
qed

definition string_of_bytes :: "bytes \<Rightarrow> string" where
  "string_of_bytes bs = map char_of_byte bs"

definition bytes_of_string :: "string \<Rightarrow> bytes" where
  "bytes_of_string s = map byte_of_char s"

lemma bytes_of_string_of_bytes [simp]: "bytes_of_string (string_of_bytes bs) = bs"
  by (simp add: bytes_of_string_def string_of_bytes_def comp_def)

lemma string_of_bytes_of_string [simp]: "string_of_bytes (bytes_of_string s) = s"
  by (simp add: bytes_of_string_def string_of_bytes_def comp_def)

lemma length_bytes_of_string [simp]: "length (bytes_of_string s) = length s"
  by (simp add: bytes_of_string_def)

section \<open>Hexadecimal\<close>

text \<open>\<open>hextable\<close> of the package: lower case.\<close>

definition hex_digit :: "nat \<Rightarrow> char" where
  "hex_digit n = ''0123456789abcdef'' ! n"

text \<open>The reverse table accepts both cases.\<close>

definition hex_value :: "char \<Rightarrow> nat option" where
  "hex_value c = (let x = of_char c :: nat in
     if 48 \<le> x \<and> x \<le> 57 then Some (x - 48)
     else if 97 \<le> x \<and> x \<le> 102 then Some (x - 87)
     else if 65 \<le> x \<and> x \<le> 70 then Some (x - 55)
     else None)"

fun hex_EncodeToString :: "bytes \<Rightarrow> string" where
  "hex_EncodeToString [] = []"
| "hex_EncodeToString (b # bs) =
     hex_digit (unat b div 16) # hex_digit (unat b mod 16) # hex_EncodeToString bs"

text \<open>\<open>hex.DecodeString\<close>; \<^const>\<open>None\<close> is \<open>ErrLength\<close> or \<open>InvalidByteError\<close>.\<close>

fun hex_DecodeString :: "string \<Rightarrow> bytes option" where
  "hex_DecodeString [] = Some []"
| "hex_DecodeString [c] = None"
| "hex_DecodeString (c # d # s) =
     (case (hex_value c, hex_value d, hex_DecodeString s) of
        (Some x, Some y, Some bs) \<Rightarrow> Some (of_nat (16 * x + y) # bs)
      | _ \<Rightarrow> None)"

lemma hex_value_hex_digit [simp]:
  assumes "n < 16"
  shows "hex_value (hex_digit n) = Some n"
proof -
  have "list_all (\<lambda>n. hex_value (hex_digit n) = Some n) [0..<16]"
    by (simp add: upt_rec hex_value_def hex_digit_def)
  with assms show ?thesis by (simp add: list_all_iff)
qed

lemma hex_value_less: "hex_value c = Some n \<Longrightarrow> n < 16"
  by (auto simp: hex_value_def Let_def split: if_splits)

lemma hex_value_dash [simp]: "hex_value (CHR ''-'') = None"
  by (simp add: hex_value_def)

lemma hex_Decode_Encode [simp]: "hex_DecodeString (hex_EncodeToString bs) = Some bs"
proof (induction bs)
  case (Cons b bs)
  have "unat b div 16 < 16" using unat_byte_less [of b] by auto
  moreover have "of_nat (16 * (unat b div 16) + unat b mod 16) = b" by simp
  ultimately show ?case using Cons by simp
qed simp

lemma length_hex_Encode [simp]: "length (hex_EncodeToString bs) = 2 * length bs"
  by (induction bs) auto

lemma hex_Encode_append: "hex_EncodeToString (as @ bs) = hex_EncodeToString as @ hex_EncodeToString bs"
  by (induction as) auto

lemma hex_DecodeString_Some:
  "hex_DecodeString s = Some bs \<Longrightarrow>
     length s = 2 * length bs \<and> (\<forall>c \<in> set s. hex_value c \<noteq> None)"
  by (induction s arbitrary: bs rule: hex_DecodeString.induct)
    (auto split: option.splits)

lemma hex_DecodeString_ex:
  "even (length s) \<Longrightarrow> \<forall>c \<in> set s. hex_value c \<noteq> None \<Longrightarrow> \<exists>bs. hex_DecodeString s = Some bs"
  by (induction s rule: hex_DecodeString.induct) auto

lemma hex_digit_not_dash: "n < 16 \<Longrightarrow> hex_digit n \<noteq> CHR ''-''"
  by (metis hex_value_dash hex_value_hex_digit option.distinct(1))

lemma hex_Encode_no_dash: "CHR ''-'' \<notin> set (hex_EncodeToString bs)"
proof (induction bs)
  case (Cons b bs)
  have "unat b div 16 < 16" "unat b mod 16 < 16" using unat_byte_less [of b] by auto
  then show ?case using Cons hex_digit_not_dash by (metis hex_EncodeToString.simps(2) set_ConsD)
qed simp

lemma hex_DecodeString_append:
  "hex_DecodeString a = Some x \<Longrightarrow> hex_DecodeString b = Some y \<Longrightarrow>
     hex_DecodeString (a @ b) = Some (x @ y)"
  by (induction a arbitrary: x rule: hex_DecodeString.induct) (auto split: option.splits)

section \<open>Base64, unpadded URL alphabet, strict\<close>

definition b64_alphabet :: string where
  "b64_alphabet = ''ABCDEFGHIJKLMNOPQRSTUVWXYZabcdefghijklmnopqrstuvwxyz0123456789-_''"

definition b64_char :: "nat \<Rightarrow> char" where
  "b64_char n = b64_alphabet ! n"

definition b64_value :: "char \<Rightarrow> nat option" where
  "b64_value c = (let x = of_char c :: nat in
     if 65 \<le> x \<and> x \<le> 90 then Some (x - 65)
     else if 97 \<le> x \<and> x \<le> 122 then Some (x - 71)
     else if 48 \<le> x \<and> x \<le> 57 then Some (x + 4)
     else if x = 45 then Some 62
     else if x = 95 then Some 63
     else None)"

fun b64_encode :: "nat list \<Rightarrow> string" where
  "b64_encode [] = []"
| "b64_encode [a] = [b64_char (a div 4), b64_char (a mod 4 * 16)]"
| "b64_encode [a, b] =
     [b64_char (a div 4), b64_char (a mod 4 * 16 + b div 16), b64_char (b mod 16 * 4)]"
| "b64_encode (a # b # c # s) =
     b64_char (a div 4) # b64_char (a mod 4 * 16 + b div 16)
     # b64_char (b mod 16 * 4 + c div 64) # b64_char (c mod 64) # b64_encode s"

text \<open>
  Decoding four sextets at a time. In strict mode the bits of the last sextet that no
  byte uses must be zero. A single left-over sextet is corrupt input.
\<close>

fun b64_quads :: "nat list \<Rightarrow> nat list option" where
  "b64_quads [] = Some []"
| "b64_quads [w] = None"
| "b64_quads [w, x] = (if x mod 16 = 0 then Some [w * 4 + x div 16] else None)"
| "b64_quads [w, x, y] =
     (if y mod 4 = 0 then Some [w * 4 + x div 16, x mod 16 * 16 + y div 4] else None)"
| "b64_quads (w # x # y # z # s) =
     map_option (\<lambda>r. (w * 4 + x div 16) # (x mod 16 * 16 + y div 4) # (y mod 4 * 64 + z) # r)
       (b64_quads s)"

fun b64_sextets :: "string \<Rightarrow> nat list option" where
  "b64_sextets [] = Some []"
| "b64_sextets (c # s) =
     (case b64_value c of None \<Rightarrow> None | Some n \<Rightarrow> map_option (\<lambda>ns. n # ns) (b64_sextets s))"

text \<open>The decoder skips carriage returns and newlines, also in strict mode.\<close>

definition RawURL_EncodeToString :: "string \<Rightarrow> string" where
  "RawURL_EncodeToString s = b64_encode (map of_char s)"

definition RawURL_Strict_DecodeString :: "string \<Rightarrow> string option" where
  "RawURL_Strict_DecodeString s =
     (case b64_sextets (filter (\<lambda>c. c \<noteq> CHR 0x0A \<and> c \<noteq> CHR 0x0D) s) of
        None \<Rightarrow> None
      | Some ns \<Rightarrow> map_option (map char_of) (b64_quads ns))"

lemma b64_value_b64_char [simp]:
  assumes "n < 64"
  shows "b64_value (b64_char n) = Some n"
proof -
  have "map b64_value b64_alphabet = map Some [0..<64]"
    by (simp add: upt_rec b64_value_def b64_alphabet_def)
  moreover have "length b64_alphabet = 64" by (simp add: b64_alphabet_def)
  ultimately have "b64_value (b64_alphabet ! n) = map Some [0..<64] ! n"
    using assms by (metis nth_map)
  with assms show ?thesis by (simp add: b64_char_def)
qed

lemma b64_char_not_eol: "n < 64 \<Longrightarrow> b64_char n \<noteq> CHR 0x0A \<and> b64_char n \<noteq> CHR 0x0D"
proof -
  assume "n < 64"
  then have "b64_value (b64_char n) = Some n" by simp
  then show ?thesis by (auto simp: b64_value_def Let_def)
qed

fun b64_split :: "nat list \<Rightarrow> nat list" where
  "b64_split [] = []"
| "b64_split [a] = [a div 4, a mod 4 * 16]"
| "b64_split [a, b] = [a div 4, a mod 4 * 16 + b div 16, b mod 16 * 4]"
| "b64_split (a # b # c # s) =
     (a div 4) # (a mod 4 * 16 + b div 16) # (b mod 16 * 4 + c div 64) # (c mod 64) # b64_split s"

lemma b64_encode_split: "b64_encode s = map b64_char (b64_split s)"
  by (induction s rule: b64_split.induct) auto

lemma b64_split_less: "\<forall>a \<in> set s. a < 256 \<Longrightarrow> \<forall>n \<in> set (b64_split s). n < 64"
  by (induction s rule: b64_split.induct) auto

lemma b64_quads_split: "\<forall>a \<in> set s. a < 256 \<Longrightarrow> b64_quads (b64_split s) = Some s"
proof (induction s rule: b64_split.induct)
  case (4 a b c s)
  have "(a div 4) * 4 + (a mod 4 * 16 + b div 16) div 16 = a"
    "(a mod 4 * 16 + b div 16) mod 16 * 16 + (b mod 16 * 4 + c div 64) div 4 = b"
    "(b mod 16 * 4 + c div 64) mod 4 * 64 + c mod 64 = c"
    using "4.prems" by auto
  then show ?case using 4 by simp
next
  case (3 a b)
  have "(a div 4) * 4 + (a mod 4 * 16 + b div 16) div 16 = a"
    "(a mod 4 * 16 + b div 16) mod 16 * 16 + (b mod 16 * 4) div 4 = b"
    using "3.prems" by auto
  then show ?case by simp
qed auto

lemma b64_sextets_map: "\<forall>n \<in> set ns. n < 64 \<Longrightarrow> b64_sextets (map b64_char ns) = Some ns"
  by (induction ns) auto

lemma RawURL_Decode_Encode: "RawURL_Strict_DecodeString (RawURL_EncodeToString s) = Some s"
proof -
  let ?a = "map of_char s :: nat list"
  have less: "\<forall>n \<in> set (b64_split ?a). n < 64" by (rule b64_split_less) auto
  have "filter (\<lambda>c. c \<noteq> CHR 0x0A \<and> c \<noteq> CHR 0x0D) (map b64_char (b64_split ?a))
      = map b64_char (b64_split ?a)"
    using less b64_char_not_eol by (intro filter_True) auto
  moreover have "b64_quads (b64_split ?a) = Some ?a" by (rule b64_quads_split) auto
  ultimately show ?thesis
    using less
    by (simp add: RawURL_Strict_DecodeString_def RawURL_EncodeToString_def b64_encode_split
        b64_sextets_map comp_def)
qed

lemma RawURL_Encode_Nil_iff [simp]: "RawURL_EncodeToString s = [] \<longleftrightarrow> s = []"
  unfolding RawURL_EncodeToString_def
  by (cases "map of_char s :: nat list" rule: b64_encode.cases) auto

end
