(* ===== verification/Task_Core.thy ===== *)
theory Task_Core
  imports Go_Encoding
begin

text \<open>
  The pure core of the task services (\<open>internal/task/service.go\<close> in every fixture):
  the errors a service returns, the normalisation of titles, the generation and the
  validation of task identifiers. \<open>newUUID\<close> takes the outcome of \<open>rand.Read\<close> on a
  buffer of sixteen bytes as its argument.
\<close>

datatype task_error = ErrInvalid | ErrNotFound | ErrPreconditionFailed | ErrOther string

section \<open>Titles\<close>

definition normalizeTitle :: "string \<Rightarrow> task_error + string" where
  "normalizeTitle title0 =
     (let title = TrimSpace title0; len = RuneCount title
      in if len < 1 \<or> len > 200 then Inl ErrInvalid else Inr title)"

lemma normalizeTitle_cases:
  "normalizeTitle t = Inl ErrInvalid \<or> normalizeTitle t = Inr (TrimSpace t)"
  by (simp add: normalizeTitle_def Let_def)

lemma normalizeTitle_Inr:
  assumes "normalizeTitle t = Inr u"
  shows "u = TrimSpace t" "1 \<le> RuneCount u" "RuneCount u \<le> 200"
  using assms by (auto simp: normalizeTitle_def Let_def not_less split: if_splits)

lemma normalizeTitle_Inr_iff:
  "normalizeTitle t = Inr u \<longleftrightarrow> u = TrimSpace t \<and> u \<noteq> [] \<and> RuneCount u \<le> 200"
  by (auto simp: normalizeTitle_def Let_def not_less)

lemma normalizeTitle_Inl: "normalizeTitle t = Inl e \<Longrightarrow> e = ErrInvalid"
  by (simp add: normalizeTitle_def Let_def split: if_splits)

lemma normalizeTitle_idem: "normalizeTitle t = Inr u \<Longrightarrow> normalizeTitle u = Inr u"
  by (auto simp: normalizeTitle_Inr_iff)

section \<open>Identifiers\<close>

definition uuid_format :: "bytes \<Rightarrow> string" where
  "uuid_format value =
     hex_EncodeToString (take 4 value) @ ''-'' @ hex_EncodeToString (take 2 (drop 4 value)) @ ''-''
     @ hex_EncodeToString (take 2 (drop 6 value)) @ ''-'' @ hex_EncodeToString (take 2 (drop 8 value))
     @ ''-'' @ hex_EncodeToString (take 6 (drop 10 value))"

definition newUUID :: "string + bytes \<Rightarrow> string + string" where
  "newUUID random =
     (case random of
        Inl err \<Rightarrow> Inl err
      | Inr value \<Rightarrow>
          let value = value[6 := (value ! 6 AND 0x0f) OR 0x40];
              value = value[8 := (value ! 8 AND 0x3f) OR 0x80]
          in Inr (uuid_format value))"

definition validUUID :: "string \<Rightarrow> bool" where
  "validUUID value =
     (if length value \<noteq> 36 \<or> value ! 8 \<noteq> CHR ''-'' \<or> value ! 13 \<noteq> CHR ''-''
         \<or> value ! 18 \<noteq> CHR ''-'' \<or> value ! 23 \<noteq> CHR ''-''
      then False
      else (case hex_DecodeString (remove_byte (CHR ''-'') value) of
              None \<Rightarrow> False
            | Some decoded \<Rightarrow> length decoded = 16))"

text \<open>The sixteen bytes an accepted identifier stands for.\<close>

definition uuid_value :: "string \<Rightarrow> bytes option" where
  "uuid_value s = (if validUUID s then hex_DecodeString (remove_byte (CHR ''-'') s) else None)"

lemma remove_byte_append: "remove_byte c (s @ t) = remove_byte c s @ remove_byte c t"
  by (simp add: remove_byte_def)

lemma remove_byte_hex [simp]:
  "remove_byte (CHR ''-'') (hex_EncodeToString bs) = hex_EncodeToString bs"
  unfolding remove_byte_def using hex_Encode_no_dash [of bs] by (intro filter_True) auto

lemma remove_byte_simps [simp]:
  "remove_byte c [] = []"
  "remove_byte c (d # s) = (if d = c then remove_byte c s else d # remove_byte c s)"
  by (simp_all add: remove_byte_def)

lemma length_uuid_format: "length b = 16 \<Longrightarrow> length (uuid_format b) = 36"
  by (simp add: uuid_format_def)

lemma uuid_format_parts:
  "take 4 b @ take 2 (drop 4 b) @ take 2 (drop 6 b) @ take 2 (drop 8 b) @ take 6 (drop 10 b) = take 16 b"
proof -
  have "take 16 b = take (4 + (2 + (2 + (2 + 6)))) b" by simp
  then show ?thesis by (simp only: take_add drop_drop) simp
qed

lemma remove_byte_uuid_format:
  assumes "length b = 16"
  shows "remove_byte (CHR ''-'') (uuid_format b) = hex_EncodeToString b"
proof -
  have "remove_byte (CHR ''-'') (uuid_format b) = hex_EncodeToString
      (take 4 b @ take 2 (drop 4 b) @ take 2 (drop 6 b) @ take 2 (drop 8 b) @ take 6 (drop 10 b))"
    by (simp add: uuid_format_def remove_byte_append hex_Encode_append)
  then show ?thesis using assms by (simp only: uuid_format_parts) simp
qed

lemma uuid_format_dashes:
  assumes "length b = 16"
  shows "uuid_format b ! 8 = CHR ''-''" "uuid_format b ! 13 = CHR ''-''"
    "uuid_format b ! 18 = CHR ''-''" "uuid_format b ! 23 = CHR ''-''"
  using assms by (simp_all add: uuid_format_def nth_append)

lemma validUUID_format: "length b = 16 \<Longrightarrow> validUUID (uuid_format b)"
  by (simp add: validUUID_def length_uuid_format uuid_format_dashes remove_byte_uuid_format)

lemma uuid_value_format: "length b = 16 \<Longrightarrow> uuid_value (uuid_format b) = Some b"
  by (simp add: uuid_value_def validUUID_format remove_byte_uuid_format)

lemma uuid_value_length: "uuid_value s = Some b \<Longrightarrow> length b = 16"
  by (auto simp: uuid_value_def validUUID_def split: if_splits option.splits)

lemma uuid_value_valid: "uuid_value s = None \<longleftrightarrow> \<not> validUUID s"
  by (auto simp: uuid_value_def validUUID_def split: option.splits)

lemma uuid_format_inj:
  "length a = 16 \<Longrightarrow> length b = 16 \<Longrightarrow> uuid_format a = uuid_format b \<longleftrightarrow> a = b"
  by (metis uuid_value_format option.inject)

text \<open>
  The shape \<open>validUUID\<close> accepts, without the detour over \<open>ReplaceAll\<close> and
  \<open>hex.DecodeString\<close>: hexadecimal digits of either case but for dashes at the four
  places.
\<close>

definition uuid_shape :: "string \<Rightarrow> bool" where
  "uuid_shape s \<longleftrightarrow> length s = 36 \<and>
     (\<forall>i < 36. if i \<in> {8, 13, 18, 23} then s ! i = CHR ''-'' else hex_value (s ! i) \<noteq> None)"

lemma length_remove_byte: "length (remove_byte b s) = card {i. i < length s \<and> s ! i \<noteq> b}"
  by (simp add: remove_byte_def length_filter_conv_card)

lemma hex_not_dash: "hex_value c \<noteq> None \<Longrightarrow> c \<noteq> CHR ''-''"
  by auto

lemma validUUID_iff_shape: "validUUID s \<longleftrightarrow> uuid_shape s"
proof
  assume v: "validUUID s"
  let ?r = "remove_byte (CHR ''-'') s"
  let ?D = "{8, 13, 18, 23} :: nat set"
  from v have len: "length s = 36"
    and dash: "\<forall>i \<in> ?D. s ! i = CHR ''-''"
    by (auto simp: validUUID_def split: if_splits)
  from v obtain bs where bs: "hex_DecodeString ?r = Some bs" "length bs = 16"
    by (auto simp: validUUID_def split: if_splits option.splits)
  from bs have r: "length ?r = 32" "\<forall>c \<in> set ?r. hex_value c \<noteq> None"
    using hex_DecodeString_Some by auto
  have "{i. i < 36 \<and> s ! i \<noteq> CHR ''-''} \<subseteq> {..<36} - ?D" using dash by auto
  moreover have "card ({..<36} - ?D) = 32" by (simp add: card_Diff_subset)
  moreover have "card {i. i < 36 \<and> s ! i \<noteq> CHR ''-''} = 32"
    using r(1) len by (simp add: length_remove_byte)
  ultimately have eq: "{i. i < 36 \<and> s ! i \<noteq> CHR ''-''} = {..<36} - ?D"
    by (intro card_subset_eq) auto
  have "hex_value (s ! i) \<noteq> None" if "i < 36" "i \<notin> ?D" for i
  proof -
    from that eq have "s ! i \<noteq> CHR ''-''" by blast
    then have "s ! i \<in> set ?r" using that len by (simp add: remove_byte_def)
    with r(2) show ?thesis by blast
  qed
  with len dash show "uuid_shape s" by (auto simp: uuid_shape_def)
next
  assume sh: "uuid_shape s"
  let ?r = "remove_byte (CHR ''-'') s"
  let ?D = "{8, 13, 18, 23} :: nat set"
  from sh have len: "length s = 36" by (simp add: uuid_shape_def)
  have dash: "s ! i = CHR ''-'' \<longleftrightarrow> i \<in> ?D" if "i < 36" for i
    using sh that by (cases "i \<in> ?D") (auto simp: uuid_shape_def)
  then have "{i. i < 36 \<and> s ! i \<noteq> CHR ''-''} = {..<36} - ?D" by auto
  then have l32: "length ?r = 32"
    by (simp add: length_remove_byte len card_Diff_subset)
  have "\<forall>c \<in> set ?r. hex_value c \<noteq> None"
  proof
    fix c assume "c \<in> set ?r"
    then obtain i where "i < 36" "c = s ! i" "c \<noteq> CHR ''-''"
      by (auto simp: remove_byte_def in_set_conv_nth len)
    with sh dash show "hex_value c \<noteq> None" by (auto simp: uuid_shape_def split: if_splits)
  qed
  then obtain bs where bs: "hex_DecodeString ?r = Some bs"
    using hex_DecodeString_ex [of ?r] l32 by auto
  with l32 have "length bs = 16" using hex_DecodeString_Some by fastforce
  with bs len dash show "validUUID s" by (simp add: validUUID_def)
qed

lemma length_newUUID_value: "length (v[6 := x, 8 := y]) = length v"
  by simp

lemma newUUID_Inr:
  assumes "newUUID (Inr v) = Inr s" "length v = 16"
  shows "\<exists>b. length b = 16 \<and> s = uuid_format b \<and> b = v[6 := (v ! 6 AND 0x0f) OR 0x40, 8 := (v ! 8 AND 0x3f) OR 0x80]"
  using assms by (auto simp: newUUID_def Let_def)

lemma newUUID_valid:
  assumes "newUUID (Inr v) = Inr s" "length v = 16"
  shows "validUUID s"
  using newUUID_Inr [OF assms] validUUID_format by auto

section \<open>Properties\<close>

text \<open>
  A title the service accepts is stored trimmed, has 1 to 200 characters, and is
  accepted unchanged when it is submitted again.
\<close>

theorem normalizeTitle_stable:
  assumes "normalizeTitle t = Inr u"
  shows "normalizeTitle u = Inr u \<and> 1 \<le> RuneCount u \<and> RuneCount u \<le> 200"
  using assms normalizeTitle_idem normalizeTitle_Inr by auto

theorem normalizeTitle_stable_witness:
  "normalizeTitle '' a '' = Inr ''a'' \<and> normalizeTitle ''a'' = Inr ''a''"
proof -
  have "normalizeTitle '' a '' = Inr ''a''"
    by (simp add: normalizeTitle_def TrimSpace_def RuneCount_code TrimLeftSpace_code TrimRightSpace_code
        DecodeLastRune_def DecodeRune_def byte_at_def IsSpace_def)
  then show ?thesis using normalizeTitle_stable by blast
qed

end
