(* ===== verification/Go_Strconv.thy ===== *)
theory Go_Strconv
  imports Go_Strings
begin

text \<open>
  Decimal text, as \<open>strconv\<close> and \<open>fmt\<close> write and read it: \<open>FormatInt\<close>, the verbs
  \<open>%d\<close> and \<open>%0Nd\<close>, \<open>ParseInt(s, 10, 64)\<close> and \<open>Atoi\<close>. Reading inverts writing
  for every 64 bit value, and zero padding of bounded numbers is injective.
\<close>

definition digit_char :: "nat \<Rightarrow> char" where
  "digit_char d = ''0123456789'' ! d"

definition digit_value :: "char \<Rightarrow> nat option" where
  "digit_value c = (let x = of_char c :: nat in if 48 \<le> x \<and> x \<le> 57 then Some (x - 48) else None)"

definition is_digit :: "char \<Rightarrow> bool" where
  "is_digit c \<longleftrightarrow> CHR ''0'' \<le> c \<and> c \<le> CHR ''9''"

function dec :: "nat \<Rightarrow> string" where
  "dec n = (if n < 10 then [digit_char n] else dec (n div 10) @ [digit_char (n mod 10)])"
  by pat_completeness auto
termination
  by (relation "measure id") auto

declare dec.simps [simp del]

lemma dec_code [code]:
  "dec n = (case n < 10 of True \<Rightarrow> [digit_char n] | False \<Rightarrow> dec (n div 10) @ [digit_char (n mod 10)])"
  by (simp add: dec.simps split: bool.split)

text \<open>\<open>fmt.Sprintf("%0wd", n)\<close> for a natural number.\<close>

definition zero_pad :: "nat \<Rightarrow> nat \<Rightarrow> string" where
  "zero_pad w n = replicate (w - length (dec n)) (CHR ''0'') @ dec n"

definition FormatInt :: "int \<Rightarrow> string" where
  "FormatInt v = (if v < 0 then ''-'' @ dec (nat (- v)) else dec (nat v))"

text \<open>
  \<open>dec_value\<close> reads digits; \<open>ParseInt64\<close> is \<open>strconv.ParseInt(s, 10, 64)\<close>: an optional
  sign, then at least one digit and digits only, within the range of the type.
\<close>

fun dec_value :: "nat \<Rightarrow> string \<Rightarrow> nat option" where
  "dec_value acc [] = Some acc"
| "dec_value acc (c # s) =
     (case digit_value c of None \<Rightarrow> None | Some d \<Rightarrow> dec_value (10 * acc + d) s)"

definition ParseUint :: "string \<Rightarrow> nat option" where
  "ParseUint s = (if s = [] then None else dec_value 0 s)"

definition ParseInt64 :: "string \<Rightarrow> int option" where
  "ParseInt64 s =
     (let (neg, body) = (case s of c # t \<Rightarrow>
            if c = CHR ''+'' then (False, t) else if c = CHR ''-'' then (True, t) else (False, s)
          | [] \<Rightarrow> (False, []))
      in case ParseUint body of
           None \<Rightarrow> None
         | Some n \<Rightarrow>
             if \<not> neg \<and> int n > max_int64 then None
             else if neg \<and> int n > max_int64 + 1 then None
             else Some (if neg then - int n else int n))"

lemma digit_char_value [simp]:
  assumes "d < 10"
  shows "digit_value (digit_char d) = Some d"
proof -
  have "list_all (\<lambda>d. digit_value (digit_char d) = Some d) [0..<10]"
    by (simp add: upt_rec digit_value_def digit_char_def)
  with assms show ?thesis by (simp add: list_all_iff)
qed

lemma digit_value_iff_is_digit: "digit_value c \<noteq> None \<longleftrightarrow> is_digit c"
proof -
  have "is_digit c \<longleftrightarrow> of_char (CHR ''0'') \<le> (of_char c :: nat) \<and> of_char c \<le> (of_char (CHR ''9'') :: nat)"
    by (simp only: is_digit_def less_eq_char_def)
  then show ?thesis by (auto simp: digit_value_def Let_def)
qed

lemma is_digit_digit_char [simp]: "d < 10 \<Longrightarrow> is_digit (digit_char d)"
  using digit_value_iff_is_digit [of "digit_char d"] by simp

lemma dec_value_append:
  "dec_value acc (s @ t) = (case dec_value acc s of None \<Rightarrow> None | Some n \<Rightarrow> dec_value n t)"
  by (induction s arbitrary: acc) (auto split: option.splits)

lemma dec_value_dec [simp]: "dec_value 0 (dec n) = Some n"
proof (induction n rule: dec.induct)
  case (1 n)
  show ?case
  proof (cases "n < 10")
    case True
    then show ?thesis by (simp add: dec.simps)
  next
    case False
    with "1.IH" show ?thesis by (subst dec.simps) (simp add: dec_value_append)
  qed
qed

lemma dec_not_Nil [simp]: "dec n \<noteq> []"
  by (subst dec.simps) simp

lemma dec_inj [simp]: "dec m = dec n \<longleftrightarrow> m = n"
  by (metis dec_value_dec option.inject)

lemma dec_digits: "c \<in> set (dec n) \<Longrightarrow> is_digit c"
proof (induction n rule: dec.induct)
  case (1 n)
  then show ?case
    by (cases "n < 10") (auto simp: dec.simps [of n])
qed

lemma hd_dec: "0 < n \<Longrightarrow> hd (dec n) \<noteq> CHR ''0''"
proof (induction n rule: dec.induct)
  case (1 n)
  show ?case
  proof (cases "n < 10")
    case True
    with "1.prems" have "digit_char n \<noteq> CHR ''0''"
      using digit_char_value [OF True] by (auto simp: digit_value_def)
    with True show ?thesis by (simp add: dec.simps [of n])
  next
    case False
    then have "0 < n div 10" by auto
    with False "1.IH" show ?thesis by (simp add: dec.simps [of n])
  qed
qed

lemma hd_dec_digit: "is_digit (hd (dec n))"
  by (rule dec_digits [of _ n]) simp

lemma not_digit [simp]:
  "\<not> is_digit (CHR ''-'')" "\<not> is_digit (CHR ''+'')" "\<not> is_digit (CHR 0x00)" "\<not> is_digit (CHR 0x22)"
  by (simp_all add: is_digit_def)

lemma ParseUint_dec [simp]: "ParseUint (dec n) = Some n"
  by (simp add: ParseUint_def)

lemma ParseInt64_dec:
  assumes "int n \<le> max_int64"
  shows "ParseInt64 (dec n) = Some (int n)"
proof -
  obtain c t where ct: "dec n = c # t" using dec_not_Nil [of n] by (cases "dec n") blast
  then have "is_digit c" using hd_dec_digit [of n] by simp
  then have "c \<noteq> CHR ''+''" "c \<noteq> CHR ''-''" by auto
  then show ?thesis using assms ct ParseUint_dec [of n] by (simp add: ParseInt64_def)
qed

text \<open>Reading back what \<open>FormatInt\<close> wrote, for every value of the type.\<close>

lemma ParseInt64_FormatInt:
  assumes "min_int64 \<le> v" "v \<le> max_int64"
  shows "ParseInt64 (FormatInt v) = Some v"
proof (cases "v < 0")
  case True
  with assms show ?thesis by (simp add: FormatInt_def ParseInt64_def)
next
  case False
  with assms show ?thesis using ParseInt64_dec [of "nat v"] by (simp add: FormatInt_def)
qed

lemma length_dec_le: "n < 10 ^ w \<Longrightarrow> 0 < w \<Longrightarrow> length (dec n) \<le> w"
proof (induction w arbitrary: n)
  case (Suc w)
  show ?case
  proof (cases "n < 10")
    case False
    then have "n div 10 < 10 ^ w" using Suc.prems by (simp add: div_less_iff_less_mult algebra_simps)
    moreover from False calculation have "0 < w" by (cases w) auto
    ultimately show ?thesis using Suc.IH False by (subst dec.simps) simp
  qed (simp add: dec.simps)
qed simp

lemma length_zero_pad: "n < 10 ^ w \<Longrightarrow> 0 < w \<Longrightarrow> length (zero_pad w n) = w"
  using length_dec_le [of n w] by (simp add: zero_pad_def)

lemma dec_value_zeros: "dec_value 0 (replicate k (CHR ''0'') @ s) = dec_value 0 s"
  by (induction k) (auto simp: digit_value_def)

lemma zero_pad_inj [simp]: "zero_pad w m = zero_pad w n \<longleftrightarrow> m = n"
proof
  assume "zero_pad w m = zero_pad w n"
  then have "dec_value 0 (zero_pad w m) = dec_value 0 (zero_pad w n)" by simp
  then show "m = n" by (simp add: zero_pad_def dec_value_zeros)
qed simp

lemma ParseInt64_Some_bounds:
  "ParseInt64 s = Some v \<Longrightarrow> min_int64 \<le> v \<and> v \<le> max_int64"
  by (auto simp: ParseInt64_def Let_def split: prod.splits option.splits if_splits list.splits)

end
