(* ===== verification/Go_Time.thy ===== *)
theory Go_Time
  imports Go_Strconv
begin

text \<open>
  The parts of package \<open>time\<close> the repository uses. An instant is an \<^typ>\<open>int\<close>, the
  nanoseconds since the Unix epoch. \<open>Format_micro\<close> is
  \<open>t.UTC().Format("2006-01-02T15:04:05.000000Z")\<close>; \<open>Parse_RFC3339\<close> is \<open>time.Parse\<close>
  with the layouts \<open>time.RFC3339\<close> and \<open>time.RFC3339Nano\<close>, which accept the same texts:
  a fraction of a second may follow the seconds in both. Parsing inverts formatting for
  instants of whole microseconds in the years 0 to 9999.
\<close>

section \<open>The proleptic Gregorian calendar\<close>

definition is_leap :: "int \<Rightarrow> bool" where
  "is_leap y \<longleftrightarrow> y mod 4 = 0 \<and> (y mod 100 \<noteq> 0 \<or> y mod 400 = 0)"

definition year_days :: "int \<Rightarrow> int" where
  "year_days y = (if is_leap y then 366 else 365)"

text \<open>Days from 0001-01-01 to the first day of a year.\<close>

definition days_to_year :: "int \<Rightarrow> int" where
  "days_to_year y =
     (let n = y - 1 in 146097 * (n div 400) + 36524 * ((n mod 400) div 100)
        + 1461 * ((n mod 100) div 4) + 365 * (n mod 4))"

text \<open>
  A day number split into cycles of 400, 100, 4 and 1 years, each last cycle one day longer
  than the others: \<open>n -= n >> 2\<close> in the package.
\<close>

definition year_of_days :: "int \<Rightarrow> int \<times> int" where
  "year_of_days d =
     (let n400 = d div 146097; r = d mod 146097;
          n100 = min 3 (r div 36524); r = r - 36524 * n100;
          n4 = r div 1461; r = r - 1461 * n4;
          n1 = min 3 (r div 365); r = r - 365 * n1
      in (400 * n400 + 100 * n100 + 4 * n4 + n1 + 1, r))"

definition month_starts :: "bool \<Rightarrow> int list" where
  "month_starts leap =
     (if leap then [0, 31, 60, 91, 121, 152, 182, 213, 244, 274, 305, 335]
      else [0, 31, 59, 90, 120, 151, 181, 212, 243, 273, 304, 334])"

definition days_before :: "bool \<Rightarrow> nat \<Rightarrow> int" where
  "days_before leap month = month_starts leap ! (month - 1)"

definition days_in :: "bool \<Rightarrow> nat \<Rightarrow> nat" where
  "days_in leap month =
     [31, if leap then 29 else 28, 31, 30, 31, 30, 31, 31, 30, 31, 30, 31] ! (month - 1)"

definition month_day :: "bool \<Rightarrow> int \<Rightarrow> nat \<times> nat" where
  "month_day leap yday =
     (let month = length (filter (\<lambda>b. b \<le> yday) (month_starts leap))
      in (month, nat (yday - days_before leap month) + 1))"

lemma year_of_days_inverse:
  assumes "year_of_days d = (y, r)"
  shows "days_to_year y + r = d" "0 \<le> r" "r < year_days y"
proof -
  define n400 where "n400 = d div 146097"
  define r1 where "r1 = d mod 146097"
  define n100 where "n100 = min 3 (r1 div 36524)"
  define r2 where "r2 = r1 - 36524 * n100"
  define n4 where "n4 = r2 div 1461"
  define r3 where "r3 = r2 - 1461 * n4"
  define n1 where "n1 = min 3 (r3 div 365)"
  have y: "y = 400 * n400 + 100 * n100 + 4 * n4 + n1 + 1" and r: "r = r3 - 365 * n1"
    using assms unfolding year_of_days_def Let_def n1_def r3_def n4_def r2_def n100_def r1_def n400_def
    by (simp_all only: prod.inject)
  have d: "d = 146097 * n400 + r1" by (simp add: n400_def r1_def)
  have b1: "0 \<le> r1" "r1 < 146097" by (simp_all add: r1_def)
  have b100: "0 \<le> n100" "n100 \<le> 3" using b1 by (auto simp: n100_def)
  have b2: "0 \<le> r2" "r2 \<le> 36524" "n100 < 3 \<Longrightarrow> r2 < 36524"
    using b1 unfolding r2_def n100_def by (auto simp: min_def)
  have b4: "0 \<le> n4" "n4 \<le> 24" using b2 by (auto simp: n4_def)
  have b3: "0 \<le> r3" "r3 < 1461" unfolding r3_def n4_def by (auto simp: minus_mult_div_eq_mod)
  have b1': "0 \<le> n1" "n1 \<le> 3" using b3 by (auto simp: n1_def)
  have last4: "n4 = 24 \<Longrightarrow> n100 < 3 \<Longrightarrow> r3 < 1460" using b2 by (auto simp: r3_def)
  have br: "0 \<le> r" "r \<le> 365" "n1 < 3 \<Longrightarrow> r < 365"
    using b3 unfolding r n1_def by (auto simp: min_def)
  have dy: "days_to_year y = 146097 * n400 + 36524 * n100 + 1461 * n4 + 365 * n1"
  proof -
    have "y - 1 = 400 * n400 + (100 * n100 + 4 * n4 + n1)" using y by simp
    moreover have "0 \<le> 100 * n100 + 4 * n4 + n1" "100 * n100 + 4 * n4 + n1 < 400"
      using b100 b4 b1' by linarith+
    ultimately have m: "(y - 1) div 400 = n400" "(y - 1) mod 400 = 100 * n100 + 4 * n4 + n1"
      by (simp_all only: div_mult_self4 mod_mult_self4 div_pos_pos_trivial mod_pos_pos_trivial)
    moreover have "(y - 1) mod 100 = 4 * n4 + n1"
    proof -
      have "y - 1 = 100 * (4 * n400 + n100) + (4 * n4 + n1)" using y by simp
      moreover have "0 \<le> 4 * n4 + n1" "4 * n4 + n1 < 100" using b4 b1' by linarith+
      ultimately show ?thesis by (simp only: mod_mult_self4 mod_pos_pos_trivial)
    qed
    moreover have "(y - 1) mod 4 = n1"
    proof -
      have "y - 1 = 4 * (100 * n400 + 25 * n100 + n4) + n1" using y by simp
      moreover have "0 \<le> n1" "n1 < 4" using b1' by linarith+
      ultimately show ?thesis by (simp only: mod_mult_self4 mod_pos_pos_trivial)
    qed
    ultimately show ?thesis using b100 b4 b1' by (simp add: days_to_year_def Let_def)
  qed
  show "days_to_year y + r = d" by (simp add: dy d r r3_def r2_def)
  show "0 \<le> r" by (rule br)
  show "r < year_days y"
  proof (cases "n1 < 3")
    case True
    then show ?thesis using br by (auto simp: year_days_def)
  next
    case False
    with b1' have n1: "n1 = 3" by simp
    show ?thesis
    proof (cases "n4 = 24 \<and> n100 < 3")
      case True
      then have "r3 < 1460" using last4 by simp
      then have "r < 365" using r n1 by simp
      then show ?thesis by (auto simp: year_days_def)
    next
      case False
      have "y = 4 * (100 * n400 + 25 * n100 + n4 + 1)" using y n1 by simp
      then have "y mod 4 = 0" by simp
      moreover have "y mod 100 = (if n4 = 24 then 0 else 4 * n4 + 4)"
      proof -
        have "y = 100 * (4 * n400 + n100) + (4 * n4 + 4)" using y n1 by simp
        then have "y mod 100 = (4 * n4 + 4) mod 100" by (simp only: mod_mult_self4)
        then show ?thesis using b4 by auto
      qed
      moreover have "y mod 400 = 0" if "n4 = 24"
      proof -
        have "n100 = 3" using that False b100 by simp
        then have "y = 400 * (n400 + 1)" using y n1 that by simp
        then show ?thesis by simp
      qed
      ultimately have "is_leap y" using b4 by (auto simp: is_leap_def)
      then show ?thesis using br by (simp add: year_days_def)
    qed
  qed
qed

lemma month_day_leap:
  assumes "month_day True d = (m, k)" "0 \<le> d" "d < 366"
  shows "1 \<le> m \<and> m \<le> 12 \<and> 1 \<le> k \<and> k \<le> days_in True m \<and> days_before True m + int k - 1 = d"
proof -
  have "d < 31 \<or> (31 \<le> d \<and> d < 60) \<or> (60 \<le> d \<and> d < 91) \<or> (91 \<le> d \<and> d < 121)
    \<or> (121 \<le> d \<and> d < 152) \<or> (152 \<le> d \<and> d < 182) \<or> (182 \<le> d \<and> d < 213) \<or> (213 \<le> d \<and> d < 244)
    \<or> (244 \<le> d \<and> d < 274) \<or> (274 \<le> d \<and> d < 305) \<or> (305 \<le> d \<and> d < 335) \<or> 335 \<le> d"
    by linarith
  with assms show ?thesis
    by (elim disjE) (auto simp: month_day_def month_starts_def days_before_def days_in_def)
qed

lemma month_day_common:
  assumes "month_day False d = (m, k)" "0 \<le> d" "d < 365"
  shows "1 \<le> m \<and> m \<le> 12 \<and> 1 \<le> k \<and> k \<le> days_in False m \<and> days_before False m + int k - 1 = d"
proof -
  have "d < 31 \<or> (31 \<le> d \<and> d < 59) \<or> (59 \<le> d \<and> d < 90) \<or> (90 \<le> d \<and> d < 120)
    \<or> (120 \<le> d \<and> d < 151) \<or> (151 \<le> d \<and> d < 181) \<or> (181 \<le> d \<and> d < 212) \<or> (212 \<le> d \<and> d < 243)
    \<or> (243 \<le> d \<and> d < 273) \<or> (273 \<le> d \<and> d < 304) \<or> (304 \<le> d \<and> d < 334) \<or> 334 \<le> d"
    by linarith
  with assms show ?thesis
    by (elim disjE) (auto simp: month_day_def month_starts_def days_before_def days_in_def)
qed

lemma month_day_inverse:
  assumes "month_day (is_leap y) d = (m, k)" "0 \<le> d" "d < year_days y"
  shows "1 \<le> m \<and> m \<le> 12 \<and> 1 \<le> k \<and> k \<le> days_in (is_leap y) m
    \<and> days_before (is_leap y) m + int k - 1 = d"
  using assms month_day_leap [of d m k] month_day_common [of d m k]
  by (cases "is_leap y") (auto simp: year_days_def)

section \<open>Formatting\<close>

abbreviation unix_day :: int where
  "unix_day \<equiv> 719162"

definition year_text :: "int \<Rightarrow> string" where
  "year_text y = (if y < 0 then ''-'' @ zero_pad 4 (nat (- y)) else zero_pad 4 (nat y))"

definition time_fields :: "int \<Rightarrow> int \<times> nat \<times> nat \<times> nat \<times> nat \<times> nat \<times> nat" where
  "time_fields t =
     (let secs = t div 1000000000; nanos = t mod 1000000000;
          (y, yday) = year_of_days (secs div 86400 + unix_day);
          (month, day) = month_day (is_leap y) yday; sod = nat (secs mod 86400)
      in (y, month, day, sod div 3600, sod mod 3600 div 60, sod mod 60, nat nanos))"

definition Format_micro :: "int \<Rightarrow> string" where
  "Format_micro t = (case time_fields t of (y, month, day, h, mi, s, ns) \<Rightarrow>
     year_text y @ ''-'' @ zero_pad 2 month @ ''-'' @ zero_pad 2 day @ ''T''
     @ zero_pad 2 h @ '':'' @ zero_pad 2 mi @ '':'' @ zero_pad 2 s @ ''.''
     @ zero_pad 6 (ns div 1000) @ ''Z'')"

definition year_of :: "int \<Rightarrow> int" where
  "year_of t = fst (time_fields t)"

section \<open>Parsing\<close>

definition skip_char :: "char \<Rightarrow> string \<Rightarrow> string option" where
  "skip_char c s = (case s of [] \<Rightarrow> None | d # r \<Rightarrow> if d = c then Some r else None)"

definition getnum :: "bool \<Rightarrow> string \<Rightarrow> (nat \<times> string) option" where
  "getnum fixed s =
     (case s of [] \<Rightarrow> None
      | a # r \<Rightarrow> (case digit_value a of None \<Rightarrow> None
        | Some x \<Rightarrow> (case r of [] \<Rightarrow> if fixed then None else Some (x, [])
          | b # r' \<Rightarrow> (case digit_value b of
                None \<Rightarrow> if fixed then None else Some (x, r)
              | Some y \<Rightarrow> Some (10 * x + y, r')))))"

definition get_year :: "string \<Rightarrow> (nat \<times> string) option" where
  "get_year s = (if length s < 4 then None
     else map_option (\<lambda>y. (y, drop 4 s)) (dec_value 0 (take 4 s)))"

definition get_fraction :: "string \<Rightarrow> nat \<times> string" where
  "get_fraction s =
     (if 2 \<le> length s \<and> (s ! 0 = CHR ''.'' \<or> s ! 0 = CHR '','') \<and> is_digit (s ! 1)
      then let ds = takeWhile is_digit (tl s); used = take 9 ds
           in (the (dec_value 0 used) * 10 ^ (9 - length used), drop (length ds) (tl s))
      else (0, s))"

definition get_zone :: "string \<Rightarrow> (int \<times> string) option" where
  "get_zone s =
     (case s of [] \<Rightarrow> None
      | c # r \<Rightarrow>
          if c = CHR ''Z'' then Some (0, r)
          else if length s < 6 \<or> s ! 3 \<noteq> CHR '':'' then None
          else (case (getnum True (take 2 (drop 1 s)), getnum True (take 2 (drop 4 s))) of
              (Some (hr, _), Some (mm, _)) \<Rightarrow>
                if hr > 24 \<or> mm > 60 then None
                else if c = CHR ''+'' then Some (int ((hr * 60 + mm) * 60), drop 6 s)
                else if c = CHR ''-'' then Some (- int ((hr * 60 + mm) * 60), drop 6 s)
                else None
            | _ \<Rightarrow> None))"

definition make_time :: "nat \<Rightarrow> nat \<Rightarrow> nat \<Rightarrow> nat \<Rightarrow> nat \<Rightarrow> nat \<Rightarrow> nat \<Rightarrow> int \<Rightarrow> int" where
  "make_time y month day h mi s ns off =
     ((days_to_year (int y) + days_before (is_leap (int y)) month + int day - 1 - unix_day) * 86400
      + int (h * 3600 + mi * 60 + s) - off) * 1000000000 + int ns"

definition Parse_RFC3339 :: "string \<Rightarrow> int option" where
  "Parse_RFC3339 s =
     Option.bind (get_year s) (\<lambda>(y, s). Option.bind (skip_char (CHR ''-'') s) (\<lambda>s.
     Option.bind (getnum True s) (\<lambda>(month, s). if month < 1 \<or> 12 < month then None else
     Option.bind (skip_char (CHR ''-'') s) (\<lambda>s.
     Option.bind (getnum True s) (\<lambda>(day, s). Option.bind (skip_char (CHR ''T'') s) (\<lambda>s.
     Option.bind (getnum False s) (\<lambda>(h, s). if 24 \<le> h then None else
     Option.bind (skip_char (CHR '':'') s) (\<lambda>s.
     Option.bind (getnum True s) (\<lambda>(mi, s). if 60 \<le> mi then None else
     Option.bind (skip_char (CHR '':'') s) (\<lambda>s.
     Option.bind (getnum True s) (\<lambda>(sec, s). if 60 \<le> sec then None else
     (case get_fraction s of (ns, s) \<Rightarrow>
     Option.bind (get_zone s) (\<lambda>(off, s).
       if s \<noteq> [] \<or> day < 1 \<or> day > days_in (is_leap (int y)) month then None
       else Some (make_time y month day h mi sec ns off))))))))))))))"

section \<open>Parsing inverts formatting\<close>

lemma zero_pad_value: "dec_value 0 (zero_pad w n) = Some n"
  by (simp add: zero_pad_def dec_value_zeros)

lemma zero_pad_digits: "c \<in> set (zero_pad w n) \<Longrightarrow> is_digit c"
  by (auto simp: zero_pad_def is_digit_def dest: dec_digits)

lemma get_year_pad: "n < 10000 \<Longrightarrow> get_year (zero_pad 4 n @ s) = Some (n, s)"
  using length_zero_pad [of n 4] by (simp add: get_year_def zero_pad_value)

lemma getnum_pad: "n < 100 \<Longrightarrow> getnum fixed (zero_pad 2 n @ s) = Some (n, s)"
proof -
  assume n: "n < 100"
  then have "length (zero_pad 2 n) = 2" using length_zero_pad [of n 2] by simp
  then obtain a b where ab: "zero_pad 2 n = [a, b]"
    by (cases "zero_pad 2 n"; cases "tl (zero_pad 2 n)") auto
  from ab zero_pad_value [of 2 n] show ?thesis
    by (auto simp: getnum_def split: option.splits)
qed

lemma skip_char_Cons [simp]: "skip_char c (c # s) = Some s"
  by (simp add: skip_char_def)

lemma get_fraction_pad:
  assumes "n < 1000000"
  shows "get_fraction (CHR ''.'' # zero_pad 6 n @ CHR ''Z'' # s) = (n * 1000, CHR ''Z'' # s)"
proof -
  have len: "length (zero_pad 6 n) = 6" using assms length_zero_pad [of n 6] by simp
  have "takeWhile is_digit (zero_pad 6 n @ CHR ''Z'' # s) = zero_pad 6 n"
    using zero_pad_digits by (subst takeWhile_append2) (auto simp: is_digit_def)
  moreover have "is_digit ((zero_pad 6 n @ CHR ''Z'' # s) ! 0)"
    using len zero_pad_digits [of "zero_pad 6 n ! 0" 6 n] by (simp add: nth_append)
  ultimately show ?thesis using len by (simp add: get_fraction_def zero_pad_value)
qed

lemma get_zone_Z [simp]: "get_zone (CHR ''Z'' # s) = Some (0, s)"
  by (simp add: get_zone_def)

lemma time_fieldsE:
  assumes "time_fields t = (y, month, day, h, mi, s, ns)"
  obtains yd where "year_of_days (t div 1000000000 div 86400 + unix_day) = (y, yd)"
    "month_day (is_leap y) yd = (month, day)"
    "h = nat (t div 1000000000 mod 86400) div 3600"
    "mi = nat (t div 1000000000 mod 86400) mod 3600 div 60"
    "s = nat (t div 1000000000 mod 86400) mod 60" "ns = nat (t mod 1000000000)"
proof -
  obtain y' yd where y': "year_of_days (t div 1000000000 div 86400 + unix_day) = (y', yd)"
    by (cases "year_of_days (t div 1000000000 div 86400 + unix_day)")
  obtain m' d' where m': "month_day (is_leap y') yd = (m', d')"
    by (cases "month_day (is_leap y') yd")
  have "time_fields t = (y', m', d', nat (t div 1000000000 mod 86400) div 3600,
      nat (t div 1000000000 mod 86400) mod 3600 div 60, nat (t div 1000000000 mod 86400) mod 60,
      nat (t mod 1000000000))"
    by (simp only: time_fields_def Let_def y' m' prod.case)
  with assms show thesis using y' m' that by (simp only: prod.inject)
qed

lemma seconds_of_day: "q div 3600 * 3600 + q mod 3600 div 60 * 60 + q mod 60 = (q :: nat)"
proof -
  have "q mod 60 = q mod 3600 mod 60" by (simp add: mod_mod_cancel)
  then show ?thesis by (simp only: div_mult_mod_eq add.assoc)
qed

lemma time_fields_bounds:
  assumes "time_fields t = (y, month, day, h, mi, s, ns)"
  shows "1 \<le> month" "month \<le> 12" "1 \<le> day" "day \<le> days_in (is_leap y) month"
    "h < 24" "mi < 60" "s < 60" "ns < 1000000000"
    "((days_to_year y + days_before (is_leap y) month + int day - 1 - unix_day) * 86400
       + int (h * 3600 + mi * 60 + s)) * 1000000000 + int ns = t"
proof -
  let ?secs = "t div 1000000000"
  obtain yd where yd: "year_of_days (?secs div 86400 + unix_day) = (y, yd)"
    and md: "month_day (is_leap y) yd = (month, day)"
    and sod: "h = nat (?secs mod 86400) div 3600" "mi = nat (?secs mod 86400) mod 3600 div 60"
      "s = nat (?secs mod 86400) mod 60" "ns = nat (t mod 1000000000)"
    using assms by (rule time_fieldsE)
  note year = year_of_days_inverse [OF yd]
  note md' = month_day_inverse [OF md year(2,3)]
  from md' show "1 \<le> month" "month \<le> 12" "1 \<le> day" "day \<le> days_in (is_leap y) month" by auto
  define q where "q = nat (?secs mod 86400)"
  have q: "q < 86400" by (auto simp: q_def)
  show "h < 24" "mi < 60" "s < 60" using sod q by (auto simp: q_def [symmetric])
  show "ns < 1000000000" using sod by (auto simp: nat_less_iff)
  have hms: "h * 3600 + mi * 60 + s = q"
    unfolding sod q_def [symmetric] by (rule seconds_of_day)
  have "int q = ?secs mod 86400" by (simp add: q_def)
  moreover have "days_to_year y + days_before (is_leap y) month + int day - 1 - unix_day = ?secs div 86400"
    using md' year(1) by simp
  ultimately have "(days_to_year y + days_before (is_leap y) month + int day - 1 - unix_day) * 86400
       + int (h * 3600 + mi * 60 + s) = ?secs"
    using hms by simp
  then show "((days_to_year y + days_before (is_leap y) month + int day - 1 - unix_day) * 86400
       + int (h * 3600 + mi * 60 + s)) * 1000000000 + int ns = t"
    using sod(4) by simp
qed

lemma days_in_le: "1 \<le> m \<Longrightarrow> m \<le> 12 \<Longrightarrow> days_in leap m \<le> 31"
proof -
  assume "1 \<le> m" "m \<le> 12"
  then have "m - 1 \<in> set [0..<12]" by auto
  moreover have "list_all (\<lambda>i. [31, if leap then 29 else 28, 31, 30, 31, 30, 31, 31, 30, 31, 30, 31 :: nat] ! i \<le> 31) [0..<12]"
    by (simp add: upt_rec)
  ultimately show ?thesis by (auto simp: days_in_def list_all_iff)
qed

lemma Parse_Format:
  assumes "0 \<le> year_of t" "year_of t \<le> 9999" "t mod 1000 = 0"
  shows "Parse_RFC3339 (Format_micro t) = Some t"
proof -
  obtain y month day h mi s ns where tf: "time_fields t = (y, month, day, h, mi, s, ns)"
    by (cases "time_fields t") auto
  note b = time_fields_bounds [OF tf]
  from assms tf have y: "0 \<le> y" "nat y < 10000" by (auto simp: year_of_def)
  have day: "day < 100" using days_in_le [OF b(1,2), of "is_leap y"] b(4) by linarith
  have ns: "ns div 1000 < 1000000" using b(8) by auto
  have ns': "ns div 1000 * 1000 = ns"
  proof -
    have "ns = nat (t mod 1000000000)" using tf by (rule time_fieldsE)
    then have "int ns = t mod 1000000000" by simp
    then have "int (ns mod 1000) = 0" using assms(3) by (simp add: zmod_int mod_mod_cancel)
    then have "ns mod 1000 = 0" by simp
    then show ?thesis using div_mult_mod_eq [of ns 1000] by simp
  qed
  have "Format_micro t = zero_pad 4 (nat y) @ CHR ''-'' # zero_pad 2 month @ CHR ''-'' # zero_pad 2 day
      @ CHR ''T'' # zero_pad 2 h @ CHR '':'' # zero_pad 2 mi @ CHR '':'' # zero_pad 2 s
      @ CHR ''.'' # zero_pad 6 (ns div 1000) @ CHR ''Z'' # []"
    using y by (simp add: Format_micro_def tf year_text_def)
  then have "Parse_RFC3339 (Format_micro t) = Some (make_time (nat y) month day h mi s (ns div 1000 * 1000) 0)"
    using b(1-7) y day ns
    by (simp add: Parse_RFC3339_def get_year_pad getnum_pad get_fraction_pad)
  also have "make_time (nat y) month day h mi s (ns div 1000 * 1000) 0 = t"
    using b(9) y by (simp add: make_time_def ns')
  finally show ?thesis .
qed

end
