(* ===== verification/Task_Store.thy ===== *)
theory Task_Store
  imports Task_Core Go_Time
begin

text \<open>
  The table \<open>tasks\<close> and the SQL statements of \<open>internal/repository/postgres/tasks.go\<close>,
  and the Go interface \<open>Repository\<close> the services are written against.

  A table is the list of its rows; \<open>'a task_scheme\<close> leaves room for the columns the
  task solutions add. The database identifies a row by the sixteen bytes of its identifier,
  reports the identifier in canonical text and orders rows by creation time, then bytes.
  What the database server and the driver contribute to a call is an argument: its clock and
  whether the statement is refused before it runs (\<open>Refused\<close>) or runs but its reply is lost
  (\<open>ReplyLost\<close>). The server refuses text that contains a zero byte, whatever else holds.
\<close>

record task =
  ID :: string
  Title :: string
  CreatedAt :: int

datatype db_fault = NoFault | Refused string | ReplyLost string

datatype 'r rows = Rows 'r | NoRows | DbError string

record db_call =
  fault :: db_fault
  fault2 :: db_fault
  clock :: int

definition same_id :: "string \<Rightarrow> 'a task_scheme \<Rightarrow> bool" where
  "same_id tid r \<longleftrightarrow> uuid_value (ID r) = uuid_value tid"

definition order_key :: "'a task_scheme \<Rightarrow> int \<times> bytes" where
  "order_key r = (CreatedAt r, the (uuid_value (ID r)))"

definition storable :: "string \<Rightarrow> bool" where
  "storable s \<longleftrightarrow> CHR 0x00 \<notin> set s"

text \<open>The reply of a statement that would yield \<open>result\<close> and change \<open>db\<close> to \<open>db'\<close>.\<close>

definition run_query :: "db_fault \<Rightarrow> 'r rows \<Rightarrow> 'db \<Rightarrow> 'db \<Rightarrow> 'r rows \<times> 'db" where
  "run_query f result db db' =
     (case f of NoFault \<Rightarrow> (result, db') | Refused e \<Rightarrow> (DbError e, db) | ReplyLost e \<Rightarrow> (DbError e, db'))"

text \<open>The table constraints: primary key, text encoding and \<open>tasks_title_length\<close>.\<close>

definition row_allowed :: "'a task_scheme \<Rightarrow> 'a task_scheme list \<Rightarrow> bool" where
  "row_allowed r db \<longleftrightarrow> \<not> list_ex (same_id (ID r)) db \<and> storable (Title r)
     \<and> 1 \<le> RuneCount (Title r) \<and> RuneCount (Title r) \<le> 200"

definition canonical_id :: "string \<Rightarrow> string" where
  "canonical_id tid = (case uuid_value tid of Some b \<Rightarrow> uuid_format b | None \<Rightarrow> tid)"

definition sql_insert :: "db_fault \<Rightarrow> 'a task_scheme \<Rightarrow> 'a task_scheme list
    \<Rightarrow> 'a task_scheme rows \<times> 'a task_scheme list" where
  "sql_insert f r db =
     (let r = r\<lparr>ID := canonical_id (ID r)\<rparr>
      in if row_allowed r db then run_query f (Rows r) db (db @ [r])
         else run_query f (DbError ''constraint violation'') db db)"

definition sql_get :: "db_fault \<Rightarrow> string \<Rightarrow> 'a task_scheme list
    \<Rightarrow> 'a task_scheme rows \<times> 'a task_scheme list" where
  "sql_get f tid db =
     run_query f (case find (same_id tid) db of Some r \<Rightarrow> Rows r | None \<Rightarrow> NoRows) db db"

definition sql_list :: "'a task_scheme list \<Rightarrow> 'a task_scheme list" where
  "sql_list db = sort_key order_key db"

definition sql_delete :: "db_fault \<Rightarrow> string \<Rightarrow> 'a task_scheme list \<Rightarrow> string rows \<times> 'a task_scheme list" where
  "sql_delete f tid db =
     run_query f (case find (same_id tid) db of Some r \<Rightarrow> Rows (ID r) | None \<Rightarrow> NoRows)
       db (filter (\<lambda>r. \<not> same_id tid r) db)"

section \<open>The repository\<close>

text \<open>
  The methods of \<open>TaskRepository\<close>. \<open>mk\<close> builds the inserted row from identifier, title and
  clock: the columns the \<open>INSERT\<close> leaves to their defaults.
\<close>

definition pg_Create :: "(string \<Rightarrow> string \<Rightarrow> int \<Rightarrow> 'a task_scheme) \<Rightarrow> db_call \<Rightarrow> string \<Rightarrow> string
    \<Rightarrow> 'a task_scheme list \<Rightarrow> (task_error + 'a task_scheme) \<times> 'a task_scheme list" where
  "pg_Create mk call tid title db =
     (case sql_insert (fault call) (mk tid title (clock call)) db of
        (Rows r, db) \<Rightarrow> (Inr r, db)
      | (NoRows, db) \<Rightarrow> (Inl (ErrOther ''create task: no rows in result set''), db)
      | (DbError e, db) \<Rightarrow> (Inl (ErrOther (''create task: '' @ e)), db))"

definition pg_Get :: "db_call \<Rightarrow> string \<Rightarrow> 'a task_scheme list
    \<Rightarrow> (task_error + 'a task_scheme) \<times> 'a task_scheme list" where
  "pg_Get call tid db =
     (case sql_get (fault call) tid db of
        (Rows r, db) \<Rightarrow> (Inr r, db)
      | (NoRows, db) \<Rightarrow> (Inl ErrNotFound, db)
      | (DbError e, db) \<Rightarrow> (Inl (ErrOther (''get task: '' @ e)), db))"

text \<open>
  \<open>List\<close> opens a cursor and then iterates: a refused query and a connection lost during the
  iteration are reported differently.
\<close>

definition read_rows :: "db_fault \<Rightarrow> 't list \<Rightarrow> task_error + 't list" where
  "read_rows f result =
     (case f of NoFault \<Rightarrow> Inr result
      | Refused e \<Rightarrow> Inl (ErrOther (''list tasks: '' @ e))
      | ReplyLost e \<Rightarrow> Inl (ErrOther (''iterate tasks: '' @ e)))"

definition pg_List :: "db_call \<Rightarrow> 'a task_scheme list
    \<Rightarrow> (task_error + 'a task_scheme list) \<times> 'a task_scheme list" where
  "pg_List call db = (read_rows (fault call) (sql_list db), db)"

definition pg_Delete :: "db_call \<Rightarrow> string \<Rightarrow> 'a task_scheme list
    \<Rightarrow> task_error option \<times> 'a task_scheme list" where
  "pg_Delete call tid db =
     (case sql_delete (fault call) tid db of
        (Rows _, db) \<Rightarrow> (None, db)
      | (NoRows, db) \<Rightarrow> (Some ErrNotFound, db)
      | (DbError e, db) \<Rightarrow> (Some (ErrOther (''delete task: '' @ e)), db))"

text \<open>The part of the Go interface \<open>Repository\<close> that all fixtures share.\<close>

record ('t, 'db) Repository =
  repo_Create :: "db_call \<Rightarrow> string \<Rightarrow> string \<Rightarrow> 'db \<Rightarrow> (task_error + 't) \<times> 'db"
  repo_Get :: "db_call \<Rightarrow> string \<Rightarrow> 'db \<Rightarrow> (task_error + 't) \<times> 'db"
  repo_Delete :: "db_call \<Rightarrow> string \<Rightarrow> 'db \<Rightarrow> task_error option \<times> 'db"

definition pg_repository :: "(string \<Rightarrow> string \<Rightarrow> int \<Rightarrow> 'a task_scheme)
    \<Rightarrow> ('a task_scheme, 'a task_scheme list) Repository" where
  "pg_repository mk = \<lparr>repo_Create = pg_Create mk, repo_Get = pg_Get, repo_Delete = pg_Delete\<rparr>"

section \<open>The table invariant\<close>

definition clock_ok :: "int \<Rightarrow> bool" where
  "clock_ok t \<longleftrightarrow> t mod 1000 = 0 \<and> 0 \<le> year_of t \<and> year_of t \<le> 9999"

definition row_ok :: "'a task_scheme \<Rightarrow> bool" where
  "row_ok r \<longleftrightarrow> (\<exists>b. length b = 16 \<and> ID r = uuid_format b)
     \<and> normalizeTitle (Title r) = Inr (Title r) \<and> storable (Title r) \<and> clock_ok (CreatedAt r)"

definition db_ok :: "'a task_scheme list \<Rightarrow> bool" where
  "db_ok db \<longleftrightarrow> distinct (map (\<lambda>r. uuid_value (ID r)) db) \<and> (\<forall>r \<in> set db. row_ok r)"

lemma db_ok_Nil [simp]: "db_ok []"
  by (simp add: db_ok_def)

lemma row_ok_uuid:
  assumes "row_ok r"
  obtains b where "uuid_value (ID r) = Some b" "length b = 16" "ID r = uuid_format b"
  using assms uuid_value_format by (auto simp: row_ok_def)

lemma db_ok_filter: "db_ok db \<Longrightarrow> db_ok (filter P db)"
  by (auto simp: db_ok_def distinct_map_filter)

lemma db_ok_append:
  "db_ok db \<Longrightarrow> row_ok r \<Longrightarrow> \<not> list_ex (same_id (ID r)) db \<Longrightarrow> db_ok (db @ [r])"
  by (auto simp: db_ok_def list_ex_iff same_id_def image_iff)

lemma find_same_id:
  assumes "db_ok db" "r \<in> set db" "same_id tid r"
  shows "find (same_id tid) db = Some r"
proof -
  have "find (same_id tid) db \<noteq> None" using assms(2,3) by (auto simp: find_None_iff)
  then obtain q where q: "find (same_id tid) db = Some q" by blast
  then have "q \<in> set db" "same_id tid q" by (auto simp: find_Some_iff)
  with assms have "q = r" by (auto simp: db_ok_def same_id_def distinct_map inj_on_def)
  with q show ?thesis by simp
qed

lemma find_Some_same:
  "find (same_id tid) db = Some r \<Longrightarrow> r \<in> set db \<and> same_id tid r"
  by (auto simp: find_Some_iff)

lemma order_key_inj:
  assumes "db_ok db" "r \<in> set db" "q \<in> set db" "order_key r = order_key q"
  shows "r = q"
proof -
  have "row_ok r" "row_ok q" using assms by (auto simp: db_ok_def)
  then have "uuid_value (ID r) = uuid_value (ID q)"
    using assms(4) by (metis order_key_def option.sel prod.inject row_ok_uuid)
  then show ?thesis using assms by (auto simp: db_ok_def distinct_map inj_on_def)
qed

lemma canonical_id_uuid: "validUUID tid \<Longrightarrow> uuid_value (canonical_id tid) = uuid_value tid"
  by (auto simp: canonical_id_def uuid_value_valid [symmetric] intro: uuid_value_format uuid_value_length
      split: option.splits)

lemma sql_list_sorted: "sorted (map order_key (sql_list db))"
  by (simp add: sql_list_def)

lemma mset_sql_list: "mset (sql_list db) = mset db"
  by (simp add: sql_list_def)

lemma set_sql_list [simp]: "set (sql_list db) = set db"
  by (simp add: sql_list_def)

text \<open>The row of a task is replaced by one with the same identifier, which is what an \<open>UPDATE\<close> does.\<close>

definition replace_row :: "string \<Rightarrow> 'a task_scheme \<Rightarrow> 'a task_scheme list \<Rightarrow> 'a task_scheme list" where
  "replace_row tid t rows = map (\<lambda>q. if same_id tid q then t else q) rows"

lemma same_id_iff: "same_id tid r \<longleftrightarrow> uuid_value (ID r) = uuid_value tid"
  by (simp add: same_id_def)

lemma same_id_unique:
  "db_ok db \<Longrightarrow> r \<in> set db \<Longrightarrow> q \<in> set db \<Longrightarrow> same_id tid r \<Longrightarrow> same_id tid q \<Longrightarrow> r = q"
  by (auto simp: db_ok_def same_id_def distinct_map inj_on_def)

lemma db_ok_replace_row:
  assumes "db_ok rows" "same_id tid t" "row_ok t"
  shows "db_ok (replace_row tid t rows)"
proof -
  have "uuid_value (ID (if same_id tid q then t else q)) = uuid_value (ID q)" for q
    using assms(2) by (simp add: same_id_def)
  then have "map (\<lambda>q. uuid_value (ID q)) (replace_row tid t rows) = map (\<lambda>q. uuid_value (ID q)) rows"
    by (simp add: replace_row_def comp_def)
  moreover have "\<forall>q \<in> set (replace_row tid t rows). row_ok q"
    using assms by (auto simp: replace_row_def db_ok_def)
  ultimately show ?thesis using assms(1) unfolding db_ok_def by metis
qed

lemma replace_row_mem: "q \<in> set db \<Longrightarrow> same_id tid q \<Longrightarrow> t \<in> set (replace_row tid t db)"
  by (auto simp: replace_row_def)

end
