(* ===== verification/Go_JSON.thy ===== *)
theory Go_JSON
  imports Go_Encoding
begin

text \<open>
  The decoder of \<open>encoding/json\<close> as the repository uses it: one JSON text into a tree,
  then a tree into the fields of a struct. String contents are unquoted into UTF-8, with
  the replacement character for lone surrogates and invalid bytes; nesting beyond 10000
  levels is refused. The parser recurses on fuel; between two calls that
  consume no byte there is one that does, so more fuel than twice the length of the text
  never changes the result (\<open>parse_enough_fuel\<close>).
\<close>

datatype json =
    JNull
  | JBool bool
  | JNumber string
  | JString string
  | JArray "json list"
  | JObject "(string \<times> json) list"

section \<open>Strings\<close>

definition EncodeRune :: "nat \<Rightarrow> string" where
  "EncodeRune r =
     (if r < 128 then [char_of r]
      else if r < 2048 then [char_of (192 + r div 64), char_of (128 + r mod 64)]
      else if r < 65536 then
        [char_of (224 + r div 4096), char_of (128 + r div 64 mod 64), char_of (128 + r mod 64)]
      else [char_of (240 + r div 262144), char_of (128 + r div 4096 mod 64),
            char_of (128 + r div 64 mod 64), char_of (128 + r mod 64)])"

definition getu4 :: "string \<Rightarrow> nat option" where
  "getu4 s = (case s of a # b # c # d # _ \<Rightarrow>
       (case (hex_value a, hex_value b, hex_value c, hex_value d) of
          (Some w, Some x, Some y, Some z) \<Rightarrow> Some (4096 * w + 256 * x + 16 * y + z)
        | _ \<Rightarrow> None)
     | _ \<Rightarrow> None)"

definition IsSurrogate :: "nat \<Rightarrow> bool" where
  "IsSurrogate r \<longleftrightarrow> 55296 \<le> r \<and> r < 57344"

text \<open>A high surrogate and the escape that follows it, when that is a low surrogate.\<close>

definition surrogate_pair :: "nat \<Rightarrow> string \<Rightarrow> nat option" where
  "surrogate_pair hi s =
     (if HasPrefix s [CHR 0x5C, CHR ''u''] then
        (case getu4 (drop 2 s) of
           Some lo \<Rightarrow> if 55296 \<le> hi \<and> hi < 56320 \<and> 56320 \<le> lo \<and> lo < 57344
                      then Some ((hi - 55296) * 1024 + (lo - 56320) + 65536) else None
         | None \<Rightarrow> None)
      else None)"

definition escape_char :: "char \<Rightarrow> char option" where
  "escape_char c =
     (if c = CHR 0x22 \<or> c = CHR 0x5C \<or> c = CHR ''/'' then Some c
      else if c = CHR ''b'' then Some (CHR 0x08)
      else if c = CHR ''f'' then Some (CHR 0x0C)
      else if c = CHR ''n'' then Some (CHR 0x0A)
      else if c = CHR ''r'' then Some (CHR 0x0D)
      else if c = CHR ''t'' then Some (CHR 0x09)
      else None)"

definition prepend :: "string \<Rightarrow> (string \<times> 'a) option \<Rightarrow> (string \<times> 'a) option" where
  "prepend p r = map_option (\<lambda>(s, t). (p @ s, t)) r"

text \<open>The contents of a string literal up to its closing quote, and the text behind it.\<close>

function unquote :: "string \<Rightarrow> (string \<times> string) option" where
  "unquote [] = None"
| "unquote (c # s) =
     (if c = CHR 0x22 then Some ([], s)
      else if c = CHR 0x5C then
        (case s of [] \<Rightarrow> None
         | e # t \<Rightarrow>
             (case escape_char e of
                Some r \<Rightarrow> prepend [r] (unquote t)
              | None \<Rightarrow>
                  if e \<noteq> CHR ''u'' then None
                  else (case getu4 t of
                     None \<Rightarrow> None
                   | Some r \<Rightarrow>
                       if IsSurrogate r then
                         (case surrogate_pair r (drop 4 t) of
                            Some d \<Rightarrow> prepend (EncodeRune d) (unquote (drop 10 t))
                          | None \<Rightarrow> prepend (EncodeRune RuneError) (unquote (drop 4 t)))
                       else prepend (EncodeRune r) (unquote (drop 4 t)))))
      else if c < CHR '' '' then None
      else prepend (EncodeRune (fst (DecodeRune (c # s)))) (unquote (drop (snd (DecodeRune (c # s))) (c # s))))"
  by pat_completeness auto
termination
proof (relation "measure length", goal_cases)
  case (6 c s)
  then show ?case using DecodeRune_size_bounds [of "c # s"] by (simp del: drop_eq_Nil)
qed auto

declare unquote.simps [simp del]

section \<open>Values\<close>

definition is_ws :: "char \<Rightarrow> bool" where
  "is_ws c \<longleftrightarrow> c = CHR '' '' \<or> c = CHR 0x09 \<or> c = CHR 0x0A \<or> c = CHR 0x0D"

definition skip_ws :: "string \<Rightarrow> string" where
  "skip_ws s = dropWhile is_ws s"

definition is_dec :: "char \<Rightarrow> bool" where
  "is_dec c \<longleftrightarrow> CHR ''0'' \<le> c \<and> c \<le> CHR ''9''"

definition scan_digits :: "string \<Rightarrow> (string \<times> string) option" where
  "scan_digits s = (let d = takeWhile is_dec s in if d = [] then None else Some (d, drop (length d) s))"

definition scan_frac :: "string \<Rightarrow> (string \<times> string) option" where
  "scan_frac s = (case s of c # t \<Rightarrow> if c = CHR ''.'' then prepend [c] (scan_digits t) else Some ([], s)
     | [] \<Rightarrow> Some ([], s))"

definition scan_exp :: "string \<Rightarrow> (string \<times> string) option" where
  "scan_exp s = (case s of c # t \<Rightarrow>
       if c = CHR ''e'' \<or> c = CHR ''E'' then
         (case t of d # u \<Rightarrow> if d = CHR ''+'' \<or> d = CHR ''-'' then prepend [c, d] (scan_digits u)
                             else prepend [c] (scan_digits t)
          | [] \<Rightarrow> None)
       else Some ([], s)
     | [] \<Rightarrow> Some ([], s))"

definition scan_int :: "string \<Rightarrow> (string \<times> string) option" where
  "scan_int s = (case s of c # t \<Rightarrow> if c = CHR ''0'' then Some ([c], t) else scan_digits s | [] \<Rightarrow> None)"

definition scan_number :: "string \<Rightarrow> (string \<times> string) option" where
  "scan_number s =
     (let (sign, s) = (case s of c # t \<Rightarrow> if c = CHR ''-'' then ([c], t) else ([], s) | [] \<Rightarrow> ([], []))
      in Option.bind (scan_int s) (\<lambda>(i, s). Option.bind (scan_frac s) (\<lambda>(f, s).
         Option.bind (scan_exp s) (\<lambda>(e, s). Some (sign @ i @ f @ e, s)))))"

definition scan_literal :: "string \<Rightarrow> (json \<times> string) option" where
  "scan_literal s =
     (if HasPrefix s ''null'' then Some (JNull, drop 4 s)
      else if HasPrefix s ''true'' then Some (JBool True, drop 4 s)
      else if HasPrefix s ''false'' then Some (JBool False, drop 5 s)
      else map_option (\<lambda>(n, s). (JNumber n, s)) (scan_number s))"

abbreviation max_depth :: nat where
  "max_depth \<equiv> 10000"

fun parse_value :: "nat \<Rightarrow> nat \<Rightarrow> string \<Rightarrow> (json \<times> string) option"
  and parse_elements :: "nat \<Rightarrow> nat \<Rightarrow> string \<Rightarrow> (json list \<times> string) option"
  and parse_members :: "nat \<Rightarrow> nat \<Rightarrow> string \<Rightarrow> ((string \<times> json) list \<times> string) option" where
  "parse_value 0 depth s = None"
| "parse_value (Suc fuel) depth s =
     (case skip_ws s of
        [] \<Rightarrow> None
      | c # t \<Rightarrow>
          if c = CHR 0x22 then map_option (\<lambda>(x, u). (JString x, u)) (unquote t)
          else if c = CHR ''['' then
            (if depth \<ge> max_depth then None
             else if HasPrefix (skip_ws t) '']'' then Some (JArray [], drop 1 (skip_ws t))
             else map_option (\<lambda>(xs, u). (JArray xs, u)) (parse_elements fuel (depth + 1) t))
          else if c = CHR 0x7B then
            (if depth \<ge> max_depth then None
             else if HasPrefix (skip_ws t) [CHR 0x7D] then Some (JObject [], drop 1 (skip_ws t))
             else map_option (\<lambda>(xs, u). (JObject xs, u)) (parse_members fuel (depth + 1) t))
          else scan_literal (c # t))"
| "parse_elements 0 depth s = None"
| "parse_elements (Suc fuel) depth s =
     Option.bind (parse_value fuel depth s) (\<lambda>(v, t).
       case skip_ws t of
         [] \<Rightarrow> None
       | c # u \<Rightarrow>
           if c = CHR '','' then map_option (\<lambda>(vs, w). (v # vs, w)) (parse_elements fuel depth u)
           else if c = CHR '']'' then Some ([v], u)
           else None)"
| "parse_members 0 depth s = None"
| "parse_members (Suc fuel) depth s =
     (case skip_ws s of
        [] \<Rightarrow> None
      | q # t \<Rightarrow>
          if q \<noteq> CHR 0x22 then None
          else Option.bind (unquote t) (\<lambda>(k, u).
            case skip_ws u of
              [] \<Rightarrow> None
            | c # w \<Rightarrow>
                if c \<noteq> CHR '':'' then None
                else Option.bind (parse_value fuel depth w) (\<lambda>(v, x).
                  case skip_ws x of
                    [] \<Rightarrow> None
                  | d # y \<Rightarrow>
                      if d = CHR '','' then map_option (\<lambda>(ms, z). ((k, v) # ms, z)) (parse_members fuel depth y)
                      else if d = CHR 0x7D then Some ([(k, v)], y)
                      else None)))"

text \<open>
  A text that holds exactly one value: \<open>Decode\<close> followed by a \<open>Decode\<close> that must report
  \<open>io.EOF\<close>, or \<open>json.Unmarshal\<close>.
\<close>

definition parse_json :: "string \<Rightarrow> json option" where
  "parse_json s = Option.bind (parse_value (2 * length s + 1) 0 s) (\<lambda>(v, t). if skip_ws t = [] then Some v else None)"

section \<open>Decoding into a struct\<close>

definition fold_char :: "char \<Rightarrow> char" where
  "fold_char c = (if CHR ''A'' \<le> c \<and> c \<le> CHR ''Z'' then char_of (of_char c + 32 :: nat) else c)"

text \<open>A member name selects a field by its exact name or else ignoring ASCII case.\<close>

definition select_field :: "string list \<Rightarrow> string \<Rightarrow> string option" where
  "select_field names key =
     (if key \<in> set names then Some key
      else find (\<lambda>n. map fold_char n = map fold_char key) names)"

text \<open>
  The members of an object in order, each stored by \<open>store\<close> into its field; an unknown
  field or a value of the wrong type is an error. A top level \<open>null\<close> stores nothing.
\<close>

definition decode_struct :: "string list \<Rightarrow> (string \<Rightarrow> json \<Rightarrow> 'a \<Rightarrow> 'a option) \<Rightarrow> json \<Rightarrow> 'a \<Rightarrow> 'a option" where
  "decode_struct names store v zero =
     (case v of
        JNull \<Rightarrow> Some zero
      | JObject members \<Rightarrow>
          fold (\<lambda>(k, x) acc. Option.bind acc (\<lambda>a. case select_field names k of
                  None \<Rightarrow> None | Some n \<Rightarrow> store n x a)) members (Some zero)
      | _ \<Rightarrow> None)"

definition decode_string :: "json \<Rightarrow> string \<Rightarrow> string option" where
  "decode_string v old = (case v of JString s \<Rightarrow> Some s | JNull \<Rightarrow> Some old | _ \<Rightarrow> None)"

section \<open>Fuel and plain text\<close>

lemma parse_fuel_mono:
  "parse_value fuel depth s = Some r \<Longrightarrow> fuel \<le> more \<Longrightarrow> parse_value more depth s = Some r"
  "parse_elements fuel depth s = Some q \<Longrightarrow> fuel \<le> more \<Longrightarrow> parse_elements more depth s = Some q"
  "parse_members fuel depth s = Some p \<Longrightarrow> fuel \<le> more \<Longrightarrow> parse_members more depth s = Some p"
proof (induction fuel depth s and fuel depth s and fuel depth s arbitrary: r more and q more and p more
    rule: parse_value_parse_elements_parse_members.induct)
  case (2 fuel depth s)
  from "2.prems"(2) obtain m where m: "more = Suc m" "fuel \<le> m" by (cases more) auto
  from "2.prems"(1) obtain c t where t: "skip_ws s = c # t" by (auto split: list.splits)
  have el: "parse_elements m (depth + 1) t = Some x"
    if "c = CHR ''[''" "\<not> max_depth \<le> depth" "\<not> HasPrefix (skip_ws t) '']''"
      "parse_elements fuel (depth + 1) t = Some x" for x
    using "2.IH"(1) [OF t _ that(1,2,3,4) m(2)] that(1) by simp
  have mem: "parse_members m (depth + 1) t = Some x"
    if "c = CHR 0x7B" "\<not> max_depth \<le> depth" "\<not> HasPrefix (skip_ws t) [CHR 0x7D]"
      "parse_members fuel (depth + 1) t = Some x" for x
    using "2.IH"(2) [OF t _ _ that(1,2,3,4) m(2)] that(1) by simp
  have unfold: "parse_value (Suc n) depth s =
      (if c = CHR 0x22 then map_option (\<lambda>(x, u). (JString x, u)) (unquote t)
       else if c = CHR ''['' then
         (if depth \<ge> max_depth then None
          else if HasPrefix (skip_ws t) '']'' then Some (JArray [], drop 1 (skip_ws t))
          else map_option (\<lambda>(xs, u). (JArray xs, u)) (parse_elements n (depth + 1) t))
       else if c = CHR 0x7B then
         (if depth \<ge> max_depth then None
          else if HasPrefix (skip_ws t) [CHR 0x7D] then Some (JObject [], drop 1 (skip_ws t))
          else map_option (\<lambda>(xs, u). (JObject xs, u)) (parse_members n (depth + 1) t))
       else scan_literal (c # t))" for n
    by (simp only: parse_value.simps t list.case)
  note prem = "2.prems"(1) [unfolded unfold]
  consider (quote) "c = CHR 0x22" | (array) "c = CHR ''[''" | (object) "c = CHR 0x7B"
    | (other) "c \<noteq> CHR 0x22" "c \<noteq> CHR ''[''" "c \<noteq> CHR 0x7B" by blast
  then show ?case
  proof cases
    case array
    have no: "CHR ''['' \<noteq> CHR 0x22" by simp
    show ?thesis
    proof (cases "max_depth \<le> depth \<or> HasPrefix (skip_ws t) '']''")
      case True
      then show ?thesis using prem unfolding m(1) unfold array by argo
    next
      case False
      with prem array no obtain x where "parse_elements fuel (depth + 1) t = Some x" "r = (JArray (fst x), snd x)"
        by (simp only: if_False if_True de_Morgan_disj map_option_eq_Some split: prod.splits) auto
      note x = this
      from False el [OF array _ _ x(1)] have "parse_elements m (depth + 1) t = Some x" by blast
      then show ?thesis using False x(2) unfolding m(1) unfold array
        by (simp only: simp_thms if_False if_True no option.map case_prod_beta de_Morgan_disj)
    qed
  next
    case object
    have no: "CHR 0x7B \<noteq> CHR 0x22" "CHR 0x7B \<noteq> CHR ''[''" by simp_all
    show ?thesis
    proof (cases "max_depth \<le> depth \<or> HasPrefix (skip_ws t) [CHR 0x7D]")
      case True
      then show ?thesis using prem unfolding m(1) unfold object
        by (elim disjE) (simp_all only: no simp_thms if_False if_True)
    next
      case False
      with prem object no obtain x where "parse_members fuel (depth + 1) t = Some x" "r = (JObject (fst x), snd x)"
        by (simp only: if_False if_True de_Morgan_disj map_option_eq_Some split: prod.splits) auto
      note x = this
      from False mem [OF object _ _ x(1)] have "parse_members m (depth + 1) t = Some x" by blast
      then show ?thesis using False x(2) unfolding m(1) unfold object
        by (simp only: simp_thms if_False if_True no option.map case_prod_beta de_Morgan_disj)
    qed
  qed (use prem in \<open>simp_all only: m(1) unfold simp_thms if_True if_False\<close>)
next
  case (4 fuel depth s)
  from "4.prems"(2) obtain m where m: "more = Suc m" "fuel \<le> m" by (cases more) auto
  from "4.prems"(1) obtain v t where v: "parse_value fuel depth s = Some (v, t)"
    by (auto simp: bind_eq_Some_conv)
  have v': "parse_value m depth s = Some (v, t)" by (rule "4.IH"(1) [OF v m(2)])
  from "4.prems"(1) v obtain c u where c: "skip_ws t = c # u" by (auto split: list.splits)
  show ?case
  proof (cases "c = CHR '',''")
    case True
    with "4.prems"(1) v c obtain x where "parse_elements fuel depth u = Some x" "q = (v # fst x, snd x)"
      by (auto split: prod.splits)
    with "4.IH"(2) [OF v refl c True] m v' c True show ?thesis by (auto split: prod.splits)
  next
    case False
    with "4.prems"(1) v v' c m show ?thesis by simp
  qed
next
  case (6 fuel depth s)
  from "6.prems"(2) obtain m where m: "more = Suc m" "fuel \<le> m" by (cases more) auto
  from "6.prems"(1) obtain t where t: "skip_ws s = CHR 0x22 # t" by (auto split: list.splits if_splits)
  with "6.prems"(1) obtain k u where k: "unquote t = Some (k, u)" by (auto simp: bind_eq_Some_conv)
  with "6.prems"(1) t obtain w where w: "skip_ws u = CHR '':'' # w" by (auto split: list.splits if_splits)
  with "6.prems"(1) t k obtain v x where v: "parse_value fuel depth w = Some (v, x)"
    by (auto simp: bind_eq_Some_conv)
  with "6.prems"(1) t k w obtain d y where d: "skip_ws x = d # y" by (auto split: list.splits)
  have v': "parse_value m depth w = Some (v, x)"
    using "6.IH"(1) [OF t _ k refl w _ v m(2)] by simp
  show ?case
  proof (cases "d = CHR '',''")
    case True
    with "6.prems"(1) t k w v d obtain z where "parse_members fuel depth y = Some z" "p = ((k, v) # fst z, snd z)"
      by (auto split: prod.splits)
    with "6.IH"(2) [OF t _ k refl w _ v refl d True] m t k w v' d True show ?thesis by (auto split: prod.splits)
  next
    case False
    with "6.prems"(1) t k w v v' d m show ?thesis by simp
  qed
qed simp_all

definition plain :: "char \<Rightarrow> bool" where
  "plain c \<longleftrightarrow> CHR '' '' \<le> c \<and> of_char c < (128 :: nat) \<and> c \<noteq> CHR 0x22 \<and> c \<noteq> CHR 0x5C"

lemma unquote_plain:
  "(\<And>c. c \<in> set s \<Longrightarrow> plain c) \<Longrightarrow> unquote (s @ CHR 0x22 # t) = Some (s, t)"
proof (induction s)
  case Nil
  then show ?case by (simp add: unquote.simps)
next
  case (Cons c s)
  then have p: "plain c" by simp
  then have r: "DecodeRune (c # s @ CHR 0x22 # t) = (of_char c, 1)"
    by (simp add: DecodeRune_ascii plain_def)
  have e: "EncodeRune (of_char c) = [c]" using p by (simp add: EncodeRune_def plain_def)
  have "\<not> c < CHR '' ''" "c \<noteq> CHR 0x22" "c \<noteq> CHR 0x5C" using p by (auto simp: plain_def)
  then show ?case using Cons r e by (simp add: unquote.simps prepend_def)
qed

section \<open>Enough fuel\<close>

lemma unquote_shorter: "unquote s = Some (x, t) \<Longrightarrow> length t < length s"
proof (induction s arbitrary: x t rule: length_induct)
  case (1 s)
  have tail: "length t < length s" if "prepend p (unquote u) = Some (x, t)" "length u < length s" for p u
    using that "1.IH" by (fastforce simp: prepend_def)
  from "1.prems" obtain c r where s: "s = c # r" by (cases s) (simp_all add: unquote.simps)
  have size: "0 < snd (DecodeRune (c # r))" using DecodeRune_size_bounds [of "c # r"] by simp
  note prem = "1.prems" [unfolded s unquote.simps]
  have "(c = CHR 0x22 \<and> t = r) \<or> (\<exists>p u. prepend p (unquote u) = Some (x, t) \<and> length u < length s)"
  proof (cases "c = CHR 0x22")
    case False
    show ?thesis
    proof (cases "c = CHR 0x5C")
      case True
      with prem have "\<exists>p n. prepend p (unquote (drop n r)) = Some (x, t)"
        by (cases r) (auto simp del: drop.simps split: option.splits if_splits intro: exI [of _ "Suc 0"],
            (metis drop0 drop_Suc_Cons)+)
      then obtain p n where "prepend p (unquote (drop n r)) = Some (x, t)" by blast
      then show ?thesis using s by (intro disjI2 exI [of _ p] exI [of _ "drop n r"]) auto
    next
      case F: False
      from prem False F have "prepend (EncodeRune (fst (DecodeRune (c # r))))
          (unquote (drop (snd (DecodeRune (c # r))) (c # r))) = Some (x, t)"
        by (simp split: if_splits)
      then show ?thesis using s size by (intro disjI2 exI conjI) auto
    qed
  qed (use prem in simp)
  then show ?case using tail s by auto
qed

lemma skip_ws_shorter: "length (skip_ws s) \<le> length s"
  by (simp add: skip_ws_def length_dropWhile_le)

lemma scan_digits_shorter: "scan_digits s = Some (x, t) \<Longrightarrow> length t < length s"
  by (auto simp: scan_digits_def Let_def split: if_splits) (metis length_0_conv length_greater_0_conv
      length_takeWhile_le diff_less le_zero_eq neq0_conv)

lemma scan_number_shorter: "scan_number s = Some (x, t) \<Longrightarrow> length t < length s"
proof -
  have frac: "length v \<le> length u" if "scan_frac u = Some (y, v)" for u y v
    using that scan_digits_shorter by (fastforce simp: scan_frac_def prepend_def split: list.splits if_splits)
  have ex: "length v \<le> length u" if "scan_exp u = Some (y, v)" for u y v
    using that scan_digits_shorter by (fastforce simp: scan_exp_def prepend_def split: list.splits if_splits)
  have int: "length v < length u" if "scan_int u = Some (y, v)" for u y v
    using that scan_digits_shorter by (fastforce simp: scan_int_def split: list.splits if_splits)
  assume "scan_number s = Some (x, t)"
  moreover define p where "p = (case s of c # t \<Rightarrow> if c = CHR ''-'' then ([c], t) else ([], s) | [] \<Rightarrow> ([], []))"
  define u where "u = snd p"
  have u: "length u \<le> length s" by (cases s) (simp_all add: u_def p_def)
  ultimately have r: "Option.bind (scan_int u) (\<lambda>(i, s). Option.bind (scan_frac s) (\<lambda>(f, s).
         Option.bind (scan_exp s) (\<lambda>(e, s). Some (fst p @ i @ f @ e, s)))) = Some (x, t)"
    unfolding scan_number_def Let_def u_def p_def case_prod_beta by (simp only:)
  from r obtain i v f w e where c: "scan_int u = Some (i, v)" "scan_frac v = Some (f, w)" "scan_exp w = Some (e, t)"
    by (auto simp: bind_eq_Some_conv)
  from int [OF c(1)] frac [OF c(2)] ex [OF c(3)] u show "length t < length s" by linarith
qed

lemma scan_literal_shorter: "scan_literal s = Some (v, t) \<Longrightarrow> length t < length s"
  using scan_number_shorter
  by (auto simp: scan_literal_def HasPrefix_iff split: if_splits)

lemma skip_ws_ConsD: "skip_ws s = c # t \<Longrightarrow> length t < length s"
  using skip_ws_shorter [of s] by simp

lemma drop_skip_ws_shorter: "HasPrefix (skip_ws t) [c] \<Longrightarrow> length (drop 1 (skip_ws t)) < length t"
  using skip_ws_shorter [of t] by (auto simp: HasPrefix_iff)

lemma parse_shorter:
  "parse_value fuel depth s = Some (v, t) \<Longrightarrow> length t < length s"
  "parse_elements fuel depth s = Some (vs, t) \<Longrightarrow> length t < length s"
  "parse_members fuel depth s = Some (ms, t) \<Longrightarrow> length t < length s"
proof (induction fuel arbitrary: depth s v vs ms t)
  case (Suc fuel)
  {
    case 1
    then obtain c u where u: "skip_ws s = c # u" by (auto split: list.splits)
    note prem = 1 [unfolded parse_value.simps u list.case]
    have "length t \<le> length u \<or> length t < length (c # u)"
      using prem unquote_shorter [of u _ t] Suc.IH(2) [of "depth + 1" u _ t] Suc.IH(3) [of "depth + 1" u _ t]
        drop_skip_ws_shorter [of u "CHR '']''"] drop_skip_ws_shorter [of u "CHR 0x7D"] scan_literal_shorter [of "c # u" v t]
      by (simp only: map_option_eq_Some split: if_splits; force)
    with skip_ws_shorter [of s] u show ?case by auto
  next
    case 2
    from 2 obtain w u where w1: "parse_value fuel depth s = Some (w, u)" by (auto simp: bind_eq_Some_conv)
    from 2 w1 obtain c r where w2: "skip_ws u = c # r" by (cases "skip_ws u") simp_all
    note w = w1 w2
    note prem = 2 [unfolded parse_elements.simps w bind.bind_lunit prod.case list.case]
    have "length t \<le> length r"
      using prem Suc.IH(2) [of depth r _ t] by (simp only: map_option_eq_Some split: if_splits; force)
    with Suc.IH(1) [OF w(1)] skip_ws_ConsD [OF w(2)] show ?case by linarith
  next
    case 3
    from 3 obtain q where q: "skip_ws s = CHR 0x22 # q" by (auto split: list.splits if_splits)
    from 3 q obtain k u where k: "unquote q = Some (k, u)" by (auto simp: bind_eq_Some_conv)
    from 3 q k obtain w where w: "skip_ws u = CHR '':'' # w" by (auto split: list.splits if_splits)
    from 3 q k w obtain v' x where v: "parse_value fuel depth w = Some (v', x)" by (auto simp: bind_eq_Some_conv)
    from 3 q k w v obtain d y where d: "skip_ws x = d # y" by (auto split: list.splits)
    have "length t \<le> length y"
      using 3 q k w v d Suc.IH(3) [of depth y _ t] by (cases "d = CHR '',''") (fastforce split: if_splits)+
    with skip_ws_ConsD [OF q] unquote_shorter [OF k] skip_ws_ConsD [OF w] Suc.IH(1) [OF v] skip_ws_ConsD [OF d]
    show ?case by linarith
  }
qed simp_all

lemma parse_enough_fuel:
  "2 * length s < fuel \<Longrightarrow> 2 * length s < more \<Longrightarrow> parse_value fuel depth s = parse_value more depth s"
  "2 * length s + 1 < fuel \<Longrightarrow> 2 * length s + 1 < more \<Longrightarrow>
     parse_elements fuel depth s = parse_elements more depth s"
  "2 * length s < fuel \<Longrightarrow> 2 * length s < more \<Longrightarrow> parse_members fuel depth s = parse_members more depth s"
proof (induction fuel arbitrary: depth s more)
  case (Suc fuel)
  {
    case 1
    then obtain m where m: "more = Suc m" by (cases more) auto
    show ?case
    proof (cases "skip_ws s")
      case (Cons c u)
      have u: "length u < length s" by (rule skip_ws_ConsD [OF Cons])
      have "parse_elements fuel (depth + 1) u = parse_elements m (depth + 1) u"
        "parse_members fuel (depth + 1) u = parse_members m (depth + 1) u"
        using u 1 m by (intro Suc.IH(2,3); simp)+
      then show ?thesis unfolding m parse_value.simps Cons list.case by (simp only:)
    qed (simp add: m)
  next
    case 2
    then obtain m where m: "more = Suc m" by (cases more) auto
    have v: "parse_value fuel depth s = parse_value m depth s" using 2 m by (intro Suc.IH(1)) simp_all
    show ?case
    proof (cases "parse_value m depth s")
      case (Some p)
      obtain w u where p: "p = (w, u)" by (cases p)
      show ?thesis
      proof (cases "skip_ws u")
        case (Cons c r)
        have "length r < length s" using skip_ws_ConsD [OF Cons] parse_shorter(1) [OF Some [unfolded p]] by simp
        then have "parse_elements fuel depth r = parse_elements m depth r"
          using 2 m by (intro Suc.IH(2)) simp_all
        then show ?thesis by (simp add: m v Some p Cons)
      qed (simp add: m v Some p)
    qed (simp add: m v)
  next
    case 3
    then obtain m where m: "more = Suc m" by (cases more) auto
    have step: "Option.bind (parse_value fuel depth w) k = Option.bind (parse_value m depth w) k'"
      if "length w < length s"
        "\<And>v x. parse_value m depth w = Some (v, x) \<Longrightarrow> k (v, x) = k' (v, x)" for w and k k' :: "json \<times> string \<Rightarrow> ((string \<times> json) list \<times> string) option"
    proof -
      have "parse_value fuel depth w = parse_value m depth w" using that(1) 3 m by (intro Suc.IH(1)) simp_all
      then show ?thesis using that(2) by (cases "parse_value m depth w") auto
    qed
    have mem: "parse_members fuel depth y = parse_members m depth y" if "length y < length s" for y
      using that 3 m by (intro Suc.IH(3)) simp_all
    show ?case
    proof (cases "skip_ws s")
      case (Cons q t)
      show ?thesis
      proof (cases "unquote t")
        case (Some p)
        obtain k u where p: "p = (k, u)" by (cases p)
        have lu: "length u < length s" using unquote_shorter [OF Some [unfolded p]] skip_ws_ConsD [OF Cons] by simp
        show ?thesis
        proof (cases "skip_ws u")
          case C: (Cons c w)
          have lw: "length w < length s" using skip_ws_ConsD [OF C] lu by simp
          have eq: "(case skip_ws x of [] \<Rightarrow> None | d # y \<Rightarrow>
                if d = CHR '','' then map_option (\<lambda>(ms, z). ((k, v) # ms, z)) (parse_members fuel depth y)
                else if d = CHR 0x7D then Some ([(k, v)], y) else None)
              = (case skip_ws x of [] \<Rightarrow> None | d # y \<Rightarrow>
                if d = CHR '','' then map_option (\<lambda>(ms, z). ((k, v) # ms, z)) (parse_members m depth y)
                else if d = CHR 0x7D then Some ([(k, v)], y) else None)"
            if "parse_value m depth w = Some (v, x)" for v x
          proof (cases "skip_ws x")
            case X: (Cons d y)
            have "length y < length s" using skip_ws_ConsD [OF X] parse_shorter(1) [OF that] lw by simp
            with X show ?thesis by (simp only: mem list.case)
          qed simp
          show ?thesis unfolding m parse_members.simps Cons list.case Some p bind.bind_lunit prod.case C
            by (intro if_cong refl step lw) (simp only: eq prod.case)
        qed (simp add: m Cons Some p)
      qed (simp add: m Cons)
    qed (simp add: m)
  }
qed simp_all

section \<open>Quoting\<close>

text \<open>\<open>json.Marshal\<close> of a string: HTML-sensitive bytes, quotes and control bytes are escaped.\<close>

definition html_safe :: "char \<Rightarrow> bool" where
  "html_safe c \<longleftrightarrow> plain c \<and> c \<noteq> CHR ''<'' \<and> c \<noteq> CHR ''>'' \<and> c \<noteq> CHR ''&''"

definition quote_byte :: "char \<Rightarrow> string" where
  "quote_byte c =
     (if html_safe c then [c]
      else if c = CHR 0x22 \<or> c = CHR 0x5C then [CHR 0x5C, c]
      else if c = CHR 0x08 then [CHR 0x5C, CHR ''b'']
      else if c = CHR 0x0C then [CHR 0x5C, CHR ''f'']
      else if c = CHR 0x0A then [CHR 0x5C, CHR ''n'']
      else if c = CHR 0x0D then [CHR 0x5C, CHR ''r'']
      else if c = CHR 0x09 then [CHR 0x5C, CHR ''t'']
      else CHR 0x5C # ''u00'' @ [hex_digit (of_char c div 16), hex_digit (of_char c mod 16)])"

function quote_body :: "string \<Rightarrow> string" where
  "quote_body s =
     (if s = [] then []
      else if of_char (hd s) < (128 :: nat) then quote_byte (hd s) @ quote_body (tl s)
      else (let (r, size) = DecodeRune s
            in (if r = RuneError \<and> size = 1 then CHR 0x5C # ''ufffd''
                else if r = 8232 then CHR 0x5C # ''u2028''
                else if r = 8233 then CHR 0x5C # ''u2029''
                else take size s) @ quote_body (drop (snd (DecodeRune s)) s)))"
  by pat_completeness auto
termination
proof (relation "measure length", goal_cases)
  case (3 s x r size)
  then show ?case using DecodeRune_size_bounds [of s] by auto
qed auto

declare quote_body.simps [simp del]

definition json_quote :: "string \<Rightarrow> string" where
  "json_quote s = CHR 0x22 # quote_body s @ [CHR 0x22]"

lemma html_safe_plain: "html_safe c \<Longrightarrow> plain c"
  by (simp add: html_safe_def)

lemma quote_body_safe: "(\<And>c. c \<in> set s \<Longrightarrow> html_safe c) \<Longrightarrow> quote_body s = s"
proof (induction s)
  case (Cons c s)
  then have "html_safe c" by simp
  then have "quote_byte c = [c]" "of_char c < (128 :: nat)"
    by (simp_all add: quote_byte_def html_safe_def plain_def)
  with Cons show ?case by (simp add: quote_body.simps [of "c # s"])
qed (simp add: quote_body.simps)

lemma skip_ws_simps [simp]:
  "skip_ws [] = []"
  "\<not> is_ws c \<Longrightarrow> skip_ws (c # s) = c # s"
  by (simp_all add: skip_ws_def)

text \<open>An object of two string members with safe contents is read back.\<close>

lemma parse_two_members:
  assumes "\<forall>c \<in> set k1 \<union> set v1 \<union> set k2 \<union> set v2. plain c"
  shows "parse_json (CHR 0x7B # CHR 0x22 # k1 @ CHR 0x22 # CHR '':'' # CHR 0x22 # v1 @ CHR 0x22 # CHR '','' #
      CHR 0x22 # k2 @ CHR 0x22 # CHR '':'' # CHR 0x22 # v2 @ [CHR 0x22, CHR 0x7D])
    = Some (JObject [(k1, JString v1), (k2, JString v2)])"
proof -
  have u: "unquote (s @ CHR 0x22 # t) = Some (s, t)" if "s \<in> {k1, v1, k2, v2}" for s t
    using that assms by (intro unquote_plain) auto
  have ws: "\<not> is_ws (CHR 0x22)" "\<not> is_ws (CHR 0x7B)" "\<not> is_ws (CHR 0x7D)" "\<not> is_ws (CHR '':'')" "\<not> is_ws (CHR '','')"
    by (simp_all add: is_ws_def)
  have hp: "\<not> HasPrefix (CHR 0x22 # s) [CHR 0x7D]" for s by (simp add: HasPrefix_iff)
  let ?s = "CHR 0x7B # CHR 0x22 # k1 @ CHR 0x22 # CHR '':'' # CHR 0x22 # v1 @ CHR 0x22 # CHR '','' #
      CHR 0x22 # k2 @ CHR 0x22 # CHR '':'' # CHR 0x22 # v2 @ [CHR 0x22, CHR 0x7D]"
  have "parse_value (Suc (Suc (Suc (Suc 0)))) 0 ?s = Some (JObject [(k1, JString v1), (k2, JString v2)], [])"
    by (simp add: ws u hp)
  then have "parse_value (2 * length ?s + 1) 0 ?s = Some (JObject [(k1, JString v1), (k2, JString v2)], [])"
    by (rule parse_fuel_mono(1)) simp
  then show ?thesis by (simp only: parse_json_def bind.bind_lunit prod.case skip_ws_simps if_True simp_thms)
qed

lemma unquote_list_all: "list_all plain s \<Longrightarrow> unquote (s @ CHR 0x22 # t) = Some (s, t)"
  by (rule unquote_plain) (auto simp: list_all_iff)

lemma parse_one_member:
  assumes "list_all plain k" "list_all plain v"
  shows "parse_json (CHR 0x7B # CHR 0x22 # k @ CHR 0x22 # CHR '':'' # CHR 0x22 # v @ [CHR 0x22, CHR 0x7D])
    = Some (JObject [(k, JString v)])"
proof -
  have ws: "\<not> is_ws (CHR 0x22)" "\<not> is_ws (CHR 0x7B)" "\<not> is_ws (CHR 0x7D)" "\<not> is_ws (CHR '':'')"
    by (simp_all add: is_ws_def)
  have hp: "\<not> HasPrefix (CHR 0x22 # s) [CHR 0x7D]" for s by (simp add: HasPrefix_iff)
  let ?s = "CHR 0x7B # CHR 0x22 # k @ CHR 0x22 # CHR '':'' # CHR 0x22 # v @ [CHR 0x22, CHR 0x7D]"
  have "parse_value (Suc (Suc (Suc 0))) 0 ?s = Some (JObject [(k, JString v)], [])"
    by (simp add: ws hp unquote_list_all assms)
  then have "parse_value (2 * length ?s + 1) 0 ?s = Some (JObject [(k, JString v)], [])"
    by (rule parse_fuel_mono(1)) simp
  then show ?thesis by (simp only: parse_json_def bind.bind_lunit prod.case skip_ws_simps if_True simp_thms)
qed

end
