(* ===== verification/Task_Http.thy ===== *)
theory Task_Http
  imports Task_Store Go_JSON
begin

text \<open>
  What the HTTP layers of the fixtures share (\<open>internal/httpapi/handler.go\<close>): problem
  documents, replies and the bounded, strict decoding of a request body. A request carries
  the outcome of \<open>mime.ParseMediaType\<close> on its content type, its body, the path parameter
  \<open>taskId\<close>, the values of \<open>If-Match\<close> and the query parameters. A reply carries the value
  that is handed to the JSON encoder.
\<close>

record problem =
  Type :: string
  problem_Title :: string
  problem_Status :: nat
  Detail :: string

record request =
  media_type :: "string option"
  request_body :: string
  taskId :: string
  if_match :: "string list"
  query :: "string \<rightharpoonup> string list"

datatype 'r payload = Item 'r | Items "'r list" "string option" | Problem problem

record 'r response =
  status :: nat
  headers :: "(string \<times> string) list"
  payload :: "'r payload option"

definition validationProblem :: problem where
  "validationProblem = \<lparr>Type = ''urn:problem:validation'', problem_Title = ''Validation failed'',
     problem_Status = 400, Detail = ''The request is invalid.''\<rparr>"

definition notFoundProblem :: problem where
  "notFoundProblem = \<lparr>Type = ''urn:problem:not-found'', problem_Title = ''Task not found'',
     problem_Status = 404, Detail = ''The requested task does not exist.''\<rparr>"

definition internalProblem :: problem where
  "internalProblem = \<lparr>Type = ''urn:problem:internal'', problem_Title = ''Internal server error'',
     problem_Status = 500, Detail = ''The server could not complete the request.''\<rparr>"

definition writeProblem :: "problem \<Rightarrow> 'r response" where
  "writeProblem value = \<lparr>status = problem_Status value,
     headers = [(''Content-Type'', ''application/problem+json'')], payload = Some (Problem value)\<rparr>"

definition writeJSON :: "nat \<Rightarrow> 'r payload \<Rightarrow> 'r response" where
  "writeJSON code value = \<lparr>status = code, headers = [(''Content-Type'', ''application/json'')],
     payload = Some value\<rparr>"

definition writeHeader :: "nat \<Rightarrow> 'r response" where
  "writeHeader code = \<lparr>status = code, headers = [], payload = None\<rparr>"

definition writeServiceError :: "task_error \<Rightarrow> 'r response" where
  "writeServiceError err =
     (case err of ErrInvalid \<Rightarrow> writeProblem validationProblem
      | ErrNotFound \<Rightarrow> writeProblem notFoundProblem
      | _ \<Rightarrow> writeProblem internalProblem)"

abbreviation maxRequestBody :: nat where
  "maxRequestBody \<equiv> 1048576"

text \<open>
  \<open>decodeJSON\<close>: a body beyond the limit makes the second \<open>Decode\<close> fail at the latest,
  since that one has to reach the end of the body.
\<close>

definition decodeJSON :: "string list \<Rightarrow> (string \<Rightarrow> json \<Rightarrow> 'a \<Rightarrow> 'a option) \<Rightarrow> 'a \<Rightarrow> string \<Rightarrow> 'a option" where
  "decodeJSON names store zero text =
     (if length text > maxRequestBody then None
      else Option.bind (parse_json text) (\<lambda>v. decode_struct names store v zero))"

text \<open>\<open>createTaskRequest\<close>: one field \<open>title\<close> of type \<open>string\<close>.\<close>

definition decode_create :: "string \<Rightarrow> string option" where
  "decode_create text = decodeJSON [''title''] (\<lambda>_ v old. decode_string v old) '''' text"

definition is_json :: "request \<Rightarrow> bool" where
  "is_json r \<longleftrightarrow> media_type r = Some ''application/json''"

lemmas problem_defs = validationProblem_def notFoundProblem_def internalProblem_def
lemmas reply_defs = writeProblem_def writeJSON_def writeHeader_def

lemma writeServiceError_status:
  "status (writeServiceError e) = (case e of ErrInvalid \<Rightarrow> 400 | ErrNotFound \<Rightarrow> 404 | _ \<Rightarrow> 500)"
  by (cases e) (simp_all add: writeServiceError_def reply_defs problem_defs)

section \<open>Concrete requests\<close>

definition sample_bytes :: bytes where
  "sample_bytes = [0, 1, 2, 3, 4, 5, 70, 7, 136, 9, 10, 11, 12, 13, 14, 15]"

definition sample_call :: db_call where
  "sample_call = \<lparr>fault = NoFault, fault2 = NoFault, clock = 1000000\<rparr>"

definition sample_request :: "string \<Rightarrow> string \<Rightarrow> request" where
  "sample_request tid text = \<lparr>media_type = Some ''application/json'', request_body = text,
     taskId = tid, if_match = [], query = Map.empty\<rparr>"

definition title_body :: "string \<Rightarrow> string" where
  "title_body title =
     CHR 0x7B # CHR 0x22 # ''title'' @ CHR 0x22 # CHR '':'' # CHR 0x22 # title @ [CHR 0x22, CHR 0x7D]"

lemma decode_title_body:
  assumes "list_all plain title" "length title \<le> 1000"
  shows "decode_create (title_body title) = Some title"
proof -
  have "list_all plain ''title''" by (simp add: plain_def)
  from parse_one_member [OF this assms(1)]
  have "parse_json (title_body title) = Some (JObject [(''title'', JString title)])"
    by (simp only: title_body_def)
  moreover have "length (title_body title) \<le> maxRequestBody" using assms(2) by (simp add: title_body_def)
  ultimately show ?thesis
    by (simp add: decode_create_def decodeJSON_def decode_struct_def select_field_def decode_string_def)
qed

lemma sample_title: "normalizeTitle ''a'' = Inr ''a''" "RuneCount ''a'' = 1"
  by (simp_all add: normalizeTitle_def TrimSpace_def RuneCount_code TrimLeftSpace_code TrimRightSpace_code
        DecodeLastRune_def DecodeRune_def byte_at_def IsSpace_def)

lemma sample_clock: "clock_ok (clock sample_call)"
proof -
  have "year_of_days 719162 = (1970, 0)" by (simp add: year_of_days_def)
  then have "year_of 1000000 = 1970" by (simp add: year_of_def time_fields_def case_prod_beta)
  then show ?thesis by (simp add: clock_ok_def sample_call_def)
qed

lemma sample_uuid: "newUUID (Inr sample_bytes) = Inr (uuid_format sample_bytes)" "length sample_bytes = 16"
  by (simp_all add: newUUID_def sample_bytes_def)

lemma canonical_id_format: "length b = 16 \<Longrightarrow> canonical_id (uuid_format b) = uuid_format b"
  by (simp add: canonical_id_def uuid_value_format)

lemma sample_call_ok: "fault sample_call = NoFault"
  by (simp add: sample_call_def)

end
