(* ===== verification/Service_Base.thy ===== *)
theory Service_Base
  imports Task_Http
begin

text \<open>
  \<open>fixtures/base2-direct\<close>: the task service and its HTTP handlers. The service calls the
  Go interface \<open>Repository\<close>; the locale \<open>task_repository\<close> states what it relies on, the
  client lemmas are proved once inside it, and the PostgreSQL repository interprets it.
\<close>

section \<open>The service\<close>

definition Service_Create :: "('t, 'db, 'z) Repository_scheme \<Rightarrow> db_call \<Rightarrow> string + bytes \<Rightarrow> string \<Rightarrow> 'db
    \<Rightarrow> (task_error + 't) \<times> 'db" where
  "Service_Create R call random title db =
     (case normalizeTitle title of
        Inl err \<Rightarrow> (Inl err, db)
      | Inr title \<Rightarrow>
          (case newUUID random of
             Inl err \<Rightarrow> (Inl (ErrOther (''generate task ID: '' @ err)), db)
           | Inr tid \<Rightarrow> repo_Create R call tid title db))"

definition Service_Get :: "('t, 'db, 'z) Repository_scheme \<Rightarrow> db_call \<Rightarrow> string \<Rightarrow> 'db
    \<Rightarrow> (task_error + 't) \<times> 'db" where
  "Service_Get R call tid db =
     (if \<not> validUUID tid then (Inl ErrInvalid, db) else repo_Get R call tid db)"

definition Service_List :: "(db_call \<Rightarrow> 'db \<Rightarrow> (task_error + 't list) \<times> 'db) \<Rightarrow> db_call \<Rightarrow> 'db
    \<Rightarrow> (task_error + 't list) \<times> 'db" where
  "Service_List list call db = list call db"

definition Service_Delete :: "('t, 'db, 'z) Repository_scheme \<Rightarrow> db_call \<Rightarrow> string \<Rightarrow> 'db
    \<Rightarrow> task_error option \<times> 'db" where
  "Service_Delete R call tid db =
     (if \<not> validUUID tid then (Some ErrInvalid, db) else repo_Delete R call tid db)"

section \<open>The handlers\<close>

record taskResponse =
  response_ID :: string
  response_Title :: string
  response_CreatedAt :: string

definition responseFromTask :: "'a task_scheme \<Rightarrow> taskResponse" where
  "responseFromTask value = \<lparr>response_ID = ID value, response_Title = Title value,
     response_CreatedAt = Format_micro (CreatedAt value)\<rparr>"

definition createTask :: "('a task_scheme, 'db, 'z) Repository_scheme \<Rightarrow> db_call \<Rightarrow> string + bytes \<Rightarrow> request \<Rightarrow> 'db
    \<Rightarrow> taskResponse response \<times> 'db" where
  "createTask R call random r db =
     (if \<not> is_json r then (writeProblem validationProblem, db)
      else case decode_create (request_body r) of
        None \<Rightarrow> (writeProblem validationProblem, db)
      | Some title \<Rightarrow>
          (case Service_Create R call random title db of
             (Inl err, db) \<Rightarrow> (writeServiceError err, db)
           | (Inr result, db) \<Rightarrow> (writeJSON 201 (Item (responseFromTask result)), db)))"

definition getTask :: "('a task_scheme, 'db, 'z) Repository_scheme \<Rightarrow> db_call \<Rightarrow> request \<Rightarrow> 'db
    \<Rightarrow> taskResponse response \<times> 'db" where
  "getTask R call r db =
     (case Service_Get R call (taskId r) db of
        (Inl err, db) \<Rightarrow> (writeServiceError err, db)
      | (Inr result, db) \<Rightarrow> (writeJSON 200 (Item (responseFromTask result)), db))"

definition listTasks :: "(db_call \<Rightarrow> 'db \<Rightarrow> (task_error + 'a task_scheme list) \<times> 'db) \<Rightarrow> db_call \<Rightarrow> 'db
    \<Rightarrow> taskResponse response \<times> 'db" where
  "listTasks list call db =
     (case Service_List list call db of
        (Inl err, db) \<Rightarrow> (writeServiceError err, db)
      | (Inr items, db) \<Rightarrow> (writeJSON 200 (Items (map responseFromTask items) None), db))"

definition deleteTask :: "('t, 'db, 'z) Repository_scheme \<Rightarrow> db_call \<Rightarrow> request \<Rightarrow> 'db
    \<Rightarrow> 'r response \<times> 'db" where
  "deleteTask R call r db =
     (case Service_Delete R call (taskId r) db of
        (Some err, db) \<Rightarrow> (writeServiceError err, db)
      | (None, db) \<Rightarrow> (writeHeader 204, db))"

section \<open>The repository contract\<close>

text \<open>\<open>rand.Read\<close> fills the buffer or fails.\<close>

definition rand_ok :: "string + bytes \<Rightarrow> bool" where
  "rand_ok random \<longleftrightarrow> (case random of Inr v \<Rightarrow> length v = 16 | Inl _ \<Rightarrow> True)"

text \<open>
  \<open>contents\<close> is the set of tasks a repository state holds. A call answers from the contents,
  or it fails for a reason of its own (\<open>ErrOther\<close>); a failed call may or may not have had
  its effect.
\<close>

locale task_repository =
  fixes R :: "('a task_scheme, 'db, 'z) Repository_scheme"
    and contents :: "'db \<Rightarrow> 'a task_scheme list"
  assumes create: "db_ok (contents db) \<Longrightarrow> validUUID tid \<Longrightarrow> normalizeTitle title = Inr title \<Longrightarrow>
      clock_ok (clock call) \<Longrightarrow> repo_Create R call tid title db = (res, db') \<Longrightarrow>
      db_ok (contents db')
      \<and> (case res of
           Inr t \<Rightarrow> contents db' = contents db @ [t] \<and> same_id tid t \<and> Title t = title \<and> CreatedAt t = clock call
         | Inl e \<Rightarrow> \<exists>m. e = ErrOther m)"
    and get: "repo_Get R call tid db = (res, db') \<Longrightarrow>
      contents db' = contents db
      \<and> (case res of
           Inr t \<Rightarrow> t \<in> set (contents db) \<and> same_id tid t
         | Inl e \<Rightarrow> (e = ErrNotFound \<and> \<not> list_ex (same_id tid) (contents db))
                    \<or> (\<exists>m. e = ErrOther m \<and> fault call \<noteq> NoFault))"
    and delete: "db_ok (contents db) \<Longrightarrow> repo_Delete R call tid db = (gone, db') \<Longrightarrow>
      db_ok (contents db')
      \<and> (case gone of
           None \<Rightarrow> list_ex (same_id tid) (contents db) \<and> contents db' = filter (\<lambda>t. \<not> same_id tid t) (contents db)
         | Some e \<Rightarrow> (e = ErrNotFound \<and> \<not> list_ex (same_id tid) (contents db) \<and> contents db' = contents db)
                    \<or> (\<exists>m. e = ErrOther m \<and> fault call \<noteq> NoFault))"
begin

lemma service_create:
  assumes "db_ok (contents db)" "clock_ok (clock call)" "rand_ok random"
    "Service_Create R call random title db = (res, db')"
  shows "db_ok (contents db')"
    "res = Inr t \<Longrightarrow> contents db' = contents db @ [t] \<and> validUUID (ID t) \<and> normalizeTitle title = Inr (Title t)
       \<and> CreatedAt t = clock call"
    "res = Inl e \<Longrightarrow> e = ErrInvalid \<and> db' = db \<or> (\<exists>m. e = ErrOther m)"
proof -
  consider (title) e where "normalizeTitle title = Inl e" "res = Inl e" "db' = db"
    | (rand) title' e where "normalizeTitle title = Inr title'" "newUUID random = Inl e"
        "res = Inl (ErrOther (''generate task ID: '' @ e))" "db' = db"
    | (repo) title' tid where "normalizeTitle title = Inr title'" "newUUID random = Inr tid"
        "repo_Create R call tid title' db = (res, db')"
    using assms(4) by (auto simp: Service_Create_def split: sum.splits)
  then have "db_ok (contents db')
    \<and> (\<forall>t. res = Inr t \<longrightarrow> contents db' = contents db @ [t] \<and> validUUID (ID t)
          \<and> normalizeTitle title = Inr (Title t) \<and> CreatedAt t = clock call)
    \<and> (\<forall>e. res = Inl e \<longrightarrow> e = ErrInvalid \<and> db' = db \<or> (\<exists>m. e = ErrOther m))"
  proof cases
    case title
    then show ?thesis using assms(1) normalizeTitle_Inl by auto
  next
    case rand
    then show ?thesis using assms(1) by auto
  next
    case repo
    obtain v where v: "random = Inr v" using repo(2) by (cases random) (auto simp: newUUID_def)
    have valid: "validUUID tid" using newUUID_valid v repo(2) assms(3) by (auto simp: rand_ok_def)
    note c = create [OF assms(1) valid normalizeTitle_idem [OF repo(1)] assms(2) repo(3)]
    show ?thesis
    proof (cases res)
      case (Inr t)
      then have "same_id tid t" using c by simp
      then have "validUUID (ID t)" using valid uuid_value_valid unfolding same_id_def by metis
      then show ?thesis using c Inr repo(1) by auto
    qed (use c in auto)
  qed
  then show "db_ok (contents db')"
    "res = Inr t \<Longrightarrow> contents db' = contents db @ [t] \<and> validUUID (ID t) \<and> normalizeTitle title = Inr (Title t)
       \<and> CreatedAt t = clock call"
    "res = Inl e \<Longrightarrow> e = ErrInvalid \<and> db' = db \<or> (\<exists>m. e = ErrOther m)" by auto
qed

lemma service_get:
  assumes "db_ok (contents db)" "fault call = NoFault" "validUUID tid"
  shows "fst (Service_Get R call tid db)
    = (case find (same_id tid) (contents db) of Some t \<Rightarrow> Inr t | None \<Rightarrow> Inl ErrNotFound)"
proof -
  obtain res db' where r: "repo_Get R call tid db = (res, db')" by (cases "repo_Get R call tid db")
  show ?thesis
  proof (cases res)
    case (Inl e)
    then have "find (same_id tid) (contents db) = None" "e = ErrNotFound"
      using get [OF r] assms(2) by (auto simp: find_None_iff list_ex_iff)
    then show ?thesis using r Inl assms(3) by (simp add: Service_Get_def)
  next
    case (Inr t)
    then have "find (same_id tid) (contents db) = Some t"
      using get [OF r] find_same_id [OF assms(1)] by auto
    then show ?thesis using r Inr assms(3) by (simp add: Service_Get_def)
  qed
qed

lemma service_get_state: "contents (snd (Service_Get R call tid db)) = contents db"
  by (cases "repo_Get R call tid db") (use get in \<open>auto simp: Service_Get_def\<close>)

lemma service_delete:
  assumes "db_ok (contents db)" "Service_Delete R call tid db = (res, db')"
  shows "db_ok (contents db')"
    "res = None \<Longrightarrow> validUUID tid \<and> list_ex (same_id tid) (contents db)
       \<and> contents db' = filter (\<lambda>t. \<not> same_id tid t) (contents db)"
    "res = Some e \<Longrightarrow> fault call = NoFault \<Longrightarrow>
       contents db' = contents db \<and> (e = ErrInvalid \<and> \<not> validUUID tid
         \<or> e = ErrNotFound \<and> validUUID tid \<and> \<not> list_ex (same_id tid) (contents db))"
  using assms delete [of db call tid res db'] by (auto simp: Service_Delete_def split: if_splits)

text \<open>What was created is found again, and what was deleted is not.\<close>

lemma create_then_get:
  assumes "db_ok (contents db)" "clock_ok (clock call)" "rand_ok random"
    "Service_Create R call random title db = (Inr t, db')" "fault call' = NoFault"
  shows "fst (Service_Get R call' (ID t) db') = Inr t"
proof -
  note c = service_create [OF assms(1-4)]
  have "find (same_id (ID t)) (contents db') = Some t"
    using c(1) c(2) [OF refl] by (intro find_same_id) (auto simp: same_id_def)
  then show ?thesis using service_get [OF c(1) assms(5)] c(2) [OF refl] by simp
qed

lemma delete_then_get:
  assumes "db_ok (contents db)" "Service_Delete R call tid db = (None, db')" "fault call' = NoFault"
  shows "fst (Service_Get R call' tid db') = Inl ErrNotFound"
proof -
  note d = service_delete [OF assms(1,2)]
  have "find (same_id tid) (contents db') = None" using d(2) [OF refl] by (auto simp: find_None_iff)
  then show ?thesis using service_get [OF d(1) assms(3)] d(2) [OF refl] by simp
qed

end

section \<open>PostgreSQL meets the contract\<close>

text \<open>The rows of the base schema, and the default columns of every schema built on it.\<close>

definition mk_task :: "string \<Rightarrow> string \<Rightarrow> int \<Rightarrow> task" where
  "mk_task tid title now = \<lparr>ID = tid, Title = title, CreatedAt = now\<rparr>"

lemma row_ok_canonical:
  assumes "validUUID (ID r)" "normalizeTitle (Title r) = Inr (Title r)" "storable (Title r)" "clock_ok (CreatedAt r)"
  shows "row_ok (r\<lparr>ID := canonical_id (ID r)\<rparr>)"
proof -
  obtain b where b: "uuid_value (ID r) = Some b" using assms(1) uuid_value_valid by blast
  with assms show ?thesis by (auto simp: row_ok_def canonical_id_def dest: uuid_value_length)
qed

lemma pg_create_law:
  assumes "db_ok db" "validUUID tid" "normalizeTitle title = Inr title" "clock_ok (clock call)"
    "pg_Create mk call tid title db = (res, db')"
    and mk: "ID (mk tid title (clock call)) = tid" "Title (mk tid title (clock call)) = title"
      "CreatedAt (mk tid title (clock call)) = clock call"
  shows "db_ok db' \<and> (case res of
           Inr t \<Rightarrow> db' = db @ [t] \<and> same_id tid t \<and> Title t = title \<and> CreatedAt t = clock call
         | Inl e \<Rightarrow> \<exists>m. e = ErrOther m)"
proof -
  let ?r = "(mk tid title (clock call))\<lparr>ID := canonical_id tid\<rparr>"
  show ?thesis
  proof (cases "row_allowed ?r db")
    case False
    then have "sql_insert (fault call) (mk tid title (clock call)) db
        = run_query (fault call) (DbError ''constraint violation'') db db"
      using mk by (simp add: sql_insert_def)
    then show ?thesis using assms(1,5)
      by (auto simp: pg_Create_def run_query_def split: db_fault.splits)
  next
    case True
    have "row_ok ?r"
      using row_ok_canonical [of "mk tid title (clock call)"] assms mk True by (simp add: row_allowed_def)
    then have ok: "db_ok (db @ [?r])"
      using assms(1) True by (intro db_ok_append) (auto simp: row_allowed_def)
    have "sql_insert (fault call) (mk tid title (clock call)) db = run_query (fault call) (Rows ?r) db (db @ [?r])"
      using mk True by (simp add: sql_insert_def Let_def)
    then show ?thesis using assms(1,5) ok mk canonical_id_uuid [OF assms(2)]
      by (auto simp: pg_Create_def run_query_def same_id_def split: db_fault.splits)
  qed
qed

lemma pg_get_law:
  assumes "pg_Get call tid db = (res, db')"
  shows "db' = db \<and> (case res of
           Inr t \<Rightarrow> t \<in> set db \<and> same_id tid t
         | Inl e \<Rightarrow> (e = ErrNotFound \<and> \<not> list_ex (same_id tid) db) \<or> (\<exists>m. e = ErrOther m \<and> fault call \<noteq> NoFault))"
  using assms
  by (auto simp: pg_Get_def sql_get_def run_query_def find_None_iff list_ex_iff
      split: db_fault.splits option.splits dest!: find_Some_same)

lemma pg_delete_law:
  assumes "db_ok db" "pg_Delete call tid db = (res, db')"
  shows "db_ok db' \<and> (case res of
           None \<Rightarrow> list_ex (same_id tid) db \<and> db' = filter (\<lambda>t. \<not> same_id tid t) db
         | Some e \<Rightarrow> (e = ErrNotFound \<and> \<not> list_ex (same_id tid) db \<and> db' = db)
                    \<or> (\<exists>m. e = ErrOther m \<and> fault call \<noteq> NoFault))"
proof -
  have none: "filter (\<lambda>t. \<not> same_id tid t) db = db" if "find (same_id tid) db = None"
    using that by (auto simp: find_None_iff filter_id_conv)
  show ?thesis
    using assms db_ok_filter [OF assms(1)] none
    by (auto simp: pg_Delete_def sql_delete_def run_query_def find_None_iff list_ex_iff
        split: db_fault.splits option.splits dest!: find_Some_same)
qed

interpretation base: task_repository "pg_repository mk_task" "\<lambda>db. db"
proof (unfold_locales, goal_cases)
  case (1 db tid title call res db')
  then show ?case
    using pg_create_law [of db tid title call mk_task res db'] by (simp add: pg_repository_def mk_task_def)
next
  case (2 call tid db res db')
  then show ?case using pg_get_law [of call tid db res db'] by (simp add: pg_repository_def)
next
  case (3 db call tid gone db')
  then show ?case using pg_delete_law [of db call tid gone db'] by (simp add: pg_repository_def)
qed

section \<open>Histories of requests\<close>

text \<open>
  One request handled by the service: what it answers and the table it leaves behind. The
  clock of the database and the random source are whatever the environment delivers.
\<close>

inductive base_step :: "task list \<Rightarrow> taskResponse response \<Rightarrow> task list \<Rightarrow> bool" where
  create: "clock_ok (clock call) \<Longrightarrow> rand_ok random \<Longrightarrow>
     createTask (pg_repository mk_task) call random r db = (resp, db') \<Longrightarrow> base_step db resp db'"
| get: "getTask (pg_repository mk_task) call r db = (resp, db') \<Longrightarrow> base_step db resp db'"
| list: "listTasks pg_List call db = (resp, db') \<Longrightarrow> base_step db resp db'"
| delete: "deleteTask (pg_repository mk_task) call r db = (resp, db') \<Longrightarrow> base_step db resp db'"

inductive base_reachable :: "task list \<Rightarrow> bool" where
  empty: "base_reachable []"
| step: "base_reachable db \<Longrightarrow> base_step db resp db' \<Longrightarrow> base_reachable db'"

lemma createTask_cases:
  assumes "createTask R call random r db = (resp, db')"
  obtains (bad) "\<not> is_json r \<or> decode_create (request_body r) = None"
      "resp = writeProblem validationProblem" "db' = db"
  | (err) title e where "is_json r" "decode_create (request_body r) = Some title"
      "Service_Create R call random title db = (Inl e, db')" "resp = writeServiceError e"
  | (ok) title t where "is_json r" "decode_create (request_body r) = Some title"
      "Service_Create R call random title db = (Inr t, db')" "resp = writeJSON 201 (Item (responseFromTask t))"
  using assms by (auto simp: createTask_def split: if_splits option.splits prod.splits sum.splits)

lemma getTask_state: "snd (getTask (pg_repository mk_task) call r db) = db"
  using base.service_get_state [of call "taskId r" db]
  by (auto simp: getTask_def split: prod.splits sum.splits)

lemma listTasks_state: "snd (listTasks pg_List call db) = db"
  by (auto simp: listTasks_def Service_List_def pg_List_def split: prod.splits sum.splits)

lemma deleteTask_cases:
  assumes "deleteTask R call r db = (resp, db')"
  obtains (err) e where "Service_Delete R call (taskId r) db = (Some e, db')" "resp = writeServiceError e"
  | (ok) "Service_Delete R call (taskId r) db = (None, db')" "resp = writeHeader 204"
  using assms by (auto simp: deleteTask_def split: prod.splits option.splits)

lemma base_step_ok: "base_step db resp db' \<Longrightarrow> db_ok db \<Longrightarrow> db_ok db'"
proof (induction rule: base_step.induct)
  case (create call random r db resp db')
  from create(3) show ?case
  proof (cases rule: createTask_cases)
    case bad
    then show ?thesis using create.prems by simp
  next
    case (err title e)
    then show ?thesis using base.service_create(1) create by blast
  next
    case (ok title t)
    then show ?thesis using base.service_create(1) create by blast
  qed
next
  case (get call r db resp db')
  then show ?case using getTask_state [of call r db] by simp
next
  case (list call db resp db')
  then show ?case using listTasks_state [of call db] by simp
next
  case (delete call r db resp db')
  from delete(1) show ?case
    by (cases rule: deleteTask_cases) (use base.service_delete(1) delete.prems in blast)+
qed

lemma base_reachable_ok: "base_reachable db \<Longrightarrow> db_ok db"
  by (induction rule: base_reachable.induct) (auto intro: base_step_ok)

lemma writeJSON_eq_iff: "writeJSON c p = writeJSON c q \<longleftrightarrow> p = q"
  by (simp add: writeJSON_def)

lemma writeJSON_not_error: "writeJSON c (Item i) \<noteq> writeServiceError e" "writeJSON c (Item i) \<noteq> writeProblem p"
  by (cases e) (simp_all add: writeServiceError_def writeJSON_def writeProblem_def)

lemma writeHeader_not_error: "writeHeader c \<noteq> writeServiceError e"
  by (cases e) (simp_all add: writeServiceError_def writeHeader_def writeProblem_def)

lemma responseFromTask_ID: "responseFromTask t = i \<Longrightarrow> response_ID i = ID t"
  by (auto simp: responseFromTask_def)

section \<open>Properties\<close>



text \<open>
  A created task is read back. When \<open>createTask\<close> answers 201 with a document, a
  \<open>getTask\<close> for the identifier in it that reaches the database answers 200 with the very
  same document, whose title is the normalised title of the request and whose time is the
  database clock.
\<close>

theorem create_then_get_http:
  assumes "base_reachable db" "clock_ok (clock call)" "rand_ok random"
    "createTask (pg_repository mk_task) call random r db = (writeJSON 201 (Item i), db')"
    "taskId q = response_ID i" "fault call' = NoFault"
  shows "getTask (pg_repository mk_task) call' q db' = (writeJSON 200 (Item i), db')
    \<and> (\<exists>title. decode_create (request_body r) = Some title \<and> normalizeTitle title = Inr (response_Title i))
    \<and> Parse_RFC3339 (response_CreatedAt i) = Some (clock call)"
proof -
  have ok: "db_ok db" using assms(1) by (rule base_reachable_ok)
  from assms(4) obtain title t where d: "decode_create (request_body r) = Some title"
    and s: "Service_Create (pg_repository mk_task) call random title db = (Inr t, db')"
    and i: "i = responseFromTask t"
    by (cases rule: createTask_cases) (auto simp: writeJSON_not_error writeJSON_eq_iff)
  note c = base.service_create [OF ok assms(2,3) s]
  have id: "taskId q = ID t" using assms(5) i by (simp add: responseFromTask_def)
  have "fst (Service_Get (pg_repository mk_task) call' (ID t) db') = Inr t"
    by (rule base.create_then_get [OF ok assms(2,3) s assms(6)])
  then have "getTask (pg_repository mk_task) call' q db' = (writeJSON 200 (Item i), db')"
    using getTask_state [of call' q db'] i id by (auto simp: getTask_def split: prod.splits)
  moreover have "Parse_RFC3339 (Format_micro (clock call)) = Some (clock call)"
    using assms(2) by (intro Parse_Format) (auto simp: clock_ok_def)
  ultimately show ?thesis using c(2) [OF refl] d i by (simp add: responseFromTask_def)
qed

definition sample_task :: task where
  "sample_task = \<lparr>ID = uuid_format sample_bytes, Title = ''a'', CreatedAt = 1000000\<rparr>"

lemma sample_created:
  "createTask (pg_repository mk_task) sample_call (Inr sample_bytes) (sample_request [] (title_body ''a'')) []
    = (writeJSON 201 (Item (responseFromTask sample_task)), [sample_task])"
proof -
  have "decode_create (title_body ''a'') = Some ''a''" by (rule decode_title_body) (simp_all add: plain_def)
  then show ?thesis
    using canonical_id_format [OF sample_uuid(2)]
    by (simp add: createTask_def is_json_def sample_request_def Service_Create_def sample_title sample_uuid
       pg_repository_def pg_Create_def sql_insert_def mk_task_def row_allowed_def storable_def run_query_def
       sample_call_def sample_task_def Let_def)
qed

theorem create_then_get_http_witness:
  "getTask (pg_repository mk_task) sample_call (sample_request (uuid_format sample_bytes) []) [sample_task]
     = (writeJSON 200 (Item (responseFromTask sample_task)), [sample_task])"
proof -
  have "rand_ok (Inr sample_bytes)" using sample_uuid(2) by (simp add: rand_ok_def)
  from create_then_get_http [OF base_reachable.empty sample_clock this sample_created,
      of "sample_request (uuid_format sample_bytes) []" sample_call]
  show ?thesis by (simp add: sample_request_def sample_task_def responseFromTask_def sample_call_def)
qed

text \<open>
  Deletion is final. After \<open>deleteTask\<close> answers 204, \<open>getTask\<close> and \<open>deleteTask\<close> for any
  spelling of that identifier that reach the database answer 404, and every other task is
  untouched.
\<close>

theorem delete_is_final_http:
  assumes "base_reachable db" "deleteTask (pg_repository mk_task) call r db = (writeHeader 204, db')"
    "uuid_value (taskId q) = uuid_value (taskId r)" "fault call' = NoFault"
  shows "getTask (pg_repository mk_task) call' q db' = (writeProblem notFoundProblem, db')
    \<and> deleteTask (pg_repository mk_task) call' q db' = (writeProblem notFoundProblem, db')
    \<and> set db' = {t \<in> set db. \<not> same_id (taskId r) t}"
proof -
  have ok: "db_ok db" using assms(1) by (rule base_reachable_ok)
  from assms(2) have s: "Service_Delete (pg_repository mk_task) call (taskId r) db = (None, db')"
    by (cases rule: deleteTask_cases) (simp_all add: writeHeader_not_error)
  note d = base.service_delete [OF ok s]
  have valid: "validUUID (taskId q)" using d(2) [OF refl] assms(3) uuid_value_valid by metis
  have same: "same_id (taskId q) t = same_id (taskId r) t" for t :: task using assms(3) by (simp add: same_id_def)
  have none: "\<not> list_ex (same_id (taskId q)) db'" using d(2) [OF refl] same by (auto simp: list_ex_iff)
  then have "find (same_id (taskId q)) db' = None" by (auto simp: find_None_iff list_ex_iff)
  then have "fst (Service_Get (pg_repository mk_task) call' (taskId q) db') = Inl ErrNotFound"
    using base.service_get [OF d(1) assms(4) valid] by simp
  then have "getTask (pg_repository mk_task) call' q db' = (writeProblem notFoundProblem, db')"
    using getTask_state [of call' q db'] by (auto simp: getTask_def writeServiceError_def split: prod.splits)
  moreover obtain res db2 where s2: "Service_Delete (pg_repository mk_task) call' (taskId q) db' = (res, db2)"
    by (cases "Service_Delete (pg_repository mk_task) call' (taskId q) db'")
  have "res = Some ErrNotFound \<and> db2 = db'"
    using base.service_delete(2,3) [OF d(1) s2] none valid assms(4) by (cases res) auto
  then have "deleteTask (pg_repository mk_task) call' q db' = (writeProblem notFoundProblem, db')"
    using s2 by (simp add: deleteTask_def writeServiceError_def)
  ultimately show ?thesis using d(2) [OF refl] by auto
qed

theorem delete_is_final_http_witness:
  "getTask (pg_repository mk_task) sample_call (sample_request (uuid_format sample_bytes) []) []
     = (writeProblem notFoundProblem, [])"
proof -
  let ?q = "sample_request (uuid_format sample_bytes) []"
  have reach: "base_reachable [sample_task]"
    by (rule base_reachable.step [OF base_reachable.empty base_step.create [OF sample_clock _ sample_created]])
      (use sample_uuid(2) in \<open>simp add: rand_ok_def\<close>)
  have "validUUID (uuid_format sample_bytes)" using sample_uuid(2) by (rule validUUID_format)
  then have "deleteTask (pg_repository mk_task) sample_call ?q [sample_task] = (writeHeader 204, [])"
    by (simp add: deleteTask_def Service_Delete_def pg_repository_def pg_Delete_def sql_delete_def run_query_def
        sample_call_def sample_request_def sample_task_def same_id_def)
  from delete_is_final_http [OF reach this refl sample_call_ok] show ?thesis by blast
qed

text \<open>
  A listing that reaches the database holds every stored task exactly once, in strictly
  increasing order of creation time and identifier, and leaves the table alone.
\<close>

theorem list_complete_sorted_http:
  assumes "base_reachable db" "fault call = NoFault"
  shows "\<exists>rows. listTasks pg_List call db = (writeJSON 200 (Items (map responseFromTask rows) None), db)
    \<and> mset rows = mset db \<and> sorted_wrt (<) (map order_key rows)"
proof -
  have ok: "db_ok db" using assms(1) by (rule base_reachable_ok)
  have "distinct (map order_key (sql_list db))"
    using order_key_inj [OF ok] ok mset_sql_list [of db]
    by (auto simp: distinct_map inj_on_def db_ok_def sql_list_def)
  then have "sorted_wrt (<) (map order_key (sql_list db))"
    using sql_list_sorted [of db] by (simp add: sorted_strict_distinct)
  then show ?thesis
    using assms(2) mset_sql_list [of db]
    by (intro exI [of _ "sql_list db"]) (simp add: listTasks_def Service_List_def pg_List_def read_rows_def)
qed

theorem list_complete_sorted_http_witness:
  "\<exists>rows. listTasks pg_List sample_call ([] :: task list) = (writeJSON 200 (Items (map responseFromTask rows) None), [])
    \<and> mset rows = {#} \<and> sorted_wrt (<) (map order_key rows)"
  using list_complete_sorted_http [OF base_reachable.empty, of sample_call] by (simp add: sample_call_def)

text \<open>
  A title with a zero byte passes the checks of the service and is refused by the database, so
  the client gets an internal error for what is an invalid request.
\<close>

lemma nul_title_internal_error:
  assumes "is_json r" "decode_create (request_body r) = Some title" "normalizeTitle title = Inr u"
    "CHR 0x00 \<in> set u" "newUUID random = Inr tid" "fault call = NoFault"
  shows "createTask (pg_repository mk_task) call random r db = (writeProblem internalProblem, db)"
  using assms
  by (simp add: createTask_def Service_Create_def pg_repository_def pg_Create_def sql_insert_def row_allowed_def
      storable_def run_query_def mk_task_def writeServiceError_def)

end
