(* ===== verification/Freeze_Schema.thy ===== *)
theory Freeze_Schema
  imports Go_Strconv
begin

text \<open>
  \<open>harness/freezecheck/schema.go\<close> without the JSON Schema library: the in-place
  insertion sort, the diagnostics text and the TODO test. The sort is shown to be
  \<^const>\<open>sort\<close>, so what \<open>diagnostics\<close> prints does not depend on the order in
  which Go's maps deliver their keys.
\<close>

text \<open>The inner loop: swap the entry at \<open>j\<close> to the left while it is smaller.\<close>

fun sift_left :: "nat \<Rightarrow> 'a :: linorder list \<Rightarrow> 'a list" where
  "sift_left 0 vals = vals"
| "sift_left (Suc j) vals =
     (if vals ! Suc j < vals ! j
      then sift_left j (vals[Suc j := vals ! j, j := vals ! Suc j])
      else vals)"

definition sortStrings :: "'a :: linorder list \<Rightarrow> 'a list" where
  "sortStrings vals = fold sift_left [1..<length vals] vals"

definition isTODO :: "string \<Rightarrow> bool" where
  "isTODO value \<longleftrightarrow> length value \<ge> 4 \<and> take 4 value = ''TODO''"

definition diagnostics :: "string list \<Rightarrow> string option" where
  "diagnostics errors =
     (if length errors = 0 then None
      else Some (dec (length errors) @ '' validation error(s):''
             @ concat (map (\<lambda>message. CHR 0x0A # ''- '' @ message) (sortStrings errors))))"

section \<open>The sort is a sort\<close>

lemma insort_greater_snoc:
  fixes x :: "'a :: linorder"
  shows "sorted (zs @ [z]) \<Longrightarrow> x < z \<Longrightarrow> insort x (zs @ [z]) = insort x zs @ [z]"
  by (induction zs) auto

lemma insort_all_le:
  fixes x :: "'a :: linorder"
  shows "sorted zs \<Longrightarrow> \<forall>z \<in> set zs. z \<le> x \<Longrightarrow> insort x zs = zs @ [x]"
proof (induction zs)
  case (Cons z zs)
  show ?case
  proof (cases "x \<le> z")
    case True
    with Cons.prems have "x = z" by auto
    with Cons.prems have "\<forall>y \<in> set zs. y = x" by (auto intro: antisym)
    then have "zs = replicate (length zs) x"
      by (induction zs) auto
    with \<open>x = z\<close> show ?thesis
      by (metis append_Cons insort_key.simps(2) order_refl replicate_append_same)
  next
    case False
    with Cons show ?thesis by simp
  qed
qed simp

lemma sift_left_insort:
  "sorted xs \<Longrightarrow> sift_left (length xs) (xs @ x # ys) = insort x xs @ ys"
proof (induction xs arbitrary: ys rule: rev_induct)
  case (snoc z zs)
  have at: "(zs @ [z]) @ x # ys = zs @ z # x # ys" by simp
  have n1: "(zs @ z # x # ys) ! Suc (length zs) = x" by (simp add: nth_append)
  have n0: "(zs @ z # x # ys) ! length zs = z" by (simp add: nth_append)
  show ?case
  proof (cases "x < z")
    case True
    have swap: "(zs @ z # x # ys)[Suc (length zs) := z, length zs := x] = zs @ x # z # ys"
      by (simp add: list_update_append)
    from snoc.prems have "sorted zs" by (simp add: sorted_append)
    then have "sift_left (length zs) (zs @ x # z # ys) = insort x zs @ z # ys" by (rule snoc.IH)
    then show ?thesis using True snoc.prems
      by (simp add: n0 n1 swap insort_greater_snoc)
  next
    case False
    with snoc.prems have "\<forall>y \<in> set (zs @ [z]). y \<le> x" by (auto simp: sorted_append)
    with snoc.prems have "insort x (zs @ [z]) = (zs @ [z]) @ [x]" by (rule insort_all_le)
    with False show ?thesis by (simp add: n0 n1)
  qed
qed simp

lemma fold_sift_sorted:
  "i \<le> length vals \<Longrightarrow> 0 < length vals \<Longrightarrow>
     fold sift_left [1..<i] vals = sort (take i vals) @ drop i vals
     \<or> i = 0"
proof (induction i)
  case (Suc i)
  show ?case
  proof (cases "i = 0")
    case True
    with Suc.prems show ?thesis by (cases vals) auto
  next
    case False
    with Suc have IH: "fold sift_left [1..<i] vals = sort (take i vals) @ drop i vals" by simp
    have i: "i < length vals" using Suc.prems by simp
    then have dr: "drop i vals = vals ! i # drop (Suc i) vals" by (rule Cons_nth_drop_Suc [symmetric])
    have len: "length (sort (take i vals)) = i" using i by simp
    have "[1..<Suc i] = [1..<i] @ [i]" using False by simp
    then have "fold sift_left [1..<Suc i] vals = sift_left i (sort (take i vals) @ drop i vals)"
      using IH by simp
    also have "\<dots> = insort (vals ! i) (sort (take i vals)) @ drop (Suc i) vals"
      using sift_left_insort [of "sort (take i vals)" "vals ! i" "drop (Suc i) vals"] len
      by (simp add: dr)
    also have "insort (vals ! i) (sort (take i vals)) = sort (take (Suc i) vals)"
      using i by (intro properties_for_sort [symmetric]) (auto simp: take_Suc_conv_app_nth sorted_insort)
    finally show ?thesis by simp
  qed
qed simp

lemma sortStrings_eq_sort: "sortStrings vals = sort vals"
proof (cases "vals = []")
  case False
  then have "fold sift_left [1..<length vals] vals = sort (take (length vals) vals) @ drop (length vals) vals"
    using fold_sift_sorted [of "length vals" vals] by auto
  then show ?thesis by (simp add: sortStrings_def)
qed (simp add: sortStrings_def)

lemma diagnostics_None_iff: "diagnostics errs = None \<longleftrightarrow> errs = []"
  by (simp add: diagnostics_def)

lemma diagnostics_order_irrelevant: "mset es = mset fs \<Longrightarrow> diagnostics es = diagnostics fs"
proof -
  assume eq: "mset es = mset fs"
  then have "length es = length fs" by (metis size_mset)
  moreover have "sort es = sort fs" using eq by (metis sorted_list_of_multiset_mset)
  ultimately show ?thesis by (simp add: diagnostics_def sortStrings_eq_sort)
qed

lemma isTODO_iff: "isTODO s \<longleftrightarrow> HasPrefix s ''TODO''"
proof
  assume "isTODO s"
  then have "s = ''TODO'' @ drop 4 s" by (metis isTODO_def append_take_drop_id)
  then show "HasPrefix s ''TODO''" by (metis HasPrefix_append)
next
  assume "HasPrefix s ''TODO''"
  then obtain t where "s = ''TODO'' @ t" by (auto simp: HasPrefix_iff)
  then show "isTODO s" by (simp add: isTODO_def)
qed

end
