(* ===== verification/Freeze_Types.thy ===== *)
theory Freeze_Types
  imports Freeze_Schema
begin

text \<open>
  \<open>harness/freezecheck/types.go\<close>: the decoded experiment configuration, schedule and
  run result. The anonymous structs nested in a Go type are records of their own here.
  A Go map read from JSON is an association list with the zero value for absent keys
  (\<open>lookup\<close>); its order stands for whatever order \<open>range\<close> delivers.
\<close>

type_synonym string_map = "(string \<times> string) list"

definition lookup :: "string_map \<Rightarrow> string \<Rightarrow> string" where
  "lookup m k = (case map_of m k of None \<Rightarrow> '''' | Some v \<Rightarrow> v)"

record cell =
  ID :: string
  Stage :: string
  Task :: string
  Mode :: string
  Treatment :: string

record frozen_inputs =
  ConfigRevision :: string
  DesignRevision :: string
  EvaluatorRevision :: string
  ResultSchemaRevision :: string
  EnvironmentImages :: string_map
  ScheduleManifest :: string
  Fixtures :: string_map
  Treatments :: string_map
  Tasks :: string_map

record execution_config =
  NetworkPolicyEnforcementStatus :: string
  Schedule :: string
  ScheduleSeed :: string

record experimentConfig =
  cfg_Status :: string
  Provider :: string
  Agent_Name :: string
  Agent_Version :: string
  FrozenInputs :: frozen_inputs
  Execution :: execution_config
  Cells :: "cell list"

record scheduleRun =
  Ordinal :: int
  RunID :: string
  CellID :: string
  RepeatIndex :: int

record schedule =
  Schema :: string
  SchemaVersion :: int
  Status :: string
  Strategy :: string
  Algorithm :: string
  Seed :: string
  GeneratedAt :: "string option"
  schedule_ConfigRevision :: string
  Runs :: "scheduleRun list"

record infrastructure =
  IsFailure :: bool
  Category :: "string option"
  Evidence :: "string option"
  ExclusionEligible :: bool
  Excluded :: bool
  ReplacementRunID :: "string option"
  ReplacesRunID :: "string option"

record artifacts =
  Metadata :: string
  Transcript :: string
  FinalPatch :: string
  Commands :: string
  Evaluation_file :: string
  WorkspaceManifest :: string

record behaviorCase =
  case_ID :: string
  Applicable :: bool
  Passed :: "bool option"
  case_Evidence :: "string option"

record evaluation =
  CompleteSuccess :: bool
  CommonGates :: "(string \<times> bool) list"
  BehaviorCases :: "behaviorCase list"

record runResult =
  run_RunID :: string
  run_CellID :: string
  run_RepeatIndex :: int
  run_Phase :: string
  run_Stage :: string
  run_Task :: string
  run_Mode :: string
  run_Treatment :: string
  run_Status :: string
  Infrastructure :: infrastructure
  Artifacts :: artifacts
  Evaluation :: "evaluation option"

record manifest_case =
  mc_ID :: string
  mc_Task :: string
  Required :: bool

type_synonym caseManifest = "manifest_case list"

lemma lookup_Nil [simp]: "lookup [] k = ''''"
  by (simp add: lookup_def)

lemma lookup_Cons [simp]: "lookup ((k', v) # m) k = (if k = k' then v else lookup m k)"
  by (simp add: lookup_def)

end
