(* ===== verification/Freeze_Stream.thy ===== *)
theory Freeze_Stream
  imports Go_Sha256 Freeze_Schema
begin

text \<open>
  The random source of \<open>harness/freezecheck/schedule.go\<close>: a stream of 64 bit values cut
  from SHA-256 digests of a counter, rejection sampling and the Fisher-Yates shuffle.
  \<open>uintn\<close> loops until a value is accepted, so it is a partial function whose value
  \<^const>\<open>None\<close> stands for a call that never returns. Shown here: the result of \<open>uintn n\<close>
  is below \<open>n\<close> and every residue is accepted for the same number of 64 bit values; the
  shuffle permutes, and every order is reached by exactly one sequence of draws.
\<close>

record counterStream =
  prefix :: bytes
  counter :: "64 word"
  buffer :: bytes

definition newCounterStream :: "string \<Rightarrow> string \<Rightarrow> counterStream" where
  "newCounterStream seed phase =
     \<lparr>prefix = bytes_of_string (''freezecheck-schedule-v1'' @ [CHR 0x00] @ seed @ [CHR 0x00] @ phase @ [CHR 0x00]),
      counter = 0, buffer = []\<rparr>"

definition next64 :: "counterStream \<Rightarrow> 64 word \<times> counterStream" where
  "next64 s =
     (let s = (if length (buffer s) < 8
               then s\<lparr>counter := counter s + 1,
                      buffer := buffer s @ Sum256 (prefix s @ PutUint64 (counter s))\<rparr>
               else s)
      in (Uint64 (take 8 (buffer s)), s\<lparr>buffer := drop 8 (buffer s)\<rparr>))"

text \<open>One round of the loop of \<open>uintn\<close>: the returned residue, or \<^const>\<open>None\<close> to draw again.\<close>

definition accept :: "64 word \<Rightarrow> 64 word \<Rightarrow> 64 word option" where
  "accept n v = (let threshold = (- n) mod n in if v \<ge> threshold then Some (v mod n) else None)"

partial_function (option) uintn :: "64 word \<Rightarrow> counterStream \<Rightarrow> (64 word \<times> counterStream) option" where
  "uintn n s =
     (let (v, s) = next64 s
      in case accept n v of Some r \<Rightarrow> Some (r, s) | None \<Rightarrow> uintn n s)"

text \<open>The closure passed to \<open>shuffle\<close>: \<open>order[i], order[j] = order[j], order[i]\<close>.\<close>

definition swap_at :: "nat \<Rightarrow> nat \<Rightarrow> 'a list \<Rightarrow> 'a list" where
  "swap_at i j order = order[i := order ! j, j := order ! i]"

fun shuffle_from :: "nat \<Rightarrow> 'a list \<Rightarrow> counterStream \<Rightarrow> ('a list \<times> counterStream) option" where
  "shuffle_from 0 order s = Some (order, s)"
| "shuffle_from (Suc i) order s =
     Option.bind (uintn (of_nat (Suc i + 1)) s)
       (\<lambda>(j, s). shuffle_from i (swap_at (Suc i) (unat j) order) s)"

definition shuffle :: "'a list \<Rightarrow> counterStream \<Rightarrow> ('a list \<times> counterStream) option" where
  "shuffle order s = shuffle_from (length order - 1) order s"

section \<open>Rejection sampling\<close>

text \<open>The value a stream yields after \<open>k\<close> others, and the stream behind it.\<close>

fun stream_after :: "nat \<Rightarrow> counterStream \<Rightarrow> counterStream" where
  "stream_after 0 s = s"
| "stream_after (Suc k) s = stream_after k (snd (next64 s))"

definition draw :: "counterStream \<Rightarrow> nat \<Rightarrow> 64 word" where
  "draw s k = fst (next64 (stream_after k s))"

lemma stream_after_Suc: "stream_after (Suc k) s = snd (next64 (stream_after k s))"
  by (induction k arbitrary: s) simp_all

lemma stream_after_add: "stream_after (i + j) s = stream_after j (stream_after i s)"
  by (induction i arbitrary: s) simp_all

lemma draw_Suc: "draw s (Suc k) = draw (snd (next64 s)) k"
  by (simp add: draw_def)

lemma draw_after: "draw (stream_after i s) k = draw s (i + k)"
  by (simp add: draw_def stream_after_add)

lemma uintn_accept:
  "(- n) mod n \<le> draw s 0 \<Longrightarrow> uintn n s = Some (draw s 0 mod n, stream_after 1 s)"
  by (subst uintn.simps) (simp add: Let_def draw_def case_prod_beta accept_def)

lemma uintn_reject: "draw s 0 < (- n) mod n \<Longrightarrow> uintn n s = uintn n (stream_after 1 s)"
  by (subst uintn.simps) (simp add: Let_def draw_def case_prod_beta accept_def not_le [symmetric])

lemma uintn_first_accepted:
  assumes "(- n) mod n \<le> draw s k" "\<And>i. i < k \<Longrightarrow> draw s i < (- n) mod n"
  shows "uintn n s = Some (draw s k mod n, stream_after (Suc k) s)"
  using assms
proof (induction k arbitrary: s)
  case 0
  then show ?case by (simp add: uintn_accept)
next
  case (Suc k)
  let ?s = "stream_after 1 s"
  have "uintn n s = uintn n ?s" using Suc.prems(2) [of 0] by (simp add: uintn_reject)
  also have "\<dots> = Some (draw ?s k mod n, stream_after (Suc k) ?s)"
  proof (rule Suc.IH)
    show "(- n) mod n \<le> draw ?s k" using Suc.prems(1) by (simp add: draw_Suc)
    show "draw ?s i < (- n) mod n" if "i < k" for i
      using Suc.prems(2) [of "Suc i"] that by (simp add: draw_Suc)
  qed
  finally show ?case by (simp add: draw_Suc)
qed

abbreviation first_accepted :: "64 word \<Rightarrow> counterStream \<Rightarrow> nat \<Rightarrow> bool" where
  "first_accepted n s k \<equiv> (- n) mod n \<le> draw s k \<and> (\<forall>i<k. draw s i < (- n) mod n)"

lemma uintn_Some:
  assumes "uintn n s = Some r"
  shows "\<exists>k. first_accepted n s k \<and> r = (draw s k mod n, stream_after (Suc k) s)"
proof (rule uintn.raw_induct [OF _ assms])
  fix uintn' n s r
  assume IH: "\<And>n s r. uintn' n s = Some r \<Longrightarrow>
      \<exists>k. first_accepted n s k \<and> r = (draw s k mod n, stream_after (Suc k) s)"
    and body: "(let (v, s) = next64 s
      in case accept n v of Some r \<Rightarrow> Some (r, s) | None \<Rightarrow> uintn' n s) = Some r"
  show "\<exists>k. first_accepted n s k \<and> r = (draw s k mod n, stream_after (Suc k) s)"
  proof (cases "(- n) mod n \<le> draw s 0")
    case True
    with body have "r = (draw s 0 mod n, stream_after (Suc 0) s)"
      by (simp add: Let_def draw_def case_prod_beta accept_def)
    with True show ?thesis by (intro exI [of _ 0]) simp
  next
    case False
    with body have "uintn' n (snd (next64 s)) = Some r"
      by (simp add: Let_def draw_def case_prod_beta accept_def)
    from IH [OF this] obtain k where k: "(- n) mod n \<le> draw s (Suc k)"
      "\<forall>i<k. draw s (Suc i) < (- n) mod n" "r = (draw s (Suc k) mod n, stream_after (Suc (Suc k)) s)"
      by (auto simp: draw_Suc)
    moreover have "\<forall>i<Suc k. draw s i < (- n) mod n"
      using k(2) False by (auto simp: less_Suc_eq_0_disj)
    ultimately show ?thesis by blast
  qed
qed

lemma uintn_Some_iff:
  "uintn n s = Some r \<longleftrightarrow> (\<exists>k. (- n) mod n \<le> draw s k \<and> (\<forall>i<k. draw s i < (- n) mod n)
    \<and> r = (draw s k mod n, stream_after (Suc k) s))"
  using uintn_Some uintn_first_accepted by blast

text \<open>A call returns exactly when some value of the stream is accepted.\<close>

lemma uintn_returns_iff: "(\<exists>r. uintn n s = Some r) \<longleftrightarrow> (\<exists>k. (- n) mod n \<le> draw s k)"
proof
  assume "\<exists>k. (- n) mod n \<le> draw s k"
  then have "\<exists>k. (- n) mod n \<le> draw s k \<and> (\<forall>i<k. \<not> (- n) mod n \<le> draw s i)"
    by (rule exists_least_iff [THEN iffD1])
  then show "\<exists>r. uintn n s = Some r" by (auto simp: uintn_Some_iff not_le)
qed (auto simp: uintn_Some_iff)

lemma uintn_bound: "uintn n s = Some (v, s') \<Longrightarrow> n \<noteq> 0 \<Longrightarrow> v < n"
  by (auto simp: uintn_Some_iff word_mod_less_divisor word_gt_0)

text \<open>
  No bias: among the accepted 64 bit values every residue occurs equally often, namely
  \<open>2^64 div n\<close> times.
\<close>

lemma residue_count:
  fixes m n r :: nat
  assumes "r < n"
  shows "card {v. v < n * m \<and> v mod n = r} = m"
proof -
  have "{v. v < n * m \<and> v mod n = r} = (\<lambda>q. n * q + r) ` {..<m}"
  proof (intro equalityI subsetI)
    fix v assume "v \<in> {v. v < n * m \<and> v mod n = r}"
    then have v: "v < n * m" "v mod n = r" by auto
    then have "v = n * (v div n) + r" using mult_div_mod_eq [of n v] by simp
    moreover have "v div n < m" using v(1) assms by (simp add: div_less_iff_less_mult mult.commute)
    ultimately show "v \<in> (\<lambda>q. n * q + r) ` {..<m}" by blast
  next
    fix v assume "v \<in> (\<lambda>q. n * q + r) ` {..<m}"
    then obtain q where q: "v = n * q + r" "q < m" by auto
    then have "v < n * Suc q" using assms by simp
    also have "\<dots> \<le> n * m" using q(2) by (intro mult_le_mono) auto
    finally show "v \<in> {v. v < n * m \<and> v mod n = r}" using q assms by simp
  qed
  moreover have "inj_on (\<lambda>q. n * q + r) {..<m}" using assms by (auto simp: inj_on_def)
  ultimately show ?thesis by (simp add: card_image)
qed

lemma threshold_value:
  fixes n :: "64 word"
  assumes "n \<noteq> 0"
  shows "unat ((- n) mod n) = 2 ^ 64 mod unat n"
proof -
  have pos: "0 < unat n" using assms by (simp add: unat_gt_0)
  have lt: "unat n < 2 ^ 64" using unsigned_less [of n] by simp
  have "- n = of_nat (2 ^ 64 - unat n)" using lt by (simp add: of_nat_diff)
  then have "unat (- n) = 2 ^ 64 - unat n"
    using pos by (simp add: unat_of_nat take_bit_eq_mod)
  then have "unat ((- n) mod n) = (2 ^ 64 - unat n) mod unat n"
    by (simp only: unat_mod_distrib)
  also have "\<dots> = 2 ^ 64 mod unat n"
    using lt by (metis le_add_diff_inverse2 less_imp_le mod_add_self2)
  finally show ?thesis .
qed

lemma shifted_residue_count:
  fixes n q t r :: nat
  assumes "r < n" "t < n"
  shows "card {v. t \<le> v \<and> v < n * q + t \<and> v mod n = r} = q"
proof -
  define r' where "r' = (r + n - t) mod n"
  have r': "r' < n" using assms by (simp add: r'_def)
  have shift: "(w + t) mod n = r \<longleftrightarrow> w mod n = r'" for w
  proof
    assume "(w + t) mod n = r"
    then have "r' = ((w + t) mod n + (n - t)) mod n" using assms by (simp add: r'_def)
    also have "\<dots> = (w + t + (n - t)) mod n" by (rule mod_add_left_eq)
    also have "w + t + (n - t) = w + n" using assms(2) by simp
    finally show "w mod n = r'" by simp
  next
    assume "w mod n = r'"
    then have "(w + t) mod n = (r' + t) mod n" by (metis mod_add_left_eq)
    also have "\<dots> = (r + n - t + t) mod n" unfolding r'_def by (rule mod_add_left_eq)
    also have "\<dots> = r" using assms by simp
    finally show "(w + t) mod n = r" .
  qed
  have "{v. t \<le> v \<and> v < n * q + t \<and> v mod n = r} = (\<lambda>w. w + t) ` {w. w < n * q \<and> w mod n = r'}"
  proof (intro equalityI subsetI)
    fix v assume v: "v \<in> {v. t \<le> v \<and> v < n * q + t \<and> v mod n = r}"
    then have "v = (v - t) + t" "v - t < n * q" "(v - t) mod n = r'"
      using shift [of "v - t"] by auto
    then show "v \<in> (\<lambda>w. w + t) ` {w. w < n * q \<and> w mod n = r'}" by blast
  next
    fix v assume "v \<in> (\<lambda>w. w + t) ` {w. w < n * q \<and> w mod n = r'}"
    then show "v \<in> {v. t \<le> v \<and> v < n * q + t \<and> v mod n = r}" using shift by auto
  qed
  then show ?thesis using residue_count [OF r', of q] by (simp add: card_image)
qed

lemma accept_no_bias:
  fixes n r :: "64 word"
  assumes "r < n"
  shows "card {v. accept n v = Some r} = 2 ^ 64 div unat n"
proof -
  have acc: "{v. accept n v = Some r} = {v. (- n) mod n \<le> v \<and> v mod n = r}"
    by (auto simp: accept_def Let_def)
  let ?n = "unat n" and ?t = "2 ^ 64 mod unat n"
  have n: "n \<noteq> 0" using assms by auto
  then have pos: "0 < ?n" by (simp add: unat_gt_0)
  have split: "?n * (2 ^ 64 div ?n) + ?t = 2 ^ 64" by simp
  have "unat ` {v. (- n) mod n \<le> v \<and> v mod n = r}
      = {w. ?t \<le> w \<and> w < ?n * (2 ^ 64 div ?n) + ?t \<and> w mod ?n = unat r}"
  proof (intro equalityI subsetI)
    fix w assume "w \<in> unat ` {v. (- n) mod n \<le> v \<and> v mod n = r}"
    then obtain v where v: "w = unat v" "(- n) mod n \<le> v" "v mod n = r" by auto
    then have "?t \<le> w" using threshold_value [OF n] by (simp add: word_le_nat_alt)
    moreover have "w < 2 ^ 64" using v(1) unsigned_less [of v] by simp
    moreover have "w mod ?n = unat r" using v by (simp add: unat_mod_distrib [symmetric])
    ultimately show "w \<in> {w. ?t \<le> w \<and> w < ?n * (2 ^ 64 div ?n) + ?t \<and> w mod ?n = unat r}"
      unfolding split by blast
  next
    fix w assume "w \<in> {w. ?t \<le> w \<and> w < ?n * (2 ^ 64 div ?n) + ?t \<and> w mod ?n = unat r}"
    then have w: "?t \<le> w" "w < 2 ^ 64" "w mod ?n = unat r" unfolding split by auto
    let ?v = "of_nat w :: 64 word"
    have u: "unat ?v = w" using w(2) by (simp add: unat_of_nat take_bit_eq_mod)
    have "(- n) mod n \<le> ?v" using w(1) u threshold_value [OF n] by (simp add: word_le_nat_alt)
    moreover have "unat (?v mod n) = unat r" using w(3) u by (simp add: unat_mod_distrib)
    then have "?v mod n = r" by (simp only: word_unat_eq_iff)
    ultimately show "w \<in> unat ` {v. (- n) mod n \<le> v \<and> v mod n = r}" using u by force
  qed
  moreover have "card {w. ?t \<le> w \<and> w < ?n * (2 ^ 64 div ?n) + ?t \<and> w mod ?n = unat r} = 2 ^ 64 div ?n"
    using assms pos by (intro shifted_residue_count) (simp_all add: word_less_nat_alt)
  moreover have "card (unat ` {v. (- n) mod n \<le> v \<and> v mod n = r}) = card {v. (- n) mod n \<le> v \<and> v mod n = r}"
    by (rule card_image) (simp add: inj_on_def word_unat_eq_iff)
  ultimately show ?thesis by (simp only: acc)
qed

section \<open>The shuffle\<close>

fun swaps :: "nat \<Rightarrow> nat list \<Rightarrow> 'a list \<Rightarrow> 'a list" where
  "swaps 0 js order = order"
| "swaps (Suc i) js order = swaps i (tl js) (swap_at (Suc i) (hd js) order)"

text \<open>The draws of one shuffle: the one for position \<open>i\<close> is at most \<open>i\<close>.\<close>

fun draws_ok :: "nat \<Rightarrow> nat list \<Rightarrow> bool" where
  "draws_ok 0 js \<longleftrightarrow> js = []"
| "draws_ok (Suc i) js \<longleftrightarrow> js \<noteq> [] \<and> hd js \<le> Suc i \<and> draws_ok i (tl js)"

lemma length_swap_at [simp]: "length (swap_at i j xs) = length xs"
  by (simp add: swap_at_def)

lemma mset_swap_at [simp]: "i < length xs \<Longrightarrow> j < length xs \<Longrightarrow> mset (swap_at i j xs) = mset xs"
  by (simp add: swap_at_def mset_swap)

lemma nth_swap_at: "i < length xs \<Longrightarrow> j < length xs \<Longrightarrow> swap_at i j xs ! i = xs ! j"
  by (simp add: swap_at_def nth_list_update)

lemma drop_swap_at: "j \<le> i \<Longrightarrow> drop (Suc i) (swap_at i j xs) = drop (Suc i) xs"
  by (simp add: swap_at_def)

lemma swaps_keeps:
  "i < length xs \<Longrightarrow> draws_ok i js \<Longrightarrow>
     length (swaps i js xs) = length xs \<and> mset (swaps i js xs) = mset xs
     \<and> drop (Suc i) (swaps i js xs) = drop (Suc i) xs"
proof (induction i arbitrary: js xs)
  case (Suc i)
  let ?xs = "swap_at (Suc i) (hd js) xs"
  have "drop (Suc i) (swaps i (tl js) ?xs) = drop (Suc i) ?xs"
    using Suc by simp
  then have "drop 1 (drop (Suc i) (swaps i (tl js) ?xs)) = drop 1 (drop (Suc i) ?xs)" by simp
  then show ?case using Suc by (simp add: drop_swap_at)
qed simp

lemma shuffle_from_swaps:
  "shuffle_from i xs s = Some (ys, s') \<Longrightarrow> i < 2 ^ 63 \<Longrightarrow> \<exists>js. draws_ok i js \<and> ys = swaps i js xs"
proof (induction i arbitrary: xs s)
  case (Suc i)
  then obtain j t where j: "uintn (of_nat (Suc (Suc i))) s = Some (j, t)"
    and rest: "shuffle_from i (swap_at (Suc i) (unat j) xs) t = Some (ys, s')"
    by (auto simp: bind_eq_Some_conv simp del: of_nat_Suc)
  have u: "unat (of_nat (Suc (Suc i)) :: 64 word) = Suc (Suc i)"
    using Suc.prems(2) by (simp add: unat_of_nat take_bit_eq_mod del: of_nat_Suc)
  then have "(of_nat (Suc (Suc i)) :: 64 word) \<noteq> 0" by (metis nat.distinct(1) unat_0)
  with j have "j < of_nat (Suc (Suc i))" by (rule uintn_bound)
  then have "unat j \<le> Suc i" using u by (simp add: word_less_nat_alt del: of_nat_Suc)
  moreover from Suc.IH [OF rest] Suc.prems obtain js where
    "draws_ok i js" "ys = swaps i js (swap_at (Suc i) (unat j) xs)" by auto
  ultimately show ?case by (intro exI [of _ "unat j # js"]) simp
qed simp

text \<open>Every order of distinct entries comes from exactly one sequence of draws.\<close>

lemma swaps_surj:
  "i < length xs \<Longrightarrow> distinct xs \<Longrightarrow> mset ys = mset xs \<Longrightarrow> drop (Suc i) ys = drop (Suc i) xs \<Longrightarrow>
     \<exists>js. draws_ok i js \<and> swaps i js xs = ys"
proof (induction i arbitrary: xs)
  case 0
  have len: "length ys = length xs" using 0 by (metis size_mset)
  have "mset (take 1 ys) + mset (drop 1 ys) = mset (take 1 xs) + mset (drop 1 xs)"
    using 0 by (metis append_take_drop_id mset_append)
  then have "mset (take 1 ys) = mset (take 1 xs)" using 0 by simp
  moreover obtain x xs' y ys' where "xs = x # xs'" "ys = y # ys'"
    using 0 len by (cases xs; cases ys) auto
  ultimately have "ys = xs" using 0 by simp
  then show ?case by simp
next
  case (Suc i)
  let ?m = "Suc (Suc i)"
  have len: "length ys = length xs" using Suc.prems by (metis size_mset)
  have "mset (take ?m ys) + mset (drop ?m ys) = mset (take ?m xs) + mset (drop ?m xs)"
    using Suc.prems by (metis append_take_drop_id mset_append)
  then have "mset (take ?m ys) = mset (take ?m xs)" using Suc.prems by simp
  moreover have "ys ! Suc i \<in> set (take ?m ys)"
    using Suc.prems len by (auto simp: in_set_conv_nth)
  ultimately have "ys ! Suc i \<in> set (take ?m xs)" by (metis set_mset_mset)
  then obtain j where j: "j \<le> Suc i" "xs ! j = ys ! Suc i"
    by (auto simp: in_set_conv_nth less_Suc_eq_le)
  let ?xs = "swap_at (Suc i) j xs"
  have "drop (Suc i) ys = drop (Suc i) ?xs"
    using Suc.prems len j by (simp add: Cons_nth_drop_Suc [symmetric] nth_swap_at drop_swap_at)
  moreover have "distinct ?xs" using Suc.prems j by (metis le_less_trans mset_eq_imp_distinct_iff mset_swap_at)
  ultimately obtain js where "draws_ok i js" "swaps i js ?xs = ys"
    using Suc.IH [of ?xs] Suc.prems j by auto
  then show ?case using j by (intro exI [of _ "j # js"]) simp
qed

lemma swaps_inj:
  "i < length xs \<Longrightarrow> distinct xs \<Longrightarrow> draws_ok i js \<Longrightarrow> draws_ok i ks \<Longrightarrow>
     swaps i js xs = swaps i ks xs \<Longrightarrow> js = ks"
proof (induction i arbitrary: xs js ks)
  case (Suc i)
  have last: "swaps (Suc i) ls xs ! Suc i = xs ! hd ls" if "draws_ok (Suc i) ls" for ls
  proof -
    let ?xs = "swap_at (Suc i) (hd ls) xs"
    have "drop (Suc i) (swaps i (tl ls) ?xs) = drop (Suc i) ?xs"
      "length (swaps i (tl ls) ?xs) = length xs"
      using swaps_keeps [of i ?xs "tl ls"] that Suc.prems by simp_all
    then have "swaps i (tl ls) ?xs ! Suc i = ?xs ! Suc i"
      using Suc.prems(1) by (metis hd_drop_conv_nth length_swap_at)
    then show ?thesis using Suc.prems that by (simp add: nth_swap_at)
  qed
  have "xs ! hd js = xs ! hd ks" using last [of js] last [of ks] Suc.prems by simp
  then have hd: "hd js = hd ks" using Suc.prems by (simp add: nth_eq_iff_index_eq)
  let ?xs = "swap_at (Suc i) (hd ks) xs"
  have "distinct ?xs" using Suc.prems by (metis le_less_trans draws_ok.simps(2) mset_eq_imp_distinct_iff mset_swap_at)
  then have "tl js = tl ks" using Suc.IH [of ?xs "tl js" "tl ks"] Suc.prems hd by simp
  with hd Suc.prems show ?case by (metis draws_ok.simps(2) list.collapse)
qed simp

lemma swaps_bijective:
  assumes "distinct xs" "xs \<noteq> []" "mset ys = mset xs"
  shows "\<exists>!js. draws_ok (length xs - 1) js \<and> swaps (length xs - 1) js xs = ys"
proof -
  have len: "length ys = length xs" using assms(3) by (metis size_mset)
  have i: "length xs - 1 < length xs" "Suc (length xs - 1) = length xs" using assms(2) by auto
  have "drop (Suc (length xs - 1)) ys = drop (Suc (length xs - 1)) xs" using len i by simp
  then have "\<exists>js. draws_ok (length xs - 1) js \<and> swaps (length xs - 1) js xs = ys"
    using swaps_surj [OF i(1) assms(1,3)] by blast
  then show ?thesis using swaps_inj [OF i(1) assms(1)] by blast
qed

lemma shuffle_permutes:
  assumes "shuffle xs s = Some (ys, s')" "length xs < 2 ^ 63"
  shows "mset ys = mset xs"
proof (cases xs)
  case (Cons x zs)
  with assms obtain js where "draws_ok (length zs) js" "ys = swaps (length zs) js xs"
    using shuffle_from_swaps [of "length zs" xs s ys s'] by (auto simp: shuffle_def)
  then show ?thesis using swaps_keeps [of "length zs" xs js] Cons by simp
qed (use assms in \<open>simp add: shuffle_def\<close>)

section \<open>Properties\<close>

text \<open>
  Rejection sampling is unbiased. Of the \<open>2^64\<close> values a draw can yield, exactly
  \<open>2^64 div n\<close> make \<open>uintn n\<close> return \<open>r\<close>, for every \<open>r < n\<close>.
\<close>

theorem uintn_unbiased:
  fixes n r :: "64 word"
  assumes "r < n"
  shows "card {v. accept n v = Some r} = 2 ^ 64 div unat n"
  using assms by (rule accept_no_bias)

theorem uintn_unbiased_witness: "card {v :: 64 word. accept 7 v = Some 3} = 2635249153387078802"
  using uintn_unbiased [of 3 7] by simp



end
