(* ===== verification/Freeze_Schedule.thy ===== *)
theory Freeze_Schedule
  imports Freeze_Types Freeze_Stream Go_Time
begin

text \<open>
  \<open>harness/freezecheck/schedule.go\<close>: grouping the experiment matrix into strata,
  generating a blocked randomised schedule and validating one. Reading and writing files
  is outside: the decoded configuration is an argument (or the error of \<open>readJSON\<close>) and
  the result is the schedule document, not its JSON text. Messages are constructors of
  \<open>schedule_diag\<close> and \<open>schedule_error\<close>, one per message of the source.
\<close>

section \<open>Definitions\<close>

record stratum =
  Key :: string
  Direct :: cell
  Codegen :: cell

datatype schedule_diag =
    BadAlgorithm
  | RunCount nat nat
  | OrdinalMismatch nat int
  | OrdinalDuplicated int
  | RunIdDuplicated string
  | UnknownCell nat string
  | CellRepeatCount string nat nat
  | NotAPair nat nat
  | RepeatedStratum nat string
  | WrongRepeatIndex nat nat
  | MissingStrata nat
  | SeedMismatch
  | RevisionMismatch

datatype schedule_error =
    PhaseInvalid
  | SeedNotExplicit
  | RevisionNotExplicit
  | GeneratedAtInvalid
  | ConfigUnreadable string
  | DuplicateDirect string
  | DuplicateCodegen string
  | UnsupportedTreatment string string
  | NotSevenStrata nat
  | IncompleteStratum string
  | ScheduleDiagnostics "schedule_diag list"
  | GeneratedInvalid schedule_error

definition zero_cell :: cell where
  "zero_cell = \<lparr>ID = '''', Stage = '''', Task = '''', Mode = '''', Treatment = ''''\<rparr>"

definition stratum_key :: "cell \<Rightarrow> string" where
  "stratum_key c = Stage c @ [CHR 0x00] @ Task c @ [CHR 0x00] @ Mode c"

text \<open>One round of the first loop of \<open>matrixStrata\<close>.\<close>

definition add_cell :: "cell \<Rightarrow> (string \<rightharpoonup> stratum) \<Rightarrow> schedule_error + (string \<rightharpoonup> stratum)" where
  "add_cell c byKey =
     (let key = stratum_key c;
          s = (case byKey key of None \<Rightarrow> \<lparr>Key = key, Direct = zero_cell, Codegen = zero_cell\<rparr> | Some s \<Rightarrow> s)
      in if Treatment c = ''direct'' then
           (if ID (Direct s) \<noteq> '''' then Inl (DuplicateDirect key) else Inr (byKey(key \<mapsto> s\<lparr>Direct := c\<rparr>)))
         else if Treatment c = ''codegen'' then
           (if ID (Codegen s) \<noteq> '''' then Inl (DuplicateCodegen key) else Inr (byKey(key \<mapsto> s\<lparr>Codegen := c\<rparr>)))
         else Inl (UnsupportedTreatment (ID c) (Treatment c)))"

fun group_cells :: "cell list \<Rightarrow> (string \<rightharpoonup> stratum) \<Rightarrow> schedule_error + (string \<rightharpoonup> stratum)" where
  "group_cells [] byKey = Inr byKey"
| "group_cells (c # cs) byKey = try_res (add_cell c byKey) (group_cells cs)"

fun collect_strata :: "(string \<rightharpoonup> stratum) \<Rightarrow> string list \<Rightarrow> schedule_error + stratum list" where
  "collect_strata byKey [] = Inr []"
| "collect_strata byKey (key # keys) =
     (case byKey key of
        None \<Rightarrow> Inl (IncompleteStratum key)
      | Some s \<Rightarrow>
          if ID (Direct s) = '''' \<or> ID (Codegen s) = '''' then Inl (IncompleteStratum key)
          else try_res (collect_strata byKey keys) (\<lambda>result. Inr (s # result)))"

definition matrixStrata :: "cell list \<Rightarrow> schedule_error + stratum list" where
  "matrixStrata cells =
     try_res (group_cells cells Map.empty) (\<lambda>byKey.
       let keys = sortStrings (remdups (map stratum_key cells))
       in if length keys \<noteq> 7 then Inl (NotSevenStrata (length keys)) else collect_strata byKey keys)"

definition pair_of :: "stratum \<Rightarrow> bool \<Rightarrow> cell list" where
  "pair_of s swapped = (if swapped then [Codegen s, Direct s] else [Direct s, Codegen s])"

definition run_id :: "string \<Rightarrow> nat \<Rightarrow> string \<Rightarrow> nat \<Rightarrow> string" where
  "run_id phase ordinal cell_id repeat =
     phase @ ''-'' @ zero_pad 3 ordinal @ ''-'' @ cell_id @ ''-r'' @ dec repeat"

definition append_run :: "string \<Rightarrow> nat \<Rightarrow> cell \<Rightarrow> scheduleRun list \<Rightarrow> scheduleRun list" where
  "append_run phase block selected runs =
     (let ordinal = length runs + 1
      in runs @ [\<lparr>Ordinal = int ordinal, RunID = run_id phase ordinal (ID selected) (block + 1),
                  CellID = ID selected, RepeatIndex = int (block + 1)\<rparr>])"

fun emit_order :: "string \<Rightarrow> nat \<Rightarrow> stratum list \<Rightarrow> scheduleRun list \<Rightarrow> counterStream
    \<Rightarrow> (scheduleRun list \<times> counterStream) option" where
  "emit_order phase block [] runs stream = Some (runs, stream)"
| "emit_order phase block (s # order) runs stream =
     Option.bind (uintn 2 stream) (\<lambda>(v, stream).
       emit_order phase block order (fold (append_run phase block) (pair_of s (v = 1)) runs) stream)"

fun emit_blocks :: "string \<Rightarrow> stratum list \<Rightarrow> nat list \<Rightarrow> scheduleRun list \<Rightarrow> counterStream
    \<Rightarrow> scheduleRun list option" where
  "emit_blocks phase strata [] runs stream = Some runs"
| "emit_blocks phase strata (block # rest) runs stream =
     Option.bind (shuffle strata stream) (\<lambda>(order, stream).
     Option.bind (emit_order phase block order runs stream) (\<lambda>(runs, stream).
       emit_blocks phase strata rest runs stream))"

text \<open>\<open>validateScheduleSemantic\<close>, loop by loop.\<close>

definition matrix_cells :: "stratum list \<Rightarrow> cell list" where
  "matrix_cells strata = concat (map (\<lambda>s. [Direct s, Codegen s]) strata)"

definition expectedCells :: "stratum list \<Rightarrow> string \<rightharpoonup> cell" where
  "expectedCells strata = fold (\<lambda>c m. m(ID c \<mapsto> c)) (matrix_cells strata) Map.empty"

definition add_keys :: "stratum \<Rightarrow> (string \<Rightarrow> string) \<Rightarrow> string \<Rightarrow> string" where
  "add_keys s m = m(ID (Direct s) := Key s, ID (Codegen s) := Key s)"

definition cellStratum :: "stratum list \<Rightarrow> string \<Rightarrow> string" where
  "cellStratum strata = fold add_keys strata (\<lambda>_. '''')"

definition occurrence_key :: "string \<Rightarrow> int \<Rightarrow> string" where
  "occurrence_key cell_id repeat = cell_id @ [CHR 0x00] @ FormatInt repeat"

fun scan_runs :: "(string \<rightharpoonup> cell) \<Rightarrow> nat \<Rightarrow> scheduleRun list \<Rightarrow> int set \<Rightarrow> string set \<Rightarrow> (string \<Rightarrow> nat)
    \<Rightarrow> schedule_diag list \<times> (string \<Rightarrow> nat)" where
  "scan_runs expected index [] ordinals runIDs occurrences = ([], occurrences)"
| "scan_runs expected index (run # runs) ordinals runIDs occurrences =
     (let e1 = (if Ordinal run \<noteq> int (index + 1) then [OrdinalMismatch index (Ordinal run)] else []);
          e2 = (if Ordinal run \<in> ordinals then [OrdinalDuplicated (Ordinal run)] else []);
          e3 = (if RunID run \<in> runIDs then [RunIdDuplicated (RunID run)] else []);
          e4 = (if expected (CellID run) = None then [UnknownCell index (CellID run)] else []);
          key = occurrence_key (CellID run) (RepeatIndex run);
          (es, occ) = scan_runs expected (index + 1) runs (insert (Ordinal run) ordinals)
                        (insert (RunID run) runIDs) (occurrences(key := occurrences key + 1))
      in (e1 @ e2 @ e3 @ e4 @ es, occ))"

definition count_errors :: "string list \<Rightarrow> nat \<Rightarrow> (string \<Rightarrow> nat) \<Rightarrow> schedule_diag list" where
  "count_errors ids expectedBlocks occurrences =
     concat (map (\<lambda>cell_id. concat (map (\<lambda>repeat.
        let count = occurrences (occurrence_key cell_id (int repeat))
        in if count \<noteq> 1 then [CellRepeatCount cell_id repeat count] else [])
       [1..<expectedBlocks + 1])) ids)"

fun scan_pairs :: "stratum list \<Rightarrow> scheduleRun list \<Rightarrow> nat \<Rightarrow> nat list \<Rightarrow> string set \<Rightarrow> schedule_diag list \<times> string set" where
  "scan_pairs strata runs block [] seen = ([], seen)"
| "scan_pairs strata runs block (pair # pairs) seen =
     (let left = runs ! (block * 14 + pair * 2); right = runs ! (block * 14 + pair * 2 + 1);
          (e1, seen1) =
            (case (expectedCells strata (CellID left), expectedCells strata (CellID right)) of
               (Some leftCell, Some rightCell) \<Rightarrow>
                 if cellStratum strata (CellID left) \<noteq> cellStratum strata (CellID right)
                    \<or> Treatment leftCell = Treatment rightCell
                 then ([NotAPair (block + 1) (pair + 1)], seen)
                 else if cellStratum strata (CellID left) \<in> seen
                 then ([RepeatedStratum (block + 1) (cellStratum strata (CellID left))], seen)
                 else ([], insert (cellStratum strata (CellID left)) seen)
             | _ \<Rightarrow> ([NotAPair (block + 1) (pair + 1)], seen));
          e2 = (if RepeatIndex left \<noteq> int (block + 1) \<or> RepeatIndex right \<noteq> int (block + 1)
                then [WrongRepeatIndex (block + 1) (pair + 1)] else []);
          (es, seen2) = scan_pairs strata runs block pairs seen1
      in (e1 @ e2 @ es, seen2))"

definition block_errors :: "stratum list \<Rightarrow> scheduleRun list \<Rightarrow> nat \<Rightarrow> schedule_diag list" where
  "block_errors strata runs block =
     (let (es, seen) = scan_pairs strata runs block [0..<7] {}
      in es @ (if card seen \<noteq> 7 then [MissingStrata (block + 1)] else []))"

definition validateScheduleSemantic :: "experimentConfig \<Rightarrow> schedule \<Rightarrow> string \<Rightarrow> schedule_error option" where
  "validateScheduleSemantic config document phase =
     (let e1 = (if Algorithm document \<noteq> ''sha256-fisher-yates-v1'' then [BadAlgorithm] else [])
      in if phase \<noteq> ''measured'' \<and> phase \<noteq> ''pilot'' then Some PhaseInvalid
      else let expectedBlocks = (if phase = ''measured'' then 5 else 1) in
      case matrixStrata (Cells config) of
        Inl err \<Rightarrow> Some err
      | Inr strata \<Rightarrow>
          (let runs = Runs document;
               e2 = (if length runs \<noteq> expectedBlocks * 14 then [RunCount (expectedBlocks * 14) (length runs)] else []);
               (e3, occurrences) = scan_runs (expectedCells strata) 0 runs {} {} (\<lambda>_. 0);
               e4 = count_errors (remdups (map ID (matrix_cells strata))) expectedBlocks occurrences;
               e5 = concat (map (block_errors strata runs)
                      (filter (\<lambda>block. block * 14 + 14 \<le> length runs) [0..<expectedBlocks]));
               e6 = (if \<not> isTODO (ScheduleSeed (Execution config)) \<and> Seed document \<noteq> ScheduleSeed (Execution config)
                     then [SeedMismatch] else []);
               e7 = (if \<not> isTODO (ConfigRevision (FrozenInputs config))
                        \<and> schedule_ConfigRevision document \<noteq> ConfigRevision (FrozenInputs config)
                     then [RevisionMismatch] else []);
               errs = e1 @ e2 @ e3 @ e4 @ e5 @ e6 @ e7
           in if errs = [] then None else Some (ScheduleDiagnostics errs)))"

definition schedule_document :: "string \<Rightarrow> string \<Rightarrow> string \<Rightarrow> scheduleRun list \<Rightarrow> schedule" where
  "schedule_document seed revision generatedAt runs =
     \<lparr>Schema = ''../schemas/schedule.schema.json'', SchemaVersion = 1, Status = ''draft'',
      Strategy = ''blocked-randomized'', Algorithm = ''sha256-fisher-yates-v1'', Seed = seed,
      GeneratedAt = Some generatedAt, schedule_ConfigRevision = revision, Runs = runs\<rparr>"

text \<open>\<open>generateSchedule\<close>; \<^const>\<open>None\<close> when a draw never ends.\<close>

definition generateSchedule :: "string + experimentConfig \<Rightarrow> string \<Rightarrow> string \<Rightarrow> string \<Rightarrow> string
    \<Rightarrow> (schedule_error + schedule) option" where
  "generateSchedule config_read phase seed revision generatedAt =
     (if phase \<noteq> ''measured'' \<and> phase \<noteq> ''pilot'' then Some (Inl PhaseInvalid)
      else if seed = '''' \<or> isTODO seed then Some (Inl SeedNotExplicit)
      else if revision = '''' \<or> isTODO revision then Some (Inl RevisionNotExplicit)
      else if Parse_RFC3339 generatedAt = None then Some (Inl GeneratedAtInvalid)
      else case config_read of
        Inl err \<Rightarrow> Some (Inl (ConfigUnreadable err))
      | Inr config \<Rightarrow>
        (case matrixStrata (Cells config) of
           Inl err \<Rightarrow> Some (Inl err)
         | Inr strata \<Rightarrow>
             (let blocks = (if phase = ''measured'' then 5 else 1) in
              Option.bind (emit_blocks phase strata [0..<blocks] [] (newCounterStream seed phase)) (\<lambda>runs.
                let document = schedule_document seed revision generatedAt runs
                in case validateScheduleSemantic config document phase of
                     Some err \<Rightarrow> Some (Inl (GeneratedInvalid err))
                   | None \<Rightarrow> Some (Inr document)))))"

section \<open>The strata\<close>

text \<open>
  What \<open>group_cells\<close> keeps of the cells \<open>cs\<close> seen so far: a stratum holds cells of its
  key and treatment only, and every cell with an identifier.
\<close>

definition grouped :: "cell set \<Rightarrow> (string \<rightharpoonup> stratum) \<Rightarrow> bool" where
  "grouped cs byKey \<longleftrightarrow>
     dom byKey = stratum_key ` cs
     \<and> (\<forall>key s. byKey key = Some s \<longrightarrow> Key s = key
          \<and> (ID (Direct s) \<noteq> '''' \<longrightarrow>
               Direct s \<in> cs \<and> stratum_key (Direct s) = key \<and> Treatment (Direct s) = ''direct'')
          \<and> (ID (Codegen s) \<noteq> '''' \<longrightarrow>
               Codegen s \<in> cs \<and> stratum_key (Codegen s) = key \<and> Treatment (Codegen s) = ''codegen''))
     \<and> (\<forall>c \<in> cs. ID c \<noteq> '''' \<longrightarrow>
          (\<exists>s. byKey (stratum_key c) = Some s \<and> (c = Direct s \<or> c = Codegen s)))"

lemma groupedD:
  assumes "grouped cs byKey" "byKey key = Some s"
  shows "Key s = key"
    "ID (Direct s) \<noteq> '''' \<Longrightarrow> Direct s \<in> cs \<and> stratum_key (Direct s) = key \<and> Treatment (Direct s) = ''direct''"
    "ID (Codegen s) \<noteq> '''' \<Longrightarrow> Codegen s \<in> cs \<and> stratum_key (Codegen s) = key \<and> Treatment (Codegen s) = ''codegen''"
  using assms by (auto simp: grouped_def)

lemma groupedI_stored:
  "grouped cs byKey \<Longrightarrow> c \<in> cs \<Longrightarrow> ID c \<noteq> '''' \<Longrightarrow>
     \<exists>s. byKey (stratum_key c) = Some s \<and> (c = Direct s \<or> c = Codegen s)"
  by (auto simp: grouped_def)

lemma zero_cell_ID [simp]: "ID zero_cell = ''''"
  by (simp add: zero_cell_def)

lemma add_cell_Inr_cases:
  assumes "add_cell c byKey = Inr byKey'"
  obtains (direct) s where "Treatment c = ''direct''" "ID (Direct s) = ''''"
      "byKey' = byKey(stratum_key c \<mapsto> s\<lparr>Direct := c\<rparr>)"
      "byKey (stratum_key c) = Some s \<or> byKey (stratum_key c) = None
         \<and> s = \<lparr>Key = stratum_key c, Direct = zero_cell, Codegen = zero_cell\<rparr>"
  | (codegen) s where "Treatment c = ''codegen''" "ID (Codegen s) = ''''"
      "byKey' = byKey(stratum_key c \<mapsto> s\<lparr>Codegen := c\<rparr>)"
      "byKey (stratum_key c) = Some s \<or> byKey (stratum_key c) = None
         \<and> s = \<lparr>Key = stratum_key c, Direct = zero_cell, Codegen = zero_cell\<rparr>"
  using assms that by (cases "byKey (stratum_key c)") (auto simp: add_cell_def Let_def split: if_splits)

lemma add_cell_grouped:
  assumes "grouped cs byKey" "add_cell c byKey = Inr byKey'"
  shows "grouped (insert c cs) byKey'" "ID c \<noteq> '''' \<Longrightarrow> c \<notin> cs"
proof -
  let ?k = "stratum_key c"
  show "grouped (insert c cs) byKey'"
    using assms(2)
  proof (cases rule: add_cell_Inr_cases)
    case (direct s)
    have old: "Key s = ?k \<and> (ID (Codegen s) \<noteq> '''' \<longrightarrow>
        Codegen s \<in> cs \<and> stratum_key (Codegen s) = ?k \<and> Treatment (Codegen s) = ''codegen'')"
      using direct(4) groupedD [OF assms(1)] by auto
    have keep: "\<exists>s'. byKey' (stratum_key d) = Some s' \<and> (d = Direct s' \<or> d = Codegen s')"
      if "d \<in> cs" "ID d \<noteq> ''''" for d
      using groupedI_stored [OF assms(1) that] direct that by auto
    show ?thesis
      using assms(1) direct(1,3) old keep unfolding grouped_def by auto
  next
    case (codegen s)
    have old: "Key s = ?k \<and> (ID (Direct s) \<noteq> '''' \<longrightarrow>
        Direct s \<in> cs \<and> stratum_key (Direct s) = ?k \<and> Treatment (Direct s) = ''direct'')"
      using codegen(4) groupedD [OF assms(1)] by auto
    have keep: "\<exists>s'. byKey' (stratum_key d) = Some s' \<and> (d = Direct s' \<or> d = Codegen s')"
      if "d \<in> cs" "ID d \<noteq> ''''" for d
      using groupedI_stored [OF assms(1) that] codegen that by auto
    show ?thesis
      using assms(1) codegen(1,3) old keep unfolding grouped_def by auto
  qed
  show "c \<notin> cs" if c: "ID c \<noteq> ''''"
  proof
    assume "c \<in> cs"
    then obtain s where s: "byKey ?k = Some s" "c = Direct s \<or> c = Codegen s"
      using groupedI_stored [OF assms(1) _ c] by blast
    with c groupedD [OF assms(1) s(1)] assms(2) show False
      by (auto simp: add_cell_def Let_def split: if_splits)
  qed
qed

lemma group_cells_grouped:
  "group_cells cells byKey = Inr byKey' \<Longrightarrow> grouped cs byKey \<Longrightarrow>
     grouped (cs \<union> set cells) byKey'
     \<and> ((\<forall>c \<in> set cells. ID c \<noteq> '''') \<longrightarrow> distinct cells \<and> cs \<inter> set cells = {})"
proof (induction cells arbitrary: byKey cs)
  case (Cons c cells)
  then obtain m where m: "add_cell c byKey = Inr m" "group_cells cells m = Inr byKey'"
    by (auto simp: try_res_Inr_iff)
  note step = add_cell_grouped [OF Cons.prems(2) m(1)]
  from Cons.IH [OF m(2) step(1)] step(2) show ?case by auto
qed simp

lemma grouped_empty: "grouped {} Map.empty"
  by (simp add: grouped_def)

lemma collect_strata_Inr:
  "collect_strata byKey keys = Inr strata \<Longrightarrow>
     map Some strata = map byKey keys \<and> (\<forall>s \<in> set strata. ID (Direct s) \<noteq> '''' \<and> ID (Codegen s) \<noteq> '''')"
  by (induction keys arbitrary: strata) (auto simp: try_res_Inr_iff split: option.splits if_splits)

text \<open>The seven strata of an accepted matrix.\<close>

definition strata_ok :: "stratum list \<Rightarrow> bool" where
  "strata_ok strata \<longleftrightarrow> length strata = 7 \<and> sorted_wrt (<) (map Key strata)
     \<and> (\<forall>s \<in> set strata. ID (Direct s) \<noteq> '''' \<and> ID (Codegen s) \<noteq> ''''
          \<and> stratum_key (Direct s) = Key s \<and> stratum_key (Codegen s) = Key s
          \<and> Treatment (Direct s) = ''direct'' \<and> Treatment (Codegen s) = ''codegen'')"

lemma matrixStrata_Inr:
  assumes "matrixStrata cells = Inr strata"
  shows "strata_ok strata" "set (matrix_cells strata) \<subseteq> set cells"
    "\<forall>c \<in> set cells. ID c \<noteq> '''' \<Longrightarrow> distinct cells \<and> set (matrix_cells strata) = set cells"
proof -
  let ?keys = "sort (remdups (map stratum_key cells))"
  from assms obtain byKey where g: "group_cells cells Map.empty = Inr byKey"
    and seven: "length ?keys = 7" and c: "collect_strata byKey ?keys = Inr strata"
    by (auto simp: matrixStrata_def try_res_Inr_iff Let_def sortStrings_eq_sort split: if_splits)
  note gr = group_cells_grouped [OF g grouped_empty, simplified]
  from gr have gr': "grouped (set cells) byKey" by simp
  note col = collect_strata_Inr [OF c]
  have some: "byKey (?keys ! i) = Some (strata ! i)" if "i < length strata" for i
    using col that by (metis length_map nth_map)
  have len: "length strata = 7" using col seven by (metis length_map)
  have from_map: "\<exists>key. byKey key = Some s" if "s \<in> set strata" for s
    using that some by (metis in_set_conv_nth)
  have keys: "map Key strata = ?keys"
  proof (rule nth_equalityI)
    show "length (map Key strata) = length ?keys" using col by (metis length_map)
    show "map Key strata ! i = ?keys ! i" if "i < length (map Key strata)" for i
      using that groupedD(1) [OF gr' some] by simp
  qed
  have "sorted_wrt (<) (map Key strata)"
    unfolding keys by (simp add: strict_sorted_iff)
  moreover have "ID (Direct s) \<noteq> '''' \<and> ID (Codegen s) \<noteq> ''''
      \<and> stratum_key (Direct s) = Key s \<and> stratum_key (Codegen s) = Key s
      \<and> Treatment (Direct s) = ''direct'' \<and> Treatment (Codegen s) = ''codegen''" if "s \<in> set strata" for s
    using that from_map [OF that] col groupedD [OF gr'] by blast
  ultimately show "strata_ok strata" using len by (simp add: strata_ok_def)
  show sub: "set (matrix_cells strata) \<subseteq> set cells"
    using from_map col groupedD [OF gr'] by (fastforce simp: matrix_cells_def)
  show "distinct cells \<and> set (matrix_cells strata) = set cells" if all: "\<forall>c \<in> set cells. ID c \<noteq> ''''"
  proof
    show "distinct cells" using gr all by simp
    have "c \<in> set (matrix_cells strata)" if c: "c \<in> set cells" for c
    proof -
      obtain s where s: "byKey (stratum_key c) = Some s" "c = Direct s \<or> c = Codegen s"
        using groupedI_stored [OF gr' c] all c by blast
      have "stratum_key c \<in> set (map Key strata)" unfolding keys using c by simp
      then obtain i where i: "i < length strata" "?keys ! i = stratum_key c"
        using keys by (metis in_set_conv_nth length_map)
      with some [OF i(1)] s(1) have "s \<in> set strata" by (metis nth_mem option.inject)
      with s(2) show ?thesis by (auto simp: matrix_cells_def)
    qed
    with sub show "set (matrix_cells strata) = set cells" by blast
  qed
qed

lemma strata_okD:
  assumes "strata_ok strata"
  shows "length strata = 7" "distinct (map Key strata)" "distinct strata"
    "\<And>s. s \<in> set strata \<Longrightarrow> Treatment (Direct s) \<noteq> Treatment (Codegen s)"
proof -
  show "length strata = 7" "\<And>s. s \<in> set strata \<Longrightarrow> Treatment (Direct s) \<noteq> Treatment (Codegen s)"
    using assms by (simp_all add: strata_ok_def)
  show "distinct (map Key strata)"
    using assms unfolding strata_ok_def sorted_strict_distinct by blast
  then show "distinct strata" by (simp add: distinct_map)
qed

lemma length_matrix_cells [simp]: "length (matrix_cells strata) = 2 * length strata"
  by (induction strata) (simp_all add: matrix_cells_def)

section \<open>What the validator accepts\<close>

definition run_key :: "scheduleRun \<Rightarrow> string" where
  "run_key run = occurrence_key (CellID run) (RepeatIndex run)"

lemma scan_runs_occurrences:
  "snd (scan_runs expected index runs os rs occ) key = occ key + count_list (map run_key runs) key"
  by (induction runs arbitrary: index os rs occ)
     (simp_all add: Let_def run_key_def case_prod_beta)

lemma scan_runs_errors:
  "fst (scan_runs expected index runs os rs occ) = [] \<longleftrightarrow>
     (\<forall>i < length runs. Ordinal (runs ! i) = int (index + i + 1))
     \<and> distinct (map Ordinal runs) \<and> os \<inter> set (map Ordinal runs) = {}
     \<and> distinct (map RunID runs) \<and> rs \<inter> set (map RunID runs) = {}
     \<and> (\<forall>run \<in> set runs. expected (CellID run) \<noteq> None)"
proof (induction runs arbitrary: index os rs occ)
  case (Cons run runs)
  have all: "(\<forall>i < length (run # runs). Ordinal ((run # runs) ! i) = int (index + i + 1)) \<longleftrightarrow>
      Ordinal run = int (index + 1) \<and> (\<forall>i < length runs. Ordinal (runs ! i) = int (index + 1 + i + 1))"
    by (auto simp: less_Suc_eq_0_disj)
  have "fst (scan_runs expected index (run # runs) os rs occ) = [] \<longleftrightarrow>
      Ordinal run = int (index + 1) \<and> Ordinal run \<notin> os \<and> RunID run \<notin> rs \<and> expected (CellID run) \<noteq> None
      \<and> fst (scan_runs expected (index + 1) runs (insert (Ordinal run) os) (insert (RunID run) rs)
          (occ(occurrence_key (CellID run) (RepeatIndex run) :=
             occ (occurrence_key (CellID run) (RepeatIndex run)) + 1))) = []"
    by (simp add: Let_def split: prod.split)
  then show ?case unfolding all Cons.IH by auto
qed simp

lemma ordinals_distinct:
  assumes "\<forall>i < length runs. Ordinal (runs ! i) = int (i + 1)"
  shows "distinct (map Ordinal runs)"
  using assms by (auto simp: distinct_conv_nth)

lemma count_errors_Nil_iff:
  "count_errors ids blocks occ = [] \<longleftrightarrow>
     (\<forall>cell_id \<in> set ids. \<forall>repeat \<in> {1..blocks}. occ (occurrence_key cell_id (int repeat)) = 1)"
proof -
  have "set [1..<blocks + 1] = {1..blocks}" by auto
  then show ?thesis
    unfolding count_errors_def Let_def by (auto simp: if_distrib [where f = "\<lambda>x. x = []"])
qed

lemma append_sep_eq:
  assumes "z \<notin> set x" "z \<notin> set y" "a @ z # x = b @ z # y"
  shows "a = b \<and> x = y"
proof -
  have "takeWhile (\<lambda>c. c \<noteq> z) (rev (a @ z # x)) = rev x" "takeWhile (\<lambda>c. c \<noteq> z) (rev (b @ z # y)) = rev y"
    using assms(1,2) by (auto simp: takeWhile_append2 takeWhile_tail)
  then have "x = y" using assms(3) by simp
  with assms(3) show ?thesis by simp
qed

lemma FormatInt_no_NUL: "CHR 0x00 \<notin> set (FormatInt v)"
  using dec_digits [of "CHR 0x00"] by (auto simp: FormatInt_def)

lemma FormatInt_inj: "FormatInt v = FormatInt w \<longleftrightarrow> v = w"
proof
  assume eq: "FormatInt v = FormatInt w"
  have minus: "dec n \<noteq> ''-'' @ t" for n t
    using hd_dec_digit [of n] by auto
  from eq minus show "v = w"
    by (auto simp: FormatInt_def split: if_splits) (metis minus append_Cons append_Nil)+
qed simp

lemma occurrence_key_inj: "occurrence_key a v = occurrence_key b w \<longleftrightarrow> a = b \<and> v = w"
  using append_sep_eq [OF FormatInt_no_NUL FormatInt_no_NUL, of a v b w]
  by (auto simp: occurrence_key_def FormatInt_inj)

text \<open>One adjacent pair of a block.\<close>

definition pair_ok :: "stratum list \<Rightarrow> scheduleRun list \<Rightarrow> nat \<Rightarrow> nat \<Rightarrow> bool" where
  "pair_ok strata runs block pair \<longleftrightarrow>
     (let left = runs ! (block * 14 + pair * 2); right = runs ! (block * 14 + pair * 2 + 1) in
      (\<exists>leftCell rightCell. expectedCells strata (CellID left) = Some leftCell
         \<and> expectedCells strata (CellID right) = Some rightCell
         \<and> Treatment leftCell \<noteq> Treatment rightCell)
      \<and> cellStratum strata (CellID left) = cellStratum strata (CellID right)
      \<and> RepeatIndex left = int (block + 1) \<and> RepeatIndex right = int (block + 1))"

definition pair_stratum :: "stratum list \<Rightarrow> scheduleRun list \<Rightarrow> nat \<Rightarrow> nat \<Rightarrow> string" where
  "pair_stratum strata runs block pair = cellStratum strata (CellID (runs ! (block * 14 + pair * 2)))"

lemma scan_pairs_errors:
  "(fst (scan_pairs strata runs block pairs seen) = [] \<longleftrightarrow>
     (\<forall>pair \<in> set pairs. pair_ok strata runs block pair)
     \<and> distinct (map (pair_stratum strata runs block) pairs)
     \<and> seen \<inter> pair_stratum strata runs block ` set pairs = {})
   \<and> (fst (scan_pairs strata runs block pairs seen) = [] \<longrightarrow>
     snd (scan_pairs strata runs block pairs seen) = seen \<union> pair_stratum strata runs block ` set pairs)"
proof (induction pairs arbitrary: seen)
  case (Cons pair pairs)
  let ?k = "pair_stratum strata runs block pair"
  have step: "fst (scan_pairs strata runs block (pair # pairs) seen) = [] \<longleftrightarrow>
      pair_ok strata runs block pair \<and> ?k \<notin> seen
      \<and> fst (scan_pairs strata runs block pairs (insert ?k seen)) = []"
    by (auto simp: Let_def pair_ok_def pair_stratum_def split: prod.splits option.splits if_splits)
  have res: "snd (scan_pairs strata runs block (pair # pairs) seen)
      = snd (scan_pairs strata runs block pairs (insert ?k seen))"
    if "pair_ok strata runs block pair" "?k \<notin> seen"
    using that by (auto simp: Let_def pair_ok_def pair_stratum_def split: prod.splits)
  show ?case
  proof
    show "fst (scan_pairs strata runs block (pair # pairs) seen) = [] \<longleftrightarrow>
     (\<forall>pair \<in> set (pair # pairs). pair_ok strata runs block pair)
     \<and> distinct (map (pair_stratum strata runs block) (pair # pairs))
     \<and> seen \<inter> pair_stratum strata runs block ` set (pair # pairs) = {}"
      unfolding step using Cons.IH [of "insert ?k seen"] by auto
    show "fst (scan_pairs strata runs block (pair # pairs) seen) = [] \<longrightarrow>
     snd (scan_pairs strata runs block (pair # pairs) seen) = seen \<union> pair_stratum strata runs block ` set (pair # pairs)"
      using step res Cons.IH [of "insert ?k seen"] by auto
  qed
qed simp

lemma block_errors_Nil_iff:
  "block_errors strata runs block = [] \<longleftrightarrow>
     (\<forall>pair < 7. pair_ok strata runs block pair)
     \<and> inj_on (pair_stratum strata runs block) {..<7}"
proof -
  let ?f = "pair_stratum strata runs block" and ?r = "scan_pairs strata runs block [0..<7] {}"
  have set7: "set [0..<7] = {..<7::nat}" by auto
  have errs: "fst ?r = [] \<longleftrightarrow> (\<forall>pair < 7. pair_ok strata runs block pair) \<and> inj_on ?f {..<7}"
    using scan_pairs_errors [of strata runs block "[0..<7]" "{}"]
    unfolding distinct_map set7 by auto
  have seen: "fst ?r = [] \<longrightarrow> card (snd ?r) = 7"
  proof
    assume nil: "fst ?r = []"
    then have "snd ?r = ?f ` {..<7}"
      using scan_pairs_errors [of strata runs block "[0..<7]" "{}"] unfolding set7 by simp
    moreover have "inj_on ?f {..<7}" using nil errs by blast
    ultimately show "card (snd ?r) = 7" by (simp add: card_image)
  qed
  have "block_errors strata runs block = [] \<longleftrightarrow> fst ?r = [] \<and> card (snd ?r) = 7"
    unfolding block_errors_def Let_def by (cases ?r) simp
  with errs seen show ?thesis by blast
qed

text \<open>The contract of a schedule of \<open>blocks\<close> blocks over the strata.\<close>

definition schedule_wf :: "stratum list \<Rightarrow> nat \<Rightarrow> scheduleRun list \<Rightarrow> bool" where
  "schedule_wf strata blocks runs \<longleftrightarrow>
     length runs = blocks * 14
     \<and> (\<forall>i < length runs. Ordinal (runs ! i) = int (i + 1))
     \<and> distinct (map RunID runs)
     \<and> CellID ` set runs \<subseteq> ID ` set (matrix_cells strata)
     \<and> (\<forall>cell_id \<in> ID ` set (matrix_cells strata). \<forall>repeat \<in> {1..blocks}.
          count_list (map (\<lambda>run. (CellID run, RepeatIndex run)) runs) (cell_id, int repeat) = 1)
     \<and> (\<forall>block < blocks. (\<forall>pair < 7. pair_ok strata runs block pair)
          \<and> inj_on (pair_stratum strata runs block) {..<7})"

definition phase_blocks :: "string \<Rightarrow> nat" where
  "phase_blocks phase = (if phase = ''measured'' then 5 else 1)"

lemma expectedCells_fold: "fold (\<lambda>c m. m(ID c \<mapsto> c)) cs m = m ++ map_of (rev (map (\<lambda>c. (ID c, c)) cs))"
  by (induction cs arbitrary: m) simp_all

lemma expectedCells_map_of: "expectedCells strata = map_of (rev (map (\<lambda>c. (ID c, c)) (matrix_cells strata)))"
  by (simp add: expectedCells_def expectedCells_fold)

lemma expectedCells_None_iff: "expectedCells strata cid = None \<longleftrightarrow> cid \<notin> ID ` set (matrix_cells strata)"
  by (simp add: expectedCells_map_of map_of_eq_None_iff image_image)

lemma count_run_key:
  "count_list (map run_key runs) (occurrence_key cid v)
     = count_list (map (\<lambda>run. (CellID run, RepeatIndex run)) runs) (cid, v)"
  by (induction runs) (auto simp: run_key_def occurrence_key_inj)

lemma filter_blocks: "length runs = n * 14 \<Longrightarrow> filter (\<lambda>block. block * 14 + 14 \<le> length runs) [0..<n] = [0..<n]"
  by (auto simp: filter_id_conv)

lemma validateScheduleSemantic_None_iff:
  assumes "phase = ''measured'' \<or> phase = ''pilot''" "matrixStrata (Cells config) = Inr strata"
  shows "validateScheduleSemantic config document phase = None \<longleftrightarrow>
     Algorithm document = ''sha256-fisher-yates-v1''
     \<and> schedule_wf strata (phase_blocks phase) (Runs document)
     \<and> (isTODO (ScheduleSeed (Execution config)) \<or> Seed document = ScheduleSeed (Execution config))
     \<and> (isTODO (ConfigRevision (FrozenInputs config))
         \<or> schedule_ConfigRevision document = ConfigRevision (FrozenInputs config))"
proof -
  let ?runs = "Runs document" and ?n = "phase_blocks phase"
  let ?scan = "scan_runs (expectedCells strata) 0 ?runs {} {} (\<lambda>_. 0)"
  let ?blocks = "concat (map (block_errors strata ?runs)
      (filter (\<lambda>block. block * 14 + 14 \<le> length ?runs) [0..<?n]))"
  let ?ids = "remdups (map ID (matrix_cells strata))"
  have "validateScheduleSemantic config document phase = None \<longleftrightarrow>
     Algorithm document = ''sha256-fisher-yates-v1''
     \<and> (length ?runs = ?n * 14 \<and> fst ?scan = [] \<and> count_errors ?ids ?n (snd ?scan) = [] \<and> ?blocks = [])
     \<and> (isTODO (ScheduleSeed (Execution config)) \<or> Seed document = ScheduleSeed (Execution config))
     \<and> (isTODO (ConfigRevision (FrozenInputs config))
         \<or> schedule_ConfigRevision document = ConfigRevision (FrozenInputs config))"
    unfolding validateScheduleSemantic_def Let_def case_prod_beta
    using assms by (simp add: phase_blocks_def) blast
  moreover have "?blocks = [] \<longleftrightarrow> (\<forall>block < ?n. (\<forall>pair < 7. pair_ok strata ?runs block pair)
          \<and> inj_on (pair_stratum strata ?runs block) {..<7})" if "length ?runs = ?n * 14"
    unfolding filter_blocks [OF that] by (auto simp: block_errors_Nil_iff)
  moreover have "fst ?scan = [] \<longleftrightarrow> (\<forall>i < length ?runs. Ordinal (?runs ! i) = int (i + 1))
     \<and> distinct (map RunID ?runs) \<and> CellID ` set ?runs \<subseteq> ID ` set (matrix_cells strata)"
    using ordinals_distinct [of ?runs] by (auto simp: scan_runs_errors expectedCells_None_iff)
  moreover have "count_errors ?ids ?n (snd ?scan) = [] \<longleftrightarrow>
     (\<forall>cell_id \<in> ID ` set (matrix_cells strata). \<forall>repeat \<in> {1..?n}.
          count_list (map (\<lambda>run. (CellID run, RepeatIndex run)) ?runs) (cell_id, int repeat) = 1)"
    by (simp add: count_errors_Nil_iff scan_runs_occurrences count_run_key)
  ultimately show ?thesis unfolding schedule_wf_def by blast
qed

section \<open>What the generator emits\<close>

definition mk_run :: "string \<Rightarrow> nat \<Rightarrow> cell \<Rightarrow> nat \<Rightarrow> scheduleRun" where
  "mk_run phase index selected block =
     \<lparr>Ordinal = int (index + 1), RunID = run_id phase (index + 1) (ID selected) (block + 1),
      CellID = ID selected, RepeatIndex = int (block + 1)\<rparr>"

definition plan_cells :: "(stratum \<times> bool) list \<Rightarrow> cell list" where
  "plan_cells plan = concat (map (\<lambda>(s, swapped). pair_of s swapped) plan)"

definition emitted :: "string \<Rightarrow> (stratum \<times> bool) list list \<Rightarrow> scheduleRun list \<Rightarrow> bool" where
  "emitted phase plans runs \<longleftrightarrow> length runs = 14 * length plans
     \<and> (\<forall>k < length plans. \<forall>j < 14. runs ! (14 * k + j) = mk_run phase (14 * k + j) (plan_cells (plans ! k) ! j) k)"

lemma fold_append_run:
  "fold (append_run phase block) cs runs
     = runs @ map (\<lambda>(i, c). mk_run phase i c block) (enumerate (length runs) cs)"
  by (induction cs arbitrary: runs) (simp_all add: append_run_def mk_run_def)

lemma emit_order_plan:
  "emit_order phase block order runs stream = Some (runs', stream') \<Longrightarrow>
     \<exists>plan. map fst plan = order \<and> runs' = fold (append_run phase block) (plan_cells plan) runs"
proof (induction order arbitrary: runs stream)
  case (Cons s order)
  then obtain v t where "uintn 2 stream = Some (v, t)"
    and rest: "emit_order phase block order (fold (append_run phase block) (pair_of s (v = 1)) runs) t
      = Some (runs', stream')"
    by (auto simp: bind_eq_Some_conv)
  from Cons.IH [OF rest] obtain plan where "map fst plan = order"
    "runs' = fold (append_run phase block) (plan_cells plan) (fold (append_run phase block) (pair_of s (v = 1)) runs)"
    by blast
  then show ?case by (intro exI [of _ "(s, v = 1) # plan"]) (simp add: plan_cells_def)
qed (simp add: plan_cells_def)

lemma length_plan_cells [simp]: "length (plan_cells plan) = 2 * length plan"
  by (induction plan) (auto simp: plan_cells_def pair_of_def)

lemma nth_plan_cells:
  "k < length plan \<Longrightarrow> plan_cells plan ! (2 * k) = pair_of (fst (plan ! k)) (snd (plan ! k)) ! 0
     \<and> plan_cells plan ! (2 * k + 1) = pair_of (fst (plan ! k)) (snd (plan ! k)) ! 1"
proof (induction plan arbitrary: k)
  case (Cons p plan)
  then show ?case by (cases k) (auto simp: plan_cells_def pair_of_def split: prod.splits)
qed simp

lemma mset_plan_cells: "mset (plan_cells plan) = mset (matrix_cells (map fst plan))"
  by (induction plan) (auto simp: plan_cells_def matrix_cells_def pair_of_def)

lemma mset_matrix_cells: "mset xs = mset ys \<Longrightarrow> mset (matrix_cells xs) = mset (matrix_cells ys)"
proof -
  have "mset (matrix_cells zs) = \<Sum>\<^sub># (image_mset (\<lambda>s. {#Direct s, Codegen s#}) (mset zs))" for zs
    by (induction zs) (simp_all add: matrix_cells_def)
  then show "mset xs = mset ys \<Longrightarrow> mset (matrix_cells xs) = mset (matrix_cells ys)" by simp
qed

lemma emitted_step:
  assumes "emitted phase plans runs" "length plan = 7"
  shows "emitted phase (plans @ [plan]) (fold (append_run phase (length plans)) (plan_cells plan) runs)"
proof -
  have len: "length runs = 14 * length plans" using assms by (simp add: emitted_def)
  have "(runs @ map (\<lambda>(i, c). mk_run phase i c (length plans)) (enumerate (length runs) (plan_cells plan))) ! (14 * k + j)
      = mk_run phase (14 * k + j) (plan_cells ((plans @ [plan]) ! k) ! j) k"
    if "k < length (plans @ [plan])" "j < 14" for k j
  proof (cases "k < length plans")
    case True
    then have "14 * k + j < length runs" using that len by linarith
    with True assms that show ?thesis by (simp add: nth_append emitted_def)
  next
    case False
    with that have k: "k = length plans" by simp
    then have "\<not> 14 * k + j < length runs" "14 * k + j - length runs = j" using len by simp_all
    with k that assms len show ?thesis by (simp add: nth_append nth_enumerate_eq)
  qed
  then show ?thesis using len assms(2) by (simp add: fold_append_run emitted_def)
qed

lemma emit_blocks_plans:
  "emit_blocks phase strata blocks runs stream = Some runs' \<Longrightarrow> length strata = 7 \<Longrightarrow>
     emitted phase plans runs \<Longrightarrow> blocks = [length plans..<length plans + n] \<Longrightarrow>
     \<exists>new. length new = n \<and> (\<forall>p \<in> set new. mset (map fst p) = mset strata) \<and> emitted phase (plans @ new) runs'"
proof (induction blocks arbitrary: runs stream plans n)
  case Nil
  have "length [length plans..<length plans + n] = n" by simp
  with Nil.prems(4) have "n = 0" by (metis list.size(3))
  with Nil.prems show ?case by (intro exI [of _ "[]"]) auto
next
  case (Cons block rest)
  then obtain m where n: "n = Suc m" and block: "block = length plans"
    and rest: "rest = [Suc (length plans)..<Suc (length plans) + m]"
    by (cases n) (auto simp: upt_rec split: if_splits)
  from Cons.prems(1) obtain order st runs1 st1 where
    sh: "shuffle strata stream = Some (order, st)"
    and em: "emit_order phase block order runs st = Some (runs1, st1)"
    and more: "emit_blocks phase strata rest runs1 st1 = Some runs'"
    by (auto simp: bind_eq_Some_conv)
  from emit_order_plan [OF em] obtain plan where plan: "map fst plan = order"
    "runs1 = fold (append_run phase block) (plan_cells plan) runs" by blast
  have perm: "mset order = mset strata" using shuffle_permutes [OF sh] Cons.prems(2) by simp
  then have "length plan = 7" using plan(1) Cons.prems(2) by (metis length_map size_mset)
  with Cons.prems(3) have "emitted phase (plans @ [plan]) runs1" unfolding plan(2) block by (rule emitted_step)
  from Cons.IH [OF more Cons.prems(2) this, of m] rest obtain new where
    "length new = m" "\<forall>p \<in> set new. mset (map fst p) = mset strata" "emitted phase ((plans @ [plan]) @ new) runs'"
    by auto
  then show ?case using perm n unfolding plan(1) [symmetric] by (intro exI [of _ "plan # new"]) simp
qed

lemma run_id_inj: "run_id phase i a r = run_id phase j b q \<Longrightarrow> i = j"
proof -
  assume "run_id phase i a r = run_id phase j b q"
  then have "zero_pad 3 i @ CHR ''-'' # a @ ''-r'' @ dec r = zero_pad 3 j @ CHR ''-'' # b @ ''-r'' @ dec q"
    by (simp add: run_id_def)
  moreover have "takeWhile is_digit (zero_pad 3 n @ CHR ''-'' # t) = zero_pad 3 n" for n t
    using zero_pad_digits [of _ 3 n] by (simp add: takeWhile_append2)
  ultimately have "zero_pad 3 i = zero_pad 3 j" by metis
  then show "i = j" by simp
qed

text \<open>With pairwise different identifiers the lookups of the validator find what was emitted.\<close>

lemma expectedCells_known:
  assumes "distinct (map ID (matrix_cells strata))" "c \<in> set (matrix_cells strata)"
  shows "expectedCells strata (ID c) = Some c"
proof -
  have "distinct (map fst (rev (map (\<lambda>c. (ID c, c)) (matrix_cells strata))))"
    using assms(1) by (simp add: rev_map [symmetric] comp_def)
  moreover have "(ID c, c) \<in> set (rev (map (\<lambda>c. (ID c, c)) (matrix_cells strata)))"
    using assms(2) by simp
  ultimately show ?thesis unfolding expectedCells_map_of by (rule map_of_is_SomeI)
qed

lemma add_keys_apply:
  "add_keys s m cid = (if cid = ID (Codegen s) \<or> cid = ID (Direct s) then Key s else m cid)"
  by (simp add: add_keys_def)

lemma cellStratum_other:
  "cid \<notin> ID ` set (matrix_cells strata) \<Longrightarrow>
     fold add_keys strata m cid = m cid"
  by (induction strata arbitrary: m) (auto simp: matrix_cells_def add_keys_apply)

lemma cellStratum_fold:
  assumes "distinct (map ID (matrix_cells strata))" "s \<in> set strata" "c = Direct s \<or> c = Codegen s"
  shows "fold add_keys strata m (ID c) = Key s"
  using assms
proof (induction strata arbitrary: m)
  case (Cons t strata)
  have d: "distinct (map ID (matrix_cells strata))" "ID (Direct t) \<notin> ID ` set (matrix_cells strata)"
    "ID (Codegen t) \<notin> ID ` set (matrix_cells strata)" "ID (Direct t) \<noteq> ID (Codegen t)"
    using Cons.prems(1) by (auto simp: matrix_cells_def)
  show ?case
  proof (cases "s \<in> set strata")
    case True
    with Cons.IH d Cons.prems(3) show ?thesis by simp
  next
    case False
    with Cons.prems have "s = t" by simp
    with d Cons.prems(3) have "fold add_keys (t # strata) m (ID c) = add_keys t m (ID c)"
      by (auto simp: cellStratum_other)
    also have "add_keys t m (ID c) = Key s"
      using \<open>s = t\<close> Cons.prems(3) by (auto simp: add_keys_apply)
    finally show ?thesis .
  qed
qed simp

lemma cellStratum_known:
  assumes "distinct (map ID (matrix_cells strata))" "s \<in> set strata" "c = Direct s \<or> c = Codegen s"
  shows "cellStratum strata (ID c) = Key s"
  unfolding cellStratum_def using assms by (rule cellStratum_fold)

text \<open>Runs emitted for a list of plans, each a permutation of the strata with its swaps.\<close>

definition emission :: "string \<Rightarrow> stratum list \<Rightarrow> (stratum \<times> bool) list list \<Rightarrow> scheduleRun list \<Rightarrow> bool" where
  "emission phase strata plans runs \<longleftrightarrow> strata_ok strata \<and> distinct (map ID (matrix_cells strata))
     \<and> (\<forall>p \<in> set plans. mset (map fst p) = mset strata) \<and> emitted phase plans runs"

lemma emissionD:
  assumes "emission phase strata plans runs"
  shows "strata_ok strata" "distinct (map ID (matrix_cells strata))"
    "\<And>p. p \<in> set plans \<Longrightarrow> mset (map fst p) = mset strata" "emitted phase plans runs"
  using assms by (auto simp: emission_def)

lemma plan_length: "emission phase strata plans runs \<Longrightarrow> k < length plans \<Longrightarrow> length (plans ! k) = 7"
  using emissionD(3) [of phase strata plans runs "plans ! k"] strata_okD(1) [of strata] emissionD(1)
  by (metis length_map nth_mem size_mset)

lemma length_runs: "emission phase strata plans runs \<Longrightarrow> length runs = 14 * length plans"
  by (simp add: emission_def emitted_def)

lemma nth_runs:
  "emission phase strata plans runs \<Longrightarrow> k < length plans \<Longrightarrow> j < 14 \<Longrightarrow> runs ! (14 * k + j) = mk_run phase (14 * k + j) (plan_cells (plans ! k) ! j) k"
  by (simp add: emission_def emitted_def)

lemma nth_runs_div:
  assumes "i < length runs" and em: "emission phase strata plans runs"
  shows "runs ! i = mk_run phase i (plan_cells (plans ! (i div 14)) ! (i mod 14)) (i div 14)"
proof -
  have "i div 14 < length plans" using assms(1) length_runs [OF em] by (simp add: div_less_iff_less_mult mult.commute)
  then show ?thesis using nth_runs [OF em, of "i div 14" "i mod 14"] by simp
qed

lemma plan_mset:
  assumes "k < length plans" and em: "emission phase strata plans runs"
  shows "mset (plan_cells (plans ! k)) = mset (matrix_cells strata)"
  using emissionD(3) [OF em, of "plans ! k"] assms(1) mset_matrix_cells mset_plan_cells by (metis nth_mem)

lemma plan_ids:
  assumes "k < length plans" and em: "emission phase strata plans runs"
  shows "distinct (map ID (plan_cells (plans ! k)))" "set (plan_cells (plans ! k)) = set (matrix_cells strata)"
proof -
  show "set (plan_cells (plans ! k)) = set (matrix_cells strata)"
    using plan_mset [OF assms] by (metis set_mset_mset)
  show "distinct (map ID (plan_cells (plans ! k)))"
    using plan_mset [OF assms] emissionD(2) [OF em] by (metis mset_eq_imp_distinct_iff mset_map)
qed

lemma cell_ids_known:
  assumes em: "emission phase strata plans runs"
  shows "CellID ` set runs \<subseteq> ID ` set (matrix_cells strata)"
proof
  note plan_length = plan_length [OF em] and length_runs = length_runs [OF em]
    and nth_runs = nth_runs [OF em] and nth_runs_div = nth_runs_div [OF _ em] and plan_ids = plan_ids [OF _ em]
  fix x assume "x \<in> CellID ` set runs"
  then obtain i where i: "i < length runs" "x = CellID (runs ! i)" by (auto simp: in_set_conv_nth)
  let ?p = "plans ! (i div 14)"
  have k: "i div 14 < length plans" using i(1) length_runs by (simp add: div_less_iff_less_mult mult.commute)
  have "plan_cells ?p ! (i mod 14) \<in> set (plan_cells ?p)" using plan_length [OF k] by simp
  then show "x \<in> ID ` set (matrix_cells strata)"
    using i nth_runs_div [OF i(1)] plan_ids(2) [OF k] by (simp add: mk_run_def)
qed

lemma each_cell_once:
  assumes "cid \<in> ID ` set (matrix_cells strata)" "repeat \<in> {1..length plans}"
    and em: "emission phase strata plans runs"
  shows "count_list (map (\<lambda>run. (CellID run, RepeatIndex run)) runs) (cid, int repeat) = 1"
proof -
  note plan_length = plan_length [OF em] and length_runs = length_runs [OF em]
    and nth_runs = nth_runs [OF em] and nth_runs_div = nth_runs_div [OF _ em] and plan_ids = plan_ids [OF _ em]
  let ?k = "repeat - 1" and ?f = "\<lambda>run. (CellID run, RepeatIndex run)"
  have k: "?k < length plans" using assms(2) by auto
  let ?cs = "plan_cells (plans ! ?k)"
  have len: "length ?cs = 14" using plan_length [OF k] by simp
  obtain j where j: "j < 14" "ID (?cs ! j) = cid"
    using assms(1) plan_ids(2) [OF k] len by (metis imageE in_set_conv_nth)
  have "{i. i < length runs \<and> (cid, int repeat) = ?f (runs ! i)} = {14 * ?k + j}"
  proof (intro equalityI subsetI)
    fix i assume "i \<in> {i. i < length runs \<and> (cid, int repeat) = ?f (runs ! i)}"
    then have i: "i < length runs" "cid = CellID (runs ! i)" "int repeat = RepeatIndex (runs ! i)"
      by (simp_all only: mem_Collect_eq prod.inject)
    have r: "RepeatIndex (runs ! i) = int (i div 14 + 1)"
      "CellID (runs ! i) = ID (plan_cells (plans ! (i div 14)) ! (i mod 14))"
      unfolding nth_runs_div [OF i(1)] mk_run_def by simp_all
    from r(1) i(3) have q1: "i div 14 = ?k" by linarith
    have q2: "ID (?cs ! (i mod 14)) = cid" unfolding q1 [symmetric] using r(2) i(2) by simp
    note q = q1 q2
    have "i mod 14 = j"
      using nth_eq_iff_index_eq [OF plan_ids(1) [OF k], of "i mod 14" j] q(2) j len by simp
    then have "i = 14 * ?k + j" using mult_div_mod_eq [of 14 i] q(1) by simp
    then show "i \<in> {14 * ?k + j}" by simp
  next
    fix i assume i: "i \<in> {14 * ?k + j}"
    have "14 * ?k + j < length runs" using k j(1) length_runs by linarith
    with i show "i \<in> {i. i < length runs \<and> (cid, int repeat) = ?f (runs ! i)}"
      using nth_runs [OF k j(1)] j(2) assms(2) by (auto simp: mk_run_def)
  qed
  then show ?thesis
    by (simp add: count_list_eq_length_filter length_filter_conv_card cong: conj_cong)
qed

lemma run_ids_distinct:
  assumes em: "emission phase strata plans runs"
  shows "distinct (map RunID runs)"
proof -
  note nth_runs_div = nth_runs_div [OF _ em]
  have "i = j" if "i < length runs" "j < length runs" "RunID (runs ! i) = RunID (runs ! j)" for i j
    using that nth_runs_div [of i] nth_runs_div [of j] run_id_inj by (fastforce simp: mk_run_def)
  then show ?thesis by (auto simp: distinct_conv_nth)
qed

lemma pair_cells:
  assumes "block < length plans" "pair < 7" and em: "emission phase strata plans runs"
  obtains s where "s \<in> set strata" "s = fst (plans ! block ! pair)"
    "CellID (runs ! (block * 14 + pair * 2)) = ID (Direct s) \<and> CellID (runs ! (block * 14 + pair * 2 + 1)) = ID (Codegen s)
     \<or> CellID (runs ! (block * 14 + pair * 2)) = ID (Codegen s) \<and> CellID (runs ! (block * 14 + pair * 2 + 1)) = ID (Direct s)"
    "RepeatIndex (runs ! (block * 14 + pair * 2)) = int (block + 1)"
    "RepeatIndex (runs ! (block * 14 + pair * 2 + 1)) = int (block + 1)"
proof -
  note plan_length = plan_length [OF em] and nth_runs = nth_runs [OF em] and perm = emissionD(3) [OF em]
  let ?p = "plans ! block" and ?s = "fst (plans ! block ! pair)"
  have len: "length ?p = 7" using plan_length assms(1) by simp
  then have "?s \<in> set (map fst ?p)" using assms(2) by simp
  then have "?s \<in> set strata" using perm [of ?p] assms(1) by (metis nth_mem set_mset_mset)
  moreover have "runs ! (block * 14 + pair * 2) = mk_run phase (14 * block + 2 * pair) (pair_of ?s (snd (?p ! pair)) ! 0) block"
    "runs ! (block * 14 + pair * 2 + 1) = mk_run phase (14 * block + (2 * pair + 1)) (pair_of ?s (snd (?p ! pair)) ! 1) block"
    using nth_runs [OF assms(1), of "2 * pair"] nth_runs [OF assms(1), of "2 * pair + 1"]
      nth_plan_cells [of pair ?p] len assms(2) by (simp_all add: mult.commute)
  ultimately show thesis using that [of ?s] by (cases "snd (?p ! pair)") (simp_all add: pair_of_def mk_run_def)
qed

lemma pairs_ok:
  assumes "block < length plans" "pair < 7" and em: "emission phase strata plans runs"
  shows "pair_ok strata runs block pair"
    "pair_stratum strata runs block pair = Key (fst (plans ! block ! pair))"
proof -
  note strata = emissionD(1) [OF em] and ids = emissionD(2) [OF em]
  obtain s where s: "s \<in> set strata" "s = fst (plans ! block ! pair)"
    and c: "CellID (runs ! (block * 14 + pair * 2)) = ID (Direct s) \<and> CellID (runs ! (block * 14 + pair * 2 + 1)) = ID (Codegen s)
     \<or> CellID (runs ! (block * 14 + pair * 2)) = ID (Codegen s) \<and> CellID (runs ! (block * 14 + pair * 2 + 1)) = ID (Direct s)"
    and r: "RepeatIndex (runs ! (block * 14 + pair * 2)) = int (block + 1)"
      "RepeatIndex (runs ! (block * 14 + pair * 2 + 1)) = int (block + 1)"
    using assms by (rule pair_cells)
  have mem: "Direct s \<in> set (matrix_cells strata)" "Codegen s \<in> set (matrix_cells strata)"
    using s(1) by (auto simp: matrix_cells_def)
  note look = expectedCells_known [OF ids mem(1)] expectedCells_known [OF ids mem(2)]
    cellStratum_known [OF ids s(1), of "Direct s"] cellStratum_known [OF ids s(1), of "Codegen s"]
    strata_okD(4) [OF strata s(1)]
  show "pair_ok strata runs block pair"
    unfolding pair_ok_def Let_def using c r look by auto
  show "pair_stratum strata runs block pair = Key (fst (plans ! block ! pair))"
    unfolding pair_stratum_def using c look s(2) by auto
qed

lemma strata_in_block:
  assumes "block < length plans" and em: "emission phase strata plans runs"
  shows "inj_on (pair_stratum strata runs block) {..<7}"
proof -
  note perm = emissionD(3) [OF em] and strata = emissionD(1) [OF em]
  let ?p = "plans ! block"
  have "distinct (map (Key \<circ> fst) ?p)"
    using perm [of ?p] assms(1) strata_okD(2) [OF strata]
    by (metis map_map mset_eq_imp_distinct_iff mset_map nth_mem)
  then have "distinct (map Key (map fst ?p))" by (simp only: map_map)
  then have "inj_on (\<lambda>k. Key (fst (?p ! k))) {..<7}"
    using plan_length [OF em assms(1)] by (auto simp: inj_on_def distinct_conv_nth)
  then show ?thesis using pairs_ok(2) [OF assms(1) _ em] by (simp add: inj_on_def)
qed

lemma generated_wf:
  assumes em: "emission phase strata plans runs"
  shows "schedule_wf strata (length plans) runs"
proof -
  have "\<forall>i < length runs. Ordinal (runs ! i) = int (i + 1)"
    using nth_runs_div [OF _ em] by (simp add: mk_run_def)
  moreover have "length runs = length plans * 14" using length_runs [OF em] by simp
  ultimately show ?thesis
    unfolding schedule_wf_def
    using run_ids_distinct [OF em] cell_ids_known [OF em] each_cell_once [OF _ _ em] pairs_ok(1) [OF _ _ em]
      strata_in_block [OF _ em] by blast
qed

section \<open>Termination of the generator\<close>

text \<open>
  A draw below \<open>n \<le> 7\<close> accepts every value from 4 on, so a call can only fail to return
  when from some point on the stream yields nothing but values below 4.
\<close>

definition starves :: "counterStream \<Rightarrow> bool" where
  "starves s \<longleftrightarrow> (\<exists>m. \<forall>k. draw s (m + k) < 4)"

lemma starves_after: "starves (stream_after i s) \<Longrightarrow> starves s"
  unfolding starves_def draw_after by (metis add.assoc)

lemma small_threshold:
  assumes "m \<in> {2..7}"
  shows "(- of_nat m) mod (of_nat m :: 64 word) \<le> 4"
proof -
  have "m = 2 \<or> m = 3 \<or> m = 4 \<or> m = 5 \<or> m = 6 \<or> m = 7" using assms by auto
  then show ?thesis by (elim disjE) simp_all
qed

lemma uintn_small:
  assumes "m \<in> {2..7}" "\<not> starves s"
  shows "\<exists>v k. uintn (of_nat m) s = Some (v, stream_after k s)"
proof -
  obtain k where "\<not> draw s (0 + k) < 4" using assms(2) unfolding starves_def by blast
  then have "(- of_nat m) mod of_nat m \<le> draw s k" using small_threshold [OF assms(1)] by simp
  then obtain r where r: "uintn (of_nat m) s = Some r" using uintn_returns_iff by blast
  then show ?thesis using uintn_Some [OF r] by blast
qed

lemma shuffle_from_returns:
  "i \<le> 6 \<Longrightarrow> \<not> starves s \<Longrightarrow> \<exists>ys k. shuffle_from i xs s = Some (ys, stream_after k s)"
proof (induction i arbitrary: xs s)
  case 0
  show ?case by (intro exI [of _ xs] exI [of _ 0]) simp
next
  case (Suc i)
  obtain v k where v: "uintn (of_nat (Suc i + 1)) s = Some (v, stream_after k s)"
    using uintn_small [of "Suc i + 1" s] Suc.prems by auto
  have "\<not> starves (stream_after k s)" using Suc.prems(2) starves_after by blast
  then obtain ys l where "shuffle_from i (swap_at (Suc i) (unat v) xs) (stream_after k s)
      = Some (ys, stream_after l (stream_after k s))"
    using Suc.IH Suc.prems(1) by fastforce
  with v show ?case by (auto simp: stream_after_add [symmetric] simp del: of_nat_Suc of_nat_add)
qed

lemma emit_order_returns:
  "\<not> starves s \<Longrightarrow> \<exists>runs' k. emit_order phase block order runs s = Some (runs', stream_after k s)"
proof (induction order arbitrary: runs s)
  case Nil
  show ?case by (intro exI [of _ runs] exI [of _ 0]) simp
next
  case (Cons x order)
  obtain v k where v: "uintn 2 s = Some (v, stream_after k s)"
    using uintn_small [of 2 s] Cons.prems by auto
  have "\<not> starves (stream_after k s)" using Cons.prems starves_after by blast
  from Cons.IH [OF this] obtain runs' l where
    "emit_order phase block order (fold (append_run phase block) (pair_of x (v = 1)) runs) (stream_after k s)
       = Some (runs', stream_after l (stream_after k s))" by blast
  with v show ?case by (auto simp: stream_after_add [symmetric])
qed

lemma emit_blocks_returns:
  "length strata = 7 \<Longrightarrow> \<not> starves s \<Longrightarrow> \<exists>runs'. emit_blocks phase strata blocks runs s = Some runs'"
proof (induction blocks arbitrary: runs s)
  case (Cons block blocks)
  obtain order k where sh: "shuffle strata s = Some (order, stream_after k s)"
    using shuffle_from_returns [of 6 s strata] Cons.prems by (auto simp: shuffle_def)
  have k: "\<not> starves (stream_after k s)" using Cons.prems(2) starves_after by blast
  then obtain runs1 l where em: "emit_order phase block order runs (stream_after k s)
      = Some (runs1, stream_after l (stream_after k s))"
    using emit_order_returns by blast
  have "\<not> starves (stream_after l (stream_after k s))" using k starves_after by blast
  from Cons.IH [OF Cons.prems(1) this] sh em show ?case by simp
qed simp

section \<open>The generator is correct\<close>

lemma matrix_cells_Cons: "matrix_cells (s # ss) = Direct s # Codegen s # matrix_cells ss"
  by (simp add: matrix_cells_def)

lemma distinct_matrix_cells:
  assumes "strata_ok strata"
  shows "distinct (matrix_cells strata)"
proof -
  have "distinct (map (\<lambda>c. (stratum_key c, Treatment c)) (matrix_cells ss))"
    if "distinct (map Key ss)" "\<forall>s \<in> set ss. stratum_key (Direct s) = Key s \<and> stratum_key (Codegen s) = Key s
      \<and> Treatment (Direct s) = ''direct'' \<and> Treatment (Codegen s) = ''codegen''" for ss
    using that
  proof (induction ss)
    case (Cons s ss)
    have "stratum_key c \<noteq> Key s" if "c \<in> set (matrix_cells ss)" for c
    proof -
      from that obtain s' where "s' \<in> set ss" "c = Direct s' \<or> c = Codegen s'"
        by (auto simp: matrix_cells_def)
      moreover from this(1) have "Key s' \<in> set (map Key ss)" by simp
      then have "Key s' \<noteq> Key s" using Cons.prems(1) by (metis distinct.simps(2) list.simps(9))
      ultimately show ?thesis using Cons.prems(2) by auto
    qed
    moreover have "distinct (map (\<lambda>c. (stratum_key c, Treatment c)) (matrix_cells ss))"
      using Cons by simp
    moreover have "stratum_key (Direct s) = Key s" "stratum_key (Codegen s) = Key s"
      "Treatment (Direct s) \<noteq> Treatment (Codegen s)" using Cons.prems(2) by simp_all
    ultimately show ?case unfolding matrix_cells_Cons by force
  qed (simp add: matrix_cells_def)
  then show ?thesis
    using assms strata_okD(2) [OF assms] by (auto simp: strata_ok_def distinct_map)
qed

lemma matrixStrata_mset:
  assumes "matrixStrata cells = Inr strata" "\<forall>c \<in> set cells. ID c \<noteq> ''''"
  shows "mset (matrix_cells strata) = mset cells"
  using matrixStrata_Inr(1) [OF assms(1)] matrixStrata_Inr(3) [OF assms] distinct_matrix_cells
  by (metis set_eq_iff_mset_eq_distinct)

lemma generated_runs_wf:
  assumes "matrixStrata (Cells config) = Inr strata" "distinct (map ID (matrix_cells strata))"
    "emit_blocks phase strata [0..<phase_blocks phase] [] stream = Some runs"
  shows "schedule_wf strata (phase_blocks phase) runs"
proof -
  note ok = matrixStrata_Inr(1) [OF assms(1)]
  have "emitted phase [] []" by (simp add: emitted_def)
  from emit_blocks_plans [OF assms(3) strata_okD(1) [OF ok] this, of "phase_blocks phase"]
  obtain plans where plans: "length plans = phase_blocks phase"
    "\<forall>p \<in> set plans. mset (map fst p) = mset strata" "emitted phase plans runs" by auto
  then have "emission phase strata plans runs" using ok assms(2) by (simp add: emission_def)
  from generated_wf [OF this] plans(1) show ?thesis by simp
qed

definition seed_agrees :: "experimentConfig \<Rightarrow> string \<Rightarrow> bool" where
  "seed_agrees config seed \<longleftrightarrow> isTODO (ScheduleSeed (Execution config)) \<or> seed = ScheduleSeed (Execution config)"

definition revision_agrees :: "experimentConfig \<Rightarrow> string \<Rightarrow> bool" where
  "revision_agrees config revision \<longleftrightarrow>
     isTODO (ConfigRevision (FrozenInputs config)) \<or> revision = ConfigRevision (FrozenInputs config)"

text \<open>The arguments \<open>generateSchedule\<close> does not reject before it draws.\<close>

definition generate_args_ok :: "string \<Rightarrow> string \<Rightarrow> string \<Rightarrow> string \<Rightarrow> bool" where
  "generate_args_ok phase seed revision generatedAt \<longleftrightarrow>
     (phase = ''measured'' \<or> phase = ''pilot'') \<and> seed \<noteq> '''' \<and> \<not> isTODO seed
     \<and> revision \<noteq> '''' \<and> \<not> isTODO revision \<and> Parse_RFC3339 generatedAt \<noteq> None"

lemma generateSchedule_emits:
  assumes "generate_args_ok phase seed revision generatedAt" "matrixStrata (Cells config) = Inr strata"
    "emit_blocks phase strata [0..<phase_blocks phase] [] (newCounterStream seed phase) = Some runs"
    "validateScheduleSemantic config (schedule_document seed revision generatedAt runs) phase = None"
  shows "generateSchedule (Inr config) phase seed revision generatedAt
    = Some (Inr (schedule_document seed revision generatedAt runs))"
  using assms unfolding generate_args_ok_def generateSchedule_def phase_blocks_def Let_def by auto

lemma generateSchedule_total:
  assumes args: "generate_args_ok phase seed revision generatedAt"
    and strata: "matrixStrata (Cells config) = Inr strata"
    and ids: "distinct (map ID (matrix_cells strata))"
    and agree: "seed_agrees config seed" "revision_agrees config revision"
  shows "(\<exists>runs. generateSchedule (Inr config) phase seed revision generatedAt
           = Some (Inr (schedule_document seed revision generatedAt runs))
           \<and> schedule_wf strata (phase_blocks phase) runs)
         \<or> starves (newCounterStream seed phase)"
proof (cases "starves (newCounterStream seed phase)")
  case False
  from emit_blocks_returns [OF strata_okD(1) [OF matrixStrata_Inr(1) [OF strata]] False]
  obtain runs where em: "emit_blocks phase strata [0..<phase_blocks phase] [] (newCounterStream seed phase) = Some runs"
    by blast
  have wf: "schedule_wf strata (phase_blocks phase) runs" by (rule generated_runs_wf [OF strata ids em])
  have ph: "phase = ''measured'' \<or> phase = ''pilot''" using args by (simp add: generate_args_ok_def)
  have "validateScheduleSemantic config (schedule_document seed revision generatedAt runs) phase = None"
    unfolding validateScheduleSemantic_None_iff [OF ph strata]
    using wf agree by (auto simp: schedule_document_def seed_agrees_def revision_agrees_def)
  with generateSchedule_emits [OF args strata em] wf show ?thesis by blast
qed simp

end
