(* ===== verification/Freeze_Experiment.thy ===== *)
theory Freeze_Experiment
  imports Freeze_Schedule
begin

text \<open>
  The experiment matrix of \<open>config/experiment.json\<close> as the repository has it, and the
  properties of the schedule generator and validator, instantiated at that matrix.
\<close>

definition mk_cell :: "string \<times> string \<times> string \<times> string \<times> string \<Rightarrow> cell" where
  "mk_cell = (\<lambda>(i, s, t, m, r). \<lparr>ID = i, Stage = s, Task = t, Mode = m, Treatment = r\<rparr>)"

definition experiment_cells :: "cell list" where
  "experiment_cells = map mk_cell
    [(''greenfield-direct'', ''greenfield'', ''baseline-service'', ''greenfield'', ''direct''),
     (''greenfield-codegen'', ''greenfield'', ''baseline-service'', ''greenfield'', ''codegen''),
     (''nullable-patch-full-direct'', ''existing-service'', ''nullable-patch'', ''full-workflow'', ''direct''),
     (''nullable-patch-full-codegen'', ''existing-service'', ''nullable-patch'', ''full-workflow'', ''codegen''),
     (''nullable-patch-propagation-direct'', ''existing-service'', ''nullable-patch'', ''propagation-only'', ''direct''),
     (''nullable-patch-propagation-codegen'', ''existing-service'', ''nullable-patch'', ''propagation-only'', ''codegen''),
     (''optimistic-locking-full-direct'', ''existing-service'', ''optimistic-locking'', ''full-workflow'', ''direct''),
     (''optimistic-locking-full-codegen'', ''existing-service'', ''optimistic-locking'', ''full-workflow'', ''codegen''),
     (''optimistic-locking-propagation-direct'', ''existing-service'', ''optimistic-locking'', ''propagation-only'', ''direct''),
     (''optimistic-locking-propagation-codegen'', ''existing-service'', ''optimistic-locking'', ''propagation-only'', ''codegen''),
     (''cursor-pagination-full-direct'', ''existing-service'', ''cursor-pagination'', ''full-workflow'', ''direct''),
     (''cursor-pagination-full-codegen'', ''existing-service'', ''cursor-pagination'', ''full-workflow'', ''codegen''),
     (''cursor-pagination-propagation-direct'', ''existing-service'', ''cursor-pagination'', ''propagation-only'', ''direct''),
     (''cursor-pagination-propagation-codegen'', ''existing-service'', ''cursor-pagination'', ''propagation-only'', ''codegen'')]"

text \<open>The string maps, which the schedule code does not read, are left empty.\<close>

definition experiment_config :: experimentConfig where
  "experiment_config =
     \<lparr>cfg_Status = ''draft'', Provider = ''openrouter'', Agent_Name = ''opencode'', Agent_Version = ''1.18.18'',
      FrozenInputs = \<lparr>ConfigRevision = ''TODO_GIT_COMMIT'', DesignRevision = ''TODO_GIT_COMMIT'',
        EvaluatorRevision = ''TODO_GIT_COMMIT'', ResultSchemaRevision = ''TODO_GIT_COMMIT'',
        EnvironmentImages = [], ScheduleManifest = ''config/schedule.json'', Fixtures = [],
        Treatments = [], Tasks = []\<rparr>,
      Execution = \<lparr>NetworkPolicyEnforcementStatus = ''validated'', Schedule = ''blocked-randomized'',
        ScheduleSeed = ''TODO_FREEZE_BEFORE_MEASURED_RUNS''\<rparr>,
      Cells = experiment_cells\<rparr>"

lemma experiment_groups:
  "\<exists>byKey. group_cells experiment_cells Map.empty = Inr byKey
    \<and> (\<forall>k \<in> stratum_key ` set experiment_cells. \<exists>s. byKey k = Some s \<and> ID (Direct s) \<noteq> '''' \<and> ID (Codegen s) \<noteq> '''')"
  by (simp add: experiment_cells_def mk_cell_def add_cell_def stratum_key_def Let_def zero_cell_def)

lemma experiment_seven: "length (remdups (map stratum_key experiment_cells)) = 7"
  by (simp add: experiment_cells_def mk_cell_def stratum_key_def)

lemma experiment_ids: "distinct (map ID experiment_cells)" "\<forall>c \<in> set experiment_cells. ID c \<noteq> ''''"
  by (simp_all add: experiment_cells_def mk_cell_def)

lemma collect_strata_total:
  "\<forall>k \<in> set keys. \<exists>s. byKey k = Some s \<and> ID (Direct s) \<noteq> '''' \<and> ID (Codegen s) \<noteq> '''' \<Longrightarrow>
     \<exists>strata. collect_strata byKey keys = Inr strata"
  by (induction keys) (auto simp: try_res_def)

lemma experiment_strata: "\<exists>strata. matrixStrata experiment_cells = Inr strata"
proof -
  obtain byKey where g: "group_cells experiment_cells Map.empty = Inr byKey"
    and k: "\<forall>k \<in> stratum_key ` set experiment_cells. \<exists>s. byKey k = Some s \<and> ID (Direct s) \<noteq> '''' \<and> ID (Codegen s) \<noteq> ''''"
    using experiment_groups by blast
  show ?thesis
    using g k experiment_seven collect_strata_total [of "sort (remdups (map stratum_key experiment_cells))" byKey]
    by (simp add: matrixStrata_def sortStrings_eq_sort)
qed

lemma experiment_config_cells [simp]: "Cells experiment_config = experiment_cells"
  by (simp add: experiment_config_def)

lemma experiment_open:
  "seed_agrees experiment_config seed" "revision_agrees experiment_config revision"
  by (simp_all add: seed_agrees_def revision_agrees_def experiment_config_def isTODO_def)

lemma pilot_args: "generate_args_ok ''pilot'' ''seed'' ''abc'' ''2026-08-18T00:00:00Z''"
  by (simp add: generate_args_ok_def isTODO_def Parse_RFC3339_def get_year_def digit_value_def getnum_def
      skip_char_def get_fraction_def get_zone_def days_in_def)

section \<open>Properties\<close>

text \<open>
  An accepted matrix is a partition. When every cell has an identifier and
  \<open>matrixStrata\<close> returns strata, there are seven of them in strictly increasing key order,
  each with one direct and one codegen cell of its own key, and together they hold every
  configured cell exactly once.
\<close>

theorem matrix_strata_partition:
  assumes "matrixStrata cells = Inr strata" "\<forall>c \<in> set cells. ID c \<noteq> ''''"
  shows "strata_ok strata \<and> mset (matrix_cells strata) = mset cells"
  using matrixStrata_Inr(1) [OF assms(1)] matrixStrata_mset [OF assms] by blast

theorem matrix_strata_partition_witness:
  "\<exists>strata. strata_ok strata \<and> mset (matrix_cells strata) = mset experiment_cells"
  using experiment_strata matrix_strata_partition [OF _ experiment_ids(2)] by blast

text \<open>
  C2: the semantic validator accepts exactly the schedules of the contract: the right number
  of runs, ordinals counting from one, no run identifier twice, only cells of the matrix, every
  cell once per repeat, every block seven adjacent direct/codegen pairs of seven different
  strata, and seed and revision those of a configuration that has fixed them.
\<close>

theorem schedule_validator_exact:
  assumes "phase = ''measured'' \<or> phase = ''pilot''" "matrixStrata (Cells config) = Inr strata"
  shows "validateScheduleSemantic config document phase = None \<longleftrightarrow>
     Algorithm document = ''sha256-fisher-yates-v1''
     \<and> schedule_wf strata (phase_blocks phase) (Runs document)
     \<and> seed_agrees config (Seed document) \<and> revision_agrees config (schedule_ConfigRevision document)"
  unfolding seed_agrees_def revision_agrees_def using assms by (rule validateScheduleSemantic_None_iff)

theorem schedule_validator_exact_witness:
  "\<exists>strata. validateScheduleSemantic experiment_config (schedule_document ''s'' ''r'' ''t'' []) ''pilot'' = None
     \<longleftrightarrow> schedule_wf strata 1 []"
  using experiment_strata
    schedule_validator_exact [of "''pilot''" experiment_config _ "schedule_document ''s'' ''r'' ''t'' []"]
  by (auto simp: schedule_document_def experiment_open phase_blocks_def)

text \<open>
  C1: total correctness of the generator. With arguments that pass its checks, a matrix of
  pairwise different identifiers and a seed and revision that agree with the configuration,
  \<open>generateSchedule\<close> returns a schedule that meets the contract, so its own final validation
  never fails. The only alternative is that the digest stream yields nothing but values below
  4 from some point on, in which case the rejection loop does not end.
\<close>

theorem generate_schedule_correct:
  assumes "generate_args_ok phase seed revision generatedAt" "matrixStrata (Cells config) = Inr strata"
    "distinct (map ID (matrix_cells strata))" "seed_agrees config seed" "revision_agrees config revision"
  shows "(\<exists>runs. generateSchedule (Inr config) phase seed revision generatedAt
           = Some (Inr (schedule_document seed revision generatedAt runs))
           \<and> schedule_wf strata (phase_blocks phase) runs)
         \<or> starves (newCounterStream seed phase)"
  using assms by (rule generateSchedule_total)

theorem generate_schedule_correct_witness:
  "\<exists>strata. (\<exists>runs. generateSchedule (Inr experiment_config) ''pilot'' ''seed'' ''abc'' ''2026-08-18T00:00:00Z''
           = Some (Inr (schedule_document ''seed'' ''abc'' ''2026-08-18T00:00:00Z'' runs))
           \<and> schedule_wf strata 1 runs)
         \<or> starves (newCounterStream ''seed'' ''pilot'')"
proof -
  obtain strata where s: "matrixStrata experiment_cells = Inr strata" using experiment_strata by blast
  have "distinct (map ID (matrix_cells strata))"
    using matrixStrata_mset [OF s experiment_ids(2)] experiment_ids(1) by (metis mset_eq_imp_distinct_iff mset_map)
  with generate_schedule_correct [OF pilot_args, of experiment_config strata] s experiment_open
  show ?thesis by (auto simp: phase_blocks_def)
qed

end
