(* ===== verification/Go_Decode.thy ===== *)
theory Go_Decode
  imports Go_JSON Go_Strconv
begin

text \<open>
  Decoding a JSON tree into Go values without \<open>DisallowUnknownFields\<close>. A decoder updates
  the value it is given and says whether every part had the right type: \<open>encoding/json\<close>
  goes on after a value of the wrong type, leaves the old contents there, and reports the
  first such error at the end. \<open>null\<close> leaves scalars and structs alone and clears
  pointers, slices and maps. Members of an object that name no field are skipped.
\<close>

type_synonym 'a decoder = "json \<Rightarrow> 'a \<Rightarrow> 'a \<times> bool"

definition dec_string :: "string decoder" where
  "dec_string v old = (case v of JString s \<Rightarrow> (s, True) | JNull \<Rightarrow> (old, True) | _ \<Rightarrow> (old, False))"

definition dec_bool :: "bool decoder" where
  "dec_bool v old = (case v of JBool b \<Rightarrow> (b, True) | JNull \<Rightarrow> (old, True) | _ \<Rightarrow> (old, False))"

text \<open>An integer field takes a number without fraction or exponent that fits 64 bits.\<close>

definition dec_int :: "int decoder" where
  "dec_int v old =
     (case v of
        JNumber s \<Rightarrow> (case ParseInt64 s of Some n \<Rightarrow> (n, True) | None \<Rightarrow> (old, False))
      | JNull \<Rightarrow> (old, True)
      | _ \<Rightarrow> (old, False))"

text \<open>A pointer is allocated with the zero value \<open>z\<close> of its type when it is nil.\<close>

definition dec_ptr :: "'a \<Rightarrow> 'a decoder \<Rightarrow> 'a option decoder" where
  "dec_ptr z d v old =
     (if v = JNull then (None, True)
      else let (x, ok) = d v (case old of None \<Rightarrow> z | Some y \<Rightarrow> y) in (Some x, ok))"

text \<open>Elements already in the slice are decoded over; new ones start from zero.\<close>

fun dec_elements :: "'a \<Rightarrow> 'a decoder \<Rightarrow> json list \<Rightarrow> 'a list \<Rightarrow> 'a list \<times> bool" where
  "dec_elements z d [] old = ([], True)"
| "dec_elements z d (v # vs) old =
     (let (x, ok) = d v (case old of [] \<Rightarrow> z | y # _ \<Rightarrow> y);
          (xs, oks) = dec_elements z d vs (drop 1 old)
      in (x # xs, ok \<and> oks))"

definition dec_slice :: "'a \<Rightarrow> 'a decoder \<Rightarrow> 'a list decoder" where
  "dec_slice z d v old =
     (case v of JArray vs \<Rightarrow> dec_elements z d vs old | JNull \<Rightarrow> ([], True) | _ \<Rightarrow> (old, False))"

text \<open>A map entry is decoded into a fresh element and then stored under its key.\<close>

definition put :: "string \<Rightarrow> 'a \<Rightarrow> (string \<times> 'a) list \<Rightarrow> (string \<times> 'a) list" where
  "put k x m = filter (\<lambda>(k', _). k' \<noteq> k) m @ [(k, x)]"

definition dec_map :: "'a \<Rightarrow> 'a decoder \<Rightarrow> (string \<times> 'a) list decoder" where
  "dec_map z d v old =
     (case v of
        JObject ms \<Rightarrow> fold (\<lambda>(k, x) (m, ok). let (y, good) = d x z in (put k y m, ok \<and> good)) ms (old, True)
      | JNull \<Rightarrow> ([], True)
      | _ \<Rightarrow> (old, False))"

text \<open>A struct: its fields by JSON name, each with the update its decoder makes.\<close>

definition dec_struct :: "(string \<times> 'r decoder) list \<Rightarrow> 'r decoder" where
  "dec_struct fields v old =
     (case v of
        JObject ms \<Rightarrow>
          fold (\<lambda>(k, x) (r, ok).
                  case Option.bind (select_field (map fst fields) k) (map_of fields) of
                    None \<Rightarrow> (r, ok)
                  | Some d \<Rightarrow> (let (r', good) = d x r in (r', ok \<and> good))) ms (old, True)
      | JNull \<Rightarrow> (old, True)
      | _ \<Rightarrow> (old, False))"

text \<open>The same with \<open>DisallowUnknownFields\<close>.\<close>

definition dec_strict :: "(string \<times> 'r decoder) list \<Rightarrow> 'r decoder" where
  "dec_strict fields v old =
     (case v of
        JObject ms \<Rightarrow>
          fold (\<lambda>(k, x) (r, ok).
                  case Option.bind (select_field (map fst fields) k) (map_of fields) of
                    None \<Rightarrow> (r, False)
                  | Some d \<Rightarrow> (let (r', good) = d x r in (r', ok \<and> good))) ms (old, True)
      | JNull \<Rightarrow> (old, True)
      | _ \<Rightarrow> (old, False))"

definition at_field :: "('r \<Rightarrow> 'a) \<Rightarrow> (('a \<Rightarrow> 'a) \<Rightarrow> 'r \<Rightarrow> 'r) \<Rightarrow> 'a decoder \<Rightarrow> 'r decoder" where
  "at_field get upd d v r = (let (x, ok) = d v (get r) in (upd (\<lambda>_. x) r, ok))"

text \<open>
  \<open>json.Unmarshal\<close> of a whole text; a syntax error stores nothing. The value comes back as
  it was left, with \<^const>\<open>True\<close> when there was no error.
\<close>

definition Unmarshal :: "'a decoder \<Rightarrow> 'a \<Rightarrow> string \<Rightarrow> 'a \<times> bool" where
  "Unmarshal d z s = (case parse_json s of None \<Rightarrow> (z, False) | Some v \<Rightarrow> d v z)"

text \<open>An object reached through \<open>any\<close>: the last member of a name wins.\<close>

definition member :: "json \<Rightarrow> string \<Rightarrow> json option" where
  "member v k = (case v of JObject ms \<Rightarrow> map_of (rev ms) k | _ \<Rightarrow> None)"

lemma put_same [simp]: "map_of (put k x m) k = Some x"
  by (induction m) (auto simp: put_def)

lemma put_other [simp]: "k' \<noteq> k \<Longrightarrow> map_of (put k x m) k' = map_of m k'"
  by (induction m) (auto simp: put_def)

lemma put_distinct: "distinct (map fst m) \<Longrightarrow> distinct (map fst (put k x m))"
  by (auto simp: put_def distinct_map inj_on_def)

text \<open>What the encoders of the harness print is decoded to the value it was printed from.\<close>

abbreviation int64 :: "int \<Rightarrow> bool" where
  "int64 n \<equiv> min_int64 \<le> n \<and> n \<le> max_int64"

lemma dec_int_FormatInt: "int64 n \<Longrightarrow> dec_int (JNumber (FormatInt n)) old = (n, True)"
  by (simp add: dec_int_def ParseInt64_FormatInt)

lemma dec_string_JString [simp]: "dec_string (JString s) old = (s, True)"
  by (simp add: dec_string_def)

lemma dec_bool_JBool [simp]: "dec_bool (JBool b) old = (b, True)"
  by (simp add: dec_bool_def)

lemma dec_elements_map:
  "(\<And>x old. x \<in> set xs \<Longrightarrow> d (enc x) old = (x, True)) \<Longrightarrow> dec_elements z d (map enc xs) old = (xs, True)"
  by (induction xs arbitrary: old) auto

end
