(* ===== verification/Go_Path.thy ===== *)
theory Go_Path
  imports Go_Strings
begin

text \<open>
  Package \<open>path/filepath\<close> on Unix. A path is rooted or not and has components between its
  slashes; \<open>Clean\<close> drops empty and dot components and resolves \<open>..\<close> lexically. \<open>clean_comps\<close>
  is the component list of the cleaned path. A cleaned relative path has its \<open>..\<close>
  components in front, which is what makes the containment tests of the harness sound.
\<close>

definition IsAbs :: "string \<Rightarrow> bool" where
  "IsAbs p \<longleftrightarrow> HasPrefix p ''/''"

definition clean_step :: "bool \<Rightarrow> string \<Rightarrow> string list \<Rightarrow> string list" where
  "clean_step rooted c stack =
     (if c = '''' \<or> c = ''.'' then stack
      else if c = ''..'' then
        (if stack \<noteq> [] \<and> hd stack \<noteq> ''..'' then tl stack else if rooted then stack else ''..'' # stack)
      else c # stack)"

text \<open>The stack holds the components in reverse.\<close>

definition clean_comps :: "string \<Rightarrow> string list" where
  "clean_comps p = rev (fold (clean_step (IsAbs p)) (split_on (CHR ''/'') p) [])"

definition render_path :: "bool \<Rightarrow> string list \<Rightarrow> string" where
  "render_path rooted cs =
     (if rooted then ''/'' @ join_on (CHR ''/'') cs
      else if cs = [] then ''.'' else join_on (CHR ''/'') cs)"

definition Clean :: "string \<Rightarrow> string" where
  "Clean p = render_path (IsAbs p) (clean_comps p)"

definition Join :: "string \<Rightarrow> string \<Rightarrow> string" where
  "Join a b = (if a = '''' \<and> b = '''' then '''' else if a = '''' then Clean b
     else if b = '''' then Clean a else Clean (a @ ''/'' @ b))"

fun strip_common :: "string list \<Rightarrow> string list \<Rightarrow> string list \<times> string list" where
  "strip_common (x # xs) (y # ys) = (if x = y then strip_common xs ys else (x # xs, y # ys))"
| "strip_common xs ys = (xs, ys)"

text \<open>\<open>filepath.Rel\<close>; \<^const>\<open>None\<close> is its error.\<close>

definition Rel :: "string \<Rightarrow> string \<Rightarrow> string option" where
  "Rel base targ =
     (if IsAbs base \<noteq> IsAbs targ then None
      else case strip_common (clean_comps base) (clean_comps targ) of
        (up, down) \<Rightarrow>
          if up \<noteq> [] \<and> hd up = ''..'' then None
          else Some (render_path False (replicate (length up) ''..'' @ down)))"

section \<open>Cleaned components\<close>

definition comp_ok :: "string \<Rightarrow> bool" where
  "comp_ok c \<longleftrightarrow> c \<noteq> '''' \<and> c \<noteq> ''.'' \<and> CHR ''/'' \<notin> set c"

text \<open>A stack in reverse order: \<open>..\<close> components at the bottom only, none when rooted.\<close>

definition stack_ok :: "bool \<Rightarrow> string list \<Rightarrow> bool" where
  "stack_ok rooted stack \<longleftrightarrow> list_all comp_ok stack
     \<and> (\<exists>names n. stack = names @ replicate n ''..'' \<and> ''..'' \<notin> set names \<and> (rooted \<longrightarrow> n = 0))"

lemma stack_ok_Nil [simp]: "stack_ok rooted []"
  by (auto simp: stack_ok_def)

lemma clean_step_ok:
  assumes "stack_ok rooted stack" "CHR ''/'' \<notin> set c"
  shows "stack_ok rooted (clean_step rooted c stack)"
proof -
  obtain names n where s: "stack = names @ replicate n ''..''" "''..'' \<notin> set names" "rooted \<longrightarrow> n = 0"
    and ok: "list_all comp_ok stack" using assms(1) unfolding stack_ok_def by blast
  consider (skip) "c = '''' \<or> c = ''.''" | (up) "c = ''..''" | (name) "c \<noteq> ''''" "c \<noteq> ''.''" "c \<noteq> ''..''" by blast
  then show ?thesis
  proof cases
    case skip
    then show ?thesis using assms(1) by (auto simp: clean_step_def)
  next
    case name
    then have "stack_ok rooted (c # stack)"
      using s ok assms(2) by (auto simp: stack_ok_def comp_ok_def intro!: exI [of _ "c # names"] exI [of _ n])
    then show ?thesis using name by (simp add: clean_step_def)
  next
    case up
    show ?thesis
    proof (cases names)
      case (Cons x xs)
      then have "clean_step rooted c stack = xs @ replicate n ''..''" using s up by (auto simp: clean_step_def)
      then show ?thesis using s ok Cons by (auto simp: stack_ok_def)
    next
      case Nil
      then have st: "stack = replicate n ''..''" using s by simp
      have "\<not> (stack \<noteq> [] \<and> hd stack \<noteq> ''..'')" using st by (cases n) auto
      then have "clean_step rooted c stack = (if rooted then stack else ''..'' # stack)"
        using up by (auto simp: clean_step_def)
      moreover have "stack_ok False (''..'' # stack)"
        using st ok by (auto simp: stack_ok_def comp_ok_def intro!: exI [of _ "[]"] exI [of _ "Suc n"])
      ultimately show ?thesis using assms(1) by auto
    qed
  qed
qed

lemma fold_clean_ok:
  "(\<And>c. c \<in> set cs \<Longrightarrow> CHR ''/'' \<notin> set c) \<Longrightarrow> stack_ok rooted stack \<Longrightarrow>
     stack_ok rooted (fold (clean_step rooted) cs stack)"
  by (induction cs arbitrary: stack) (auto intro: clean_step_ok)

lemma clean_comps_ok:
  obtains names n where "clean_comps p = replicate n ''..'' @ names" "''..'' \<notin> set names"
    "IsAbs p \<longrightarrow> n = 0" "list_all comp_ok (clean_comps p)"
proof -
  have "stack_ok (IsAbs p) (fold (clean_step (IsAbs p)) (split_on (CHR ''/'') p) [])"
    using split_on_no_sep by (intro fold_clean_ok) auto
  then obtain names n where st: "fold (clean_step (IsAbs p)) (split_on (CHR ''/'') p) [] = names @ replicate n ''..''"
    "''..'' \<notin> set names" "IsAbs p \<longrightarrow> n = 0" "list_all comp_ok (names @ replicate n ''..'')"
    unfolding stack_ok_def by metis
  show thesis
  proof (rule that)
    show "clean_comps p = replicate n ''..'' @ rev names" using st(1) by (simp add: clean_comps_def)
    then show "list_all comp_ok (clean_comps p)" using st(4) by (auto simp: list_all_iff)
  qed (use st in simp_all)
qed

lemma fold_clean_id:
  "list_all comp_ok cs \<Longrightarrow> ''..'' \<notin> set cs \<Longrightarrow> fold (clean_step rooted) cs stack = rev cs @ stack"
  by (induction cs arbitrary: stack) (auto simp: clean_step_def comp_ok_def)

lemma split_on_append: "split_on sep (a @ sep # b) = split_on sep a @ split_on sep b"
  by (induction a) (auto split: list.splits)

lemma split_on_single: "sep \<notin> set w \<Longrightarrow> split_on sep w = [w]"
  by (induction w) auto

lemma split_join:
  "cs \<noteq> [] \<Longrightarrow> (\<And>c. c \<in> set cs \<Longrightarrow> sep \<notin> set c) \<Longrightarrow> split_on sep (join_on sep cs) = cs"
  by (induction cs rule: join_on.induct) (auto simp: split_on_append split_on_single)

lemma fold_clean_ups: "fold (clean_step False) (replicate n ''..'') (replicate m ''..'') = replicate (n + m) ''..''"
proof (induction n arbitrary: m)
  case (Suc n)
  have "clean_step False ''..'' (replicate m ''..'') = replicate (Suc m) ''..''"
    by (cases m) (simp_all add: clean_step_def)
  then show ?case using Suc.IH [of "Suc m"] by simp
qed simp

lemma join_on_hd: "cs \<noteq> [] \<Longrightarrow> hd cs \<noteq> [] \<Longrightarrow> join_on sep cs \<noteq> [] \<and> hd (join_on sep cs) = hd (hd cs)"
  by (cases cs rule: list.exhaust; cases "tl cs") auto

lemma not_abs_render: "cs \<noteq> [] \<Longrightarrow> list_all comp_ok cs \<Longrightarrow> \<not> IsAbs (join_on (CHR ''/'') cs)"
proof -
  assume cs: "cs \<noteq> []" "list_all comp_ok cs"
  then have hd: "comp_ok (hd cs)" by (cases cs) auto
  then have "hd cs \<noteq> []" "hd (hd cs) \<noteq> CHR ''/''" by (cases "hd cs"; auto simp: comp_ok_def)+
  then show ?thesis using join_on_hd [of cs "CHR ''/''"] cs(1)
    by (cases "join_on (CHR ''/'') cs") (auto simp: IsAbs_def)
qed

text \<open>Cleaning changes nothing but the spelling.\<close>

lemma IsAbs_Clean: "IsAbs (Clean p) = IsAbs p"
proof -
  obtain names n where "list_all comp_ok (clean_comps p)" by (rule clean_comps_ok [of p])
  then show ?thesis
    using not_abs_render [of "clean_comps p"] by (auto simp: Clean_def render_path_def IsAbs_def)
qed

lemma clean_comps_Clean: "clean_comps (Clean p) = clean_comps p"
proof -
  obtain names n where c: "clean_comps p = replicate n ''..'' @ names" "''..'' \<notin> set names"
    "IsAbs p \<longrightarrow> n = 0" "list_all comp_ok (clean_comps p)" by (rule clean_comps_ok [of p])
  have no: "CHR ''/'' \<notin> set x" if "x \<in> set (clean_comps p)" for x
    using c(4) that by (auto simp: list_all_iff comp_ok_def)
  have names: "list_all comp_ok names" using c(1,4) by simp
  have fold: "fold (clean_step (IsAbs p)) (clean_comps p) [] = rev (clean_comps p)"
  proof (cases "IsAbs p")
    case True
    with c show ?thesis using fold_clean_id [OF names c(2), of True "[]"] by simp
  next
    case False
    then show ?thesis using fold_clean_ups [of n 0] fold_clean_id [OF names c(2), of False "replicate n ''..''"] c(1)
      by simp
  qed
  have "fold (clean_step (IsAbs p)) (split_on (CHR ''/'') (Clean p)) [] = rev (clean_comps p)"
  proof (cases "clean_comps p = []")
    case True
    then show ?thesis by (simp add: Clean_def render_path_def clean_step_def)
  next
    case False
    then have sp: "split_on (CHR ''/'') (join_on (CHR ''/'') (clean_comps p)) = clean_comps p"
      using no by (intro split_join) auto
    show ?thesis
    proof (cases "IsAbs p")
      case True
      then have "split_on (CHR ''/'') (Clean p) = [] # clean_comps p" using sp by (simp add: Clean_def render_path_def)
      then show ?thesis using fold True by (simp add: clean_step_def)
    next
      case F: False
      then have "Clean p = join_on (CHR ''/'') (clean_comps p)" using False by (simp add: Clean_def render_path_def)
      then show ?thesis using fold sp by simp
    qed
  qed
  then show ?thesis by (simp add: clean_comps_def [of "Clean p"] IsAbs_Clean)
qed

section \<open>Containment\<close>

text \<open>
  The test every containment check of the harness makes on a cleaned relative path: it is
  not the directory itself and does not start by leaving it.
\<close>

definition escapes :: "string \<Rightarrow> bool" where
  "escapes c \<longleftrightarrow> c = ''.'' \<or> c = ''..'' \<or> HasPrefix c ''../''"

lemma not_escapes:
  assumes "\<not> IsAbs p" "\<not> escapes (Clean p)"
  shows "clean_comps p \<noteq> []" "''..'' \<notin> set (clean_comps p)"
proof -
  obtain names n where c: "clean_comps p = replicate n ''..'' @ names" "''..'' \<notin> set names"
    by (rule clean_comps_ok [of p])
  show ne: "clean_comps p \<noteq> []" using assms by (auto simp: escapes_def Clean_def render_path_def)
  have "n = 0"
  proof (rule ccontr)
    assume "n \<noteq> 0"
    then obtain m where n: "n = Suc m" by (cases n) auto
    then have "Clean p = join_on (CHR ''/'') (''..'' # replicate m ''..'' @ names)"
      using assms(1) c(1) by (simp add: Clean_def render_path_def)
    then have "Clean p = ''..'' \<or> HasPrefix (Clean p) ''../''"
      by (cases "replicate m ''..'' @ names") simp_all
    with assms(2) show False by (simp add: escapes_def)
  qed
  with c show "''..'' \<notin> set (clean_comps p)" by simp
qed

lemma escapes_iff:
  assumes "\<not> IsAbs p"
  shows "escapes (Clean p) \<longleftrightarrow> clean_comps p = [] \<or> hd (clean_comps p) = ''..''"
proof
  assume "clean_comps p = [] \<or> hd (clean_comps p) = ''..''"
  then show "escapes (Clean p)"
  proof
    assume ne: "hd (clean_comps p) = ''..''"
    show ?thesis
    proof (cases "clean_comps p")
      case (Cons x xs)
      then show ?thesis using ne assms by (cases xs) (simp_all add: escapes_def Clean_def render_path_def)
    qed (use assms in \<open>simp add: escapes_def Clean_def render_path_def\<close>)
  qed (use assms in \<open>simp add: escapes_def Clean_def render_path_def\<close>)
next
  assume "escapes (Clean p)"
  show "clean_comps p = [] \<or> hd (clean_comps p) = ''..''"
  proof (rule ccontr)
    assume c: "\<not> (clean_comps p = [] \<or> hd (clean_comps p) = ''..'')"
    obtain names n where "list_all comp_ok (clean_comps p)" by (rule clean_comps_ok [of p])
    then have ok: "comp_ok (hd (clean_comps p))" using c by (cases "clean_comps p") auto
    have sp: "split_on (CHR ''/'') (Clean p) = clean_comps p"
      using split_join [of "clean_comps p" "CHR ''/''"] c assms \<open>list_all comp_ok (clean_comps p)\<close>
      by (auto simp: Clean_def render_path_def list_all_iff comp_ok_def)
    have "hd (split_on (CHR ''/'') (Clean p)) \<in> {''.'', ''..''}"
      if "HasPrefix (Clean p) ''../''"
    proof -
      have "take 3 (Clean p) = ''../''" using that by (simp add: HasPrefix_def eval_nat_numeral)
      then have "Clean p = ''../'' @ drop 3 (Clean p)" by (metis append_take_drop_id)
      then have "Clean p = ''..'' @ CHR ''/'' # drop 3 (Clean p)" by simp
      then show ?thesis using split_on_append [of "CHR ''/''" "''..''" "drop 3 (Clean p)"] by simp
    qed
    then have "hd (split_on (CHR ''/'') (Clean p)) \<in> {''.'', ''..''}"
      using \<open>escapes (Clean p)\<close> by (auto simp: escapes_def)
    with sp c ok show False by (auto simp: comp_ok_def)
  qed
qed

lemma clean_comps_join:
  assumes "a \<noteq> ''''" "list_all comp_ok cs" "cs \<noteq> []" "''..'' \<notin> set cs"
  shows "clean_comps (a @ ''/'' @ join_on (CHR ''/'') cs) = clean_comps a @ cs"
proof -
  have "IsAbs (a @ ''/'' @ join_on (CHR ''/'') cs) = IsAbs a" using assms(1) by (cases a) (auto simp: IsAbs_def)
  moreover have "split_on (CHR ''/'') (a @ ''/'' @ join_on (CHR ''/'') cs) = split_on (CHR ''/'') a @ cs"
    using assms(2,3) split_join [of cs "CHR ''/''"] split_on_append [of "CHR ''/''" a "join_on (CHR ''/'') cs"]
    by (auto simp: list_all_iff comp_ok_def)
  ultimately show ?thesis using fold_clean_id [OF assms(2,4)] by (simp add: clean_comps_def)
qed

definition below :: "string \<Rightarrow> string \<Rightarrow> bool" where
  "below base p \<longleftrightarrow> IsAbs p = IsAbs base
     \<and> (\<exists>cs. cs \<noteq> [] \<and> ''..'' \<notin> set cs \<and> clean_comps p = clean_comps base @ cs)"

text \<open>A path that passes the test lies strictly below the directory it is joined to.\<close>

lemma Join_contained:
  assumes "\<not> IsAbs p" "\<not> escapes (Clean p)"
  shows "clean_comps (Join base (Clean p)) = clean_comps base @ clean_comps p" "IsAbs (Join base (Clean p)) = IsAbs base"
proof -
  note ne = not_escapes [OF assms]
  obtain names n where ok: "list_all comp_ok (clean_comps p)" by (rule clean_comps_ok [of p])
  have cl: "Clean p = join_on (CHR ''/'') (clean_comps p)" using assms(1) ne(1) by (simp add: Clean_def render_path_def)
  have nonempty: "Clean p \<noteq> ''''"
    using join_on_hd [of "clean_comps p" "CHR ''/''"] ne(1) ok cl
    by (metis comp_ok_def list_all_iff list.set_sel(1))
  have "clean_comps (Join base (Clean p)) = clean_comps base @ clean_comps p \<and> IsAbs (Join base (Clean p)) = IsAbs base"
  proof (cases "base = ''''")
    case True
    then show ?thesis using nonempty assms(1)
      by (simp add: Join_def clean_comps_Clean IsAbs_Clean) (simp add: clean_comps_def clean_step_def IsAbs_def)
  next
    case False
    have "IsAbs (base @ ''/'' @ Clean p) = IsAbs base" using False by (cases base) (auto simp: IsAbs_def)
    then show ?thesis using False nonempty clean_comps_join [OF False ok ne] cl
      by (simp add: Join_def clean_comps_Clean IsAbs_Clean)
  qed
  then show "clean_comps (Join base (Clean p)) = clean_comps base @ clean_comps p"
    "IsAbs (Join base (Clean p)) = IsAbs base" by auto
qed

text \<open>\<open>filepath.Rel\<close> answers within the directory exactly for the paths below it.\<close>

lemma strip_common_Nil: "strip_common xs ys = ([], down) \<longleftrightarrow> ys = xs @ down"
  by (induction xs ys rule: strip_common.induct) auto

lemma strip_common_down: "strip_common xs ys = (up, down) \<Longrightarrow> set up \<subseteq> set xs \<and> set down \<subseteq> set ys"
  by (induction xs ys rule: strip_common.induct) (auto split: if_splits)

lemma Rel_within:
  assumes "IsAbs base" "IsAbs p" "Rel base p = Some r" "r \<noteq> ''..''" "\<not> HasPrefix r ''../''"
  shows "\<exists>down. clean_comps p = clean_comps base @ down"
proof -
  obtain up down where s: "strip_common (clean_comps base) (clean_comps p) = (up, down)" by fastforce
  have r: "r = render_path False (replicate (length up) ''..'' @ down)"
    using assms(1-3) s by (auto simp: Rel_def split: if_splits)
  have "up = []"
  proof (rule ccontr)
    assume "up \<noteq> []"
    then obtain m where "length up = Suc m" by (cases up) auto
    then have "r = ''..'' \<or> HasPrefix r ''../''"
      using r by (cases "replicate m ''..'' @ down") (simp_all add: render_path_def)
    with assms(4,5) show False by simp
  qed
  then show ?thesis using s strip_common_Nil by blast
qed

section \<open>Parents\<close>

text \<open>\<open>filepath.Dir\<close>.\<close>

definition Dir :: "string \<Rightarrow> string" where
  "Dir p = (let d = rev (dropWhile (\<lambda>c. c \<noteq> CHR ''/'') (rev p)) in Clean d)"

text \<open>
  Cleaning never makes a path longer, so a parent is shorter than its path unless it is the path itself or a dot:
  climbing from parent to parent ends.
\<close>

definition comps_weight :: "string list \<Rightarrow> nat" where
  "comps_weight cs = sum_list (map (\<lambda>c. if c = '''' then 0 else Suc (length c)) cs)"

lemma comps_weight_simps [simp]:
  "comps_weight [] = 0" "comps_weight (c # cs) = (if c = '''' then 0 else Suc (length c)) + comps_weight cs"
  "comps_weight (cs @ ds) = comps_weight cs + comps_weight ds" "comps_weight (rev cs) = comps_weight cs"
  by (simp_all add: comps_weight_def flip: rev_map)

lemma comps_weight_split: "comps_weight (split_on sep s) \<le> Suc (length s)"
proof -
  have "(\<Sum>c\<leftarrow>split_on sep s. Suc (length c)) = Suc (length s)" by (induction s) (auto split: list.splits)
  moreover have "comps_weight cs \<le> (\<Sum>c\<leftarrow>cs. Suc (length c))" for cs
    unfolding comps_weight_def by (rule sum_list_mono) simp
  ultimately show ?thesis by metis
qed

lemma comps_weight_step: "comps_weight (clean_step rooted c stack) \<le> comps_weight (c # stack)"
  by (cases stack) (auto simp: clean_step_def)

lemma comps_weight_fold: "comps_weight (fold (clean_step rooted) cs stack) \<le> comps_weight cs + comps_weight stack"
proof (induction cs arbitrary: stack)
  case (Cons c cs)
  have "comps_weight (fold (clean_step rooted) cs (clean_step rooted c stack)) \<le>
      comps_weight cs + comps_weight (clean_step rooted c stack)" by (rule Cons)
  also have "\<dots> \<le> comps_weight cs + comps_weight (c # stack)" using comps_weight_step by (rule add_left_mono)
  finally show ?case by simp
qed simp

lemma comps_weight_clean: "comps_weight (clean_comps p) \<le> comps_weight (split_on (CHR ''/'') p)"
  using comps_weight_fold [of "IsAbs p" "split_on (CHR ''/'') p" "[]"] by (simp add: clean_comps_def)

lemma length_join_comps: "list_all comp_ok cs \<Longrightarrow> length (join_on sep cs) = comps_weight cs - 1"
  by (induction sep cs rule: join_on.induct) (auto simp: comp_ok_def)

lemma length_Clean_slash: "b \<noteq> '''' \<Longrightarrow> length (Clean (b @ ''/'')) \<le> length b"
proof -
  assume b: "b \<noteq> ''''"
  let ?q = "b @ ''/''"
  obtain names n where ok: "list_all comp_ok (clean_comps ?q)" by (rule clean_comps_ok [of ?q])
  have split: "split_on (CHR ''/'') ?q = split_on (CHR ''/'') b @ ['''']"
    using split_on_append [of "CHR ''/''" b "''''"] by simp
  have weight: "comps_weight (clean_comps ?q) \<le> comps_weight (split_on (CHR ''/'') b)"
    using comps_weight_clean [of ?q] by (simp add: split)
  have abs: "IsAbs ?q \<Longrightarrow> comps_weight (split_on (CHR ''/'') b) \<le> length b"
    using b comps_weight_split [of "CHR ''/''" "tl b"] by (cases b) (auto simp: IsAbs_def HasPrefix_def)
  show ?thesis
    using weight abs comps_weight_split [of "CHR ''/''" b] b length_join_comps [OF ok, of "CHR ''/''"]
    by (cases b) (auto simp: Clean_def render_path_def)
qed

lemma shorter_Dir: "p \<noteq> '''' \<Longrightarrow> Dir p \<noteq> p \<Longrightarrow> Dir p = ''.'' \<or> length (Dir p) < length p"
proof -
  assume p: "p \<noteq> ''''" "Dir p \<noteq> p"
  define c where "c = rev (takeWhile (\<lambda>c. c \<noteq> CHR ''/'') (rev p))"
  define q where "q = rev (dropWhile (\<lambda>c. c \<noteq> CHR ''/'') (rev p))"
  have pq: "p = q @ c" unfolding q_def c_def by (metis rev_append rev_rev_ident takeWhile_dropWhile_id)
  have d: "Dir p = Clean q" by (simp add: Dir_def q_def)
  show ?thesis
  proof (cases "q = ''''")
    case True
    then show ?thesis using d by (simp add: Clean_def clean_comps_def clean_step_def IsAbs_def render_path_def HasPrefix_def)
  next
    case False
    then have "last q = CHR ''/''" unfolding q_def using hd_dropWhile [of "\<lambda>c. c \<noteq> CHR ''/''" "rev p"] by (simp add: last_rev)
    with False obtain b where b: "q = b @ ''/''" by (metis append_butlast_last_id)
    show ?thesis
    proof (cases "b = ''''")
      case True
      then have "Clean q = ''/''" using b by (simp add: Clean_def clean_comps_def clean_step_def IsAbs_def render_path_def HasPrefix_def)
      then show ?thesis using p d pq b True by (cases c) auto
    next
      case False
      from length_Clean_slash [OF this] show ?thesis using d pq b by simp
    qed
  qed
qed

end
