(* ===== verification/Go_Fs.thy ===== *)
theory Go_Fs
  imports Go_Path
begin

text \<open>
  The file system the harness works on: a tree of directories, regular files, symbolic
  links and other nodes, with a flag for what the process may read. \<open>resolve\<close> is the path walk of
  the kernel and of \<open>filepath.EvalSymlinks\<close>: it follows links, takes \<open>..\<close> of the directory
  it is in, and gives up after a number of links (40 in the kernel, 255 in Go's walk).
\<close>

datatype node =
    Reg bool string
  | Directory bool "(string \<times> node) list"
  | Link string
  | Special

record filesystem =
  fs_root :: node
  fs_cwd :: string

fun node_at :: "node \<Rightarrow> string list \<Rightarrow> node option" where
  "node_at n [] = Some n"
| "node_at (Directory ok es) (c # cs) =
     (if ok then Option.bind (map_of es c) (\<lambda>n. node_at n cs) else None)"
| "node_at _ (c # cs) = None"

function resolve :: "node \<Rightarrow> nat \<Rightarrow> string list \<Rightarrow> string list \<Rightarrow> string list option" where
  "resolve root links here [] = Some here"
| "resolve root links here (c # cs) =
     (if c = '''' \<or> c = ''.'' then resolve root links here cs
      else if c = ''..'' then resolve root links (butlast here) cs
      else case node_at root (here @ [c]) of
        None \<Rightarrow> None
      | Some (Link t) \<Rightarrow>
          (case links of
             0 \<Rightarrow> None
           | Suc left \<Rightarrow> resolve root left (if IsAbs t then [] else here) (split_on (CHR ''/'') t @ cs))
      | Some (Directory _ _) \<Rightarrow> resolve root links (here @ [c]) cs
      | Some _ \<Rightarrow> if cs = [] then Some (here @ [c]) else None)"
  by pat_completeness auto
termination
  by (relation "measures [\<lambda>(root, links, here, cs). links, \<lambda>(root, links, here, cs). length cs]") auto

definition locate :: "filesystem \<Rightarrow> nat \<Rightarrow> string \<Rightarrow> string list option" where
  "locate fs links p =
     (if p = '''' then None
      else resolve (fs_root fs) links (if IsAbs p then [] else clean_comps (fs_cwd fs)) (split_on (CHR ''/'') p))"

definition Abs :: "filesystem \<Rightarrow> string \<Rightarrow> string" where
  "Abs fs p = (if IsAbs p then Clean p else Join (fs_cwd fs) p)"

definition EvalSymlinks :: "filesystem \<Rightarrow> string \<Rightarrow> string option" where
  "EvalSymlinks fs p = map_option (render_path True) (locate fs 255 p)"

text \<open>\<open>os.Stat\<close> follows links; \<open>os.Open\<close> needs a readable node.\<close>

definition Stat :: "filesystem \<Rightarrow> string \<Rightarrow> node option" where
  "Stat fs p = Option.bind (locate fs 40 p) (node_at (fs_root fs))"

definition IsDir :: "node \<Rightarrow> bool" where
  "IsDir n = (case n of Directory _ _ \<Rightarrow> True | _ \<Rightarrow> False)"

definition ReadFile :: "filesystem \<Rightarrow> string \<Rightarrow> string option" where
  "ReadFile fs p = (case Stat fs p of Some (Reg True s) \<Rightarrow> Some s | _ \<Rightarrow> None)"

text \<open>\<open>os.ReadDir\<close> sorts by name.\<close>

definition ReadDir :: "filesystem \<Rightarrow> string \<Rightarrow> (string \<times> node) list option" where
  "ReadDir fs p = (case Stat fs p of Some (Directory True es) \<Rightarrow> Some (sort_key fst es) | _ \<Rightarrow> None)"

datatype lstat_result = Found node | NotExist | Denied

text \<open>\<open>os.Lstat\<close> of an entry of a directory.\<close>

definition Lstat_in :: "filesystem \<Rightarrow> string \<Rightarrow> string \<Rightarrow> lstat_result" where
  "Lstat_in fs d name =
     (case Stat fs d of
        Some (Directory ok es) \<Rightarrow>
          if \<not> ok then Denied else (case map_of es name of None \<Rightarrow> NotExist | Some n \<Rightarrow> Found n)
      | Some _ \<Rightarrow> Denied
      | None \<Rightarrow> NotExist)"

text \<open>\<open>os.Lstat\<close> of a path, as \<open>filepath.WalkDir\<close> makes of its root: the last component is not followed.\<close>

definition Lstat :: "filesystem \<Rightarrow> string \<Rightarrow> node option" where
  "Lstat fs p =
     (case rev (clean_comps p) of
        [] \<Rightarrow> Stat fs p
      | c # cs \<Rightarrow>
          Option.bind (resolve (fs_root fs) 40 (if IsAbs p then [] else clean_comps (fs_cwd fs)) (rev cs))
            (\<lambda>d. node_at (fs_root fs) (d @ [c])))"

section \<open>Walking a tree\<close>

lemma entry_size: "(name, n) \<in> set es \<Longrightarrow> size n < Suc (size_list (size_prod (\<lambda>_. 0) size) es)"
  by (induction es) auto

text \<open>
  \<open>filepath.WalkDir\<close> with the callback all walks of the harness use: hidden directories below the
  root are skipped, the entries come in the order of their names, a directory that cannot
  be read is reported. The path is given by the components below the root.
\<close>

datatype visit = VisitFile "string list" node | VisitError "string list"

definition hidden :: "string \<Rightarrow> bool" where
  "hidden name \<longleftrightarrow> HasPrefix name ''.''"

function WalkDir :: "string list \<Rightarrow> node \<Rightarrow> visit list" where
  "WalkDir rel (Directory ok es) =
     (if rel \<noteq> [] \<and> hidden (last rel) then []
      else if \<not> ok then [VisitError rel]
      else concat (map (\<lambda>(name, n). WalkDir (rel @ [name]) n) (sort_key fst es)))"
| "WalkDir rel (Reg ok s) = [VisitFile rel (Reg ok s)]"
| "WalkDir rel (Link t) = [VisitFile rel (Link t)]"
| "WalkDir rel Special = [VisitFile rel Special]"
  by pat_completeness auto
termination
  by (relation "measure (\<lambda>(rel, n). size n)") (auto dest: entry_size)

section \<open>Where a resolved path lies\<close>

text \<open>A component as a directory entry can have it.\<close>

definition name_ok :: "string \<Rightarrow> bool" where
  "name_ok c \<longleftrightarrow> comp_ok c \<and> c \<noteq> ''..''"

lemma resolve_mono: "resolve root links here cs = Some r \<Longrightarrow> links \<le> budget \<Longrightarrow> resolve root budget here cs = Some r"
proof (induction root links here cs arbitrary: budget rule: resolve.induct)
  case (2 root links here c cs)
  consider (skip) "c = '''' \<or> c = ''.''" | (up) "c = ''..''" | (name) "\<not> (c = '''' \<or> c = ''.'')" "c \<noteq> ''..''" by blast
  then show ?case
  proof cases
    case skip
    then show ?thesis using 2 by auto
  next
    case up
    then show ?thesis using "2.IH"(2) "2.prems" by simp
  next
    case name
    then obtain n where n: "node_at root (here @ [c]) = Some n"
      using "2.prems"(1) by (auto split: option.splits)
    show ?thesis
    proof (cases n)
      case (Link t)
      then obtain l where l: "links = Suc l" using "2.prems"(1) n name by (cases links) auto
      then obtain m where m: "budget = Suc m" "l \<le> m" using "2.prems"(2) by (cases budget) auto
      show ?thesis using "2.IH"(4) [OF name n Link l _ m(2)] "2.prems"(1) n name l m(1) Link by simp
    next
      case (Directory ok es)
      show ?thesis using "2.IH"(3) [OF name n Directory _ "2.prems"(2)] "2.prems"(1) n name Directory by simp
    qed (use "2.prems" n name in \<open>auto split: if_splits\<close>)
  qed
qed simp

lemma resolve_names:
  "resolve root links here cs = Some r \<Longrightarrow> list_all name_ok here \<Longrightarrow> (\<And>c. c \<in> set cs \<Longrightarrow> CHR ''/'' \<notin> set c) \<Longrightarrow>
     list_all name_ok r"
proof (induction root links here cs rule: resolve.induct)
  case (2 root links here c cs)
  consider (skip) "c = '''' \<or> c = ''.''" | (up) "c = ''..''" | (name) "\<not> (c = '''' \<or> c = ''.'')" "c \<noteq> ''..''" by blast
  then show ?case
  proof cases
    case skip
    then show ?thesis using 2 by auto
  next
    case up
    have "list_all name_ok (butlast here)" using "2.prems"(2) by (auto simp: list_all_iff dest: in_set_butlastD)
    then show ?thesis using up "2.IH"(2) "2.prems" by simp
  next
    case name
    then obtain n where n: "node_at root (here @ [c]) = Some n"
      using "2.prems"(1) by (auto split: option.splits)
    have c: "name_ok c" using name "2.prems"(3) [of c] by (simp add: name_ok_def comp_ok_def)
    show ?thesis
    proof (cases n)
      case (Link t)
      then obtain l where l: "links = Suc l" using "2.prems"(1) n name by (cases links) auto
      have "CHR ''/'' \<notin> set x" if "x \<in> set (split_on (CHR ''/'') t @ cs)" for x
        using that "2.prems"(3) split_on_no_sep by fastforce
      moreover have "list_all name_ok (if IsAbs t then [] else here)" using "2.prems"(2) by simp
      ultimately show ?thesis using "2.IH"(4) [OF name n Link l] "2.prems"(1) n name l Link by simp
    next
      case (Directory ok es)
      have "list_all name_ok (here @ [c])" using "2.prems"(2) c by simp
      then show ?thesis using "2.IH"(3) [OF name n Directory] "2.prems"(1,3) n name Directory by simp
    qed (use "2.prems" n name c in \<open>auto split: if_splits\<close>)
  qed
qed simp

lemma clean_comps_render: "list_all name_ok cs \<Longrightarrow> clean_comps (render_path True cs) = cs"
proof -
  assume cs: "list_all name_ok cs"
  then have ok: "list_all comp_ok cs" "''..'' \<notin> set cs" by (auto simp: list_all_iff name_ok_def)
  have "IsAbs (render_path True cs)" by (simp add: render_path_def IsAbs_def)
  moreover have "split_on (CHR ''/'') (render_path True cs) = [] # (if cs = [] then [[]] else cs)"
    using split_join [of cs "CHR ''/''"] ok by (auto simp: render_path_def list_all_iff comp_ok_def)
  ultimately show ?thesis using fold_clean_id [OF ok, of True "[]"]
    by (auto simp: clean_comps_def clean_step_def)
qed

lemma IsAbs_render [simp]: "IsAbs (render_path True cs)"
  by (simp add: render_path_def IsAbs_def)

lemma locate_names: "IsAbs p \<Longrightarrow> locate fs links p = Some r \<Longrightarrow> list_all name_ok r"
  using resolve_names [of "fs_root fs" links "[]" "split_on (CHR ''/'') p" r] split_on_no_sep
  by (auto simp: locate_def split: if_splits)

text \<open>\<open>EvalSymlinks\<close> names the place that \<open>os.Open\<close> opens.\<close>

lemma ReadFile_resolved:
  assumes "ReadFile fs p = Some s"
  obtains r where "locate fs 255 p = Some r" "node_at (fs_root fs) r = Some (Reg True s)"
proof -
  from assms obtain r where r: "locate fs 40 p = Some r" "node_at (fs_root fs) r = Some (Reg True s)"
    by (auto simp: ReadFile_def Stat_def Option.bind_eq_Some_conv split: option.splits node.splits bool.splits)
  then have "locate fs 255 p = Some r" 
    unfolding locate_def by (cases "p = ''''") (use resolve_mono [where budget = 255] in simp_all)
  with r that show thesis by blast
qed

lemma EvalSymlinks_locate:
  assumes "IsAbs p" "EvalSymlinks fs p = Some q"
  obtains r where "locate fs 255 p = Some r" "q = render_path True r" "clean_comps q = r" "IsAbs q"
  using assms locate_names clean_comps_render by (auto simp: EvalSymlinks_def)

lemma Dir_render: "list_all name_ok (p @ [c]) \<Longrightarrow> Dir (render_path True (p @ [c])) = render_path True p"
proof -
  assume ok: "list_all name_ok (p @ [c])"
  then have c: "CHR ''/'' \<notin> set c" by (simp add: name_ok_def comp_ok_def)
  define q where "q = (if p = [] then ''/'' else render_path True p @ ''/'')"
  have join: "xs \<noteq> [] \<Longrightarrow> join_on (CHR ''/'') (xs @ [c]) = join_on (CHR ''/'') xs @ ''/'' @ c" for xs
    by (induction "CHR ''/''" xs rule: join_on.induct) auto
  have split: "render_path True (p @ [c]) = q @ c"
    using join [of p] by (simp add: q_def render_path_def)
  have "rev (dropWhile (\<lambda>c. c \<noteq> CHR ''/'') (rev (q @ c))) = q"
  proof -
    have "dropWhile (\<lambda>c. c \<noteq> CHR ''/'') (rev c @ rev q) = dropWhile (\<lambda>c. c \<noteq> CHR ''/'') (rev q)"
      using c by (intro dropWhile_append2) auto
    then show ?thesis by (simp add: q_def)
  qed
  moreover have "Clean q = render_path True p"
  proof (cases "p = []")
    case True
    then show ?thesis by (simp add: q_def Clean_def clean_comps_def clean_step_def IsAbs_def render_path_def HasPrefix_def)
  next
    case False
    have "IsAbs q" using False by (simp add: q_def render_path_def IsAbs_def HasPrefix_def)
    moreover have "clean_comps q = clean_comps (render_path True p)"
    proof -
      have "split_on (CHR ''/'') q = split_on (CHR ''/'') (render_path True p) @ ['''']"
        using False split_on_append [of "CHR ''/''" "render_path True p" "''''"] by (simp add: q_def)
      then show ?thesis using \<open>IsAbs q\<close> by (simp add: clean_comps_def clean_step_def)
    qed
    moreover have "clean_comps (render_path True p) = p" using ok by (simp add: clean_comps_render)
    ultimately show ?thesis by (simp add: Clean_def)
  qed
  ultimately show ?thesis unfolding split Dir_def by simp
qed

end
