(* ===== verification/Freeze_IO.thy ===== *)
theory Freeze_IO
  imports Freeze_Types Go_Decode Go_Fs
begin

text \<open>
  The documents \<open>freezecheck\<close> reads: \<open>readJSON\<close> and \<open>validateSchema\<close> of
  \<open>harness/freezecheck/schema.go\<close>, and the decoders that \<open>encoding/json\<close> derives from the
  struct tags of \<open>types.go\<close>. The JSON Schema library is a parameter: what it makes of a schema
  document and how the compiled schema judges an instance.
\<close>

section \<open>Values behind \<open>any\<close>\<close>

text \<open>A decoded object keeps the last value of a repeated key; here its keys are also in order.\<close>

definition any_members :: "(string \<times> json) list \<Rightarrow> (string \<times> json) list" where
  "any_members ms = map (\<lambda>k. (k, the (map_of (rev ms) k))) (sort (remdups (map fst ms)))"

lemma any_members_subset: "set (any_members ms) \<subseteq> set ms"
proof
  fix kv assume "kv \<in> set (any_members ms)"
  then obtain k where k: "kv = (k, the (map_of (rev ms) k))" "k \<in> fst ` set ms"
    by (auto simp: any_members_def)
  then obtain v where "map_of (rev ms) k = Some v"
    by (metis map_of_eq_None_iff not_None_eq set_rev)
  with k show "kv \<in> set ms" by (auto dest: map_of_SomeD)
qed

lemma member_size: "(k, v) \<in> set (any_members ms) \<Longrightarrow> size v < Suc (size_list (size_prod (\<lambda>_. 0) size) ms)"
proof -
  assume "(k, v) \<in> set (any_members ms)"
  then have "(k, v) \<in> set ms" using any_members_subset by blast
  then show ?thesis by (induction ms) auto
qed

lemma element_size: "i < length vs \<Longrightarrow> size (vs ! i) < Suc (size_list size vs)"
  using size_list_estimation' [OF nth_mem order_refl] by (simp add: less_Suc_eq_le)

function to_any :: "json \<Rightarrow> json" where
  "to_any (JArray vs) = JArray (map to_any vs)"
| "to_any (JObject ms) = JObject (map (\<lambda>(k, v). (k, to_any v)) (any_members ms))"
| "to_any JNull = JNull"
| "to_any (JBool b) = JBool b"
| "to_any (JNumber s) = JNumber s"
| "to_any (JString s) = JString s"
  by pat_completeness auto
termination
  by (relation "measure size") (auto dest: member_size simp: size_list_estimation' less_Suc_eq_le)

section \<open>Reading and validating\<close>

datatype read_error = ReadFailed | DecodeFailed | TrailingValue | TrailingData

definition readJSON :: "filesystem \<Rightarrow> string \<Rightarrow> 'a decoder \<Rightarrow> 'a \<Rightarrow> 'a \<times> (read_error + string)" where
  "readJSON fs path d out =
     (case ReadFile fs path of
        None \<Rightarrow> (out, Inl ReadFailed)
      | Some data \<Rightarrow>
          (case parse_value (2 * length data + 1) 0 data of
             None \<Rightarrow> (out, Inl DecodeFailed)
           | Some (v, rest) \<Rightarrow>
               (let (x, ok) = d v out in
                if \<not> ok then (x, Inl DecodeFailed)
                else if skip_ws rest = '''' then (x, Inr data)
                else if parse_value (2 * length rest + 1) 0 rest \<noteq> None then (x, Inl TrailingValue)
                else (x, Inl TrailingData))))"

record 'doc schema_library =
  UnmarshalJSON :: "string \<Rightarrow> 'doc option"
  AddResource :: "string \<Rightarrow> 'doc \<Rightarrow> bool"
  Compile :: "string \<Rightarrow> 'doc \<Rightarrow> (json \<Rightarrow> bool) option"

datatype schema_error =
    SchemaUnreadable string
  | SchemaUnparsable string
  | SchemaNotRegistered
  | SchemaNotCompiled
  | InstanceUndecodable
  | SchemaViolation

definition drop_schema_key :: "json \<Rightarrow> json" where
  "drop_schema_key v = (case v of JObject ms \<Rightarrow> JObject (filter (\<lambda>(k, _). k \<noteq> ''$schema'') ms) | _ \<Rightarrow> v)"

definition validateSchema ::
  "'doc schema_library \<Rightarrow> filesystem \<Rightarrow> string \<Rightarrow> string \<Rightarrow> bool \<Rightarrow> schema_error option" where
  "validateSchema lib fs schemaPath document omitDocumentSchema =
     (case ReadFile fs schemaPath of
        None \<Rightarrow> Some (SchemaUnreadable schemaPath)
      | Some schemaData \<Rightarrow>
     (case UnmarshalJSON lib schemaData of
        None \<Rightarrow> Some (SchemaUnparsable schemaPath)
      | Some schemaDoc \<Rightarrow>
          (let resource = ''https://freezecheck.invalid/schema.json'' in
           if \<not> AddResource lib resource schemaDoc then Some SchemaNotRegistered
           else
     (case Compile lib resource schemaDoc of
        None \<Rightarrow> Some SchemaNotCompiled
      | Some valid \<Rightarrow>
     (case parse_json document of
        None \<Rightarrow> Some InstanceUndecodable
      | Some v \<Rightarrow>
          (let instance = to_any v;
               instance = (if omitDocumentSchema then drop_schema_key instance else instance)
           in if valid instance then None else Some SchemaViolation))))))"

section \<open>Decoders of the documents\<close>

definition dec_cell :: "cell decoder" where
  "dec_cell = dec_struct
     [(''id'', at_field ID ID_update dec_string), (''stage'', at_field Stage Stage_update dec_string),
      (''task'', at_field Task Task_update dec_string), (''mode'', at_field Mode Mode_update dec_string),
      (''treatment'', at_field Treatment Treatment_update dec_string)]"

definition no_cell :: cell where
  "no_cell = \<lparr>ID = '''', Stage = '''', Task = '''', Mode = '''', Treatment = ''''\<rparr>"

abbreviation dec_string_map :: "string_map decoder" where
  "dec_string_map \<equiv> dec_map '''' dec_string"

definition dec_frozen_inputs :: "frozen_inputs decoder" where
  "dec_frozen_inputs = dec_struct
     [(''configRevision'', at_field ConfigRevision ConfigRevision_update dec_string),
      (''designRevision'', at_field DesignRevision DesignRevision_update dec_string),
      (''evaluatorRevision'', at_field EvaluatorRevision EvaluatorRevision_update dec_string),
      (''resultSchemaRevision'', at_field ResultSchemaRevision ResultSchemaRevision_update dec_string),
      (''environmentImages'', at_field EnvironmentImages EnvironmentImages_update dec_string_map),
      (''scheduleManifest'', at_field ScheduleManifest ScheduleManifest_update dec_string),
      (''fixtures'', at_field Fixtures Fixtures_update dec_string_map),
      (''treatments'', at_field Treatments Treatments_update dec_string_map),
      (''tasks'', at_field Tasks Tasks_update dec_string_map)]"

definition dec_execution :: "execution_config decoder" where
  "dec_execution = dec_struct
     [(''networkPolicyEnforcementStatus'',
         at_field NetworkPolicyEnforcementStatus NetworkPolicyEnforcementStatus_update dec_string),
      (''schedule'', at_field Schedule Schedule_update dec_string),
      (''scheduleSeed'', at_field ScheduleSeed ScheduleSeed_update dec_string)]"

definition dec_config :: "experimentConfig decoder" where
  "dec_config = dec_struct
     [(''status'', at_field cfg_Status cfg_Status_update dec_string),
      (''model'', dec_struct [(''provider'', at_field Provider Provider_update dec_string)]),
      (''agent'', dec_struct [(''name'', at_field Agent_Name Agent_Name_update dec_string),
                              (''version'', at_field Agent_Version Agent_Version_update dec_string)]),
      (''frozenInputs'', at_field FrozenInputs FrozenInputs_update dec_frozen_inputs),
      (''execution'', at_field Execution Execution_update dec_execution),
      (''cells'', at_field Cells Cells_update (dec_slice no_cell dec_cell))]"

definition no_config :: experimentConfig where
  "no_config =
     \<lparr>cfg_Status = '''', Provider = '''', Agent_Name = '''', Agent_Version = '''',
      FrozenInputs = \<lparr>ConfigRevision = '''', DesignRevision = '''', EvaluatorRevision = '''',
        ResultSchemaRevision = '''', EnvironmentImages = [], ScheduleManifest = '''', Fixtures = [],
        Treatments = [], Tasks = []\<rparr>,
      Execution = \<lparr>NetworkPolicyEnforcementStatus = '''', Schedule = '''', ScheduleSeed = ''''\<rparr>,
      Cells = []\<rparr>"

definition dec_scheduleRun :: "scheduleRun decoder" where
  "dec_scheduleRun = dec_struct
     [(''ordinal'', at_field Ordinal Ordinal_update dec_int), (''runId'', at_field RunID RunID_update dec_string),
      (''cellId'', at_field CellID CellID_update dec_string),
      (''repeatIndex'', at_field RepeatIndex RepeatIndex_update dec_int)]"

definition dec_schedule :: "schedule decoder" where
  "dec_schedule = dec_struct
     [(''$schema'', at_field Schema Schema_update dec_string),
      (''schemaVersion'', at_field SchemaVersion SchemaVersion_update dec_int),
      (''status'', at_field Status Status_update dec_string),
      (''strategy'', at_field Strategy Strategy_update dec_string),
      (''algorithm'', at_field Algorithm Algorithm_update dec_string),
      (''seed'', at_field Seed Seed_update dec_string),
      (''generatedAt'', at_field GeneratedAt GeneratedAt_update (dec_ptr '''' dec_string)),
      (''configRevision'', at_field schedule_ConfigRevision schedule_ConfigRevision_update dec_string),
      (''runs'', at_field Runs Runs_update
         (dec_slice \<lparr>Ordinal = 0, RunID = '''', CellID = '''', RepeatIndex = 0\<rparr> dec_scheduleRun))]"

definition no_schedule :: schedule where
  "no_schedule =
     \<lparr>Schema = '''', SchemaVersion = 0, Status = '''', Strategy = '''', Algorithm = '''', Seed = '''',
      GeneratedAt = None, schedule_ConfigRevision = '''', Runs = []\<rparr>"

definition dec_infrastructure :: "infrastructure decoder" where
  "dec_infrastructure = dec_struct
     [(''isFailure'', at_field IsFailure IsFailure_update dec_bool),
      (''category'', at_field Category Category_update (dec_ptr '''' dec_string)),
      (''evidence'', at_field Evidence Evidence_update (dec_ptr '''' dec_string)),
      (''exclusionEligible'', at_field ExclusionEligible ExclusionEligible_update dec_bool),
      (''excluded'', at_field Excluded Excluded_update dec_bool),
      (''replacementRunId'', at_field ReplacementRunID ReplacementRunID_update (dec_ptr '''' dec_string)),
      (''replacesRunId'', at_field ReplacesRunID ReplacesRunID_update (dec_ptr '''' dec_string))]"

definition dec_artifacts :: "artifacts decoder" where
  "dec_artifacts = dec_struct
     [(''metadata'', at_field Metadata Metadata_update dec_string),
      (''transcript'', at_field Transcript Transcript_update dec_string),
      (''finalPatch'', at_field FinalPatch FinalPatch_update dec_string),
      (''commands'', at_field Commands Commands_update dec_string),
      (''evaluation'', at_field Evaluation_file Evaluation_file_update dec_string),
      (''workspaceManifest'', at_field WorkspaceManifest WorkspaceManifest_update dec_string)]"

definition dec_behaviorCase :: "behaviorCase decoder" where
  "dec_behaviorCase = dec_struct
     [(''id'', at_field case_ID case_ID_update dec_string),
      (''applicable'', at_field Applicable Applicable_update dec_bool),
      (''passed'', at_field Passed Passed_update (dec_ptr False dec_bool)),
      (''evidence'', at_field case_Evidence case_Evidence_update (dec_ptr '''' dec_string))]"

definition dec_evaluation :: "evaluation decoder" where
  "dec_evaluation = dec_struct
     [(''completeSuccess'', at_field CompleteSuccess CompleteSuccess_update dec_bool),
      (''commonGates'', at_field CommonGates CommonGates_update (dec_map False dec_bool)),
      (''behaviorCases'', at_field BehaviorCases BehaviorCases_update
         (dec_slice \<lparr>case_ID = '''', Applicable = False, Passed = None, case_Evidence = None\<rparr> dec_behaviorCase))]"

definition dec_runResult :: "runResult decoder" where
  "dec_runResult = dec_struct
     [(''runId'', at_field run_RunID run_RunID_update dec_string),
      (''cellId'', at_field run_CellID run_CellID_update dec_string),
      (''repeatIndex'', at_field run_RepeatIndex run_RepeatIndex_update dec_int),
      (''phase'', at_field run_Phase run_Phase_update dec_string),
      (''stage'', at_field run_Stage run_Stage_update dec_string),
      (''task'', at_field run_Task run_Task_update dec_string),
      (''mode'', at_field run_Mode run_Mode_update dec_string),
      (''treatment'', at_field run_Treatment run_Treatment_update dec_string),
      (''status'', at_field run_Status run_Status_update dec_string),
      (''infrastructure'', at_field Infrastructure Infrastructure_update dec_infrastructure),
      (''artifacts'', at_field Artifacts Artifacts_update dec_artifacts),
      (''evaluation'', at_field Evaluation Evaluation_update
         (dec_ptr \<lparr>CompleteSuccess = False, CommonGates = [], BehaviorCases = []\<rparr> dec_evaluation))]"

definition no_runResult :: runResult where
  "no_runResult =
     \<lparr>run_RunID = '''', run_CellID = '''', run_RepeatIndex = 0, run_Phase = '''', run_Stage = '''',
      run_Task = '''', run_Mode = '''', run_Treatment = '''', run_Status = '''',
      Infrastructure = \<lparr>IsFailure = False, Category = None, Evidence = None, ExclusionEligible = False,
        Excluded = False, ReplacementRunID = None, ReplacesRunID = None\<rparr>,
      Artifacts = \<lparr>Metadata = '''', Transcript = '''', FinalPatch = '''', Commands = '''',
        Evaluation_file = '''', WorkspaceManifest = ''''\<rparr>,
      Evaluation = None\<rparr>"

definition dec_caseManifest :: "caseManifest decoder" where
  "dec_caseManifest = dec_struct
     [(''cases'', dec_slice \<lparr>mc_ID = '''', mc_Task = '''', Required = False\<rparr>
        (dec_struct [(''id'', at_field mc_ID mc_ID_update dec_string),
                     (''task'', at_field mc_Task mc_Task_update dec_string),
                     (''required'', at_field Required Required_update dec_bool)]))]"

end
