(* ===== verification/Freeze_Config.thy ===== *)
theory Freeze_Config
  imports Freeze_Schedule Freeze_IO
begin

text \<open>
  \<open>harness/freezecheck/config.go\<close>: the pre-freeze validation of the experiment
  configuration against the pinned versions, the design revision, the schedule, the task inputs and
  the Git repository. Git is a parameter: whether a revision resolves to a commit, and what
  \<open>git status\<close> prints. An error is a value of \<open>config_error\<close>; where the code ranges over a
  map the errors come in the order of the association list, and \<open>diagnostics\<close> sorts
  them before anybody sees them.
\<close>

record versionsFile =
  versions_Status :: string
  Frozen :: string_map

record designRevisionFile =
  design_SchemaVersion :: int
  design_Status :: string
  Source :: string
  SourceSHA256 :: string

definition dec_versions :: "versionsFile decoder" where
  "dec_versions = dec_struct
     [(''status'', at_field versions_Status versions_Status_update dec_string),
      (''frozen'', at_field Frozen Frozen_update (dec_map '''' dec_string))]"

definition dec_design :: "designRevisionFile decoder" where
  "dec_design = dec_struct
     [(''schemaVersion'', at_field design_SchemaVersion design_SchemaVersion_update dec_int),
      (''status'', at_field design_Status design_Status_update dec_string),
      (''source'', at_field Source Source_update dec_string),
      (''sourceSha256'', at_field SourceSHA256 SourceSHA256_update dec_string)]"

definition no_versions :: versionsFile where
  "no_versions = \<lparr>versions_Status = '''', Frozen = []\<rparr>"

definition no_design :: designRevisionFile where
  "no_design = \<lparr>design_SchemaVersion = 0, design_Status = '''', Source = '''', SourceSHA256 = ''''\<rparr>"

definition taskInputPaths :: string_map where
  "taskInputPaths =
     [(''problemDetails'', ''tasks/problem-details.md''), (''part1'', ''tasks/part1.md''),
      (''nullablePatchFull'', ''tasks/full/nullable-patch.md''),
      (''optimisticLockingFull'', ''tasks/full/optimistic-locking.md''),
      (''cursorPaginationFull'', ''tasks/full/cursor-pagination.md''),
      (''nullablePatchPropagationTask'', ''tasks/propagation/nullable-patch.md''),
      (''optimisticLockingPropagationTask'', ''tasks/propagation/optimistic-locking.md''),
      (''cursorPaginationPropagationTask'', ''tasks/propagation/cursor-pagination.md''),
      (''nullablePatchFormalPatch'', ''tasks/propagation/nullable-patch/formal.patch''),
      (''optimisticLockingFormalPatch'', ''tasks/propagation/optimistic-locking/formal.patch''),
      (''cursorPaginationFormalPatch'', ''tasks/propagation/cursor-pagination/formal.patch'')]"

datatype path_error = MustBeRelative string | Escapes string

datatype config_error =
    ConfigSchema schema_error
  | DesignUnreadable read_error
  | DesignVersionOrStatus
  | DesignSourceUnreadable
  | DesignSourceChanged
  | ProviderNotOpenrouter
  | AgentNotOpencode
  | AgentVersion string string
  | ImageDiffers string string
  | SchedulePath path_error
  | ScheduleUnreadable read_error
  | ScheduleSchema schema_error
  | StrategyDiffers
  | ScheduleSeedDiffers
  | ScheduleRevisionDiffers
  | DesignNotFrozen
  | TodoValue string string string
  | VersionsNotFrozen
  | NetworkPolicyNotValidated
  | ScheduleNotFrozen
  | FrozenSchedule schedule_error
  | ImageDigestShape string
  | RevisionUnresolved string string
  | TaskInputUnreadable string
  | TaskInputChanged string string
  | WorktreeUnknown
  | WorktreeDirty

record git =
  cat_file :: "string \<Rightarrow> string \<Rightarrow> bool"
  status_porcelain :: "string \<Rightarrow> string option"

section \<open>Paths and strings\<close>

definition containedPath :: "string \<Rightarrow> string \<Rightarrow> path_error + string" where
  "containedPath base name =
     (if IsAbs name then Inl (MustBeRelative name)
      else let clean = Clean name in
        if clean = ''.'' \<or> clean = ''..'' \<or> HasPrefix clean ''../'' then Inl (Escapes name)
        else Inr (Join base clean))"

text \<open>The visits of \<open>walkStrings\<close> in order: the path to a string and the string.\<close>

function walkStrings :: "json \<Rightarrow> string \<Rightarrow> (string \<times> string) list" where
  "walkStrings (JString s) path = [(path, s)]"
| "walkStrings (JArray vs) path =
     concat (map (\<lambda>(i, child). walkStrings child (path @ ''['' @ dec i @ '']'')) (enumerate 0 vs))"
| "walkStrings (JObject ms) path =
     concat (map (\<lambda>(key, child). walkStrings child (path @ ''.'' @ key)) (any_members ms))"
| "walkStrings JNull path = []"
| "walkStrings (JBool b) path = []"
| "walkStrings (JNumber s) path = []"
  by pat_completeness auto
termination
  by (relation "measure (\<lambda>(v, path). size v)")
    (auto dest: member_size simp: in_set_enumerate_eq element_size)

text \<open>\<open>strings.EqualFold\<close> where one side is hexadecimal: only ASCII letters fold together.\<close>

definition EqualFold :: "string \<Rightarrow> string \<Rightarrow> bool" where
  "EqualFold s t \<longleftrightarrow> map fold_char s = map fold_char t"

text \<open>The pattern \<open>^sha256:[0-9a-f]{64}$\<close>.\<close>

definition lower_hex :: "char \<Rightarrow> bool" where
  "lower_hex c \<longleftrightarrow> (CHR ''0'' \<le> c \<and> c \<le> CHR ''9'') \<or> (CHR ''a'' \<le> c \<and> c \<le> CHR ''f'')"

definition digest_shape :: "string \<Rightarrow> bool" where
  "digest_shape s \<longleftrightarrow> HasPrefix s ''sha256:'' \<and> length s = 71 \<and> list_all lower_hex (drop 7 s)"

section \<open>The validation\<close>

definition todo_errors :: "string \<Rightarrow> string \<Rightarrow> config_error list" where
  "todo_errors label data =
     (case parse_json data of
        None \<Rightarrow> []
      | Some v \<Rightarrow> map (\<lambda>(path, text). TodoValue label path text)
                    (filter (\<lambda>(path, text). isTODO text) (walkStrings v ''$'')))"

definition frozenTaskInputErrors :: "filesystem \<Rightarrow> string \<Rightarrow> string_map \<Rightarrow> string_map \<Rightarrow> config_error list" where
  "frozenTaskInputErrors fs root tasks paths =
     concat (map (\<lambda>(key, path).
       case ReadFile fs (Join root path) of
         None \<Rightarrow> [TaskInputUnreadable path]
       | Some data \<Rightarrow>
           if \<not> EqualFold (lookup tasks key) (sha256_hex data) then [TaskInputChanged key path] else []) paths)"

definition frozen_revisions :: "frozen_inputs \<Rightarrow> string_map" where
  "frozen_revisions inputs =
     [(''configRevision'', ConfigRevision inputs), (''designRevision'', DesignRevision inputs),
      (''evaluatorRevision'', EvaluatorRevision inputs),
      (''resultSchemaRevision'', ResultSchemaRevision inputs)]
     @ map (\<lambda>(key, value). (''fixtures.'' @ key, value)) (Fixtures inputs)
     @ map (\<lambda>(key, value). (''treatments.'' @ key, value)) (Treatments inputs)"

definition frozenConfigErrors ::
  "git \<Rightarrow> filesystem \<Rightarrow> string \<Rightarrow> string \<Rightarrow> string \<Rightarrow> experimentConfig \<Rightarrow> versionsFile \<Rightarrow> schedule
     \<Rightarrow> config_error list" where
  "frozenConfigErrors g fs root configData versionsData config versions manifest =
     todo_errors ''experiment config'' configData @ todo_errors ''versions metadata'' versionsData
     @ (if versions_Status versions \<noteq> ''frozen'' then [VersionsNotFrozen] else [])
     @ (if NetworkPolicyEnforcementStatus (Execution config) \<noteq> ''validated'' then [NetworkPolicyNotValidated] else [])
     @ (if Status manifest \<noteq> ''frozen'' then [ScheduleNotFrozen]
        else case validateScheduleSemantic config manifest ''measured'' of
          None \<Rightarrow> [] | Some err \<Rightarrow> [FrozenSchedule err])
     @ map (\<lambda>(key, value). ImageDigestShape key)
         (filter (\<lambda>(key, value). \<not> digest_shape value) (EnvironmentImages (FrozenInputs config)))
     @ map (\<lambda>(key, revision). RevisionUnresolved key revision)
         (filter (\<lambda>(key, revision). \<not> cat_file g root (revision @ ''^{commit}'')) (frozen_revisions (FrozenInputs config)))
     @ frozenTaskInputErrors fs root (Tasks (FrozenInputs config)) taskInputPaths
     @ (case status_porcelain g root of
          None \<Rightarrow> [WorktreeUnknown]
        | Some output \<Rightarrow> if length output \<noteq> 0 then [WorktreeDirty] else [])"

definition design_errors :: "filesystem \<Rightarrow> string \<Rightarrow> designRevisionFile \<Rightarrow> config_error list" where
  "design_errors fs root design =
     (if design_SchemaVersion design \<noteq> 1 \<or> (design_Status design \<noteq> ''draft'' \<and> design_Status design \<noteq> ''frozen'')
      then [DesignVersionOrStatus] else [])
     @ (case ReadFile fs (Clean (Join (Join root ''config'') (Source design))) of
          None \<Rightarrow> [DesignSourceUnreadable]
        | Some data \<Rightarrow> if SourceSHA256 design \<noteq> sha256_hex data then [DesignSourceChanged] else [])"

definition imageKeys :: string_map where
  "imageKeys = [(''coordinator'', ''coordinatorImage''), (''toolDirect'', ''toolDirectImage''),
     (''toolCodegen'', ''toolCodegenImage''), (''evaluator'', ''evaluatorImage'')]"

definition version_errors :: "experimentConfig \<Rightarrow> versionsFile \<Rightarrow> config_error list" where
  "version_errors config versions =
     (if Provider config \<noteq> ''openrouter'' then [ProviderNotOpenrouter] else [])
     @ (if Agent_Name config \<noteq> ''opencode'' then [AgentNotOpencode]
        else let want = lookup (Frozen versions) ''opencode'' in
          if want = '''' \<or> Agent_Version config \<noteq> want then [AgentVersion (Agent_Version config) want] else [])
     @ map (\<lambda>(configKey, versionKey). ImageDiffers configKey versionKey)
         (filter (\<lambda>(configKey, versionKey).
            lookup (EnvironmentImages (FrozenInputs config)) configKey \<noteq> lookup (Frozen versions) versionKey) imageKeys)"

text \<open>The schedule manifest: the decoded document and what is wrong with it, or with its file.\<close>

definition read_schedule ::
  "'doc schema_library \<Rightarrow> filesystem \<Rightarrow> string \<Rightarrow> experimentConfig \<Rightarrow> schedule \<times> config_error option" where
  "read_schedule lib fs root config =
     (case containedPath root (ScheduleManifest (FrozenInputs config)) of
        Inl err \<Rightarrow> (no_schedule, Some (SchedulePath err))
      | Inr schedulePath \<Rightarrow>
          (case readJSON fs schedulePath dec_schedule no_schedule of
             (manifest, Inl err) \<Rightarrow> (manifest, Some (ScheduleUnreadable err))
           | (manifest, Inr data) \<Rightarrow>
               (manifest, map_option ScheduleSchema
                  (validateSchema lib fs (Join (Join root ''schemas'') ''schedule.schema.json'') data False))))"

definition agreement_errors :: "experimentConfig \<Rightarrow> schedule \<Rightarrow> config_error list" where
  "agreement_errors config manifest =
     (if Strategy manifest \<noteq> Schedule (Execution config) then [StrategyDiffers] else [])
     @ (if \<not> isTODO (ScheduleSeed (Execution config)) \<and> \<not> isTODO (Seed manifest)
           \<and> Seed manifest \<noteq> ScheduleSeed (Execution config) then [ScheduleSeedDiffers] else [])
     @ (if \<not> isTODO (ConfigRevision (FrozenInputs config)) \<and> \<not> isTODO (schedule_ConfigRevision manifest)
           \<and> schedule_ConfigRevision manifest \<noteq> ConfigRevision (FrozenInputs config) then [ScheduleRevisionDiffers] else [])"

definition validateConfig ::
  "'doc schema_library \<Rightarrow> git \<Rightarrow> filesystem \<Rightarrow> string \<Rightarrow> read_error + config_error list" where
  "validateConfig lib g fs root0 =
     (let root = Abs fs root0 in
      case readJSON fs (Join (Join root ''config'') ''experiment.json'') dec_config no_config of
        (config, Inl err) \<Rightarrow> Inl err
      | (config, Inr configData) \<Rightarrow>
     (case readJSON fs (Join (Join root ''config'') ''versions.json'') dec_versions no_versions of
        (versions, Inl err) \<Rightarrow> Inl err
      | (versions, Inr versionsData) \<Rightarrow>
          (let (design, designRead) =
                 readJSON fs (Join (Join root ''config'') ''design-revision.json'') dec_design no_design;
               (manifest, scheduleErr) = read_schedule lib fs root config
           in Inr (
             (case validateSchema lib fs (Join (Join root ''schemas'') ''experiment-config.schema.json'') configData True of
                None \<Rightarrow> [] | Some err \<Rightarrow> [ConfigSchema err])
             @ (case designRead of Inl err \<Rightarrow> [DesignUnreadable err] | Inr _ \<Rightarrow> design_errors fs root design)
             @ version_errors config versions
             @ (case scheduleErr of Some err \<Rightarrow> [err] | None \<Rightarrow> agreement_errors config manifest)
             @ (if cfg_Status config = ''frozen'' then
                  (if design_Status design \<noteq> ''frozen'' then [DesignNotFrozen] else [])
                  @ frozenConfigErrors g fs root configData versionsData config versions manifest
                else [])))))"

section \<open>What an accepted configuration pins\<close>

text \<open>The strings of a decoded document, with the last value of a repeated key.\<close>

inductive string_leaf :: "json \<Rightarrow> string \<Rightarrow> bool" where
  here: "string_leaf (JString s) s"
| element: "v \<in> set vs \<Longrightarrow> string_leaf v s \<Longrightarrow> string_leaf (JArray vs) s"
| field: "member (JObject ms) k = Some v \<Longrightarrow> string_leaf v s \<Longrightarrow> string_leaf (JObject ms) s"

inductive_simps string_leaf_simps [simp]:
  "string_leaf (JString t) s" "string_leaf (JArray vs) s" "string_leaf (JObject ms) s"
  "string_leaf JNull s" "string_leaf (JBool b) s" "string_leaf (JNumber n) s"

lemma any_members_member: "(k, v) \<in> set (any_members ms) \<longleftrightarrow> member (JObject ms) k = Some v"
proof
  assume "(k, v) \<in> set (any_members ms)"
  then have "k \<in> set (map fst ms)" "v = the (map_of (rev ms) k)" by (auto simp: any_members_def)
  then show "member (JObject ms) k = Some v"
    using map_of_eq_None_iff [of "rev ms" k] by (auto simp: member_def)
next
  assume "member (JObject ms) k = Some v"
  then have "map_of (rev ms) k = Some v" by (simp add: member_def)
  moreover from this have "k \<in> set (map fst ms)" by (force dest: map_of_SomeD)
  ultimately show "(k, v) \<in> set (any_members ms)" by (auto simp: any_members_def)
qed

lemma walkStrings_leaves: "(\<exists>q. (q, s) \<in> set (walkStrings v path)) \<longleftrightarrow> string_leaf v s"
proof (induction v path rule: walkStrings.induct)
  case (2 vs path)
  have "(\<exists>q. (q, s) \<in> set (walkStrings (JArray vs) path))
      \<longleftrightarrow> (\<exists>(i, v) \<in> set (enumerate 0 vs). \<exists>q. (q, s) \<in> set (walkStrings v (path @ ''['' @ dec i @ '']'')))"
    by auto
  also have "\<dots> \<longleftrightarrow> (\<exists>(i, v) \<in> set (enumerate 0 vs). string_leaf v s)"
    using 2 by blast
  also have "\<dots> \<longleftrightarrow> (\<exists>i < length vs. string_leaf (vs ! i) s)"
    by (auto simp: in_set_enumerate_eq)
  also have "\<dots> \<longleftrightarrow> (\<exists>v \<in> set vs. string_leaf v s)" by (metis in_set_conv_nth)
  finally show ?case by auto
next
  case (3 ms path)
  have "(\<exists>q. (q, s) \<in> set (walkStrings (JObject ms) path))
      \<longleftrightarrow> (\<exists>k v. (k, v) \<in> set (any_members ms) \<and> (\<exists>q. (q, s) \<in> set (walkStrings v (path @ ''.'' @ k))))"
    by auto
  also have "\<dots> \<longleftrightarrow> (\<exists>k v. (k, v) \<in> set (any_members ms) \<and> string_leaf v s)"
    using 3 by blast
  finally show ?case by (auto simp: any_members_member)
qed auto

text \<open>No string of the document is a TODO marker (an undecodable document has no strings).\<close>

definition todo_free :: "string \<Rightarrow> bool" where
  "todo_free data \<longleftrightarrow> (\<forall>v s. parse_json data = Some v \<and> string_leaf v s \<longrightarrow> \<not> isTODO s)"

lemma todo_errors_Nil: "todo_errors label data = [] \<longleftrightarrow> todo_free data"
proof (cases "parse_json data")
  case (Some v)
  have "todo_errors label data = [] \<longleftrightarrow> (\<forall>(q, s) \<in> set (walkStrings v ''$''). \<not> isTODO s)"
    using Some by (auto simp: todo_errors_def filter_empty_conv)
  also have "\<dots> \<longleftrightarrow> (\<forall>s. string_leaf v s \<longrightarrow> \<not> isTODO s)"
    using walkStrings_leaves [of _ v "''$''"] by blast
  finally show ?thesis using Some by (auto simp: todo_free_def)
qed (simp add: todo_errors_def todo_free_def)

definition inputs_match :: "filesystem \<Rightarrow> string \<Rightarrow> string_map \<Rightarrow> bool" where
  "inputs_match fs root tasks \<longleftrightarrow>
     (\<forall>(key, path) \<in> set taskInputPaths. \<exists>data.
        ReadFile fs (Join root path) = Some data \<and> EqualFold (lookup tasks key) (sha256_hex data))"

definition revisions_resolve :: "git \<Rightarrow> string \<Rightarrow> frozen_inputs \<Rightarrow> bool" where
  "revisions_resolve g root inputs \<longleftrightarrow>
     (\<forall>revision \<in> {ConfigRevision inputs, DesignRevision inputs, EvaluatorRevision inputs, ResultSchemaRevision inputs}
        \<union> snd ` set (Fixtures inputs) \<union> snd ` set (Treatments inputs). cat_file g root (revision @ ''^{commit}''))"

lemma frozenTaskInputErrors_Nil: "frozenTaskInputErrors fs root tasks taskInputPaths = [] \<longleftrightarrow> inputs_match fs root tasks"
  unfolding frozenTaskInputErrors_def inputs_match_def
  by (auto simp: concat_eq_Nil_conv split: option.splits if_splits)

lemma frozen_revisions_Nil:
  "filter (\<lambda>(key, revision). \<not> cat_file g root (revision @ ''^{commit}'')) (frozen_revisions inputs) = []
     \<longleftrightarrow> revisions_resolve g root inputs"
  unfolding frozen_revisions_def revisions_resolve_def by (force simp: filter_empty_conv)

text \<open>
  C32: the frozen checks accept exactly the configurations that pin every input: no string of the configuration or
  of the versions file is a TODO marker, versions, network policy and schedule are final and the
  schedule meets its contract, every image is a SHA-256 digest, every revision resolves to a
  commit, every task input file has the recorded hash, and the worktree is known to be clean.
\<close>

theorem frozen_config_exact:
  "frozenConfigErrors g fs root configData versionsData config versions manifest = [] \<longleftrightarrow>
     todo_free configData \<and> todo_free versionsData \<and> versions_Status versions = ''frozen''
     \<and> NetworkPolicyEnforcementStatus (Execution config) = ''validated''
     \<and> Status manifest = ''frozen'' \<and> validateScheduleSemantic config manifest ''measured'' = None
     \<and> list_all (\<lambda>(key, image). digest_shape image) (EnvironmentImages (FrozenInputs config))
     \<and> revisions_resolve g root (FrozenInputs config) \<and> inputs_match fs root (Tasks (FrozenInputs config))
     \<and> status_porcelain g root = Some ''''"
proof -
  have images: "filter (\<lambda>(key, value). \<not> digest_shape value) m = [] \<longleftrightarrow> list_all (\<lambda>(key, image). digest_shape image) m"
    for m :: string_map by (auto simp: filter_empty_conv list_all_iff)
  show ?thesis
    unfolding frozenConfigErrors_def append_is_Nil_conv map_is_Nil_conv todo_errors_Nil
      frozenTaskInputErrors_Nil frozen_revisions_Nil images
    by (cases "status_porcelain g root"; cases "validateScheduleSemantic config manifest ''measured''") auto
qed

text \<open>
  A schedule path that \<open>containedPath\<close> lets through lies strictly below the
  repository root, whatever \<open>.\<close>, \<open>..\<close> and repeated slashes it is written with; what it refuses is an absolute path,
  the root itself or a path that starts by leaving it.
\<close>

theorem contained_path_below:
  "case containedPath base name of
     Inr p \<Rightarrow> below base p \<and> clean_comps p = clean_comps base @ clean_comps name
   | Inl err \<Rightarrow> IsAbs name \<or> clean_comps name = [] \<or> hd (clean_comps name) = ''..''"
proof (cases "IsAbs name \<or> escapes (Clean name)")
  case True
  then show ?thesis using escapes_iff [of name] by (auto simp: containedPath_def escapes_def)
next
  case False
  then have r: "containedPath base name = Inr (Join base (Clean name))"
    by (simp add: containedPath_def escapes_def)
  show ?thesis unfolding r
    using False Join_contained [of name base] not_escapes [of name] by (auto simp: below_def)
qed

end
