(* ===== verification/Freeze_Run.thy ===== *)
theory Freeze_Run
  imports Freeze_Config
begin

text \<open>
  \<open>harness/freezecheck/run.go\<close>: the validation of one run directory. The artifacts a
  run result names must resolve to files below the run directory, the workspace manifest must
  list exactly the regular files of the preserved workspace with their sizes and hashes, and the
  evaluation must be complete and consistent with the case manifest. \<open>scan_cases\<close> and
  \<open>scan_files\<close> are the loops over the behaviour cases and over the manifest files.
\<close>

record manifestFile =
  Path :: string
  SHA256 :: string
  SizeBytes :: int

record workspaceManifest =
  manifest_SchemaVersion :: int
  Files :: "manifestFile list"

definition dec_workspaceManifest :: "workspaceManifest decoder" where
  "dec_workspaceManifest = dec_struct
     [(''schemaVersion'', at_field manifest_SchemaVersion manifest_SchemaVersion_update dec_int),
      (''files'', at_field Files Files_update (dec_slice \<lparr>Path = '''', SHA256 = '''', SizeBytes = 0\<rparr>
         (dec_struct [(''path'', at_field Path Path_update dec_string),
                      (''sha256'', at_field SHA256 SHA256_update dec_string),
                      (''sizeBytes'', at_field SizeBytes SizeBytes_update dec_int)])))]"

definition dec_runMetadata :: "string decoder" where
  "dec_runMetadata = dec_struct [(''workspace'', dec_string)]"

datatype secure_error = NotRelative string | LexicalEscape string | Unresolvable string | ResolvesOutside string

datatype (plugins only: code size) run_error =
    CellUnknown string
  | MatrixDiffers string string string
  | RunScheduleUnreadable read_error
  | RunScheduleSchema schema_error
  | RunIdOccurrences string nat
  | ScheduleEntryDiffers
  | ArtifactPath string secure_error
  | ManifestUnreadable read_error
  | ManifestVersion int
  | MetadataUnreadable read_error
  | WorkspacePath secure_error
  | WorkspaceNotDirectory string
  | WalkFailed
  | FileDuplicated nat string
  | FileUnsorted nat
  | FileUnexpected nat string
  | FilePath nat secure_error
  | FileUnhashable nat
  | FileSize nat int int
  | FileHash nat string
  | FileMissing string
  | CaseManifestUnreadable read_error
  | FailureHasEvaluation
  | FailureUnexplained
  | CategoryUnknown string
  | EvaluationRequired
  | NotAFailure
  | ExclusionUnjustified
  | ReplacementOfNonfailure
  | CaseUnknown string
  | CaseDuplicated string
  | ApplicabilityWrong string bool bool
  | PassedRequired string
  | EvidenceRequired string
  | InapplicableNotNull string
  | CaseMissing string
  | CompleteSuccessWrong bool bool
  | LinksUnverifiable

datatype run_fatal =
    RunDirUnresolvable
  | ResultUnreadable read_error
  | ResultSchema schema_error
  | ExperimentUnreadable read_error

section \<open>Artifact paths\<close>

definition pathWithin :: "string \<Rightarrow> string \<Rightarrow> bool" where
  "pathWithin base path =
     (case Rel base path of None \<Rightarrow> False | Some rel \<Rightarrow> rel \<noteq> ''..'' \<and> \<not> HasPrefix rel ''../'')"

definition secureExistingPath :: "filesystem \<Rightarrow> string \<Rightarrow> string \<Rightarrow> string \<Rightarrow> secure_error + string" where
  "secureExistingPath fs runDir resolvedRun value =
     (if IsAbs value then Inl (NotRelative value)
      else let clean = Clean value in
        if clean = ''.'' \<or> clean = ''..'' \<or> HasPrefix clean ''../'' then Inl (LexicalEscape value)
        else let path = Join runDir clean in
          case EvalSymlinks fs path of
            None \<Rightarrow> Inl (Unresolvable value)
          | Some resolved \<Rightarrow> if \<not> pathWithin resolvedRun resolved then Inl (ResolvesOutside value) else Inr path)"

definition mustEval :: "filesystem \<Rightarrow> string \<Rightarrow> string" where
  "mustEval fs path = (case EvalSymlinks fs path of None \<Rightarrow> '''' | Some resolved \<Rightarrow> resolved)"

section \<open>The workspace manifest\<close>

definition hashFile :: "filesystem \<Rightarrow> string \<Rightarrow> (string \<times> int) option" where
  "hashFile fs path = map_option (\<lambda>s. (sha256_hex s, int (length s))) (ReadFile fs path)"

definition IsRegular :: "node \<Rightarrow> bool" where
  "IsRegular n = (case n of Reg _ _ \<Rightarrow> True | _ \<Rightarrow> False)"

text \<open>The regular files of a walk by slash-separated path, and the errors of the walk.\<close>

definition walk_workspace :: "filesystem \<Rightarrow> string \<Rightarrow> visit list" where
  "walk_workspace fs workspacePath =
     (case Lstat fs workspacePath of None \<Rightarrow> [VisitError []] | Some n \<Rightarrow> WalkDir [] n)"

definition slash_path :: "string list \<Rightarrow> string" where
  "slash_path rel = render_path False rel"

definition regular_paths :: "visit list \<Rightarrow> string list" where
  "regular_paths visits =
     concat (map (\<lambda>v. case v of VisitFile rel n \<Rightarrow> if IsRegular n then [slash_path rel] else []
                              | VisitError rel \<Rightarrow> []) visits)"

definition walk_errors :: "visit list \<Rightarrow> run_error list" where
  "walk_errors visits =
     concat (map (\<lambda>v. case v of VisitFile _ _ \<Rightarrow> [] | VisitError _ \<Rightarrow> [WalkFailed]) visits)"

definition file_errors :: "filesystem \<Rightarrow> string \<Rightarrow> nat \<Rightarrow> manifestFile \<Rightarrow> run_error list" where
  "file_errors fs workspacePath index entry =
     (case secureExistingPath fs workspacePath (mustEval fs workspacePath) (Path entry) of
        Inl err \<Rightarrow> [FilePath index err]
      | Inr path \<Rightarrow>
          (case hashFile fs path of
             None \<Rightarrow> [FileUnhashable index]
           | Some (digest, actual) \<Rightarrow>
               (if SizeBytes entry \<noteq> actual then [FileSize index (SizeBytes entry) actual] else [])
               @ (if \<not> EqualFold (SHA256 entry) digest then [FileHash index (Path entry)] else [])))"

fun scan_files :: "filesystem \<Rightarrow> string \<Rightarrow> string list \<Rightarrow> nat \<Rightarrow> string option \<Rightarrow> manifestFile list \<Rightarrow> string list
    \<Rightarrow> run_error list \<times> string list" where
  "scan_files fs workspacePath expected index previous [] seen = ([], seen)"
| "scan_files fs workspacePath expected index previous (entry # rest) seen =
     (if Path entry \<in> set seen then
        (let (errs, seen') = scan_files fs workspacePath expected (index + 1) (Some (Path entry)) rest seen
         in (FileDuplicated index (Path entry) # errs, seen'))
      else
        (let here =
               (case previous of None \<Rightarrow> [] | Some p \<Rightarrow> if p \<ge> Path entry then [FileUnsorted index] else [])
               @ (if Path entry \<notin> set expected then [FileUnexpected index (Path entry)] else [])
               @ file_errors fs workspacePath index entry;
             (errs, seen') =
               scan_files fs workspacePath expected (index + 1) (Some (Path entry)) rest (Path entry # seen)
         in (here @ errs, seen')))"

definition manifest_errors :: "filesystem \<Rightarrow> string \<Rightarrow> workspaceManifest \<Rightarrow> run_error list" where
  "manifest_errors fs workspacePath manifest =
     (let visits = walk_workspace fs workspacePath;
          expected = remdups (regular_paths visits);
          (errs, seen) = scan_files fs workspacePath expected 0 None (Files manifest) []
      in walk_errors visits @ errs @ map FileMissing (filter (\<lambda>path. path \<notin> set seen) expected))"

definition verifyManifest :: "filesystem \<Rightarrow> string \<Rightarrow> string \<Rightarrow> string \<Rightarrow> string \<Rightarrow> run_error list" where
  "verifyManifest fs runDir resolvedRun metadataPath manifestPath =
     (case readJSON fs manifestPath dec_workspaceManifest \<lparr>manifest_SchemaVersion = 0, Files = []\<rparr> of
        (_, Inl err) \<Rightarrow> [ManifestUnreadable err]
      | (manifest, Inr _) \<Rightarrow>
          (let e1 = (if manifest_SchemaVersion manifest \<noteq> 1 then [ManifestVersion (manifest_SchemaVersion manifest)] else []);
               (e2, workspace) =
                 (if metadataPath = '''' then ([], ''workspace'')
                  else case readJSON fs metadataPath dec_runMetadata '''' of
                    (_, Inl err) \<Rightarrow> ([MetadataUnreadable err], ''workspace'')
                  | (named, Inr _) \<Rightarrow> ([], if named \<noteq> '''' then named else ''workspace''))
           in case secureExistingPath fs runDir resolvedRun workspace of
             Inl err \<Rightarrow> e1 @ e2 @ [WorkspacePath err]
           | Inr workspacePath \<Rightarrow>
               if (case Stat fs workspacePath of None \<Rightarrow> True | Some n \<Rightarrow> \<not> IsDir n)
               then e1 @ e2 @ [WorkspaceNotDirectory workspace]
               else e1 @ e2 @ manifest_errors fs workspacePath manifest))"

section \<open>The evaluation\<close>

definition valueOrEmpty :: "string option \<Rightarrow> string" where
  "valueOrEmpty value = (case value of None \<Rightarrow> '''' | Some s \<Rightarrow> s)"

definition blank :: "string option \<Rightarrow> bool" where
  "blank value \<longleftrightarrow> value = None \<or> TrimSpace (valueOrEmpty value) = ''''"

definition failure_policy :: "string list" where
  "failure_policy =
     [''model-provider-outage'', ''harness-process-crash'', ''host-container-runtime-failure'',
      ''evaluator-infrastructure-failure'', ''artifact-storage-failure'']"

definition failureStatus :: "runResult \<Rightarrow> bool" where
  "failureStatus result \<longleftrightarrow> run_Status result = ''infrastructure-failure'' \<or> run_Status result = ''harness-failure''"

definition expected_cases :: "caseManifest \<Rightarrow> string \<rightharpoonup> string \<times> bool" where
  "expected_cases manifest = map_of (rev (map (\<lambda>item. (mc_ID item, (mc_Task item, Required item))) manifest))"

text \<open>One known and new behaviour case: its errors, and whether it keeps the run complete.\<close>

definition case_errors :: "string \<Rightarrow> string \<times> bool \<Rightarrow> behaviorCase \<Rightarrow> run_error list \<times> bool" where
  "case_errors task spec item =
     (let applicable = (fst spec = ''all'' \<or> fst spec = task);
          e1 = (if Applicable item \<noteq> applicable then [ApplicabilityWrong (case_ID item) (Applicable item) applicable] else [])
      in if applicable then
           (e1 @ (if Passed item = None then [PassedRequired (case_ID item)] else [])
               @ (if blank (case_Evidence item) then [EvidenceRequired (case_ID item)] else []),
            \<not> (Passed item \<noteq> None \<and> snd spec \<and> \<not> the (Passed item)))
         else
           (e1 @ (if Passed item \<noteq> None \<or> case_Evidence item \<noteq> None then [InapplicableNotNull (case_ID item)] else []),
            True))"

fun scan_cases :: "string \<Rightarrow> (string \<rightharpoonup> string \<times> bool) \<Rightarrow> behaviorCase list \<Rightarrow> string list
    \<Rightarrow> run_error list \<times> string list \<times> bool" where
  "scan_cases task expected [] seen = ([], seen, True)"
| "scan_cases task expected (item # rest) seen =
     (case expected (case_ID item) of
        None \<Rightarrow>
          (let (errs, seen', complete) = scan_cases task expected rest seen
           in (CaseUnknown (case_ID item) # errs, seen', complete))
      | Some spec \<Rightarrow>
          if case_ID item \<in> set seen then
            (let (errs, seen', complete) = scan_cases task expected rest seen
             in (CaseDuplicated (case_ID item) # errs, seen', complete))
          else
            (let (here, ok) = case_errors task spec item;
                 (errs, seen', complete) = scan_cases task expected rest (case_ID item # seen)
             in (here @ errs, seen', ok \<and> complete)))"

definition evaluation_errors :: "runResult \<Rightarrow> caseManifest \<Rightarrow> evaluation \<Rightarrow> run_error list" where
  "evaluation_errors result manifest ev =
     (let expected = expected_cases manifest;
          ids = remdups (map mc_ID manifest);
          gates = list_all snd (CommonGates ev);
          (errs, seen, ok) = scan_cases (run_Task result) expected (BehaviorCases ev) [];
          complete = (gates \<and> ok \<and> length seen = length ids)
      in errs @ map CaseMissing (filter (\<lambda>i. i \<notin> set seen) ids)
         @ (if CompleteSuccess ev \<noteq> complete then [CompleteSuccessWrong (CompleteSuccess ev) complete] else []))"

definition validateEvaluation :: "runResult \<Rightarrow> caseManifest \<Rightarrow> run_error list" where
  "validateEvaluation result manifest =
     (let infra = Infrastructure result in
      if \<not> failureStatus result \<and> Evaluation result = None then [EvaluationRequired]
      else
        (if failureStatus result then
           (if Evaluation result \<noteq> None then [FailureHasEvaluation] else [])
           @ (if \<not> IsFailure infra \<or> blank (Category infra) \<or> blank (Evidence infra) then [FailureUnexplained] else [])
           @ (case Category infra of
                None \<Rightarrow> []
              | Some category \<Rightarrow> if category \<notin> set failure_policy then [CategoryUnknown category] else [])
         else (if IsFailure infra then [NotAFailure] else []))
        @ (if Excluded infra \<and> (\<not> IsFailure infra \<or> \<not> ExclusionEligible infra \<or> ReplacementRunID infra = None)
           then [ExclusionUnjustified] else [])
        @ (if \<not> IsFailure infra \<and> ReplacementRunID infra \<noteq> None then [ReplacementOfNonfailure] else [])
        @ (case Evaluation result of None \<Rightarrow> [] | Some ev \<Rightarrow> evaluation_errors result manifest ev))"

section \<open>The run document\<close>

definition matrix_errors :: "cell list \<Rightarrow> runResult \<Rightarrow> run_error list" where
  "matrix_errors cells result =
     (case map_of (rev (map (\<lambda>c. (ID c, c)) cells)) (run_CellID result) of
        None \<Rightarrow> [CellUnknown (run_CellID result)]
      | Some c \<Rightarrow>
          concat (map (\<lambda>(label, got, want). if got \<noteq> want then [MatrixDiffers label got want] else [])
            [(''stage'', run_Stage result, Stage c), (''task'', run_Task result, Task c),
             (''mode'', run_Mode result, Mode c), (''treatment'', run_Treatment result, Treatment c)]))"

definition schedule_errors ::
  "'doc schema_library \<Rightarrow> filesystem \<Rightarrow> string \<Rightarrow> string \<Rightarrow> runResult \<Rightarrow> run_error list" where
  "schedule_errors lib fs root schedulePath result =
     (if schedulePath = '''' then []
      else case readJSON fs schedulePath dec_schedule no_schedule of
        (_, Inl err) \<Rightarrow> [RunScheduleUnreadable err]
      | (document, Inr data) \<Rightarrow>
          (case validateSchema lib fs (Join (Join root ''schemas'') ''schedule.schema.json'') data False of
             Some err \<Rightarrow> [RunScheduleSchema err]
           | None \<Rightarrow>
               (let matches = filter (\<lambda>run. RunID run = run_RunID result) (Runs document) in
                if length matches \<noteq> 1 then [RunIdOccurrences (run_RunID result) (length matches)]
                else if CellID (matches ! 0) \<noteq> run_CellID result
                        \<or> RepeatIndex (matches ! 0) \<noteq> run_RepeatIndex result then [ScheduleEntryDiffers]
                else [])))"

definition artifact_values :: "artifacts \<Rightarrow> string_map" where
  "artifact_values a =
     [(''metadata'', Metadata a), (''transcript'', Transcript a), (''finalPatch'', FinalPatch a),
      (''commands'', Commands a), (''evaluation'', Evaluation_file a), (''workspaceManifest'', WorkspaceManifest a)]"

definition artifact_path :: "filesystem \<Rightarrow> string \<Rightarrow> string \<Rightarrow> string \<Rightarrow> string" where
  "artifact_path fs runDir resolvedRun value =
     (case secureExistingPath fs runDir resolvedRun value of Inl _ \<Rightarrow> '''' | Inr path \<Rightarrow> path)"

definition artifact_errors :: "filesystem \<Rightarrow> string \<Rightarrow> string \<Rightarrow> artifacts \<Rightarrow> run_error list" where
  "artifact_errors fs runDir resolvedRun a =
     concat (map (\<lambda>(label, value).
       case secureExistingPath fs runDir resolvedRun value of Inl err \<Rightarrow> [ArtifactPath label err] | Inr _ \<Rightarrow> [])
       (artifact_values a))
     @ (let path = artifact_path fs runDir resolvedRun (WorkspaceManifest a) in
        if path \<noteq> '''' then
          verifyManifest fs runDir resolvedRun (artifact_path fs runDir resolvedRun (Metadata a)) path
        else [])"

definition validateRunDocument ::
  "'doc schema_library \<Rightarrow> filesystem \<Rightarrow> string \<Rightarrow> string \<Rightarrow> string \<Rightarrow> bool
     \<Rightarrow> runResult \<times> (run_fatal + run_error list)" where
  "validateRunDocument lib fs root0 runDir0 schedulePath allowReplacementLinks =
     (let root = Abs fs root0; runDir = Abs fs runDir0 in
      case EvalSymlinks fs runDir of
        None \<Rightarrow> (no_runResult, Inl RunDirUnresolvable)
      | Some resolvedRun \<Rightarrow>
     (case readJSON fs (Join runDir ''run-result.json'') dec_runResult no_runResult of
        (result, Inl err) \<Rightarrow> (result, Inl (ResultUnreadable err))
      | (result, Inr data) \<Rightarrow>
     (case validateSchema lib fs (Join (Join root ''schemas'') ''run-result.schema.json'') data False of
        Some err \<Rightarrow> (result, Inl (ResultSchema err))
      | None \<Rightarrow>
     (case readJSON fs (Join (Join root ''config'') ''experiment.json'') dec_config no_config of
        (_, Inl err) \<Rightarrow> (result, Inl (ExperimentUnreadable err))
      | (config, Inr _) \<Rightarrow>
          (result, Inr (
             matrix_errors (Cells config) result
             @ schedule_errors lib fs root schedulePath result
             @ artifact_errors fs runDir resolvedRun (Artifacts result)
             @ (case readJSON fs (Join (Join root ''evaluator'') ''case-manifest.json'') dec_caseManifest [] of
                  (_, Inl err) \<Rightarrow> [CaseManifestUnreadable err]
                | (manifest, Inr _) \<Rightarrow> validateEvaluation result manifest)
             @ (if \<not> allowReplacementLinks \<and> (ReplacementRunID (Infrastructure result) \<noteq> None
                     \<or> ReplacesRunID (Infrastructure result) \<noteq> None)
                then [LinksUnverifiable] else [])))))))"

definition validateRun ::
  "'doc schema_library \<Rightarrow> filesystem \<Rightarrow> string \<Rightarrow> string \<Rightarrow> string \<Rightarrow> run_fatal + run_error list" where
  "validateRun lib fs root runDir schedulePath = snd (validateRunDocument lib fs root runDir schedulePath False)"

section \<open>Artifacts stay below the run directory\<close>

lemma secureExistingPath_Inr:
  assumes "secureExistingPath fs runDir resolvedRun value = Inr path"
  obtains resolved where "path = Join runDir (Clean value)" "\<not> IsAbs value" "\<not> escapes (Clean value)"
    "EvalSymlinks fs path = Some resolved" "pathWithin resolvedRun resolved"
  using assms by (auto simp: secureExistingPath_def escapes_def Let_def split: if_splits option.splits)

lemma pathWithin_prefix:
  "IsAbs base \<Longrightarrow> IsAbs p \<Longrightarrow> pathWithin base p \<Longrightarrow> \<exists>down. clean_comps p = clean_comps base @ down"
  using Rel_within [of base p] by (auto simp: pathWithin_def split: option.splits)

text \<open>
  C12: reading a path that \<open>secureExistingPath\<close> returned reads a regular file whose real
  place, after every symbolic link on the way is followed, is below the real place of the run directory. A link
  planted in the preserved workspace does not lead the validator to a file outside.
\<close>

theorem secured_read_inside_run:
  assumes "IsAbs runDir" "EvalSymlinks fs runDir = Some resolvedRun"
    "secureExistingPath fs runDir resolvedRun value = Inr path" "ReadFile fs path = Some s"
  shows "\<exists>run down. locate fs 255 runDir = Some run \<and> node_at (fs_root fs) (run @ down) = Some (Reg True s)"
proof -
  obtain resolved where p: "path = Join runDir (Clean value)" "\<not> IsAbs value" "\<not> escapes (Clean value)"
    "EvalSymlinks fs path = Some resolved" "pathWithin resolvedRun resolved"
    by (rule secureExistingPath_Inr [OF assms(3)])
  have "IsAbs path" using Join_contained(2) [OF p(2,3), of runDir] p(1) assms(1) by simp
  then obtain r where r: "locate fs 255 path = Some r" "clean_comps resolved = r" "IsAbs resolved"
    using EvalSymlinks_locate [OF _ p(4)] by metis
  obtain run where run: "locate fs 255 runDir = Some run" "clean_comps resolvedRun = run" "IsAbs resolvedRun"
    using EvalSymlinks_locate [OF assms(1,2)] by metis
  obtain down where "r = run @ down" using pathWithin_prefix [OF run(3) r(3) p(5)] r(2) run(2) by auto
  moreover obtain r' where "locate fs 255 path = Some r'" "node_at (fs_root fs) r' = Some (Reg True s)"
    by (rule ReadFile_resolved [OF assms(4)])
  ultimately show ?thesis using r(1) run(1) by auto
qed

definition sample_fs :: filesystem where
  "sample_fs =
     \<lparr>fs_root = Directory True
        [(''run'', Directory True [(''inner'', Link ''a''), (''outer'', Link ''../secret''), (''a'', Reg True ''x'')]),
         (''secret'', Reg True ''y'')],
      fs_cwd = ''/''\<rparr>"

lemmas path_eval = sample_fs_def secureExistingPath_def pathWithin_def EvalSymlinks_def locate_def IsAbs_def
  Clean_def clean_comps_def clean_step_def render_path_def Join_def Rel_def Let_def ReadFile_def Stat_def HasPrefix_def

theorem secured_read_inside_run_witness:
  "secureExistingPath sample_fs ''/run'' ''/run'' ''inner'' = Inr ''/run/inner''
     \<and> secureExistingPath sample_fs ''/run'' ''/run'' ''outer'' = Inl (ResolvesOutside ''outer'')
     \<and> (\<exists>run down. locate sample_fs 255 ''/run'' = Some run
          \<and> node_at (fs_root sample_fs) (run @ down) = Some (Reg True ''x''))"
proof -
  have in1: "secureExistingPath sample_fs ''/run'' ''/run'' ''inner'' = Inr ''/run/inner''" by (simp add: path_eval)
  moreover have "secureExistingPath sample_fs ''/run'' ''/run'' ''outer'' = Inl (ResolvesOutside ''outer'')"
    by (simp add: path_eval)
  moreover have "\<exists>run down. locate sample_fs 255 ''/run'' = Some run
      \<and> node_at (fs_root sample_fs) (run @ down) = Some (Reg True ''x'')"
    by (rule secured_read_inside_run [OF _ _ in1]) (simp_all add: path_eval)
  ultimately show ?thesis by blast
qed

section \<open>The manifest check is exact\<close>

text \<open>The entry at a path agrees with the file there.\<close>

definition file_agrees :: "filesystem \<Rightarrow> string \<Rightarrow> manifestFile \<Rightarrow> bool" where
  "file_agrees fs workspacePath entry \<longleftrightarrow>
     (\<exists>path s. secureExistingPath fs workspacePath (mustEval fs workspacePath) (Path entry) = Inr path
        \<and> ReadFile fs path = Some s \<and> SizeBytes entry = int (length s) \<and> EqualFold (SHA256 entry) (sha256_hex s))"

lemma file_errors_Nil: "file_errors fs workspacePath index entry = [] \<longleftrightarrow> file_agrees fs workspacePath entry"
  by (auto simp: file_errors_def file_agrees_def hashFile_def split: sum.splits option.splits)

lemma scan_files_seen: "set (snd (scan_files fs w expected index previous es seen)) = set (map Path es) \<union> set seen"
  by (induction fs w expected index previous es seen rule: scan_files.induct)
    (auto simp: Let_def split: prod.splits if_splits)

lemma scan_files_Nil:
  assumes "\<And>x. x \<in> set seen \<Longrightarrow> \<exists>p. previous = Some p \<and> x \<le> p"
  shows "fst (scan_files fs w expected index previous es seen) = [] \<longleftrightarrow>
     sorted_wrt (<) (map Path es) \<and> (\<forall>p. previous = Some p \<longrightarrow> (\<forall>e \<in> set es. p < Path e))
     \<and> set (map Path es) \<subseteq> set expected \<and> list_all (file_agrees fs w) es"
  using assms
proof (induction es arbitrary: index previous seen)
  case (Cons e es)
  show ?case
  proof (cases "Path e \<in> set seen")
    case True
    then obtain p where "previous = Some p" "Path e \<le> p" using Cons.prems by blast
    then show ?thesis using True by (auto simp: Let_def split: prod.splits)
  next
    case False
    have up: "\<exists>p. Some (Path e) = Some p \<and> x \<le> p"
      if "x \<in> set (Path e # seen)" "\<forall>p. previous = Some p \<longrightarrow> p < Path e" for x
      using that Cons.prems by force
    have "fst (scan_files fs w expected index previous (e # es) seen) = [] \<longleftrightarrow>
        (\<forall>p. previous = Some p \<longrightarrow> p < Path e) \<and> Path e \<in> set expected \<and> file_agrees fs w e
        \<and> fst (scan_files fs w expected (index + 1) (Some (Path e)) es (Path e # seen)) = []"
      using False file_errors_Nil [of fs w index e] by (auto simp: Let_def split: prod.splits option.splits if_splits)
    also have "\<dots> \<longleftrightarrow> (\<forall>p. previous = Some p \<longrightarrow> p < Path e) \<and> Path e \<in> set expected \<and> file_agrees fs w e
        \<and> sorted_wrt (<) (map Path es) \<and> (\<forall>x \<in> set es. Path e < Path x)
        \<and> set (map Path es) \<subseteq> set expected \<and> list_all (file_agrees fs w) es"
      using Cons.IH [of "Path e # seen" "Some (Path e)" "index + 1"] up by auto
    finally show ?thesis by (auto intro: less_trans)
  qed
qed simp

lemma manifest_errors_Nil:
  "manifest_errors fs workspacePath manifest = [] \<longleftrightarrow>
     walk_errors (walk_workspace fs workspacePath) = []
     \<and> map Path (Files manifest) = sorted_list_of_set (set (regular_paths (walk_workspace fs workspacePath)))
     \<and> list_all (file_agrees fs workspacePath) (Files manifest)"
proof -
  let ?expected = "remdups (regular_paths (walk_workspace fs workspacePath))"
  have seen: "set (snd (scan_files fs workspacePath ?expected 0 None (Files manifest) [])) = set (map Path (Files manifest))"
    by (simp add: scan_files_seen)
  have "manifest_errors fs workspacePath manifest = [] \<longleftrightarrow>
     walk_errors (walk_workspace fs workspacePath) = []
     \<and> fst (scan_files fs workspacePath ?expected 0 None (Files manifest) []) = []
     \<and> set ?expected \<subseteq> set (map Path (Files manifest))"
    using seen by (auto simp: manifest_errors_def Let_def filter_empty_conv split: prod.splits)
  also have "\<dots> \<longleftrightarrow> walk_errors (walk_workspace fs workspacePath) = []
     \<and> (sorted_wrt (<) (map Path (Files manifest)) \<and> set (map Path (Files manifest)) = set ?expected)
     \<and> list_all (file_agrees fs workspacePath) (Files manifest)"
    using scan_files_Nil [of "[]" None fs workspacePath ?expected 0 "Files manifest"] by auto
  also have "sorted_wrt (<) (map Path (Files manifest)) \<and> set (map Path (Files manifest)) = set ?expected \<longleftrightarrow>
     map Path (Files manifest) = sorted_list_of_set (set ?expected)"
    using strict_sorted_equal [of "map Path (Files manifest)" "sorted_list_of_set (set ?expected)"]
    by (metis List.finite_set set_sorted_list_of_set strict_sorted_list_of_set)
  finally show ?thesis by simp
qed

text \<open>
  C14: the manifest check passes exactly when the walk of the workspace meets no error and the manifest lists, in
  strictly increasing order, every regular file the walk finds and no other, each with the size and
  the SHA-256 of what is in it, and none of them resolving to a place outside the workspace.
\<close>

theorem manifest_check_exact:
  "manifest_errors fs workspacePath manifest = [] \<longleftrightarrow>
     walk_errors (walk_workspace fs workspacePath) = []
     \<and> map Path (Files manifest) = sorted_list_of_set (set (regular_paths (walk_workspace fs workspacePath)))
     \<and> list_all (file_agrees fs workspacePath) (Files manifest)"
  by (rule manifest_errors_Nil)

section \<open>The evaluation check is exact\<close>

definition applies :: "string \<Rightarrow> string \<times> bool \<Rightarrow> bool" where
  "applies task spec \<longleftrightarrow> fst spec = ''all'' \<or> fst spec = task"

text \<open>
  A case is recorded properly: its applicability is that of the manifest, an applicable case has a verdict and
  evidence, the others neither. It \<open>holds_up\<close> unless it is required, applicable and failed.
\<close>

definition case_ok :: "string \<Rightarrow> string \<times> bool \<Rightarrow> behaviorCase \<Rightarrow> bool" where
  "case_ok task spec item \<longleftrightarrow> Applicable item = applies task spec
     \<and> (if applies task spec then Passed item \<noteq> None \<and> \<not> blank (case_Evidence item)
        else Passed item = None \<and> case_Evidence item = None)"

definition holds_up :: "string \<Rightarrow> string \<times> bool \<Rightarrow> behaviorCase \<Rightarrow> bool" where
  "holds_up task spec item \<longleftrightarrow> \<not> (applies task spec \<and> snd spec \<and> Passed item = Some False)"

lemma case_errors_ok:
  "fst (case_errors task spec item) = [] \<longleftrightarrow> case_ok task spec item"
  "snd (case_errors task spec item) \<longleftrightarrow> holds_up task spec item"
  by (cases "Passed item"; auto simp: case_errors_def case_ok_def holds_up_def applies_def Let_def)+

definition cases_ok :: "string \<Rightarrow> (string \<rightharpoonup> string \<times> bool) \<Rightarrow> behaviorCase list \<Rightarrow> bool" where
  "cases_ok task expected items \<longleftrightarrow>
     list_all (\<lambda>item. \<exists>spec. expected (case_ID item) = Some spec \<and> case_ok task spec item) items"

definition all_hold_up :: "string \<Rightarrow> (string \<rightharpoonup> string \<times> bool) \<Rightarrow> behaviorCase list \<Rightarrow> bool" where
  "all_hold_up task expected items \<longleftrightarrow>
     list_all (\<lambda>item. \<forall>spec. expected (case_ID item) = Some spec \<longrightarrow> holds_up task spec item) items"

lemma scan_cases_Nil:
  "fst (scan_cases task expected items seen) = [] \<longleftrightarrow>
     distinct (map case_ID items) \<and> set (map case_ID items) \<inter> set seen = {} \<and> cases_ok task expected items"
proof (induction items arbitrary: seen)
  case (Cons item items)
  show ?case
  proof (cases "expected (case_ID item)")
    case None
    then show ?thesis by (auto simp: cases_ok_def Let_def split: prod.splits)
  next
    case (Some spec)
    show ?thesis
    proof (cases "case_ID item \<in> set seen")
      case True
      then show ?thesis using Some by (auto simp: Let_def split: prod.splits)
    next
      case False
      have "fst (scan_cases task expected (item # items) seen) = [] \<longleftrightarrow>
          case_ok task spec item \<and> fst (scan_cases task expected items (case_ID item # seen)) = []"
        using Some False case_errors_ok(1) [of task spec item] by (auto simp: Let_def split: prod.splits)
      then show ?thesis using Cons.IH [of "case_ID item # seen"] Some False by (auto simp: cases_ok_def simp del: split_paired_Ex)
    qed
  qed
qed (simp add: cases_ok_def)

lemma scan_cases_clean:
  assumes "fst (scan_cases task expected items seen) = []"
  shows "fst (snd (scan_cases task expected items seen)) = rev (map case_ID items) @ seen"
    "snd (snd (scan_cases task expected items seen)) \<longleftrightarrow> all_hold_up task expected items"
  using assms
proof (induction items arbitrary: seen)
  case (Cons item items)
  {
    case 1
    then show ?case using Cons.IH(1) [of "case_ID item # seen"] by (auto simp: Let_def split: prod.splits option.splits if_splits)
  next
    case 2
    then obtain spec where spec: "expected (case_ID item) = Some spec" "case_ID item \<notin> set seen"
      by (auto simp: Let_def split: prod.splits option.splits if_splits)
    obtain e ok where ce: "case_errors task spec item = (e, ok)" by fastforce
    then have "ok \<longleftrightarrow> holds_up task spec item" using case_errors_ok(2) [of task spec item] by simp
    then show ?case using 2 spec ce Cons.IH(2) [of "case_ID item # seen"]
      by (auto simp: all_hold_up_def Let_def simp del: split_paired_All split: prod.splits)
  }
qed (simp_all add: all_hold_up_def)

text \<open>
  A complete evaluation: every case of the manifest exactly once, each recorded properly, and \<open>completeSuccess\<close>
  says that every gate and every required applicable case passed.
\<close>

definition evaluation_contract :: "string \<Rightarrow> caseManifest \<Rightarrow> evaluation \<Rightarrow> bool" where
  "evaluation_contract task manifest ev \<longleftrightarrow>
     distinct (map case_ID (BehaviorCases ev)) \<and> set (map case_ID (BehaviorCases ev)) = set (map mc_ID manifest)
     \<and> cases_ok task (expected_cases manifest) (BehaviorCases ev)
     \<and> (CompleteSuccess ev \<longleftrightarrow> list_all snd (CommonGates ev) \<and> all_hold_up task (expected_cases manifest) (BehaviorCases ev))"

lemma expected_cases_dom: "dom (expected_cases manifest) = set (map mc_ID manifest)"
  by (simp add: expected_cases_def dom_map_of_conv_image_fst image_image)

lemma evaluation_errors_Nil:
  "evaluation_errors result manifest ev = [] \<longleftrightarrow> evaluation_contract (run_Task result) manifest ev"
proof -
  let ?task = "run_Task result" and ?expected = "expected_cases manifest" and ?items = "BehaviorCases ev"
  obtain errs seen ok where s: "scan_cases ?task ?expected ?items [] = (errs, seen, ok)" by (metis prod_cases3)
  show ?thesis
  proof (cases "errs = []")
    case False
    then have "\<not> (distinct (map case_ID ?items) \<and> cases_ok ?task ?expected ?items)"
      using scan_cases_Nil [of ?task ?expected ?items "[]"] s by simp
    moreover have "evaluation_errors result manifest ev \<noteq> []" using False s by (simp add: evaluation_errors_def Let_def)
    ultimately show ?thesis by (auto simp: evaluation_contract_def)
  next
    case True
    have good: "distinct (map case_ID ?items)" "cases_ok ?task ?expected ?items"
      using scan_cases_Nil [of ?task ?expected ?items "[]"] s True by simp_all
    have seen: "seen = rev (map case_ID ?items)" and ok: "ok \<longleftrightarrow> all_hold_up ?task ?expected ?items"
      using scan_cases_clean [of ?task ?expected ?items "[]"] s True by simp_all
    have sub: "set (map case_ID ?items) \<subseteq> set (map mc_ID manifest)"
      using good(2) expected_cases_dom [of manifest] by (auto simp: cases_ok_def list_all_iff)
    have len: "set (map mc_ID manifest) \<subseteq> set seen \<Longrightarrow> length seen = length (remdups (map mc_ID manifest))"
    proof -
      assume "set (map mc_ID manifest) \<subseteq> set seen"
      then have "set seen = set (remdups (map mc_ID manifest))" using seen sub by auto
      then show ?thesis using seen good(1) by (metis distinct_card distinct_remdups distinct_rev)
    qed
    have "evaluation_errors result manifest ev = [] \<longleftrightarrow> set (map mc_ID manifest) \<subseteq> set seen
        \<and> CompleteSuccess ev = (list_all snd (CommonGates ev) \<and> ok \<and> length seen = length (remdups (map mc_ID manifest)))"
      using s True by (auto simp: evaluation_errors_def Let_def filter_empty_conv)
    also have "\<dots> \<longleftrightarrow> set (map mc_ID manifest) \<subseteq> set seen \<and> CompleteSuccess ev = (list_all snd (CommonGates ev) \<and> ok)"
      using len by blast
    finally show ?thesis using good seen ok sub by (auto simp: evaluation_contract_def)
  qed
qed

definition failure_explained :: "infrastructure \<Rightarrow> bool" where
  "failure_explained infra \<longleftrightarrow> IsFailure infra \<and> \<not> blank (Evidence infra)
     \<and> (\<exists>category \<in> set failure_policy. Category infra = Some category)"

definition links_ok :: "infrastructure \<Rightarrow> bool" where
  "links_ok infra \<longleftrightarrow> (Excluded infra \<longrightarrow> IsFailure infra \<and> ExclusionEligible infra \<and> ReplacementRunID infra \<noteq> None)
     \<and> (ReplacementRunID infra \<noteq> None \<longrightarrow> IsFailure infra)"

lemma policy_not_blank: "category \<in> set failure_policy \<Longrightarrow> \<not> blank (Some category)"
  by (auto simp: failure_policy_def blank_def valueOrEmpty_def TrimSpace_head IsSpace_def)

lemma validateEvaluation_Nil:
  "validateEvaluation result manifest = [] \<longleftrightarrow>
     links_ok (Infrastructure result)
     \<and> (case Evaluation result of
          None \<Rightarrow> failureStatus result \<and> failure_explained (Infrastructure result)
        | Some ev \<Rightarrow> \<not> failureStatus result \<and> \<not> IsFailure (Infrastructure result)
                    \<and> evaluation_contract (run_Task result) manifest ev)"
proof -
  have explained: "IsFailure infra \<and> \<not> blank (Category infra) \<and> \<not> blank (Evidence infra)
       \<and> (\<forall>category. Category infra = Some category \<longrightarrow> category \<in> set failure_policy) \<longleftrightarrow> failure_explained infra"
    for infra :: infrastructure
    using policy_not_blank by (cases "Category infra") (auto simp: failure_explained_def blank_def)
  show ?thesis
    using explained [of "Infrastructure result"]
    by (cases "Evaluation result"; cases "failureStatus result"; cases "Category (Infrastructure result)")
      (auto simp: validateEvaluation_def Let_def links_ok_def evaluation_errors_Nil split: if_splits)
qed

text \<open>
  C13: \<open>validateEvaluation\<close> accepts exactly two kinds of results: a failure status without an
  evaluation, explained by a category of the local policy and evidence, or any other status without a
  failure and with a complete evaluation. In both, an exclusion needs an eligible failure with a
  replacement, and only a failure may name one.
\<close>

theorem evaluation_check_exact:
  "validateEvaluation result manifest = [] \<longleftrightarrow>
     links_ok (Infrastructure result)
     \<and> (case Evaluation result of
          None \<Rightarrow> failureStatus result \<and> failure_explained (Infrastructure result)
        | Some ev \<Rightarrow> \<not> failureStatus result \<and> \<not> IsFailure (Infrastructure result)
                    \<and> evaluation_contract (run_Task result) manifest ev)"
  by (rule validateEvaluation_Nil)

end
