(* ===== verification/Freeze_Results.thy ===== *)
theory Freeze_Results
  imports Freeze_Run
begin

text \<open>
  \<open>harness/freezecheck/results.go\<close>: the validation of a directory of run directories.
  Every child directory with a run result is validated on its own; then the run identifiers must
  be unique and the replacement links between runs must match. \<open>validated\<close> pairs the name of a
  run directory with its decoded result.
\<close>

type_synonym resultEntry = "string \<times> runResult"

datatype results_error =
    InspectFailed string
  | RunInvalid string "run_fatal + run_error list"
  | NoRunDirectories
  | DuplicateRunId string string string
  | ReplacementSelfLink string
  | ReplacementUnresolved string string
  | ReplacementCell string string string string
  | ReplacementNotReciprocal string string
  | ReplacesSelfLink string
  | ReplacesUnresolved string string
  | ReplacesCell string string string string
  | ReplacesNotReciprocal string string

text \<open>The loop over the children of the results directory.\<close>

fun scan_runs_dir :: "'doc schema_library \<Rightarrow> filesystem \<Rightarrow> string \<Rightarrow> string \<Rightarrow> string \<Rightarrow> (string \<times> node) list
    \<Rightarrow> resultEntry list \<times> results_error list" where
  "scan_runs_dir lib fs root resultsDir schedulePath [] = ([], [])"
| "scan_runs_dir lib fs root resultsDir schedulePath ((name, n) # rest) =
     (let (validated, errs) = scan_runs_dir lib fs root resultsDir schedulePath rest;
          runDir = Join resultsDir name
      in if \<not> IsDir n then (validated, errs)
         else case Lstat_in fs runDir ''run-result.json'' of
           NotExist \<Rightarrow> (validated, errs)
         | Denied \<Rightarrow> (validated, InspectFailed name # errs)
         | Found _ \<Rightarrow>
             (case validateRunDocument lib fs root runDir schedulePath True of
                (result, outcome) \<Rightarrow>
                  ((name, result) # validated,
                   (if outcome \<noteq> Inr [] then [RunInvalid name outcome] else []) @ errs)))"

text \<open>The first entry of every identifier, and the identifiers that come again.\<close>

fun index_results :: "resultEntry list \<Rightarrow> (string \<rightharpoonup> resultEntry) \<Rightarrow> string list
    \<Rightarrow> (string \<rightharpoonup> resultEntry) \<times> string list \<times> results_error list" where
  "index_results [] byID duplicates = (byID, duplicates, [])"
| "index_results (entry # rest) byID duplicates =
     (let i = run_RunID (snd entry) in
      case byID i of
        Some previous \<Rightarrow>
          (let (byID', duplicates', errs) = index_results rest byID (i # duplicates)
           in (byID', duplicates', DuplicateRunId i (fst previous) (fst entry) # errs))
      | None \<Rightarrow> index_results rest (byID(i \<mapsto> entry)) duplicates)"

definition replacement_errors :: "(string \<rightharpoonup> resultEntry) \<Rightarrow> string list \<Rightarrow> runResult \<Rightarrow> results_error list" where
  "replacement_errors byID duplicates result =
     (case ReplacementRunID (Infrastructure result) of
        None \<Rightarrow> []
      | Some link \<Rightarrow>
          if link = run_RunID result then [ReplacementSelfLink (run_RunID result)]
          else if byID link = None \<or> link \<in> set duplicates then [ReplacementUnresolved (run_RunID result) link]
          else let other = snd (the (byID link)) in
            (if run_CellID other \<noteq> run_CellID result
             then [ReplacementCell (run_RunID result) link (run_CellID other) (run_CellID result)] else [])
            @ (if ReplacesRunID (Infrastructure other) \<noteq> Some (run_RunID result)
               then [ReplacementNotReciprocal (run_RunID result) link] else []))"

definition replaces_errors :: "(string \<rightharpoonup> resultEntry) \<Rightarrow> string list \<Rightarrow> runResult \<Rightarrow> results_error list" where
  "replaces_errors byID duplicates result =
     (case ReplacesRunID (Infrastructure result) of
        None \<Rightarrow> []
      | Some link \<Rightarrow>
          if link = run_RunID result then [ReplacesSelfLink (run_RunID result)]
          else if byID link = None \<or> link \<in> set duplicates then [ReplacesUnresolved (run_RunID result) link]
          else let original = snd (the (byID link)) in
            (if run_CellID original \<noteq> run_CellID result
             then [ReplacesCell (run_RunID result) link (run_CellID original) (run_CellID result)] else [])
            @ (if ReplacementRunID (Infrastructure original) \<noteq> Some (run_RunID result)
               then [ReplacesNotReciprocal (run_RunID result) link] else []))"

definition link_errors :: "resultEntry list \<Rightarrow> results_error list" where
  "link_errors validated =
     (let (byID, duplicates, errs) = index_results validated Map.empty []
      in errs @ concat (map (\<lambda>(directory, result).
           if run_RunID result \<in> set duplicates then []
           else replacement_errors byID duplicates result @ replaces_errors byID duplicates result) validated))"

text \<open>\<^const>\<open>None\<close>: the results directory cannot be read.\<close>

definition validateResults ::
  "'doc schema_library \<Rightarrow> filesystem \<Rightarrow> string \<Rightarrow> string \<Rightarrow> string \<Rightarrow> results_error list option" where
  "validateResults lib fs root resultsDir0 schedulePath =
     (let resultsDir = Abs fs resultsDir0 in
      map_option (\<lambda>entries.
        let (validated, errs) = scan_runs_dir lib fs root resultsDir schedulePath entries
        in if length validated = 0 then errs @ [NoRunDirectories] else errs @ link_errors validated)
        (ReadDir fs resultsDir))"

section \<open>Replacement links\<close>

text \<open>
  \<open>answers opp results r link\<close>: the run that \<open>link\<close> names is another one of the set, of the same cell, and points opp to \<open>r\<close>.
\<close>

definition answers :: "(infrastructure \<Rightarrow> string option) \<Rightarrow> runResult list \<Rightarrow> runResult \<Rightarrow> string \<Rightarrow> bool" where
  "answers opp results r link \<longleftrightarrow> link \<noteq> run_RunID r
     \<and> (\<exists>other \<in> set results. run_RunID other = link \<and> run_CellID other = run_CellID r
          \<and> opp (Infrastructure other) = Some (run_RunID r))"

definition links_match :: "runResult list \<Rightarrow> bool" where
  "links_match results \<longleftrightarrow> (\<forall>r \<in> set results.
     (\<forall>link. ReplacementRunID (Infrastructure r) = Some link \<longrightarrow> answers ReplacesRunID results r link)
     \<and> (\<forall>link. ReplacesRunID (Infrastructure r) = Some link \<longrightarrow> answers ReplacementRunID results r link))"

lemma index_results_errors:
  "snd (snd (index_results es byID dups)) = [] \<Longrightarrow>
     distinct (map (run_RunID \<circ> snd) es) \<and> (\<forall>e \<in> set es. byID (run_RunID (snd e)) = None)"
proof (induction es arbitrary: byID dups)
  case (Cons e es)
  then have e: "byID (run_RunID (snd e)) = None"
    by (auto simp: Let_def split: option.splits prod.splits)
  then have "snd (snd (index_results es (byID(run_RunID (snd e) \<mapsto> e)) dups)) = []" using Cons.prems by (simp add: Let_def)
  note IH = Cons.IH [OF this]
  then have "run_RunID (snd x) \<noteq> run_RunID (snd e) \<and> byID (run_RunID (snd x)) = None" if "x \<in> set es" for x
    using that by (metis fun_upd_apply option.distinct(1))
  note other = this
  have "run_RunID (snd e) \<notin> set (map (run_RunID \<circ> snd) es)"
  proof
    assume "run_RunID (snd e) \<in> set (map (run_RunID \<circ> snd) es)"
    then obtain x where "x \<in> set es" "run_RunID (snd e) = run_RunID (snd x)"
      unfolding set_map comp_def by (rule imageE)
    then show False using other by metis
  qed
  then show ?case using IH e other by simp
qed simp

lemma index_results_distinct:
  "distinct (map (run_RunID \<circ> snd) es) \<Longrightarrow> \<forall>e \<in> set es. byID (run_RunID (snd e)) = None \<Longrightarrow>
     index_results es byID dups = (byID ++ map_of (map (\<lambda>e. (run_RunID (snd e), e)) es), dups, [])"
proof (induction es arbitrary: byID)
  case (Cons e es)
  then have "index_results (e # es) byID dups = index_results es (byID(run_RunID (snd e) \<mapsto> e)) dups"
    by (simp add: Let_def)
  moreover have "map_of (map (\<lambda>e. (run_RunID (snd e), e)) es) (run_RunID (snd e)) = None"
    using Cons.prems(1) by (simp add: map_of_eq_None_iff image_image comp_def)
  moreover have "\<forall>x \<in> set es. (byID(run_RunID (snd e) \<mapsto> e)) (run_RunID (snd x)) = None"
  proof
    fix x assume x: "x \<in> set es"
    have "run_RunID (snd x) \<in> set (map (run_RunID \<circ> snd) es)" unfolding set_map comp_def using x by (rule imageI)
    then have "run_RunID (snd x) \<noteq> run_RunID (snd e)" using Cons.prems(1) by (metis comp_apply distinct.simps(2) list.simps(9))
    then show "(byID(run_RunID (snd e) \<mapsto> e)) (run_RunID (snd x)) = None" using Cons.prems(2) x by simp
  qed
  ultimately show ?case using Cons by (auto simp: map_add_upd_left fun_eq_iff map_add_def split: option.splits)
qed simp

lemma unique_entry:
  assumes "distinct (map (run_RunID \<circ> snd) es)"
  shows "map_of (map (\<lambda>e. (run_RunID (snd e), e)) es) link = Some e \<longleftrightarrow> e \<in> set es \<and> run_RunID (snd e) = link"
proof -
  have "distinct (map fst (map (\<lambda>e. (run_RunID (snd e), e)) es))" using assms by (simp add: comp_def)
  then show ?thesis by (subst map_of_eq_Some_iff) auto
qed

text \<open>
  C31: the link check passes exactly when no run identifier occurs twice and the links match:
  a run that names a replacement is answered by another run of the same cell that says it replaces it, and the
  other way round. So an excluded failure and its rerun always point at each other.
\<close>

theorem replacement_links_exact:
  "link_errors validated = [] \<longleftrightarrow>
     distinct (map (run_RunID \<circ> snd) validated) \<and> links_match (map snd validated)"
proof (cases "distinct (map (run_RunID \<circ> snd) validated)")
  case False
  have "snd (snd (index_results validated Map.empty [])) \<noteq> []"
    using False index_results_errors [of validated Map.empty "[]"] by blast
  then show ?thesis using False by (auto simp: link_errors_def Let_def split: prod.splits)
next
  case True
  let ?byID = "map_of (map (\<lambda>e. (run_RunID (snd e), e)) validated)"
  have idx: "index_results validated Map.empty [] = (?byID, [], [])"
    using index_results_distinct [OF True, of Map.empty "[]"] by simp
  have one: "f = []  \<longleftrightarrow> (\<forall>link. get (Infrastructure r) = Some link \<longrightarrow> answers opp (map snd validated) r link)"
    if "f = (case get (Infrastructure r) of None \<Rightarrow> [] | Some link \<Rightarrow>
        if link = run_RunID r then [e1] else if ?byID link = None \<or> link \<in> set [] then [e2 link]
        else let other = snd (the (?byID link)) in
          (if run_CellID other \<noteq> run_CellID r then [e3 link other] else [])
          @ (if opp (Infrastructure other) \<noteq> Some (run_RunID r) then [e4 link] else []))"
    for f :: "results_error list" and r get opp e1 e2 e3 e4
  proof (cases "get (Infrastructure r)")
    case (Some link)
    show ?thesis
    proof (cases "?byID link")
      case None
      then have "\<not> answers opp (map snd validated) r link"
        by (auto simp: answers_def map_of_eq_None_iff image_iff)
      then show ?thesis using that Some None by auto
    next
      case (Some e)
      then have "e \<in> set validated" "run_RunID (snd e) = link" using unique_entry [OF True] by auto
      moreover have "x = snd e" if "x \<in> set (map snd validated)" "run_RunID x = link" for x
      proof -
        obtain y where y: "y \<in> set validated" "x = snd y" using \<open>x \<in> set (map snd validated)\<close> by auto
        then have "?byID link = Some y" using \<open>run_RunID x = link\<close> unique_entry [OF True, of link y] by blast
        with Some y show ?thesis by simp
      qed
      ultimately have "answers opp (map snd validated) r link \<longleftrightarrow> link \<noteq> run_RunID r
          \<and> run_CellID (snd e) = run_CellID r \<and> opp (Infrastructure (snd e)) = Some (run_RunID r)"
        unfolding answers_def by (metis image_eqI list.set_map)
      then show ?thesis using that \<open>get (Infrastructure r) = Some link\<close> Some by (auto simp: Let_def)
    qed
  qed (use that in simp)
  have "replacement_errors ?byID [] r = [] \<longleftrightarrow>
      (\<forall>link. ReplacementRunID (Infrastructure r) = Some link \<longrightarrow> answers ReplacesRunID (map snd validated) r link)" for r
    by (rule one) (simp add: replacement_errors_def)
  moreover have "replaces_errors ?byID [] r = [] \<longleftrightarrow>
      (\<forall>link. ReplacesRunID (Infrastructure r) = Some link \<longrightarrow> answers ReplacementRunID (map snd validated) r link)" for r
    by (rule one) (simp add: replaces_errors_def)
  ultimately show ?thesis using True idx
    by (auto simp: link_errors_def links_match_def concat_eq_Nil_conv split: prod.splits)
qed

end
