(* ===== verification/Go_Marshal.thy ===== *)
theory Go_Marshal
  imports Go_Decode
begin

text \<open>
  \<open>json.MarshalIndent(v, "", "  ")\<close> as the harness writes its documents, and the round trip: what is printed is parsed back
  to the same tree (\<open>parse_printed\<close>). The round trip is proved for texts in valid UTF-8, quoting of
  quotes, control bytes, HTML-sensitive bytes and line separators included; for both layouts at once in the locale
  \<open>json_layout\<close>.
\<close>

definition newline :: "nat \<Rightarrow> string" where
  "newline d = CHR 0x0A # replicate (2 * d) (CHR '' '')"

text \<open>
  \<open>nl d\<close> stands before an element and before a closing bracket at depth \<open>d\<close>, \<open>gap\<close> behind a colon: a line break with the
  indentation and a space for \<open>MarshalIndent\<close>, nothing for \<open>Marshal\<close> and \<open>Encoder.Encode\<close>, which adds a line feed at the end.
\<close>

fun print_json :: "(nat \<Rightarrow> string) \<Rightarrow> string \<Rightarrow> nat \<Rightarrow> json \<Rightarrow> string" where
  "print_json nl gap d JNull = ''null''"
| "print_json nl gap d (JBool b) = (if b then ''true'' else ''false'')"
| "print_json nl gap d (JNumber s) = s"
| "print_json nl gap d (JString s) = json_quote s"
| "print_json nl gap d (JArray vs) =
     (if vs = [] then ''[]''
      else ''['' @ join_on (CHR '','') (map (\<lambda>v. nl (d + 1) @ print_json nl gap (d + 1) v) vs) @ nl d @ '']'')"
| "print_json nl gap d (JObject ms) =
     (if ms = [] then [CHR 0x7B, CHR 0x7D]
      else [CHR 0x7B] @ join_on (CHR '','')
             (map (\<lambda>(k, v). nl (d + 1) @ json_quote k @ '':'' @ gap @ print_json nl gap (d + 1) v) ms) @ nl d @ [CHR 0x7D])"

definition MarshalIndent :: "json \<Rightarrow> string" where
  "MarshalIndent v = print_json newline '' '' 0 v"

definition Marshal :: "json \<Rightarrow> string" where
  "Marshal v = print_json (\<lambda>_. []) [] 0 v"

definition Encode :: "json \<Rightarrow> string" where
  "Encode v = Marshal v @ [CHR 0x0A]"

section \<open>Strings\<close>

abbreviation ascii :: "string \<Rightarrow> bool" where
  "ascii s \<equiv> list_all (\<lambda>c. of_char c < (128 :: nat)) s"

lemma unquote_u00:
  assumes "of_char c < (128 :: nat)"
  shows "unquote (CHR 0x5C # ''u00'' @ hex_digit (of_char c div 16) # hex_digit (of_char c mod 16) # t)
    = prepend [c] (unquote t)"
proof -
  have g: "getu4 (CHR ''0'' # CHR ''0'' # hex_digit (of_char c div 16) # hex_digit (of_char c mod 16) # t)
      = Some (of_char c)"
  proof -
    have "hex_value (CHR ''0'') = Some 0" by (simp add: hex_value_def)
    moreover have "of_char c div 16 < (16 :: nat)" "of_char c mod 16 < (16 :: nat)" using assms by simp_all
    ultimately show ?thesis by (simp add: getu4_def)
  qed
  have "EncodeRune (of_char c) = [c]" "\<not> IsSurrogate (of_char c)"
    using assms by (simp_all add: EncodeRune_def IsSurrogate_def)
  then show ?thesis using g by (simp add: unquote.simps(2) [of "CHR 0x5C"] escape_char_def)
qed

lemma unquote_quote_byte:
  assumes "of_char c < (128 :: nat)"
  shows "unquote (quote_byte c @ t) = prepend [c] (unquote t)"
proof (cases "html_safe c")
  case True
  then have p: "\<not> c < CHR '' ''" "c \<noteq> CHR 0x22" "c \<noteq> CHR 0x5C" by (auto simp: html_safe_def plain_def)
  have "DecodeRune (c # t) = (of_char c, 1)" "EncodeRune (of_char c) = [c]"
    using assms by (simp_all add: DecodeRune_ascii EncodeRune_def)
  then show ?thesis using True p by (simp add: quote_byte_def unquote.simps(2) [of c])
next
  case False
  show ?thesis
  proof (cases "c \<in> {CHR 0x22, CHR 0x5C, CHR 0x08, CHR 0x0C, CHR 0x0A, CHR 0x0D, CHR 0x09}")
    case True
    then show ?thesis using False
      by (auto simp: quote_byte_def unquote.simps(2) [of "CHR 0x5C"] escape_char_def html_safe_def plain_def)
  next
    case other: False
    then have "quote_byte c = CHR 0x5C # ''u00'' @ [hex_digit (of_char c div 16), hex_digit (of_char c mod 16)]"
      using False by (simp add: quote_byte_def)
    then show ?thesis using unquote_u00 [OF assms, of t] by simp
  qed
qed

text \<open>
  Valid UTF-8: the text is the encoding of its code points. A byte that starts no code point is decoded to the
  replacement character, whose encoding has three bytes, not one.
\<close>

function utf8 :: "string \<Rightarrow> bool" where
  "utf8 s =
     (if s = [] then True
      else EncodeRune (fst (DecodeRune s)) = take (snd (DecodeRune s)) s \<and> utf8 (drop (snd (DecodeRune s)) s))"
  by pat_completeness auto
termination
proof (relation "measure length", goal_cases)
  case (2 s)
  then show ?case using DecodeRune_size_bounds [of s] by (cases s) auto
qed simp

declare utf8.simps [simp del]

lemma utf8_Nil [simp]: "utf8 []"
  by (simp add: utf8.simps)

lemma utf8_ascii_Cons: "of_char c < (128 :: nat) \<Longrightarrow> utf8 (c # s) \<longleftrightarrow> utf8 s"
  by (simp add: utf8.simps [of "c # s"] DecodeRune_ascii EncodeRune_def)

lemma ascii_utf8 [simp]: "ascii s \<Longrightarrow> utf8 s"
  by (induction s) (simp_all add: utf8_ascii_Cons)

lemma DecodeRune_prefix:
  assumes "s \<noteq> []" "EncodeRune (fst (DecodeRune s)) = take (snd (DecodeRune s)) s"
  shows "DecodeRune (take (snd (DecodeRune s)) s @ t) = DecodeRune s"
proof (cases "DecodeRune s = (RuneError, 1)")
  case True
  then have "length (EncodeRune RuneError) = length (take 1 s)" using assms(2) by simp
  then show ?thesis using assms(1) by (simp add: EncodeRune_def RuneError_def)
next
  case False
  show ?thesis
  proof (cases "byte_at s 0 < 128")
    case True
    then show ?thesis using assms(1) by (cases s) (simp_all add: DecodeRune_def byte_at_def)
  next
    case multi: False
    obtain sz lo hi where f: "utf8_first (byte_at s 0) = Some (sz, lo, hi)"
      using False multi assms(1) by (cases "utf8_first (byte_at s 0)") (auto simp: DecodeRune_def)
    have sz: "2 \<le> sz" "sz \<le> 4" using utf8_first_Some [OF f] by auto
    have len: "sz \<le> length s" using False multi f assms(1) by (auto simp: DecodeRune_def split: if_splits)
    have size: "snd (DecodeRune s) = sz"
      using False multi f assms(1) sz by (auto simp: DecodeRune_def split: if_splits)
    have at: "byte_at (take sz s @ t) i = byte_at s i" if "i < sz" for i
      using that len by (simp add: byte_at_def nth_append)
    have "take sz s @ t \<noteq> []" using sz len by auto
    then show ?thesis unfolding size
      using multi f sz len at False assms(1) by (auto simp: DecodeRune_def)
  qed
qed

lemma unquote_quoted: "utf8 s \<Longrightarrow> unquote (quote_body s @ CHR 0x22 # t) = Some (s, t)"
proof (induction s rule: utf8.induct)
  case (1 s)
  show ?case
  proof (cases s)
    case Nil
    then show ?thesis by (simp add: quote_body.simps unquote.simps)
  next
    case (Cons c u)
    let ?r = "fst (DecodeRune s)" and ?n = "snd (DecodeRune s)"
    have enc: "EncodeRune ?r = take ?n s" and rest: "utf8 (drop ?n s)"
      using 1(2) Cons utf8.simps [of s] by simp_all
    have ih: "unquote (quote_body (drop ?n s) @ CHR 0x22 # t) = Some (drop ?n s, t)" using 1(1) Cons rest by simp
    show ?thesis
    proof (cases "of_char c < (128 :: nat)")
      case True
      then have "?n = 1" using Cons by (simp add: DecodeRune_ascii)
      then have "unquote (quote_body u @ CHR 0x22 # t) = Some (u, t)" using ih Cons by simp
      moreover have "quote_body s = quote_byte c @ quote_body u" using True Cons by (simp add: quote_body.simps [of "c # u"])
      ultimately show ?thesis
        using True Cons unquote_quote_byte [of c "quote_body u @ CHR 0x22 # t"] by (simp add: prepend_def)
    next
      case False
      have valid: "\<not> (?r = RuneError \<and> ?n = 1)"
      proof
        assume "?r = RuneError \<and> ?n = 1"
        then have "length (EncodeRune RuneError) = length (take 1 s)" using enc by simp
        then show False using Cons by (simp add: EncodeRune_def RuneError_def)
      qed
      have split: "take ?n s @ drop ?n s = s" by simp
      have body: "quote_body s = (if ?r = RuneError \<and> ?n = 1 then CHR 0x5C # ''ufffd''
          else if ?r = 8232 then CHR 0x5C # ''u2028'' else if ?r = 8233 then CHR 0x5C # ''u2029'' else take ?n s)
        @ quote_body (drop ?n s)"
        using False unfolding quote_body.simps [of s] by (simp add: Cons case_prod_beta)
      consider (sep) "?r = 8232 \<or> ?r = 8233" | (copied) "?r \<noteq> 8232" "?r \<noteq> 8233" by blast
      then show ?thesis
      proof cases
        case sep
        then have "quote_body s = CHR 0x5C # (if ?r = 8232 then ''u2028'' else ''u2029'') @ quote_body (drop ?n s)"
          unfolding body using valid by (auto simp: RuneError_def)
        moreover have "getu4 (''2028'' @ x) = Some 8232" "getu4 (''2029'' @ x) = Some 8233" for x
          by (simp_all add: getu4_def hex_value_def)
        moreover have "\<not> IsSurrogate 8232" "\<not> IsSurrogate 8233" by (simp_all add: IsSurrogate_def)
        ultimately have "unquote (quote_body s @ CHR 0x22 # t) = prepend (EncodeRune ?r) (unquote (quote_body (drop ?n s) @ CHR 0x22 # t))"
          using sep by (auto simp: unquote.simps(2) [of "CHR 0x5C"] escape_char_def)
        then show ?thesis using ih enc split by (simp add: prepend_def)
      next
        case copied
        then have q: "quote_body s = take ?n s @ quote_body (drop ?n s)"
          unfolding body using valid by (simp only: if_False)
        let ?x = "take ?n s @ quote_body (drop ?n s) @ CHR 0x22 # t"
        have d: "DecodeRune ?x = DecodeRune s" by (rule DecodeRune_prefix) (use Cons enc in simp_all)
        have n: "0 < ?n" "?n \<le> length s" using DecodeRune_size_bounds [of s] Cons by auto
        then obtain u' where x: "?x = c # u'" using Cons by (cases ?n) auto
        have c: "c \<noteq> CHR 0x22" "c \<noteq> CHR 0x5C" "\<not> c < CHR '' ''" using False by (auto simp: less_char_def)
        have "unquote ?x = prepend (EncodeRune ?r) (unquote (drop ?n ?x))"
          unfolding x unquote.simps using c d [unfolded x] by simp
        also have "drop ?n ?x = quote_body (drop ?n s) @ CHR 0x22 # t" using n by simp
        finally show ?thesis using ih enc split q by (simp add: prepend_def)
      qed
    qed
  qed
qed

section \<open>Numbers\<close>

text \<open>An integer literal, and a continuation that does not extend it.\<close>

definition int_literal :: "string \<Rightarrow> bool" where
  "int_literal s \<longleftrightarrow> (\<exists>n. s = FormatInt n)"

definition ends_value :: "string \<Rightarrow> bool" where
  "ends_value t \<longleftrightarrow> t = [] \<or> hd t \<in> {CHR '','', CHR 0x0A, CHR '']'', CHR 0x7D}"

lemma is_dec_is_digit: "is_dec c \<longleftrightarrow> is_digit c"
  by (simp add: is_dec_def is_digit_def)

lemma dec_zero_head: "hd (dec n) = CHR ''0'' \<Longrightarrow> dec n = ''0''"
  using hd_dec [of n] by (cases "n = 0") (simp_all add: dec.simps digit_char_def)

lemma scan_dec: "ends_value t \<Longrightarrow> scan_int (dec n @ t) = Some (dec n, t)"
proof -
  assume t: "ends_value t"
  have tw: "takeWhile is_dec (dec n @ t) = dec n"
  proof -
    have "\<forall>c \<in> set (dec n). is_dec c" using dec_digits is_dec_is_digit by blast
    moreover have "takeWhile is_dec t = []" using t by (cases t) (auto simp: ends_value_def is_dec_def)
    ultimately show ?thesis by (simp add: takeWhile_append2)
  qed
  obtain c r where c: "dec n = c # r" by (cases "dec n") auto
  show ?thesis
  proof (cases "c = CHR ''0''")
    case True
    then have "dec n = ''0''" using dec_zero_head [of n] c by simp
    then show ?thesis by (simp add: scan_int_def)
  next
    case False
    then show ?thesis using tw c by (simp add: scan_int_def scan_digits_def Let_def)
  qed
qed

lemma scan_frac_exp: "ends_value t \<Longrightarrow> scan_frac t = Some ([], t) \<and> scan_exp t = Some ([], t)"
  by (cases t) (auto simp: ends_value_def scan_frac_def scan_exp_def)

lemma scan_FormatInt: "ends_value t \<Longrightarrow> scan_literal (FormatInt n @ t) = Some (JNumber (FormatInt n), t)"
proof -
  assume t: "ends_value t"
  have no: "c \<noteq> CHR ''-''" "c \<noteq> CHR ''n''" "c \<noteq> CHR ''t''" "c \<noteq> CHR ''f''" if "is_digit c" for c
    using that by (auto simp: is_digit_def)
  note s = scan_dec [OF t] scan_frac_exp [OF t]
  show ?thesis
  proof (cases "n < 0")
    case True
    then show ?thesis using s by (simp add: FormatInt_def scan_literal_def scan_number_def HasPrefix_iff)
  next
    case False
    obtain c r where c: "dec (nat n) = c # r" by (cases "dec (nat n)") auto
    then have "is_digit c" using hd_dec_digit [of "nat n"] by simp
    note c' = no [OF this]
    have "scan_number (dec (nat n) @ t) = Some (dec (nat n), t)"
      using s(1) [of "nat n"] s(2) c c'(1) by (simp add: scan_number_def)
    then show ?thesis using False c c' by (simp add: FormatInt_def scan_literal_def HasPrefix_iff)
  qed
qed

section \<open>Round trip\<close>

text \<open>A tree that the programs print: texts in valid UTF-8, integer numbers, not nested beyond the parser's limit.\<close>

fun printable :: "nat \<Rightarrow> json \<Rightarrow> bool" where
  "printable d (JNumber s) \<longleftrightarrow> int_literal s"
| "printable d (JString s) \<longleftrightarrow> utf8 s"
| "printable d (JArray vs) \<longleftrightarrow> d < max_depth \<and> (\<forall>v \<in> set vs. printable (d + 1) v)"
| "printable d (JObject ms) \<longleftrightarrow> d < max_depth \<and> (\<forall>(k, v) \<in> set ms. utf8 k \<and> printable (d + 1) v)"
| "printable d JNull \<longleftrightarrow> True"
| "printable d (JBool b) \<longleftrightarrow> True"

lemma skip_spaces: "list_all is_ws p \<Longrightarrow> skip_ws (p @ s) = skip_ws s"
  by (induction p) (simp_all add: skip_ws_def)

lemma newline_spaces: "list_all is_ws (newline d)"
  by (simp add: newline_def is_ws_def list_all_iff)

lemma ws_facts [simp]:
  "\<not> is_ws (CHR 0x22)" "\<not> is_ws (CHR 0x7B)" "\<not> is_ws (CHR 0x7D)" "\<not> is_ws (CHR '':'')" "\<not> is_ws (CHR '','')"
  "\<not> is_ws (CHR ''['')" "\<not> is_ws (CHR '']'')"
  by (simp_all add: is_ws_def)

lemma ends_value_simps [simp]: "ends_value []" "ends_value (CHR '','' # t)"
  by (simp_all add: ends_value_def)

text \<open>One printed value is parsed back with any amount of fuel above a bound.\<close>

definition reads_back :: "(nat \<Rightarrow> string) \<Rightarrow> string \<Rightarrow> nat \<Rightarrow> nat \<Rightarrow> json \<Rightarrow> bool" where
  "reads_back nl gap depth d v \<longleftrightarrow> (\<exists>bound. \<forall>fuel \<ge> bound. \<forall>t. ends_value t \<longrightarrow>
     parse_value fuel depth (print_json nl gap d v @ t) = Some (v, t))"

abbreviation print_member :: "(nat \<Rightarrow> string) \<Rightarrow> string \<Rightarrow> nat \<Rightarrow> string \<times> json \<Rightarrow> string" where
  "print_member nl gap d \<equiv> \<lambda>(k, v). nl d @ json_quote k @ '':'' @ gap @ print_json nl gap d v"

section \<open>Layouts\<close>

locale json_layout =
  fixes nl :: "nat \<Rightarrow> string" and gap :: string
  assumes nl_spaces: "list_all is_ws (nl d)" and nl_head: "nl d = [] \<or> hd (nl d) = CHR 0x0A" and gap_spaces: "list_all is_ws gap"
begin

lemma skip_layout [simp]: "skip_ws (nl d @ s) = skip_ws s" "skip_ws (gap @ s) = skip_ws s"
  by (simp_all add: skip_spaces nl_spaces gap_spaces)

lemma parse_value_layout [simp]:
  "parse_value fuel depth (nl d @ s) = parse_value fuel depth s" "parse_value fuel depth (gap @ s) = parse_value fuel depth s"
  by (cases fuel; simp)+

lemma parse_members_layout [simp]: "parse_members fuel depth (nl d @ s) = parse_members fuel depth s"
  by (cases fuel) simp_all

lemma ends_layout [simp]: "ends_value (nl d @ CHR '']'' # t)" "ends_value (nl d @ CHR 0x7D # t)"
  using nl_head [of d] by (cases "nl d"; simp add: ends_value_def)+

lemma reads_backE:
  assumes "reads_back nl gap depth d v"
  obtains b where "\<And>fuel t. b \<le> fuel \<Longrightarrow> ends_value t \<Longrightarrow> parse_value fuel depth (print_json nl gap d v @ t) = Some (v, t)"
  using assms unfolding reads_back_def by blast

lemma parse_elements_printed:
  assumes "vs \<noteq> []" "\<forall>v \<in> set vs. reads_back nl gap depth d v"
  shows "\<exists>bound. \<forall>fuel \<ge> bound. \<forall>t. parse_elements fuel depth
      (join_on (CHR '','') (map (\<lambda>v. nl d @ print_json nl gap d v) vs) @ nl e @ CHR '']'' # t) = Some (vs, t)"
  using assms
proof (induction vs)
  case (Cons v vs)
  from Cons.prems obtain b where b: "parse_value fuel depth (print_json nl gap d v @ t) = Some (v, t)"
    if "b \<le> fuel" "ends_value t" for fuel t by (metis reads_backE list.set_intros(1))
  show ?case
  proof (cases vs)
    case Nil
    have "parse_elements fuel depth (nl d @ print_json nl gap d v @ nl e @ CHR '']'' # t) = Some ([v], t)"
      if f: "fuel \<ge> Suc b" for fuel t
    proof -
      obtain n where "fuel = Suc n" "n \<ge> b" using f by (cases fuel) auto
      then show ?thesis using b [of n "nl e @ CHR '']'' # t"] by simp
    qed
    then show ?thesis using Nil by (intro exI [of _ "Suc b"]) simp
  next
    case (Cons w ws)
    obtain b' where b': "parse_elements fuel depth
        (join_on (CHR '','') (map (\<lambda>v. nl d @ print_json nl gap d v) vs) @ nl e @ CHR '']'' # t) = Some (vs, t)"
      if "b' \<le> fuel" for fuel t using Cons.IH Cons.prems \<open>vs = w # ws\<close> by (metis list.distinct(1) list.set_intros(2))
    let ?rest = "join_on (CHR '','') (map (\<lambda>v. nl d @ print_json nl gap d v) vs) @ nl e"
    have "parse_elements fuel depth (nl d @ print_json nl gap d v @ CHR '','' # ?rest @ CHR '']'' # t) = Some (v # vs, t)"
      if f: "fuel \<ge> Suc (max b b')" for fuel t
    proof -
      obtain n where "fuel = Suc n" "n \<ge> b" "n \<ge> b'" using f by (cases fuel) auto
      then show ?thesis using b [of n "CHR '','' # ?rest @ CHR '']'' # t"] b' [of n t] by simp
    qed
    then show ?thesis using \<open>vs = w # ws\<close> by (intro exI [of _ "Suc (max b b')"]) simp
  qed
qed simp

lemma parse_member_printed:
  assumes "utf8 k" "parse_value n depth (print_json nl gap d v @ t) = Some (v, t)" "skip_ws t = c # u" "c = CHR '','' \<or> c = CHR 0x7D"
  shows "parse_members (Suc n) depth (print_member nl gap d (k, v) @ t)
    = (if c = CHR '','' then map_option (\<lambda>(ms, z). ((k, v) # ms, z)) (parse_members n depth u) else Some ([(k, v)], u))"
  using assms unquote_quoted [OF assms(1), of "CHR '':'' # gap @ print_json nl gap d v @ t"] by (auto simp: json_quote_def)

lemma parse_members_printed:
  assumes "ms \<noteq> []" "\<forall>(k, v) \<in> set ms. utf8 k \<and> reads_back nl gap depth d v"
  shows "\<exists>bound. \<forall>fuel \<ge> bound. \<forall>t. parse_members fuel depth
      (join_on (CHR '','') (map (print_member nl gap d) ms) @ nl e @ CHR 0x7D # t) = Some (ms, t)"
  using assms
proof (induction ms)
  case (Cons m ms)
  obtain k v where m: "m = (k, v)" by fastforce
  have k: "utf8 k" and "reads_back nl gap depth d v" using Cons.prems m by auto
  then obtain b where b: "parse_value fuel depth (print_json nl gap d v @ t) = Some (v, t)"
    if "b \<le> fuel" "ends_value t" for fuel t by (metis reads_backE)
  show ?case
  proof (cases ms)
    case Nil
    have "parse_members fuel depth (print_member nl gap d m @ nl e @ CHR 0x7D # t) = Some ([m], t)"
      if f: "fuel \<ge> Suc b" for fuel t
    proof -
      obtain n where n: "fuel = Suc n" "n \<ge> b" using f by (cases fuel) auto
      show ?thesis
        using parse_member_printed [OF k b [OF n(2), of "nl e @ CHR 0x7D # t"], of "CHR 0x7D" t] n(1) m by simp
    qed
    then show ?thesis using Nil by (intro exI [of _ "Suc b"]) simp
  next
    case (Cons w ws)
    obtain b' where b': "parse_members fuel depth
        (join_on (CHR '','') (map (print_member nl gap d) ms) @ nl e @ CHR 0x7D # t) = Some (ms, t)"
      if "b' \<le> fuel" for fuel t using Cons.IH Cons.prems \<open>ms = w # ws\<close> by (metis list.distinct(1) list.set_intros(2))
    let ?rest = "join_on (CHR '','') (map (print_member nl gap d) ms) @ nl e"
    have "parse_members fuel depth (print_member nl gap d m @ CHR '','' # ?rest @ CHR 0x7D # t) = Some (m # ms, t)"
      if f: "fuel \<ge> Suc (max b b')" for fuel t
    proof -
      obtain n where n: "fuel = Suc n" "n \<ge> b" "n \<ge> b'" using f by (cases fuel) auto
      show ?thesis
        using parse_member_printed [OF k b [OF n(2), of "CHR '','' # ?rest @ CHR 0x7D # t"], of "CHR '',''" "?rest @ CHR 0x7D # t"]
          n(1) m b' [OF n(3), of t] by simp
    qed
    then show ?thesis using \<open>ms = w # ws\<close> by (intro exI [of _ "Suc (max b b')"]) simp
  qed
qed simp

lemma printed_scalar:
  assumes "\<And>n t. ends_value t \<Longrightarrow> parse_value (Suc n) depth (print_json nl gap d v @ t) = Some (v, t)"
  shows "reads_back nl gap depth d v"
  unfolding reads_back_def
proof (intro exI [of _ 1] allI impI)
  fix fuel t assume "fuel \<ge> (1 :: nat)" "ends_value t"
  then obtain n where "fuel = Suc n" by (cases fuel) auto
  then show "parse_value fuel depth (print_json nl gap d v @ t) = Some (v, t)" using assms \<open>ends_value t\<close> by blast
qed

lemma join_layout_head:
  assumes "xs \<noteq> []" "\<And>x. x \<in> set xs \<Longrightarrow> \<exists>y. f x = nl d @ y"
  shows "\<exists>y. join_on (CHR '','') (map f xs) = nl d @ y"
proof (cases xs)
  case (Cons x ys)
  then obtain y where "f x = nl d @ y" using assms(2) by auto
  then show ?thesis using Cons by (cases ys) auto
qed (use assms in simp)

lemma parse_elements_head: "parse_elements fuel depth s = Some r \<Longrightarrow> \<not> HasPrefix (skip_ws s) '']''"
proof
  assume r: "parse_elements fuel depth s = Some r" and p: "HasPrefix (skip_ws s) '']''"
  from p obtain t where t: "skip_ws s = CHR '']'' # t" by (auto simp: HasPrefix_iff)
  obtain n where n: "fuel = Suc n" using r by (cases fuel) auto
  have "parse_value n depth s = None"
    by (cases n) (simp_all add: t scan_literal_def HasPrefix_iff scan_number_def scan_int_def scan_digits_def is_dec_def)
  then show False using r n by simp
qed

lemma parse_members_head: "parse_members fuel depth s = Some r \<Longrightarrow> \<not> HasPrefix (skip_ws s) [CHR 0x7D]"
  by (cases fuel) (auto simp: HasPrefix_iff split: list.splits if_splits)

lemma printable_reads_back: "printable depth v \<Longrightarrow> reads_back nl gap depth d v"
proof (induction v arbitrary: depth d)
  case (JNumber s)
  then obtain n where n: "s = FormatInt n" by (auto simp: int_literal_def)
  show ?case
  proof (rule printed_scalar)
    fix m t assume t: "ends_value t"
    obtain c r where c: "FormatInt n = c # r" "is_digit c \<or> c = CHR ''-''"
      using hd_dec_digit [of "nat n"] by (cases "dec (nat n)"; cases "n < 0") (auto simp: FormatInt_def)
    then have "\<not> is_ws c" "c \<noteq> CHR 0x22" "c \<noteq> CHR ''[''" "c \<noteq> CHR 0x7B" by (auto simp: is_digit_def is_ws_def)
    then show "parse_value (Suc m) depth (print_json nl gap d (JNumber s) @ t) = Some (JNumber s, t)"
      using scan_FormatInt [OF t, of n] n c(1) by simp
  qed
next
  case (JString s)
  then show ?case using unquote_quoted by (intro printed_scalar) (simp add: json_quote_def)
next
  case (JArray vs)
  show ?case
  proof (cases "vs = []")
    case True
    then show ?thesis using JArray.prems by (intro printed_scalar) (simp add: HasPrefix_iff)
  next
    case False
    let ?body = "join_on (CHR '','') (map (\<lambda>v. nl (d + 1) @ print_json nl gap (d + 1) v) vs) @ nl d"
    have "\<forall>v \<in> set vs. reads_back nl gap (depth + 1) (d + 1) v" using JArray by simp
    then obtain b where b: "parse_elements fuel (depth + 1) (?body @ CHR '']'' # t) = Some (vs, t)" if "b \<le> fuel" for fuel t
      using parse_elements_printed [OF False, of "depth + 1" "d + 1" d] by auto
    have "parse_value fuel depth (print_json nl gap d (JArray vs) @ t) = Some (JArray vs, t)" if f: "Suc b \<le> fuel" for fuel t
    proof -
      obtain n where n: "fuel = Suc n" "b \<le> n" using f by (cases fuel) auto
      show ?thesis using b [OF n(2), of t] parse_elements_head [OF b [OF n(2), of t]] n(1) False JArray.prems by simp
    qed
    then show ?thesis unfolding reads_back_def by blast
  qed
next
  case (JObject ms)
  show ?case
  proof (cases "ms = []")
    case True
    then show ?thesis using JObject.prems by (intro printed_scalar) (simp add: HasPrefix_iff)
  next
    case False
    let ?body = "join_on (CHR '','') (map (print_member nl gap (d + 1)) ms) @ nl d"
    have "\<forall>(k, v) \<in> set ms. utf8 k \<and> reads_back nl gap (depth + 1) (d + 1) v"
      using JObject by (fastforce simp: snds.simps)
    then obtain b where b: "parse_members fuel (depth + 1) (?body @ CHR 0x7D # t) = Some (ms, t)" if "b \<le> fuel" for fuel t
      using parse_members_printed [OF False, of "depth + 1" "d + 1" d] by auto
    have "parse_value fuel depth (print_json nl gap d (JObject ms) @ t) = Some (JObject ms, t)" if f: "Suc b \<le> fuel" for fuel t
    proof -
      obtain n where n: "fuel = Suc n" "b \<le> n" using f by (cases fuel) auto
      show ?thesis using b [OF n(2), of t] parse_members_head [OF b [OF n(2), of t]] n(1) False JObject.prems by simp
    qed
    then show ?thesis unfolding reads_back_def by blast
  qed
next
  case (JBool b)
  show ?case
    by (rule printed_scalar) (cases b; simp add: scan_literal_def HasPrefix_iff is_ws_def)
next
  case JNull
  show ?case by (rule printed_scalar) (simp add: scan_literal_def HasPrefix_iff is_ws_def)
qed

text \<open>A printed document, with or without white space behind it, is read back as the tree it was printed from.\<close>

lemma parse_value_printed_layout:
  assumes "printable 0 v" "ends_value t"
  shows "parse_value (2 * length (print_json nl gap 0 v @ t) + 1) 0 (print_json nl gap 0 v @ t) = Some (v, t)"
proof -
  let ?p = "print_json nl gap 0 v @ t"
  obtain b where b: "parse_value fuel 0 ?p = Some (v, t)" if "b \<le> fuel" for fuel
    using reads_backE [OF printable_reads_back [OF assms(1), of 0]] assms(2) by metis
  have "parse_value (2 * length ?p + 1) 0 ?p = parse_value (max b (2 * length ?p + 1)) 0 ?p"
    by (rule parse_enough_fuel(1)) simp_all
  then show ?thesis using b by simp
qed

end

interpretation indented: json_layout newline "'' ''"
  by unfold_locales (simp_all add: newline_spaces, simp_all add: newline_def is_ws_def)

interpretation compact: json_layout "\<lambda>_. []" "[]"
  by unfold_locales simp_all

lemma parse_value_printed:
  assumes "printable 0 v" "ends_value t"
  shows "parse_value (2 * length (MarshalIndent v @ t) + 1) 0 (MarshalIndent v @ t) = Some (v, t)"
  using indented.parse_value_printed_layout [OF assms] by (simp only: MarshalIndent_def)

lemma parse_printed: "printable 0 v \<Longrightarrow> ends_value t \<Longrightarrow> skip_ws t = [] \<Longrightarrow> parse_json (MarshalIndent v @ t) = Some v"
  using parse_value_printed [of v t] by (simp add: parse_json_def)

lemma parse_encoded:
  assumes "printable 0 v"
  shows "parse_json (Encode v) = Some v"
proof -
  have "skip_ws [CHR 0x0A] = []" by (simp add: skip_ws_def is_ws_def)
  then show ?thesis
    using compact.parse_value_printed_layout [OF assms, of "[CHR 0x0A]"]
    by (simp add: parse_json_def Encode_def Marshal_def ends_value_def)
qed

end
