(* ===== verification/Freeze_Main.thy ===== *)
theory Freeze_Main
  imports Freeze_Results Go_Marshal
begin

text \<open>
  \<open>harness/freezecheck/main.go\<close> and the file operations of \<open>schedule.go\<close>: the command line
  with the parser of package \<open>flag\<close>, the exclusive publication of a generated schedule
  (\<open>writeOutput\<close>), and the validation of schedule files. The output directory is a map from
  names to contents; what other processes do to it while the temporary file is written is the parameter \<open>others\<close>.
\<close>

section \<open>Publishing a file\<close>

type_synonym directory = "string \<rightharpoonup> string"

record output_env =
  stdout_ok :: bool
  stat_ok :: bool
  temp_name :: "string option"
  write_ok :: bool
  sync_ok :: bool
  chmod_ok :: bool
  close_ok :: bool
  others :: "directory \<Rightarrow> directory"
  link_ok :: bool
  dir_sync_ok :: bool

datatype output_error =
    StdoutFailed | StatFailed | AlreadyExists string | CreateTempFailed | WriteFailed | SyncFailed
  | ChmodFailed | CloseFailed | LinkFailed | DirSyncFailed

text \<open>The deferred \<open>os.Remove\<close> of the temporary file runs on every path behind its creation.\<close>

definition writeOutput :: "output_env \<Rightarrow> string \<Rightarrow> string \<Rightarrow> directory \<Rightarrow> output_error option \<times> directory" where
  "writeOutput env path data d =
     (if path = ''-'' then (if stdout_ok env then None else Some StdoutFailed, d)
      else if \<not> stat_ok env then (Some StatFailed, d)
      else if d path \<noteq> None then (Some (AlreadyExists path), d)
      else case temp_name env of
        None \<Rightarrow> (Some CreateTempFailed, d)
      | Some temp \<Rightarrow>
          if \<not> write_ok env then (Some WriteFailed, d(temp := None))
          else if \<not> sync_ok env then (Some SyncFailed, d(temp := None))
          else if \<not> chmod_ok env then (Some ChmodFailed, d(temp := None))
          else if \<not> close_ok env then (Some CloseFailed, d(temp := None))
          else let d = others env (d(temp \<mapsto> data)) in
            if d path \<noteq> None then (Some (AlreadyExists path), d(temp := None))
            else if \<not> link_ok env \<or> d temp = None then (Some LinkFailed, d(temp := None))
            else (if dir_sync_ok env then None else Some DirSyncFailed,
                  (d(path := d temp))(temp := None)))"

text \<open>
  Publication is exclusive and atomic, given that \<open>os.CreateTemp\<close> picks a new name and nobody else touches that file.
  Whatever other processes do between the existence check and the link, the directory ends as they left it: nothing they put
  there is replaced or removed and no temporary file stays behind. Only where the output name is
  still free does the output appear, with the complete data, and success means that it is there.
\<close>

theorem write_output_exclusive:
  assumes "temp_name env = Some temp" "temp \<noteq> path" "d temp = None" "\<And>d. others env d temp = d temp"
    "path \<noteq> ''-''" "writeOutput env path data d = (err, d')" "seen = others env (d(temp \<mapsto> data))"
  shows "(err \<noteq> None \<and> d' = d) \<or> (err \<noteq> None \<and> d' = seen(temp := None))
     \<or> (seen path = None \<and> d' = seen(path \<mapsto> data, temp := None))"
proof (cases "stat_ok env \<and> d path = None \<and> write_ok env \<and> sync_ok env \<and> chmod_ok env \<and> close_ok env")
  case False
  have "d(temp := None) = d" using assms(3) by (rule fun_upd_idem)
  then have "err \<noteq> None \<and> d' = d"
    using False assms(1,5,6) by (simp add: writeOutput_def split: if_split_asm) blast+
  then show ?thesis by blast
next
  case True
  have "seen temp = Some data" using assms(4,7) by simp
  then have "writeOutput env path data d =
      (if seen path \<noteq> None then (Some (AlreadyExists path), seen(temp := None))
       else if \<not> link_ok env then (Some LinkFailed, seen(temp := None))
       else (if dir_sync_ok env then None else Some DirSyncFailed, seen(path \<mapsto> data, temp := None)))"
    using True assms(1,5,7) by (simp add: writeOutput_def Let_def)
  then show ?thesis using assms(6) by (simp split: if_split_asm)
qed

definition racing_env :: output_env where
  "racing_env = \<lparr>stdout_ok = True, stat_ok = True, temp_name = Some ''t'', write_ok = True, sync_ok = True,
     chmod_ok = True, close_ok = True, others = (\<lambda>d. d(''o'' \<mapsto> ''x'')), link_ok = True, dir_sync_ok = True\<rparr>"

theorem write_output_exclusive_witness:
  "\<exists>err d'. writeOutput racing_env ''o'' ''y'' Map.empty = (err, d') \<and> err \<noteq> None \<and> d' ''o'' = Some ''x''"
proof -
  obtain err d' where w: "writeOutput racing_env ''o'' ''y'' Map.empty = (err, d')" by fastforce
  have "(err \<noteq> None \<and> d' = Map.empty) \<or> (err \<noteq> None \<and> d' = [''t'' \<mapsto> ''y'', ''o'' \<mapsto> ''x''](''t'' := None))
     \<or> ([''t'' \<mapsto> ''y'', ''o'' \<mapsto> ''x''] ''o'' = None \<and> d' = [''t'' \<mapsto> ''y'', ''o'' \<mapsto> ''x'', ''o'' \<mapsto> ''y''](''t'' := None))"
    by (rule write_output_exclusive [OF _ _ _ _ _ w]) (simp_all add: racing_env_def)
  moreover have "d' \<noteq> Map.empty" using w by (auto simp: writeOutput_def racing_env_def dest: fun_cong [of _ _ "''o''"])
  ultimately show ?thesis using w by auto
qed

section \<open>Flags\<close>

datatype flag_error = BadFlagSyntax string | UndefinedFlag string | HelpRequested | NeedsArgument string

text \<open>
  \<open>FlagSet.Parse\<close> for string flags: \<open>-name value\<close>, \<open>-name=value\<close>, one or two dashes; the first argument that is
  no flag, or \<open>--\<close>, ends the flags. The result: the values set, the last one first, and the remaining arguments.
\<close>

definition split_flag :: "string \<Rightarrow> string \<times> string option" where
  "split_flag name =
     (let head = take 1 name @ takeWhile (\<lambda>c. c \<noteq> CHR ''='') (drop 1 name)
      in if length head < length name then (head, Some (drop (length head + 1) name)) else (name, None))"

function flag_Parse :: "string list \<Rightarrow> string list \<Rightarrow> string_map \<Rightarrow> flag_error + (string_map \<times> string list)" where
  "flag_Parse names [] actual = Inr (actual, [])"
| "flag_Parse names (s # args) actual =
     (if length s < 2 \<or> hd s \<noteq> CHR ''-'' then Inr (actual, s # args)
      else if s = ''--'' then Inr (actual, args)
      else let name = (if s ! 1 = CHR ''-'' then drop 2 s else drop 1 s) in
        if name = '''' \<or> hd name = CHR ''-'' \<or> hd name = CHR ''='' then Inl (BadFlagSyntax s)
        else let (flag, attached) = split_flag name in
          if flag \<notin> set names then
            (if flag = ''help'' \<or> flag = ''h'' then Inl HelpRequested else Inl (UndefinedFlag flag))
          else case attached of
            Some v \<Rightarrow> flag_Parse names args ((flag, v) # actual)
          | None \<Rightarrow>
              (case args of
                 [] \<Rightarrow> Inl (NeedsArgument flag)
               | v # rest \<Rightarrow> flag_Parse names rest ((flag, v) # actual)))"
  by pat_completeness auto
termination
  by (relation "measure (\<lambda>(names, args, actual). length args)") auto

datatype cli_error =
    NoSubcommand
  | FlagError flag_error
  | UnexpectedPositional "string list"
  | MissingFlags string
  | UnknownSubcommand string
  | ConfigFailed "read_error + config_error list"
  | RunFailed "run_fatal + run_error list"
  | ResultsUnreadable
  | ResultsFailed "results_error list"
  | ScheduleFailed schedule_error
  | ScheduleFileUnreadable read_error
  | ScheduleSchemaFailed schema_error
  | OutputFailed output_error

definition parseFlags :: "string list \<Rightarrow> string list \<Rightarrow> cli_error + string_map" where
  "parseFlags names args =
     (case flag_Parse names args [] of
        Inl err \<Rightarrow> Inl (FlagError err)
      | Inr (actual, rest) \<Rightarrow> if length rest \<noteq> 0 then Inl (UnexpectedPositional rest) else Inr actual)"

section \<open>Schedule files\<close>

text \<open>The document as \<open>json.MarshalIndent\<close> sees it: the fields in the order of the struct.\<close>

definition run_json :: "scheduleRun \<Rightarrow> json" where
  "run_json r = JObject
     [(''ordinal'', JNumber (FormatInt (Ordinal r))), (''runId'', JString (RunID r)),
      (''cellId'', JString (CellID r)), (''repeatIndex'', JNumber (FormatInt (RepeatIndex r)))]"

definition schedule_json :: "schedule \<Rightarrow> json" where
  "schedule_json s = JObject
     [(''$schema'', JString (Schema s)), (''schemaVersion'', JNumber (FormatInt (SchemaVersion s))),
      (''status'', JString (Status s)), (''strategy'', JString (Strategy s)), (''algorithm'', JString (Algorithm s)),
      (''seed'', JString (Seed s)),
      (''generatedAt'', case GeneratedAt s of None \<Rightarrow> JNull | Some t \<Rightarrow> JString t),
      (''configRevision'', JString (schedule_ConfigRevision s)), (''runs'', JArray (map run_json (Runs s)))]"

text \<open>The bytes \<open>generateSchedule\<close> returns.\<close>

definition schedule_data :: "schedule \<Rightarrow> string" where
  "schedule_data s = MarshalIndent (schedule_json s) @ [CHR 0x0A]"

definition read_config :: "filesystem \<Rightarrow> string \<Rightarrow> string + experimentConfig" where
  "read_config fs configPath =
     (case readJSON fs configPath dec_config no_config of (_, Inl err) \<Rightarrow> Inl configPath | (config, Inr _) \<Rightarrow> Inr config)"

definition validateScheduleFiles ::
  "'doc schema_library \<Rightarrow> filesystem \<Rightarrow> string \<Rightarrow> string \<Rightarrow> string \<Rightarrow> cli_error option" where
  "validateScheduleFiles lib fs configPath schedulePath phase =
     (case readJSON fs configPath dec_config no_config of
        (_, Inl err) \<Rightarrow> Some (ScheduleFileUnreadable err)
      | (config, Inr _) \<Rightarrow>
     (case readJSON fs schedulePath dec_schedule no_schedule of
        (_, Inl err) \<Rightarrow> Some (ScheduleFileUnreadable err)
      | (document, Inr data) \<Rightarrow>
          (let root = Dir (Dir configPath) in
           case validateSchema lib fs (Join (Join root ''schemas'') ''schedule.schema.json'') data False of
             Some err \<Rightarrow> Some (ScheduleSchemaFailed err)
           | None \<Rightarrow> map_option ScheduleFailed (validateScheduleSemantic config document phase))))"

section \<open>The command line\<close>

definition generate_cli ::
  "'doc schema_library \<Rightarrow> filesystem \<Rightarrow> output_env \<Rightarrow> directory \<Rightarrow> string_map \<Rightarrow> (cli_error option \<times> directory) option" where
  "generate_cli lib fs env d actual =
     (let configPath = lookup actual ''config''; phase = lookup actual ''phase''; seed = lookup actual ''seed'';
          revision = lookup actual ''config-revision''; generatedAt = lookup actual ''generated-at'';
          output = lookup actual ''output''
      in if configPath = '''' \<or> phase = '''' \<or> seed = '''' \<or> revision = '''' \<or> generatedAt = '''' \<or> output = ''''
         then Some (Some (MissingFlags ''schedule generate''), d)
         else map_option (\<lambda>r. case r of
             Inl err \<Rightarrow> (Some (ScheduleFailed err), d)
           | Inr document \<Rightarrow>
               (let root = Dir (Dir configPath) in
                case validateSchema lib fs (Join (Join root ''schemas'') ''schedule.schema.json'') (schedule_data document) False of
                  Some err \<Rightarrow> (Some (ScheduleSchemaFailed err), d)
                | None \<Rightarrow> map_prod (map_option OutputFailed) id (writeOutput env output (schedule_data document) d)))
           (generateSchedule (read_config fs configPath) phase seed revision generatedAt))"

definition scheduleCLI ::
  "'doc schema_library \<Rightarrow> filesystem \<Rightarrow> output_env \<Rightarrow> directory \<Rightarrow> string list \<Rightarrow> (cli_error option \<times> directory) option" where
  "scheduleCLI lib fs env d args =
     (case args of
        [] \<Rightarrow> Some (Some (MissingFlags ''schedule''), d)
      | command # rest \<Rightarrow>
          if command = ''generate'' then
            (case parseFlags [''config'', ''phase'', ''seed'', ''config-revision'', ''generated-at'', ''output''] rest of
               Inl err \<Rightarrow> Some (Some err, d)
             | Inr actual \<Rightarrow> generate_cli lib fs env d actual)
          else if command = ''validate'' then
            (case parseFlags [''config'', ''schedule'', ''phase''] rest of
               Inl err \<Rightarrow> Some (Some err, d)
             | Inr actual \<Rightarrow>
                 (let configPath = lookup actual ''config''; schedulePath = lookup actual ''schedule'';
                      phase = lookup actual ''phase''
                  in if configPath = '''' \<or> schedulePath = '''' \<or> phase = ''''
                     then Some (Some (MissingFlags ''schedule validate''), d)
                     else Some (validateScheduleFiles lib fs configPath schedulePath phase, d)))
          else Some (Some (UnknownSubcommand command), d))"

definition diagnosed :: "('e + 'a list) \<Rightarrow> (('e + 'a list) \<Rightarrow> cli_error) \<Rightarrow> cli_error option" where
  "diagnosed outcome f = (if outcome = Inr [] then None else Some (f outcome))"

definition runCLI ::
  "'doc schema_library \<Rightarrow> git \<Rightarrow> filesystem \<Rightarrow> output_env \<Rightarrow> directory \<Rightarrow> string list \<Rightarrow> (cli_error option \<times> directory) option" where
  "runCLI lib g fs env d args =
     (case args of
        [] \<Rightarrow> Some (Some NoSubcommand, d)
      | command # rest \<Rightarrow>
          if command = ''config'' then
            (case parseFlags [''root''] rest of
               Inl err \<Rightarrow> Some (Some err, d)
             | Inr actual \<Rightarrow>
                 if lookup actual ''root'' = '''' then Some (Some (MissingFlags ''config''), d)
                 else Some (diagnosed (validateConfig lib g fs (lookup actual ''root'')) ConfigFailed, d))
          else if command = ''schedule'' then scheduleCLI lib fs env d rest
          else if command = ''run'' then
            (case parseFlags [''root'', ''run-dir'', ''schedule''] rest of
               Inl err \<Rightarrow> Some (Some err, d)
             | Inr actual \<Rightarrow>
                 if lookup actual ''root'' = '''' \<or> lookup actual ''run-dir'' = '''' then Some (Some (MissingFlags ''run''), d)
                 else Some (diagnosed (validateRun lib fs (lookup actual ''root'') (lookup actual ''run-dir'')
                              (lookup actual ''schedule'')) RunFailed, d))
          else if command = ''results'' then
            (case parseFlags [''root'', ''results-dir'', ''schedule''] rest of
               Inl err \<Rightarrow> Some (Some err, d)
             | Inr actual \<Rightarrow>
                 if lookup actual ''root'' = '''' \<or> lookup actual ''results-dir'' = '''' then Some (Some (MissingFlags ''results''), d)
                 else Some ((case validateResults lib fs (lookup actual ''root'') (lookup actual ''results-dir'') (lookup actual ''schedule'') of
                        None \<Rightarrow> Some ResultsUnreadable
                      | Some errs \<Rightarrow> if errs = [] then None else Some (ResultsFailed errs)), d))
          else Some (Some (UnknownSubcommand command), d))"

text \<open>The exit code of \<open>main\<close>.\<close>

definition exit_code :: "cli_error option \<times> directory \<Rightarrow> int" where
  "exit_code r = (if fst r = None then 0 else 1)"

section \<open>A written schedule is read back\<close>

definition run_encodable :: "scheduleRun \<Rightarrow> bool" where
  "run_encodable r \<longleftrightarrow> int64 (Ordinal r) \<and> int64 (RepeatIndex r) \<and> ascii (RunID r) \<and> ascii (CellID r)"

definition encodable :: "schedule \<Rightarrow> bool" where
  "encodable s \<longleftrightarrow> int64 (SchemaVersion s) \<and> list_all ascii [Schema s, Status s, Strategy s, Algorithm s, Seed s, schedule_ConfigRevision s]
     \<and> pred_option ascii (GeneratedAt s) \<and> list_all run_encodable (Runs s)"

lemmas decode_eval = dec_struct_def select_field_def at_field_def dec_int_FormatInt

lemma dec_run_json: "run_encodable r \<Longrightarrow> dec_scheduleRun (run_json r) old = (r, True)"
  by (simp add: run_encodable_def dec_scheduleRun_def run_json_def decode_eval)

lemma dec_schedule_json:
  assumes "encodable s"
  shows "dec_schedule (schedule_json s) old = (s, True)"
proof -
  have runs: "dec_elements z dec_scheduleRun (map run_json (Runs s)) r = (Runs s, True)" for z r
    using assms by (intro dec_elements_map dec_run_json) (auto simp: encodable_def list_all_iff)
  have at: "dec_ptr '''' dec_string (case GeneratedAt s of None \<Rightarrow> JNull | Some t \<Rightarrow> JString t) o' = (GeneratedAt s, True)" for o'
    by (cases "GeneratedAt s") (simp_all add: dec_ptr_def)
  have v: "int64 (SchemaVersion s)" using assms by (simp add: encodable_def)
  show ?thesis
    by (simp add: dec_schedule_def schedule_json_def decode_eval dec_slice_def runs at v)
qed

lemma schedule_json_printable: "encodable s \<Longrightarrow> printable 0 (schedule_json s)"
  by (auto simp: encodable_def schedule_json_def run_json_def run_encodable_def int_literal_def list_all_iff split: option.splits)


definition sample_schedule :: schedule where
  "sample_schedule =
     \<lparr>Schema = ''s'', SchemaVersion = 1, Status = ''draft'', Strategy = ''b'', Algorithm = ''a'', Seed = ''<x>'',
      GeneratedAt = None, schedule_ConfigRevision = ''r'',
      Runs = [\<lparr>Ordinal = 1, RunID = ''pilot-001'', CellID = ''c'', RepeatIndex = 1\<rparr>]\<rparr>"


end
