(* ===== verification/Run_Types.thy ===== *)
theory Run_Types
  imports Freeze_Run Go_Marshal Go_Time
begin

text \<open>
  \<open>harness/runresult/types.go\<close>: the driver's metadata, the output of the evaluator and the
  assembled run result, with what \<open>encoding/json\<close> makes of them. A \<open>time.Time\<close> is an instant in
  nanoseconds since the Unix epoch with the offset of its zone in seconds. The types that \<open>freezecheck\<close>
  declares with the same fields (the cell, the infrastructure note, the artifacts and the behaviour cases) are shared with it.
\<close>

section \<open>Times\<close>

record gotime =
  instant :: int
  offset :: int

text \<open>The zero time is January 1 of the year 1.\<close>

definition zero_time :: gotime where
  "zero_time = \<lparr>instant = - 62135596800000000000, offset = 0\<rparr>"

definition IsZero :: "gotime \<Rightarrow> bool" where
  "IsZero t \<longleftrightarrow> instant t = instant zero_time"

text \<open>\<open>Time.Sub\<close> saturates; \<open>Duration.Milliseconds\<close> truncates towards zero.\<close>

definition Sub :: "gotime \<Rightarrow> gotime \<Rightarrow> int" where
  "Sub t u = max min_int64 (min max_int64 (instant t - instant u))"

definition Milliseconds :: "int \<Rightarrow> int" where
  "Milliseconds d = (if d < 0 then - ((- d) div 1000000) else d div 1000000)"

text \<open>The zone of a text that parses: what is behind the seconds and their fraction.\<close>

definition zone_offset :: "string \<Rightarrow> int" where
  "zone_offset s =
     (if s \<noteq> [] \<and> last s = CHR ''Z'' then 0
      else case get_zone (drop (length s - 6) s) of None \<Rightarrow> 0 | Some (off, _) \<Rightarrow> off)"

text \<open>
  \<open>Time.UnmarshalJSON\<close> is stricter than \<open>time.Parse\<close>: a two-digit hour, a period before the
  fraction, and a zone within a day.
\<close>

definition strict_RFC3339 :: "string \<Rightarrow> bool" where
  "strict_RFC3339 s \<longleftrightarrow> s ! 12 \<noteq> CHR '':'' \<and> s ! 19 \<noteq> CHR '',''
     \<and> (last s = CHR ''Z''
        \<or> (case (dec_value 0 (take 2 (drop (length s - 5) s)), dec_value 0 (drop (length s - 2) s)) of
             (Some hr, Some mm) \<Rightarrow> hr < 24 \<and> mm < 60 | _ \<Rightarrow> False))"

definition dec_time :: "gotime decoder" where
  "dec_time v old =
     (case v of
        JNull \<Rightarrow> (old, True)
      | JString s \<Rightarrow>
          (case Parse_RFC3339 s of
             Some t \<Rightarrow> if strict_RFC3339 s then (\<lparr>instant = t, offset = zone_offset s\<rparr>, True) else (old, False)
           | None \<Rightarrow> (old, False))
      | _ \<Rightarrow> (old, False))"

text \<open>\<open>time.RFC3339Nano\<close>: the fraction without trailing zeros, the zone as \<open>Z\<close> or an offset.\<close>

definition fraction_text :: "nat \<Rightarrow> string" where
  "fraction_text ns =
     (let ds = rev (dropWhile (\<lambda>c. c = CHR ''0'') (rev (zero_pad 9 ns))) in if ds = [] then [] else ''.'' @ ds)"

definition zone_text :: "int \<Rightarrow> string" where
  "zone_text off =
     (if off = 0 then ''Z''
      else (if off < 0 then ''-'' else ''+'') @ zero_pad 2 (nat (\<bar>off\<bar> div 3600)) @ '':'' @ zero_pad 2 (nat (\<bar>off\<bar> mod 3600 div 60)))"

definition Format_RFC3339Nano :: "gotime \<Rightarrow> string" where
  "Format_RFC3339Nano t = (case time_fields (instant t + offset t * 1000000000) of (y, month, day, h, mi, s, ns) \<Rightarrow>
     year_text y @ ''-'' @ zero_pad 2 month @ ''-'' @ zero_pad 2 day @ ''T''
     @ zero_pad 2 h @ '':'' @ zero_pad 2 mi @ '':'' @ zero_pad 2 s @ fraction_text ns @ zone_text (offset t))"

definition UnixMilli :: "int \<Rightarrow> gotime" where
  "UnixMilli ms = \<lparr>instant = ms * 1000000, offset = 0\<rparr>"

section \<open>Driver metadata\<close>

record ProtocolViolation =
  violation_Category :: string
  Timestamp :: string
  violation_Evidence :: string
  IsolationForcedTermination :: bool

record InfrastructureNote =
  note_Category :: string
  note_Evidence :: string

record Orchestration =
  SchedulePath_of :: string
  ScheduleOrdinal :: int
  ScheduleRunID :: string
  Model :: string
  orchestration_AgentVersion :: string
  ResolvedSources :: string_map
  Images :: string_map
  TimeoutSeconds :: int
  ResourceLabels :: string_map
  CandidateExitCode :: int
  CandidateSignal :: string

record RunMetadata =
  metadata_RunID :: string
  metadata_CellID :: string
  metadata_RepeatIndex :: int
  metadata_Phase :: string
  metadata_Status :: string
  StartedAt :: gotime
  FinishedAt :: gotime
  Workspace :: string
  ProtocolViolations :: "ProtocolViolation list"
  metadata_Infrastructure :: "InfrastructureNote option"
  metadata_ReplacesRunID :: "string option"
  metadata_Orchestration :: "Orchestration option"

definition dec_violation :: "ProtocolViolation decoder" where
  "dec_violation = dec_strict
     [(''category'', at_field violation_Category violation_Category_update dec_string),
      (''timestamp'', at_field Timestamp Timestamp_update dec_string),
      (''evidence'', at_field violation_Evidence violation_Evidence_update dec_string),
      (''isolationForcedTermination'', at_field IsolationForcedTermination IsolationForcedTermination_update dec_bool)]"

definition dec_note :: "InfrastructureNote decoder" where
  "dec_note = dec_strict
     [(''category'', at_field note_Category note_Category_update dec_string),
      (''evidence'', at_field note_Evidence note_Evidence_update dec_string)]"

definition dec_orchestration :: "Orchestration decoder" where
  "dec_orchestration = dec_strict
     [(''schedulePath'', at_field SchedulePath_of SchedulePath_of_update dec_string),
      (''scheduleOrdinal'', at_field ScheduleOrdinal ScheduleOrdinal_update dec_int),
      (''scheduleRunId'', at_field ScheduleRunID ScheduleRunID_update dec_string),
      (''model'', at_field Model Model_update dec_string),
      (''agentVersion'', at_field orchestration_AgentVersion orchestration_AgentVersion_update dec_string),
      (''resolvedSources'', at_field ResolvedSources ResolvedSources_update dec_string_map),
      (''images'', at_field Images Images_update dec_string_map),
      (''timeoutSeconds'', at_field TimeoutSeconds TimeoutSeconds_update dec_int),
      (''resourceLabels'', at_field ResourceLabels ResourceLabels_update dec_string_map),
      (''candidateExitCode'', at_field CandidateExitCode CandidateExitCode_update dec_int),
      (''candidateSignal'', at_field CandidateSignal CandidateSignal_update dec_string)]"

definition no_orchestration :: Orchestration where
  "no_orchestration = \<lparr>SchedulePath_of = '''', ScheduleOrdinal = 0, ScheduleRunID = '''', Model = '''',
     orchestration_AgentVersion = '''', ResolvedSources = [], Images = [], TimeoutSeconds = 0, ResourceLabels = [],
     CandidateExitCode = 0, CandidateSignal = ''''\<rparr>"

definition dec_metadata :: "RunMetadata decoder" where
  "dec_metadata = dec_strict
     [(''runId'', at_field metadata_RunID metadata_RunID_update dec_string),
      (''cellId'', at_field metadata_CellID metadata_CellID_update dec_string),
      (''repeatIndex'', at_field metadata_RepeatIndex metadata_RepeatIndex_update dec_int),
      (''phase'', at_field metadata_Phase metadata_Phase_update dec_string),
      (''status'', at_field metadata_Status metadata_Status_update dec_string),
      (''startedAt'', at_field StartedAt StartedAt_update dec_time),
      (''finishedAt'', at_field FinishedAt FinishedAt_update dec_time),
      (''workspace'', at_field Workspace Workspace_update dec_string),
      (''protocolViolations'', at_field ProtocolViolations ProtocolViolations_update
         (dec_slice \<lparr>violation_Category = '''', Timestamp = '''', violation_Evidence = '''', IsolationForcedTermination = False\<rparr>
            dec_violation)),
      (''infrastructure'', at_field metadata_Infrastructure metadata_Infrastructure_update
         (dec_ptr \<lparr>note_Category = '''', note_Evidence = ''''\<rparr> dec_note)),
      (''replacesRunId'', at_field metadata_ReplacesRunID metadata_ReplacesRunID_update (dec_ptr '''' dec_string)),
      (''orchestration'', at_field metadata_Orchestration metadata_Orchestration_update
         (dec_ptr no_orchestration dec_orchestration))]"

definition no_metadata :: RunMetadata where
  "no_metadata = \<lparr>metadata_RunID = '''', metadata_CellID = '''', metadata_RepeatIndex = 0, metadata_Phase = '''',
     metadata_Status = '''', StartedAt = zero_time, FinishedAt = zero_time, Workspace = '''', ProtocolViolations = [],
     metadata_Infrastructure = None, metadata_ReplacesRunID = None, metadata_Orchestration = None\<rparr>"

section \<open>Evaluator output\<close>

record evaluatorSetup =
  Postgres :: bool
  setup_Build :: bool
  setup_Migrations :: bool
  Ready :: bool
  setup_Evidence :: string

record evaluatorCase =
  ec_ID :: string
  ec_Applicable :: bool
  ec_Passed :: "bool option"
  ec_Evidence :: string

record evaluatorResult =
  er_CompleteSuccess :: bool
  Setup :: evaluatorSetup
  er_BehaviorCases :: "evaluatorCase list"

definition dec_evaluatorResult :: "evaluatorResult decoder" where
  "dec_evaluatorResult = dec_struct
     [(''completeSuccess'', at_field er_CompleteSuccess er_CompleteSuccess_update dec_bool),
      (''setup'', at_field Setup Setup_update (dec_struct
         [(''postgres'', at_field Postgres Postgres_update dec_bool),
          (''build'', at_field setup_Build setup_Build_update dec_bool),
          (''migrations'', at_field setup_Migrations setup_Migrations_update dec_bool),
          (''serviceReady'', at_field Ready Ready_update dec_bool),
          (''evidence'', at_field setup_Evidence setup_Evidence_update dec_string)])),
      (''behaviorCases'', at_field er_BehaviorCases er_BehaviorCases_update
         (dec_slice \<lparr>ec_ID = '''', ec_Applicable = False, ec_Passed = None, ec_Evidence = ''''\<rparr> (dec_struct
            [(''id'', at_field ec_ID ec_ID_update dec_string),
             (''applicable'', at_field ec_Applicable ec_Applicable_update dec_bool),
             (''passed'', at_field ec_Passed ec_Passed_update (dec_ptr False dec_bool)),
             (''evidence'', at_field ec_Evidence ec_Evidence_update dec_string)])))]"

definition no_evaluatorResult :: evaluatorResult where
  "no_evaluatorResult = \<lparr>er_CompleteSuccess = False,
     Setup = \<lparr>Postgres = False, setup_Build = False, setup_Migrations = False, Ready = False, setup_Evidence = ''''\<rparr>,
     er_BehaviorCases = []\<rparr>"

section \<open>The run result\<close>

record Timing =
  timing_StartedAt :: gotime
  timing_FinishedAt :: gotime
  WallClockMilliseconds :: int
  FirstSuccessfulBuildMilliseconds :: "int option"
  FirstVisibleBehaviorSuccessMilliseconds :: "int option"

record Usage =
  InputTokens :: "int option"
  OutputTokens :: "int option"
  Turns :: int
  ToolCalls :: int

record DiffLines =
  ContractLines :: int
  HandwrittenLines :: int
  GeneratedLines :: int

record CompilerEvent =
  CommandIndex :: int
  compiler_Category :: string
  compiler_Files :: "string list"
  Locations :: "string list"
  PointsToHandwrittenAdaptation :: "bool option"
  FollowedByRelevantRepair :: "bool option"

record Process =
  RepairIterations :: int
  FilesTouched :: int
  Diff :: DiffLines
  CompilerEvents :: "CompilerEvent list"

record CommonGates =
  FormalInputs :: bool
  Build :: bool
  Migrations :: bool
  ServiceStart :: bool
  BaselineBehavior :: bool
  TaskBehavior :: bool
  Regressions :: bool
  APIConformance :: bool
  DatabaseConsistency :: bool

record CodegenHealth =
  GenerationSucceeded :: bool
  Canonical :: bool
  Idempotent :: bool
  ManualEditDetected :: bool

record CandidateTests =
  Present :: bool
  TestFiles :: int

record Evaluation =
  eval_CompleteSuccess :: bool
  eval_CommonGates :: CommonGates
  eval_BehaviorCases :: "behaviorCase list"
  eval_CodegenHealth :: "CodegenHealth option"
  eval_CandidateTests :: CandidateTests
  ResidualFailures :: "string list"

record RunResult =
  result_SchemaVersion :: int
  result_RunID :: string
  result_CellID :: string
  result_RepeatIndex :: int
  result_Phase :: string
  result_Stage :: string
  result_Task :: string
  result_Mode :: string
  result_Treatment :: string
  result_Status :: string
  result_ProtocolViolations :: "ProtocolViolation list"
  result_Infrastructure :: infrastructure
  result_Timing :: Timing
  result_Usage :: Usage
  result_Process :: Process
  result_Artifacts :: artifacts
  result_Evaluation :: "Evaluation option"

definition dec_codegenHealth :: "CodegenHealth decoder" where
  "dec_codegenHealth = dec_struct
     [(''generationSucceeded'', at_field GenerationSucceeded GenerationSucceeded_update dec_bool),
      (''canonical'', at_field Canonical Canonical_update dec_bool),
      (''idempotent'', at_field Idempotent Idempotent_update dec_bool),
      (''manualEditDetected'', at_field ManualEditDetected ManualEditDetected_update dec_bool)]"

end
