(* ===== verification/Run_Derive.thy ===== *)
theory Run_Derive
  imports Run_Types
begin

text \<open>
  \<open>harness/runresult/derive.go\<close>: the nine common gates, the formal-inputs gate and the
  count of candidate tests. What the YAML library, the operating system's error texts and the codegen container
  deliver are parameters (\<open>externals\<close>). A check that the code answers with \<open>(bool, string)\<close>
  is the pair of the verdict and the evidence text.
\<close>

text \<open>
  A finished command: its exit code (minus one when a signal ended it), its output and its diagnostics; a
  command that could not be started, with the error; or one that the deadline killed.
\<close>

datatype command_result = Exited int string string | NotStarted string | DeadlineExceeded string string

record externals =
  yaml_keys :: "string \<Rightarrow> string + string list"
  open_error :: "string \<Rightarrow> string"
  json_error :: "string \<Rightarrow> string"
  quote_text :: "string \<Rightarrow> string"
  codegen_container :: "string \<Rightarrow> string \<Rightarrow> command_result"
  evaluator_process :: "string list \<Rightarrow> string list \<Rightarrow> command_result"
  docker_ps :: "string list \<Rightarrow> string option"

section \<open>Gates\<close>

definition baselineCaseIDs :: "string list" where
  "baselineCaseIDs =
     [''baseline.create-valid'', ''baseline.create-invalid-title'', ''baseline.get-existing'', ''baseline.get-not-found'',
      ''baseline.list-ordered'', ''baseline.delete-existing'', ''baseline.delete-again-not-found'']"

definition TaskBaselineService :: string where
  "TaskBaselineService = ''baseline-service''"

definition taskPrefix :: "string \<Rightarrow> string" where
  "taskPrefix task =
     (if task = ''nullable-patch'' then ''nullable.''
      else if task = ''optimistic-locking'' then ''locking.''
      else if task = ''cursor-pagination'' then ''pagination.''
      else '''')"

text \<open>The closure \<open>passed\<close> of \<open>deriveGates\<close>.\<close>

definition passed_all :: "evaluatorCase list \<Rightarrow> string list \<Rightarrow> bool" where
  "passed_all cases ids \<longleftrightarrow>
     list_all (\<lambda>c. list_all (\<lambda>i. \<not> (ec_ID c = i \<and> (\<not> ec_Applicable c \<or> ec_Passed c \<noteq> Some True))) ids) cases"

definition deriveGates :: "evaluatorResult \<Rightarrow> bool \<Rightarrow> string \<Rightarrow> CommonGates" where
  "deriveGates standalone formalOK task =
     (let cases = er_BehaviorCases standalone;
          baselineOK = passed_all cases baselineCaseIDs;
          contractsOK = passed_all cases
            [''contract.openapi-conformance'', ''contract.problem-details'', ''contract.database-consistency''];
          taskOK = (if task \<noteq> TaskBaselineService
                    then list_all (\<lambda>c. \<not> (HasPrefix (ec_ID c) (taskPrefix task) \<and> ec_Applicable c \<and> ec_Passed c \<noteq> Some True)) cases
                    else baselineOK)
      in \<lparr>FormalInputs = formalOK, Build = setup_Build (Setup standalone), Migrations = setup_Migrations (Setup standalone),
          ServiceStart = Ready (Setup standalone), BaselineBehavior = baselineOK, TaskBehavior = taskOK,
          Regressions = baselineOK \<and> contractsOK,
          APIConformance = passed_all cases [''contract.openapi-conformance'', ''contract.problem-details''],
          DatabaseConsistency = passed_all cases [''contract.database-consistency'']\<rparr>)"

section \<open>Formal inputs\<close>

text \<open>\<open>strings.Fields\<close>: the maximal runs of non-space runes.\<close>

function fields_from :: "string \<Rightarrow> string \<Rightarrow> string list" where
  "fields_from s cur =
     (if s = [] then (if cur = [] then [] else [cur])
      else let (r, n) = DecodeRune s in
        if IsSpace r then (if cur = [] then [] else [cur]) @ fields_from (drop (snd (DecodeRune s)) s) []
        else fields_from (drop (snd (DecodeRune s)) s) (cur @ take n s))"
  by pat_completeness auto
termination
  by (relation "measure (\<lambda>(s, cur). length s)") (use DecodeRune_size_bounds in auto)

declare fields_from.simps [simp del]

definition Fields :: "string \<Rightarrow> string list" where
  "Fields s = fields_from s []"

definition line_error :: "filesystem \<Rightarrow> string \<Rightarrow> string list \<Rightarrow> nat \<Rightarrow> string \<Rightarrow> string list \<Rightarrow> string + string" where
  "line_error fs workspace expected index line declared =
     (let fields = Fields line in
      if length fields \<noteq> 2 \<or> length (fields ! 0) \<noteq> 64 then Inl (''formal.sha256 line '' @ dec (index + 1) @ '' is invalid'')
      else if hex_DecodeString (fields ! 0) = None
        then Inl (''formal.sha256 line '' @ dec (index + 1) @ '' has an invalid SHA-256'')
      else let rel = Clean (fields ! 1) in
        if rel \<noteq> fields ! 1 \<or> rel \<notin> set expected \<or> rel \<in> set declared
        then Inl (''formal.sha256 has an unexpected or duplicate path: '' @ fields ! 1)
        else case ReadFile fs (Join workspace rel) of
          None \<Rightarrow> Inl (''formal.sha256 path is missing: '' @ rel)
        | Some content \<Rightarrow>
            if \<not> EqualFold (sha256_hex content) (fields ! 0) then Inl (''formal.sha256 hash mismatch: '' @ rel)
            else Inr rel)"

fun scan_formal :: "filesystem \<Rightarrow> string \<Rightarrow> string list \<Rightarrow> nat \<Rightarrow> string list \<Rightarrow> string list \<Rightarrow> string + string list" where
  "scan_formal fs workspace expected index [] declared = Inr declared"
| "scan_formal fs workspace expected index (line # rest) declared =
     (case line_error fs workspace expected index line declared of
        Inl evidence \<Rightarrow> Inl evidence
      | Inr rel \<Rightarrow> scan_formal fs workspace expected (index + 1) rest (rel # declared))"

definition checkFormalManifest :: "filesystem \<Rightarrow> string \<Rightarrow> string list \<Rightarrow> bool \<times> string" where
  "checkFormalManifest fs workspace expected =
     (case ReadFile fs (Join workspace ''formal.sha256'') of
        None \<Rightarrow> (False, ''formal.sha256 is missing'')
      | Some data \<Rightarrow>
          (case scan_formal fs workspace expected 0 (split_on (CHR 0x0A) (TrimSpace data)) [] of
             Inl evidence \<Rightarrow> (False, evidence)
           | Inr declared \<Rightarrow>
               (case filter (\<lambda>rel. rel \<notin> set declared) expected of
                  rel # _ \<Rightarrow> (False, ''formal.sha256 does not declare: '' @ rel)
                | [] \<Rightarrow> (True, ''''))))"

record target_file =
  target_Path :: string
  target_SHA256 :: string

definition dec_targetManifest :: "target_file list decoder" where
  "dec_targetManifest = dec_struct
     [(''files'', dec_slice \<lparr>target_Path = '''', target_SHA256 = ''''\<rparr>
        (dec_struct [(''path'', at_field target_Path target_Path_update dec_string),
                     (''sha256'', at_field target_SHA256 target_SHA256_update dec_string)]))]"

fun scan_targets :: "filesystem \<Rightarrow> string \<Rightarrow> target_file list \<Rightarrow> bool \<times> string" where
  "scan_targets fs workspace [] = (True, '''')"
| "scan_targets fs workspace (file # rest) =
     (case ReadFile fs (Join workspace (target_Path file)) of
        None \<Rightarrow> (False, ''formal target '' @ target_Path file @ '' is missing'')
      | Some content \<Rightarrow>
          if \<not> EqualFold (sha256_hex content) (target_SHA256 file)
          then (False, ''formal target '' @ target_Path file @ '' does not match the frozen target manifest'')
          else scan_targets fs workspace rest)"

definition checkPropagationTarget :: "externals \<Rightarrow> filesystem \<Rightarrow> string \<Rightarrow> string \<Rightarrow> string \<Rightarrow> bool \<times> string" where
  "checkPropagationTarget ext fs workspace task propagationDir =
     (let manifestPath = Join (Join propagationDir task) ''target-manifest.json'' in
      case ReadFile fs manifestPath of
        None \<Rightarrow> (False, ''read '' @ manifestPath @ '': '' @ open_error ext manifestPath)
      | Some data \<Rightarrow>
          (case Unmarshal dec_targetManifest [] data of
             (_, False) \<Rightarrow> (False, ''parse '' @ manifestPath @ '': '' @ json_error ext data)
           | (files, True) \<Rightarrow> scan_targets fs workspace files))"

text \<open>The pattern \<open>^[0-9]{6}_[a-z0-9_]+\.sql$\<close>.\<close>

definition migration_name :: "string \<Rightarrow> bool" where
  "migration_name s \<longleftrightarrow> length s \<ge> 12 \<and> list_all is_digit (take 6 s) \<and> s ! 6 = CHR ''_''
     \<and> HasSuffix s ''.sql''
     \<and> list_all (\<lambda>c. (CHR ''a'' \<le> c \<and> c \<le> CHR ''z'') \<or> is_digit c \<or> c = CHR ''_'') (drop 7 (take (length s - 4) s))"

definition empty_file :: "string option \<Rightarrow> bool" where
  "empty_file content \<longleftrightarrow> (case content of None \<Rightarrow> True | Some s \<Rightarrow> TrimSpace s = '''')"

definition formal_paths :: "(string \<times> node) list \<Rightarrow> string list" where
  "formal_paths entries =
     [''api/openapi.yaml'', ''db/queries/tasks.sql'']
     @ map (\<lambda>(name, n). ''db/migrations/'' @ name) (filter (\<lambda>(name, n). \<not> IsDir n \<and> migration_name name) entries)"

definition checkFormalInputs :: "externals \<Rightarrow> filesystem \<Rightarrow> string \<Rightarrow> cell \<Rightarrow> string \<Rightarrow> bool \<times> string" where
  "checkFormalInputs ext fs workspace c propagationDir =
     (if Mode c = ''propagation-only'' then checkPropagationTarget ext fs workspace (Task c) propagationDir
      else let openapi = ReadFile fs (Join (Join workspace ''api'') ''openapi.yaml'') in
        if empty_file openapi then (False, ''api/openapi.yaml is missing or empty'')
        else case yaml_keys ext (the openapi) of
          Inl err \<Rightarrow> (False, ''api/openapi.yaml does not parse as YAML: '' @ err)
        | Inr keys \<Rightarrow>
            if ''openapi'' \<notin> set keys then (False, ''api/openapi.yaml has no openapi key'')
            else if ''paths'' \<notin> set keys then (False, ''api/openapi.yaml has no paths key'')
            else if empty_file (ReadFile fs (Join (Join (Join workspace ''db'') ''queries'') ''tasks.sql''))
              then (False, ''db/queries/tasks.sql is missing or empty'')
            else case ReadDir fs (Join (Join workspace ''db'') ''migrations'') of
              None \<Rightarrow> (False, ''db/migrations is missing'')
            | Some entries \<Rightarrow>
                if length (formal_paths entries) = 2
                then (False, ''db/migrations contains no NNNNNN_name.sql migration'')
                else checkFormalManifest fs workspace (formal_paths entries))"

section \<open>Tests and code generation\<close>

text \<open>Every visited name that is no directory counts, whatever its type.\<close>

definition countCandidateTests :: "filesystem \<Rightarrow> string \<Rightarrow> CandidateTests" where
  "countCandidateTests fs workspace =
     (let count = length (filter (\<lambda>v. case v of
                VisitFile rel n \<Rightarrow> HasSuffix (if rel = [] then last (clean_comps workspace) else last rel) ''_test.go''
              | VisitError _ \<Rightarrow> False) (walk_workspace fs workspace))
      in \<lparr>Present = count > 0, TestFiles = int count\<rparr>)"

definition ellipsis :: string where
  "ellipsis = [CHR 0xE2, CHR 0x80, CHR 0xA6]"

definition trimEvidence :: "string \<Rightarrow> string" where
  "trimEvidence value0 =
     (let value = TrimSpace value0;
          value = (if length value > 2048 then take 2048 value @ ellipsis else value)
      in if value = '''' then ''no diagnostics captured'' else value)"

text \<open>
  The harness-owned container either ends with exit code 0 and prints one JSON object, or the measurement fails. The codegen
  script inside it is not modelled: what it prints is the parameter's output.
\<close>

definition command_error :: "command_result \<Rightarrow> string" where
  "command_error r =
     (case r of
        NotStarted err \<Rightarrow> err @ '': '' @ trimEvidence ''''
      | DeadlineExceeded stdout stderr \<Rightarrow> ''signal: killed: '' @ trimEvidence stderr
      | Exited code stdout stderr \<Rightarrow> ''exit status '' @ FormatInt code @ '': '' @ trimEvidence stderr)"

definition measureCodegenHealth :: "externals \<Rightarrow> string \<Rightarrow> string \<Rightarrow> string + CodegenHealth" where
  "measureCodegenHealth ext workspace img =
     (case codegen_container ext workspace img of
        Exited int_code stdout stderr \<Rightarrow>
          if int_code \<noteq> 0 then Inl (''run codegen health container: '' @ command_error (Exited int_code stdout stderr))
          else (case Unmarshal dec_codegenHealth
              \<lparr>GenerationSucceeded = False, Canonical = False, Idempotent = False, ManualEditDetected = False\<rparr> (TrimSpace stdout) of
            (health, ok) \<Rightarrow>
              if ok then Inr health
              else Inl (''parse codegen health output '' @ quote_text ext (trimEvidence stdout) @ '': '' @ json_error ext (TrimSpace stdout)))
      | r \<Rightarrow> Inl (''run codegen health container: '' @ command_error r))"

end
