(* ===== verification/Go_Write.thy ===== *)
theory Go_Write
  imports Go_Fs
begin

text \<open>
  Writing to the file tree: \<open>os.WriteFile\<close>, which truncates and creates, and \<open>os.MkdirAll\<close>, and
  \<open>bufio.Scanner\<close> with the line splitter and the buffer limit the harness sets.
\<close>

fun put_entry :: "string \<Rightarrow> 'a \<Rightarrow> (string \<times> 'a) list \<Rightarrow> (string \<times> 'a) list" where
  "put_entry c n [] = [(c, n)]"
| "put_entry c n ((k, m) # es) = (if k = c then (c, n) # es else (k, m) # put_entry c n es)"

text \<open>Replace or add the node at a path whose directories exist.\<close>

fun put_node :: "node \<Rightarrow> string list \<Rightarrow> node \<Rightarrow> node" where
  "put_node root [] new = new"
| "put_node (Directory ok es) (c # cs) new =
     (case map_of es c of
        Some n \<Rightarrow> Directory ok (put_entry c (put_node n cs new) es)
      | None \<Rightarrow> if cs = [] then Directory ok (put_entry c new es) else Directory ok es)"
| "put_node root (c # cs) new = root"

text \<open>The place a path would be created at: its directory resolved, its last component appended.\<close>

definition create_place :: "filesystem \<Rightarrow> string \<Rightarrow> string list option" where
  "create_place fs p =
     (case rev (clean_comps p) of
        [] \<Rightarrow> None
      | c # cs \<Rightarrow>
          Option.bind (resolve (fs_root fs) 40 (if IsAbs p then [] else clean_comps (fs_cwd fs)) (rev cs)) (\<lambda>d.
            case node_at (fs_root fs) d of
              Some (Directory True es) \<Rightarrow> if map_of es c = None then Some (d @ [c]) else None
            | _ \<Rightarrow> None))"

text \<open>
  \<open>os.WriteFile\<close> to a path that names a writable regular file, or none yet. Writing through a
  dangling link is not modelled: it counts as an error.
\<close>

definition WriteFile :: "filesystem \<Rightarrow> string \<Rightarrow> string \<Rightarrow> filesystem option" where
  "WriteFile fs p data =
     (case locate fs 40 p of
        Some r \<Rightarrow>
          (case node_at (fs_root fs) r of
             Some (Reg True _) \<Rightarrow> Some (fs\<lparr>fs_root := put_node (fs_root fs) r (Reg True data)\<rparr>)
           | _ \<Rightarrow> None)
      | None \<Rightarrow>
          map_option (\<lambda>r. fs\<lparr>fs_root := put_node (fs_root fs) r (Reg True data)\<rparr>) (create_place fs p))"

text \<open>\<open>os.MkdirAll\<close> of a directory whose parent exists.\<close>

definition Mkdir :: "filesystem \<Rightarrow> string \<Rightarrow> filesystem option" where
  "Mkdir fs p =
     (case Stat fs p of
        Some (Directory _ _) \<Rightarrow> Some fs
      | Some _ \<Rightarrow> None
      | None \<Rightarrow> map_option (\<lambda>r. fs\<lparr>fs_root := put_node (fs_root fs) r (Directory True [])\<rparr>) (create_place fs p))"

section \<open>Lines\<close>

definition drop_cr :: "string \<Rightarrow> string" where
  "drop_cr l = (if l \<noteq> [] \<and> last l = CHR 0x0D then butlast l else l)"

definition raw_lines :: "string \<Rightarrow> string list" where
  "raw_lines s = (let ls = split_on (CHR 0x0A) s in if last ls = [] then butlast ls else ls)"

abbreviation max_token :: nat where
  "max_token \<equiv> 16777216"

text \<open>The lines delivered, and whether a line too long for the buffer ended the scan.\<close>

definition scan_lines :: "string \<Rightarrow> string list \<times> bool" where
  "scan_lines s = (let good = takeWhile (\<lambda>l. length l < max_token) (raw_lines s)
     in (map drop_cr good, length good < length (raw_lines s)))"

lemma map_of_put_entry: "map_of (put_entry c n es) k = (if k = c then Some n else map_of es k)"
  by (induction es) auto

lemma node_at_put_same:
  "node_at root (butlast p) = Some (Directory True es) \<Longrightarrow> p \<noteq> [] \<Longrightarrow> node_at (put_node root p new) p = Some new"
proof (induction root p new rule: put_node.induct)
  case (2 ok es' c cs new)
  show ?case
  proof (cases cs)
    case Nil
    then show ?thesis using "2.prems" by (cases "map_of es' c") (auto simp: map_of_put_entry)
  next
    case (Cons d ds)
    then have ok: "ok" and "Option.bind (map_of es' c) (\<lambda>n. node_at n (butlast cs)) = Some (Directory True es)"
      using "2.prems" by (auto split: if_splits)
    then obtain n where n: "map_of es' c = Some n" "node_at n (butlast cs) = Some (Directory True es)"
      by (auto simp: Option.bind_eq_Some_conv)
    then show ?thesis using "2.IH" [OF n] Cons ok by (simp add: map_of_put_entry)
  qed
qed (auto split: if_splits)

end
