(* ===== verification/Run_Transcript.thy ===== *)
theory Run_Transcript
  imports Run_Derive Go_Write
begin

text \<open>
  \<open>harness/runresult/transcript.go\<close> and \<open>diff.go\<close>: usage, command events and process metrics
  from the transcript of the agent, and the line counts of the final patch.
\<close>

section \<open>Transcript lines\<close>

record commandEvent =
  Index :: int
  event_StartedAt :: string
  event_FinishedAt :: string
  Command :: string
  WorkingDirectory :: string
  ExitCode :: "int option"
  TimedOut :: bool
  event_Category :: string
  StdoutPath :: string
  StderrPath :: string
  event_stdout :: string
  event_stderr :: string

record line_time =
  Start :: int
  End :: int

record line_state =
  state_Status :: string
  Input :: "json option"
  Output :: string
  Error :: string
  state_Metadata :: "json option"
  state_Time :: "line_time option"

record line_tokens =
  tokens_Input :: "int option"
  tokens_Output :: "int option"

record line_part =
  part_Type :: string
  Tool :: string
  State :: "line_state option"
  Tokens :: "line_tokens option"

record transcriptLine =
  line_Type :: string
  line_Timestamp :: int
  Part :: "line_part option"

text \<open>A \<open>json.RawMessage\<close> keeps the value, \<open>null\<close> included.\<close>

definition dec_raw :: "json option decoder" where
  "dec_raw v old = (Some v, True)"

definition dec_state :: "line_state decoder" where
  "dec_state = dec_struct
     [(''status'', at_field state_Status state_Status_update dec_string),
      (''input'', at_field Input Input_update dec_raw),
      (''output'', at_field Output Output_update dec_string),
      (''error'', at_field Error Error_update dec_string),
      (''metadata'', at_field state_Metadata state_Metadata_update dec_raw),
      (''time'', at_field state_Time state_Time_update (dec_ptr \<lparr>Start = 0, End = 0\<rparr> (dec_struct
         [(''start'', at_field Start Start_update dec_int), (''end'', at_field End End_update dec_int)])))]"

definition no_state :: line_state where
  "no_state = \<lparr>state_Status = '''', Input = None, Output = '''', Error = '''', state_Metadata = None, state_Time = None\<rparr>"

definition dec_part :: "line_part decoder" where
  "dec_part = dec_struct
     [(''type'', at_field part_Type part_Type_update dec_string),
      (''tool'', at_field Tool Tool_update dec_string),
      (''state'', at_field State State_update (dec_ptr no_state dec_state)),
      (''tokens'', at_field Tokens Tokens_update (dec_ptr \<lparr>tokens_Input = None, tokens_Output = None\<rparr> (dec_struct
         [(''input'', at_field tokens_Input tokens_Input_update (dec_ptr 0 dec_int)),
          (''output'', at_field tokens_Output tokens_Output_update (dec_ptr 0 dec_int))])))]"

definition dec_transcriptLine :: "transcriptLine decoder" where
  "dec_transcriptLine = dec_struct
     [(''type'', at_field line_Type line_Type_update dec_string),
      (''timestamp'', at_field line_Timestamp line_Timestamp_update dec_int),
      (''part'', at_field Part Part_update
         (dec_ptr \<lparr>part_Type = '''', Tool = '''', State = None, Tokens = None\<rparr> dec_part))]"

text \<open>\<open>json.Unmarshal\<close> of a raw field into a struct of strings; a missing field is an error that stores nothing.\<close>

definition unmarshal_raw :: "'a decoder \<Rightarrow> 'a \<Rightarrow> json option \<Rightarrow> 'a \<times> bool" where
  "unmarshal_raw d z raw = (case raw of None \<Rightarrow> (z, False) | Some v \<Rightarrow> d v z)"

abbreviation string_field :: "string \<Rightarrow> string decoder" where
  "string_field name \<equiv> dec_struct [(name, dec_string)]"

section \<open>Command events\<close>

definition classifyBash :: "string \<Rightarrow> string" where
  "classifyBash command =
     (if Contains command ''oapi-codegen'' \<or> Contains command ''sqlc'' \<or> Contains command ''make generate''
         \<or> Contains command ''make verify-generate'' then ''generate''
      else if Contains command ''migrate'' then ''migration''
      else if Contains command ''go build'' \<or> Contains command ''make build'' \<or> Contains command ''go vet'' then ''build''
      else if Contains command ''go test'' \<or> Contains command ''make test'' \<or> Contains command ''make check'' then ''test''
      else if Contains command ''make run'' \<or> Contains command ''task-service'' then ''service''
      else ''other'')"

definition containsMakeCheck :: "string \<Rightarrow> bool" where
  "containsMakeCheck command \<longleftrightarrow> Contains command ''make check''"

text \<open>
  \<open>strings.ToLower\<close> as far as an ASCII search can see it: ASCII letters, and the dotted capital I (bytes C4 B0), the only
  other rune whose lower case is one of the letters searched for.
\<close>

fun to_lower :: "string \<Rightarrow> string" where
  "to_lower (c # d # s) =
     (if c = CHR 0xC4 \<and> d = CHR 0xB0 then CHR ''i'' # to_lower s else fold_char c # to_lower (d # s))"
| "to_lower [c] = [fold_char c]"
| "to_lower [] = []"

definition indicatesTimeout :: "string \<Rightarrow> bool" where
  "indicatesTimeout text \<longleftrightarrow> Contains (to_lower text) ''timed out'' \<or> Contains (to_lower text) ''timeout''"

fun firstNonEmpty :: "string list \<Rightarrow> string" where
  "firstNonEmpty [] = ''''"
| "firstNonEmpty (s # rest) = (if s \<noteq> '''' then s else firstNonEmpty rest)"

record bash_input =
  bash_Command :: string
  Workdir :: string

definition dec_bash :: "bash_input decoder" where
  "dec_bash = dec_struct
     [(''command'', at_field bash_Command bash_Command_update dec_string),
      (''workdir'', at_field Workdir Workdir_update dec_string)]"

text \<open>The tool-specific part: command, working directory, category, exit code, timed out.\<close>

definition tool_event :: "line_part \<Rightarrow> line_state \<Rightarrow> string \<times> string \<times> string \<times> int option \<times> bool" where
  "tool_event part state =
     (let completed = (state_Status state = ''completed''); ok = (if completed then Some 0 else None) in
      if Tool part = ''bash'' then
        (let input = fst (unmarshal_raw dec_bash \<lparr>bash_Command = '''', Workdir = ''''\<rparr> (Input state));
             exitCode = fst (unmarshal_raw (dec_struct [(''exit'', dec_ptr 0 dec_int)]) None (state_Metadata state))
         in (bash_Command input, Workdir input, classifyBash (bash_Command input),
             if completed then exitCode else None,
             \<not> completed \<and> indicatesTimeout (Output state @ '' '' @ Error state)))
      else if Tool part \<in> {''read'', ''edit'', ''write''} then
        (firstNonEmpty [fst (unmarshal_raw (string_field ''filePath'') '''' (Input state)), Tool part], '''',
         if Tool part \<noteq> ''read'' then ''edit'' else Tool part, ok, False)
      else if Tool part = ''apply_patch'' then (''apply_patch'', '''', ''edit'', ok, False)
      else (firstNonEmpty [Tool part, ''unknown''], '''', ''other'', ok, False))"

definition buildCommandEvent :: "int \<Rightarrow> int \<Rightarrow> line_part \<Rightarrow> line_state \<Rightarrow> commandEvent" where
  "buildCommandEvent index timestamp part state =
     (let (start, end') = (case state_Time state of None \<Rightarrow> (timestamp, timestamp) | Some t \<Rightarrow> (Start t, End t));
          (command, workdir, category, exitCode, timedOut) = tool_event part state
      in \<lparr>Index = index, event_StartedAt = Format_RFC3339Nano (UnixMilli start),
          event_FinishedAt = Format_RFC3339Nano (UnixMilli end'),
          Command = (if command = '''' then Tool part else command), WorkingDirectory = workdir,
          ExitCode = exitCode, TimedOut = timedOut, event_Category = category, StdoutPath = '''', StderrPath = '''',
          event_stdout = Output state, event_stderr = Error state\<rparr>)"

definition workspaceRelative :: "string \<Rightarrow> string" where
  "workspaceRelative path = TrimPrefix path ''/workspace/''"

definition patch_prefixes :: "string list" where
  "patch_prefixes = [''*** Add File: '', ''*** Update File: '', ''*** Delete File: '', ''*** Move to: '']"

definition eventTouchedFiles :: "line_part \<Rightarrow> line_state \<Rightarrow> string list" where
  "eventTouchedFiles part state =
     (if Tool part \<in> {''edit'', ''write''} then
        (case unmarshal_raw (string_field ''filePath'') '''' (Input state) of
           (path, ok) \<Rightarrow> if ok \<and> path \<noteq> '''' then [workspaceRelative path] else [])
      else if Tool part = ''apply_patch'' then
        (case unmarshal_raw (string_field ''patchText'') '''' (Input state) of
           (text, ok) \<Rightarrow>
             if \<not> ok then []
             else concat (map (\<lambda>l. concat (map (\<lambda>prefix.
                 if HasPrefix l prefix then [workspaceRelative (TrimSpace (TrimPrefix l prefix))] else []) patch_prefixes))
               (split_on (CHR 0x0A) (crlf_to_lf text))))
      else [])"

section \<open>Compiler diagnostics\<close>

definition isGeneratedPath :: "string \<Rightarrow> string \<Rightarrow> bool" where
  "isGeneratedPath path treatment \<longleftrightarrow> treatment = ''codegen''
     \<and> (path = ''internal/httpapi/generated.gen.go'' \<or> HasPrefix path ''internal/repository/generated/'')"

definition file_char :: "char \<Rightarrow> bool" where
  "file_char c \<longleftrightarrow> (CHR ''A'' \<le> c \<and> c \<le> CHR ''Z'') \<or> (CHR ''a'' \<le> c \<and> c \<le> CHR ''z'') \<or> is_digit c
     \<or> c \<in> {CHR ''_'', CHR ''.'', CHR ''/'', CHR ''-''}"

text \<open>
  The pattern \<open>(?m)^([A-Za-z0-9_./-]+\.go):([0-9]+):([0-9]+):\<close> on one line. The file cannot contain a colon,
  so its end is where the line has its first one.
\<close>

definition diagnostic :: "string \<Rightarrow> (string \<times> string \<times> string) option" where
  "diagnostic l =
     (case split_on (CHR '':'') l of
        file # row # col # _ # _ \<Rightarrow>
          if length file > 3 \<and> HasSuffix file ''.go'' \<and> list_all file_char file
             \<and> row \<noteq> [] \<and> list_all is_digit row \<and> col \<noteq> [] \<and> list_all is_digit col
          then Some (file, row, col) else None
      | _ \<Rightarrow> None)"

definition diagnostics_of :: "string \<Rightarrow> (string \<times> string \<times> string) list" where
  "diagnostics_of text = List.map_filter diagnostic (split_on (CHR 0x0A) text)"

definition sortedKeys :: "string list \<Rightarrow> string list" where
  "sortedKeys keys = sort (remdups keys)"

definition extractCompilerEvent :: "commandEvent \<Rightarrow> string \<Rightarrow> CompilerEvent option" where
  "extractCompilerEvent event treatment =
     (let matches = diagnostics_of (event_stdout event @ [CHR 0x0A] @ event_stderr event);
          located = map (\<lambda>(file, row, col). (TrimPrefix file ''./'', row, col)) matches;
          anyHandwritten = list_ex (\<lambda>(file, row, col). \<not> isGeneratedPath file treatment) located
      in if length matches = 0 then None
         else Some \<lparr>CommandIndex = Index event,
           compiler_Category = (if \<not> anyHandwritten then ''generated-type'' else ''handwritten''),
           compiler_Files = sortedKeys (map (\<lambda>(file, row, col). file) located),
           Locations = sortedKeys (map (\<lambda>(file, row, col). file @ '':'' @ row @ '':'' @ col) located),
           PointsToHandwrittenAdaptation = Some anyHandwritten, FollowedByRelevantRepair = None\<rparr>)"

section \<open>The transcript\<close>

text \<open>Sums of token counts wrap at 64 bits.\<close>

definition wrap64 :: "int \<Rightarrow> int" where
  "wrap64 n = (n + 9223372036854775808) mod 18446744073709551616 - 9223372036854775808"

record transcript_state =
  inputSum :: int
  outputSum :: int
  tokenLines :: nat
  turns :: nat
  ts_events :: "commandEvent list"
  ts_touched :: "string list"

definition step_finish :: "line_part \<Rightarrow> transcript_state \<Rightarrow> transcript_state" where
  "step_finish part st =
     (let st = st\<lparr>turns := turns st + 1\<rparr> in
      case Tokens part of
        None \<Rightarrow> st
      | Some tokens \<Rightarrow>
          (let st = (case tokens_Input tokens of None \<Rightarrow> st
                     | Some n \<Rightarrow> st\<lparr>inputSum := wrap64 (inputSum st + n), tokenLines := tokenLines st + 1\<rparr>)
           in case tokens_Output tokens of None \<Rightarrow> st
              | Some n \<Rightarrow> st\<lparr>outputSum := wrap64 (outputSum st + n)\<rparr>))"

definition tool_use :: "int \<Rightarrow> line_part \<Rightarrow> line_state \<Rightarrow> transcript_state \<Rightarrow> transcript_state" where
  "tool_use timestamp part state st =
     st\<lparr>ts_events := ts_events st @ [buildCommandEvent (int (length (ts_events st))) timestamp part state],
        ts_touched := ts_touched st @ eventTouchedFiles part state\<rparr>"

definition transcript_line :: "transcriptLine \<Rightarrow> transcript_state \<Rightarrow> transcript_state" where
  "transcript_line l st =
     (case Part l of
        None \<Rightarrow> st
      | Some part \<Rightarrow>
          if line_Type l = ''step_finish'' then step_finish part st
          else case State part of
            Some state \<Rightarrow> if line_Type l = ''tool_use'' then tool_use (line_Timestamp l) part state st else st
          | None \<Rightarrow> st)"

text \<open>The scan loop; the error is the number of the line that does not decode.\<close>

fun scan_transcript :: "nat \<Rightarrow> string list \<Rightarrow> transcript_state \<Rightarrow> nat + transcript_state" where
  "scan_transcript n [] st = Inr st"
| "scan_transcript n (l # ls) st =
     (let text = TrimSpace l in
      if text = '''' then scan_transcript (n + 1) ls st
      else case Unmarshal dec_transcriptLine \<lparr>line_Type = '''', line_Timestamp = 0, Part = None\<rparr> text of
        (v, ok) \<Rightarrow> if ok then scan_transcript (n + 1) ls (transcript_line v st) else Inl (n + 1))"

definition verification_failed :: "commandEvent \<Rightarrow> bool" where
  "verification_failed e \<longleftrightarrow> ExitCode e \<noteq> Some 0 \<and> (event_Category e = ''build'' \<or> event_Category e = ''test'')"

datatype transcript_error = TranscriptUnreadable | TranscriptLine nat | TranscriptTooLong

definition parseTranscript :: "filesystem \<Rightarrow> string \<Rightarrow> string \<Rightarrow> string
    \<Rightarrow> transcript_error + Usage \<times> commandEvent list \<times> Process" where
  "parseTranscript fs runDir name treatment =
     (case ReadFile fs (Join runDir name) of
        None \<Rightarrow> Inl TranscriptUnreadable
      | Some data \<Rightarrow>
          (case scan_transcript 0 (fst (scan_lines data))
             \<lparr>inputSum = 0, outputSum = 0, tokenLines = 0, turns = 0, ts_events = [], ts_touched = []\<rparr> of
             Inl n \<Rightarrow> Inl (TranscriptLine n)
           | Inr st \<Rightarrow>
               if snd (scan_lines data) then Inl TranscriptTooLong
               else (let failed = filter verification_failed (ts_events st) in
                 Inr (\<lparr>InputTokens = (if tokenLines st > 0 then Some (inputSum st) else None),
                       OutputTokens = (if tokenLines st > 0 then Some (outputSum st) else None),
                       Turns = int (turns st), ToolCalls = int (length (ts_events st))\<rparr>,
                      ts_events st,
                      \<lparr>RepairIterations = int (length failed), FilesTouched = int (length (remdups (ts_touched st))),
                       Diff = \<lparr>ContractLines = 0, HandwrittenLines = 0, GeneratedLines = 0\<rparr>,
                       CompilerEvents = List.map_filter (\<lambda>e. extractCompilerEvent e treatment) failed\<rparr>))))"

section \<open>Command files\<close>

definition event_json :: "commandEvent \<Rightarrow> json" where
  "event_json e = JObject
     ([(''index'', JNumber (FormatInt (Index e))), (''startedAt'', JString (event_StartedAt e)),
       (''finishedAt'', JString (event_FinishedAt e)), (''command'', JString (Command e))]
      @ (if WorkingDirectory e = '''' then [] else [(''workingDirectory'', JString (WorkingDirectory e))])
      @ [(''exitCode'', case ExitCode e of None \<Rightarrow> JNull | Some n \<Rightarrow> JNumber (FormatInt n)),
         (''timedOut'', JBool (TimedOut e)), (''category'', JString (event_Category e)),
         (''stdoutPath'', JString (StdoutPath e)), (''stderrPath'', JString (StderrPath e))])"

definition stdout_rel :: "commandEvent \<Rightarrow> string" where
  "stdout_rel e = ''commands/'' @ zero_pad 4 (nat (Index e)) @ ''.stdout.txt''"

definition stderr_rel :: "commandEvent \<Rightarrow> string" where
  "stderr_rel e = ''commands/'' @ zero_pad 4 (nat (Index e)) @ ''.stderr.txt''"

fun write_outputs :: "filesystem \<Rightarrow> string \<Rightarrow> commandEvent list \<Rightarrow> (filesystem \<times> commandEvent list) option" where
  "write_outputs fs runDir [] = Some (fs, [])"
| "write_outputs fs runDir (e # es) =
     Option.bind (WriteFile fs (Join runDir (stdout_rel e)) (event_stdout e)) (\<lambda>fs.
     Option.bind (WriteFile fs (Join runDir (stderr_rel e)) (event_stderr e)) (\<lambda>fs.
     map_option (\<lambda>(fs, es'). (fs, e\<lparr>StdoutPath := stdout_rel e, StderrPath := stderr_rel e\<rparr> # es'))
       (write_outputs fs runDir es)))"

definition writeCommands :: "filesystem \<Rightarrow> string \<Rightarrow> string \<Rightarrow> commandEvent list \<Rightarrow> filesystem option" where
  "writeCommands fs runDir name events =
     Option.bind (Mkdir fs (Join runDir ''commands'')) (\<lambda>fs.
     Option.bind (write_outputs fs runDir events) (\<lambda>(fs, events).
       WriteFile fs (Join runDir name) (MarshalIndent (JArray (map event_json events)) @ [CHR 0x0A])))"

section \<open>The final patch\<close>

definition classifyPath :: "string \<Rightarrow> string \<Rightarrow> string" where
  "classifyPath path treatment =
     (if HasPrefix path ''api/'' \<or> HasPrefix path ''db/'' then ''contract''
      else if isGeneratedPath path treatment then ''generated''
      else ''handwritten'')"

definition account :: "string \<Rightarrow> string \<Rightarrow> DiffLines \<Rightarrow> DiffLines" where
  "account treatment current diff =
     (if current = '''' then diff
      else if classifyPath current treatment = ''contract'' then diff\<lparr>ContractLines := ContractLines diff + 1\<rparr>
      else if classifyPath current treatment = ''generated'' then diff\<lparr>GeneratedLines := GeneratedLines diff + 1\<rparr>
      else diff\<lparr>HandwrittenLines := HandwrittenLines diff + 1\<rparr>)"

text \<open>The loop: the old path, the current path and the counts so far.\<close>

fun scan_patch :: "string \<Rightarrow> string list \<Rightarrow> string \<Rightarrow> string \<Rightarrow> DiffLines \<Rightarrow> DiffLines" where
  "scan_patch treatment [] oldPath current diff = diff"
| "scan_patch treatment (l # ls) oldPath current diff =
     (if HasPrefix l ''--- '' then
        scan_patch treatment ls (TrimPrefix (TrimSpace (TrimPrefix l ''---'')) ''a/'') current diff
      else if HasPrefix l ''+++ '' then
        (let target = TrimSpace (TrimPrefix l ''+++'') in
         scan_patch treatment ls oldPath (if target = ''/dev/null'' then oldPath else TrimPrefix target ''b/'') diff)
      else if HasPrefix l ''+'' \<or> HasPrefix l ''-'' then
        scan_patch treatment ls oldPath current (account treatment current diff)
      else scan_patch treatment ls oldPath current diff)"

text \<open>\<^const>\<open>None\<close>: the patch cannot be opened or has a line that is too long.\<close>

definition classifyPatch :: "filesystem \<Rightarrow> string \<Rightarrow> string \<Rightarrow> DiffLines option" where
  "classifyPatch fs path treatment =
     Option.bind (ReadFile fs path) (\<lambda>data.
       if snd (scan_lines data) then None
       else Some (scan_patch treatment (fst (scan_lines data)) '''' ''''
              \<lparr>ContractLines = 0, HandwrittenLines = 0, GeneratedLines = 0\<rparr>))"

end
