(* ===== verification/Run_Evaluator.thy ===== *)
theory Run_Evaluator
  imports Run_Transcript
begin

text \<open>
  \<open>harness/runresult/evaluator.go\<close>: the hidden evaluator is run on the preserved
  workspace, without provider credentials in its environment, and its output is classified into an
  evaluation or a failure. The process itself is a parameter that maps arguments and environment
  to its result.
\<close>

definition providerCredentialVariables :: "string list" where
  "providerCredentialVariables = [''OPENROUTER_API_KEY'']"

definition withoutProviderCredentials :: "string list \<Rightarrow> string list" where
  "withoutProviderCredentials env =
     filter (\<lambda>entry. \<not> list_ex (\<lambda>key. HasPrefix entry (key @ ''='')) providerCredentialVariables) env"

record failureNote =
  note_status :: string
  note_category :: string
  note_evidence :: string

definition statusSubmitted :: string where "statusSubmitted = ''submitted''"
definition statusTimedOut :: string where "statusTimedOut = ''timed-out''"
definition statusInfraFail :: string where "statusInfraFail = ''infrastructure-failure''"
definition statusHarnessFail :: string where "statusHarnessFail = ''harness-failure''"

definition infraCategoryHarnessCrash :: string where "infraCategoryHarnessCrash = ''harness-process-crash''"
definition infraCategoryRuntimeFailure :: string where "infraCategoryRuntimeFailure = ''host-container-runtime-failure''"
definition infraCategoryEvaluatorFailure :: string where "infraCategoryEvaluatorFailure = ''evaluator-infrastructure-failure''"

datatype roster_error = RosterUnknown string | RosterDuplicate string | RosterMissing string

fun scan_roster :: "string list \<Rightarrow> evaluatorCase list \<Rightarrow> string list \<Rightarrow> roster_error + string list" where
  "scan_roster manifestIDs [] seen = Inr seen"
| "scan_roster manifestIDs (c # cs) seen =
     (if ec_ID c \<notin> set manifestIDs then Inl (RosterUnknown (ec_ID c))
      else if ec_ID c \<in> set seen then Inl (RosterDuplicate (ec_ID c))
      else scan_roster manifestIDs cs (ec_ID c # seen))"

definition checkRoster :: "evaluatorCase list \<Rightarrow> string list \<Rightarrow> roster_error option" where
  "checkRoster cases manifestIDs =
     (case scan_roster manifestIDs cases [] of
        Inl err \<Rightarrow> Some err
      | Inr seen \<Rightarrow>
          (case filter (\<lambda>i. i \<notin> set seen) manifestIDs of i # _ \<Rightarrow> Some (RosterMissing i) | [] \<Rightarrow> None))"

definition roster_text :: "externals \<Rightarrow> roster_error \<Rightarrow> string" where
  "roster_text ext e = (case e of
       RosterUnknown i \<Rightarrow> ''unknown case id '' @ quote_text ext i
     | RosterDuplicate i \<Rightarrow> ''duplicate case id '' @ quote_text ext i
     | RosterMissing i \<Rightarrow> ''missing case id '' @ quote_text ext i)"

definition harness_crash :: "string \<Rightarrow> failureNote" where
  "harness_crash evidence =
     \<lparr>note_status = statusHarnessFail, note_category = infraCategoryHarnessCrash, note_evidence = evidence\<rparr>"

definition raw_output :: "string \<Rightarrow> string" where
  "raw_output stdout = (if length stdout = 0 then ''null'' @ [CHR 0x0A] else stdout)"

text \<open>The classification of the process result before its output is read: the raw output and a failure, if any.\<close>

definition process_failure :: "command_result \<Rightarrow> failureNote option" where
  "process_failure r =
     (case r of
        DeadlineExceeded stdout stderr \<Rightarrow> Some (harness_crash ''evaluator exceeded the 16 minute assembly deadline'')
      | NotStarted err \<Rightarrow> Some (harness_crash (''start evaluator: '' @ err))
      | Exited code stdout stderr \<Rightarrow>
          if code = 2 then Some (harness_crash (''evaluator rejected the invocation (exit 2): '' @ trimEvidence stderr))
          else if code \<noteq> 0 \<and> code \<noteq> 1
          then Some (harness_crash (''evaluator exited with unexpected code '' @ FormatInt code @ '': '' @ trimEvidence stderr))
          else None)"

definition command_stdout :: "command_result \<Rightarrow> string" where
  "command_stdout r = (case r of Exited _ stdout _ \<Rightarrow> stdout | DeadlineExceeded stdout _ \<Rightarrow> stdout | NotStarted _ \<Rightarrow> '''')"

definition command_stderr :: "command_result \<Rightarrow> string" where
  "command_stderr r = (case r of Exited _ _ stderr \<Rightarrow> stderr | DeadlineExceeded _ stderr \<Rightarrow> stderr | NotStarted _ \<Rightarrow> '''')"

definition evaluator_command :: "string \<Rightarrow> string \<Rightarrow> string \<Rightarrow> string list" where
  "evaluator_command evaluatorBin task workspaceDir =
     (let arguments = [''-task'', task, ''-candidate'', workspaceDir, ''-output'', ''-'']
      in if HasSuffix evaluatorBin ''.sh'' then ''bash'' # evaluatorBin # arguments else evaluatorBin # arguments)"

definition embed_case :: "evaluatorCase \<Rightarrow> behaviorCase" where
  "embed_case c = \<lparr>case_ID = ec_ID c, Applicable = ec_Applicable c, Passed = ec_Passed c,
     case_Evidence = (if ec_Applicable c then Some (ec_Evidence c) else None)\<rparr>"

definition all_gates :: "CommonGates \<Rightarrow> bool" where
  "all_gates g \<longleftrightarrow> FormalInputs g \<and> Build g \<and> Migrations g \<and> ServiceStart g \<and> BaselineBehavior g
     \<and> TaskBehavior g \<and> Regressions g \<and> APIConformance g \<and> DatabaseConsistency g"

definition case_failed :: "evaluatorCase \<Rightarrow> bool" where
  "case_failed c \<longleftrightarrow> ec_Applicable c \<and> ec_Passed c \<noteq> Some True"

text \<open>The evaluation made of a trustworthy standalone result, before the codegen health check.\<close>

definition embed_evaluation :: "externals \<Rightarrow> filesystem \<Rightarrow> string \<Rightarrow> string \<Rightarrow> cell \<Rightarrow> evaluatorResult \<Rightarrow> Evaluation" where
  "embed_evaluation ext fs root workspaceDir c standalone =
     (let (formalOK, formalEvidence) =
            checkFormalInputs ext fs workspaceDir c (Join (Join root ''tasks'') ''propagation'');
          gates = deriveGates standalone formalOK (Task c);
          cases = er_BehaviorCases standalone
      in \<lparr>eval_CompleteSuccess = (all_gates gates \<and> \<not> list_ex case_failed cases),
          eval_CommonGates = gates, eval_BehaviorCases = map embed_case cases, eval_CodegenHealth = None,
          eval_CandidateTests = countCandidateTests fs workspaceDir,
          ResidualFailures = sort
            ((if \<not> formalOK \<and> formalEvidence \<noteq> '''' then [''gate:formal-inputs: '' @ formalEvidence] else [])
             @ map ec_ID (filter case_failed cases))\<rparr>)"

record run_options =
  opt_runDir :: string
  opt_root :: string
  opt_evaluatorBin :: string
  opt_codegenImage :: string

text \<open>
  \<open>cleanupLabeledEvaluator\<close>: the Docker commands it issues. \<open>docker\<close> maps a listing command to
  what it prints, \<^const>\<open>None\<close> when it fails. \<open>os.Getenv\<close> takes the first entry of a name.
\<close>

definition Getenv :: "string list \<Rightarrow> string \<Rightarrow> string" where
  "Getenv environ key =
     (case find (\<lambda>entry. HasPrefix entry (key @ ''='')) environ of
        None \<Rightarrow> '''' | Some entry \<Rightarrow> drop (length key + 1) entry)"

definition cleanupLabeledEvaluator :: "string list \<Rightarrow> (string list \<Rightarrow> string option) \<Rightarrow> string list list" where
  "cleanupLabeledEvaluator environ docker =
     (let runID = Getenv environ ''EXPERIMENT_RUN_ID''; instanceID = Getenv environ ''EXPERIMENT_INSTANCE_ID'' in
      if runID = '''' \<or> instanceID = '''' then []
      else let ps = [''ps'', ''-aq'', ''--filter'', ''label=experiment.run-id='' @ runID, ''--filter'',
             ''label=experiment.instance-id='' @ instanceID]
        in case docker ps of
          None \<Rightarrow> [ps]
        | Some output \<Rightarrow>
            ps # concat (map (\<lambda>i. [[''stop'', ''--time'', ''20'', i], [''rm'', ''-f'', i]]) (Fields output)))"

text \<open>
  The result: the Docker commands of the cleanup and the raw output kept as \<open>evaluation.json\<close>, then
  the failure or the evaluation.
\<close>

definition evaluateCandidate ::
  "externals \<Rightarrow> string list \<Rightarrow> filesystem \<Rightarrow> run_options \<Rightarrow> string \<Rightarrow> string \<Rightarrow> string \<Rightarrow> cell \<Rightarrow> string list
     \<Rightarrow> (string list list \<times> string) \<times> (failureNote + Evaluation)" where
  "evaluateCandidate ext environ fs opts evaluatorBin root workspaceDir c manifestIDs =
     (let r = evaluator_process ext (evaluator_command evaluatorBin (Task c) workspaceDir) (withoutProviderCredentials environ);
          raw = raw_output (command_stdout r)
      in ((cleanupLabeledEvaluator environ (docker_ps ext), raw),
        case process_failure r of
          Some note \<Rightarrow> Inl note
        | None \<Rightarrow>
       (case Unmarshal dec_evaluatorResult no_evaluatorResult (command_stdout r) of
          (standalone, ok) \<Rightarrow>
            if \<not> ok \<or> length (er_BehaviorCases standalone) = 0
            then Inl (harness_crash (''evaluator produced no parseable result JSON: '' @ trimEvidence (command_stderr r)))
            else if \<not> Postgres (Setup standalone)
            then Inl \<lparr>note_status = statusInfraFail, note_category = infraCategoryEvaluatorFailure,
              note_evidence = (if setup_Evidence (Setup standalone) = ''''
                then ''evaluator could not start the pinned PostgreSQL container'' else setup_Evidence (Setup standalone))\<rparr>
            else
       (case checkRoster (er_BehaviorCases standalone) manifestIDs of
          Some err \<Rightarrow> Inl (harness_crash (''evaluator roster mismatch: '' @ roster_text ext err))
        | None \<Rightarrow>
            (let ev = embed_evaluation ext fs root workspaceDir c standalone in
             if Treatment c = ''codegen'' then
               (case measureCodegenHealth ext workspaceDir (opt_codegenImage opts) of
                  Inl err \<Rightarrow> Inl \<lparr>note_status = statusInfraFail, note_category = infraCategoryRuntimeFailure,
                    note_evidence = ''codegen health check environment failed: '' @ err\<rparr>
                | Inr health \<Rightarrow> Inr (ev\<lparr>eval_CodegenHealth := Some health\<rparr>))
             else Inr ev)))))"

section \<open>Properties\<close>

lemma scan_roster_Inr:
  "scan_roster ids cs seen = Inr seen' \<longleftrightarrow>
     set (map ec_ID cs) \<subseteq> set ids \<and> distinct (map ec_ID cs) \<and> set (map ec_ID cs) \<inter> set seen = {}
     \<and> seen' = rev (map ec_ID cs) @ seen"
  by (induction cs arbitrary: seen) auto

lemma checkRoster_None:
  "checkRoster cases manifestIDs = None \<longleftrightarrow>
     distinct (map ec_ID cases) \<and> set (map ec_ID cases) = set manifestIDs"
proof (cases "scan_roster manifestIDs cases []")
  case (Inl err)
  then have "\<not> (set (map ec_ID cases) \<subseteq> set manifestIDs \<and> distinct (map ec_ID cases))"
    using scan_roster_Inr [of manifestIDs cases "[]" "rev (map ec_ID cases)"] by auto
  then show ?thesis using Inl by (auto simp: checkRoster_def)
next
  case (Inr seen)
  then have "set (map ec_ID cases) \<subseteq> set manifestIDs" "distinct (map ec_ID cases)" "seen = rev (map ec_ID cases)"
    using scan_roster_Inr [of manifestIDs cases "[]" seen] by auto
  then show ?thesis using Inr
    by (auto simp: checkRoster_def filter_empty_conv split: list.splits dest: filter_eq_ConsD)
qed

text \<open>
  C30: the roster check passes exactly when the evaluator reported every case of the
  manifest once and no other, in whatever order.
\<close>

theorem roster_exact:
  "checkRoster cases manifestIDs = None \<longleftrightarrow>
     distinct (map ec_ID cases) \<and> set (map ec_ID cases) = set manifestIDs"
  by (rule checkRoster_None)

lemma withoutProviderCredentials_credential:
  "withoutProviderCredentials (before @ (''OPENROUTER_API_KEY='' @ key) # behind) = withoutProviderCredentials (before @ behind)"
  by (simp add: withoutProviderCredentials_def providerCredentialVariables_def HasPrefix_iff)

lemma Getenv_credential:
  assumes "\<not> HasPrefix (''OPENROUTER_API_KEY='' @ v) (key @ ''='')"
  shows "Getenv (before @ (''OPENROUTER_API_KEY='' @ v) # behind) key = Getenv (before @ behind) key"
proof -
  have "find (\<lambda>entry. HasPrefix entry (key @ ''='')) (before @ (''OPENROUTER_API_KEY='' @ v) # behind)
      = find (\<lambda>entry. HasPrefix entry (key @ ''='')) (before @ behind)"
    using assms by (induction before) simp_all
  then show ?thesis by (simp only: Getenv_def)
qed

lemma cleanup_credential:
  "cleanupLabeledEvaluator (before @ (''OPENROUTER_API_KEY='' @ v) # behind) docker = cleanupLabeledEvaluator (before @ behind) docker"
proof -
  have "Getenv (before @ (''OPENROUTER_API_KEY='' @ v) # behind) key = Getenv (before @ behind) key"
    if "key = CHR ''E'' # rest" for key rest
    by (rule Getenv_credential) (simp add: HasPrefix_iff that)
  from this [OF refl] show ?thesis unfolding cleanupLabeledEvaluator_def by (simp only:)
qed

text \<open>
  The provider key does not influence the evaluation. Whatever value it has and wherever it
  stands in the environment, the evaluator sees the environment without it and the outcome is
  the one of a run without the key.
\<close>

theorem credentials_do_not_influence:
  "evaluateCandidate ext (before @ (''OPENROUTER_API_KEY='' @ key) # behind) fs opts evaluatorBin root workspaceDir c ids
     = evaluateCandidate ext (before @ behind) fs opts evaluatorBin root workspaceDir c ids
   \<and> withoutProviderCredentials (before @ (''OPENROUTER_API_KEY='' @ key) # behind) = withoutProviderCredentials (before @ behind)"
  unfolding evaluateCandidate_def withoutProviderCredentials_credential cleanup_credential by (rule conjI refl)+

section \<open>The assembled evaluation is the one \<open>freezecheck\<close> accepts\<close>

definition gates_list :: "CommonGates \<Rightarrow> (string \<times> bool) list" where
  "gates_list g =
     [(''formal-inputs'', FormalInputs g), (''build'', Build g), (''migrations'', Migrations g),
      (''service-start'', ServiceStart g), (''baseline-behavior'', BaselineBehavior g),
      (''task-behavior'', TaskBehavior g), (''regressions'', Regressions g), (''api-conformance'', APIConformance g),
      (''database-consistency'', DatabaseConsistency g)]"

text \<open>What \<open>freezecheck\<close> decodes of an assembled evaluation.\<close>

definition as_evaluation :: "Evaluation \<Rightarrow> evaluation" where
  "as_evaluation ev = \<lparr>CompleteSuccess = eval_CompleteSuccess ev, CommonGates = gates_list (eval_CommonGates ev),
     BehaviorCases = eval_BehaviorCases ev\<rparr>"

text \<open>
  What the evaluator promises of each case of the manifest: the applicability is the manifest's, an applicable case has a
  verdict and evidence, another has no verdict.
\<close>

definition reported :: "string \<Rightarrow> caseManifest \<Rightarrow> evaluatorCase \<Rightarrow> bool" where
  "reported task manifest c \<longleftrightarrow> (\<forall>spec. expected_cases manifest (ec_ID c) = Some spec \<longrightarrow>
     ec_Applicable c = applies task spec
     \<and> (if ec_Applicable c then ec_Passed c \<noteq> None \<and> TrimSpace (ec_Evidence c) \<noteq> '''' else ec_Passed c = None))"

definition honest_evaluator :: "externals \<Rightarrow> string \<Rightarrow> caseManifest \<Rightarrow> bool" where
  "honest_evaluator ext task manifest \<longleftrightarrow> (\<forall>argv environ standalone.
     Unmarshal dec_evaluatorResult no_evaluatorResult (command_stdout (evaluator_process ext argv environ)) = (standalone, True)
       \<longrightarrow> list_all (reported task manifest) (er_BehaviorCases standalone))"

lemma evaluateCandidate_Inr:
  assumes "evaluateCandidate ext environ fs opts bin root ws c ids = (raw, Inr ev)"
  obtains standalone where
    "Unmarshal dec_evaluatorResult no_evaluatorResult (command_stdout (evaluator_process ext
       (evaluator_command bin (Task c) ws) (withoutProviderCredentials environ))) = (standalone, True)"
    "checkRoster (er_BehaviorCases standalone) ids = None"
    "as_evaluation ev = as_evaluation (embed_evaluation ext fs root ws c standalone)"
proof -
  let ?r = "evaluator_process ext (evaluator_command bin (Task c) ws) (withoutProviderCredentials environ)"
  obtain standalone ok where u: "Unmarshal dec_evaluatorResult no_evaluatorResult (command_stdout ?r) = (standalone, ok)"
    by fastforce
  have "ok" "checkRoster (er_BehaviorCases standalone) ids = None"
    "as_evaluation ev = as_evaluation (embed_evaluation ext fs root ws c standalone)"
    using assms u by (auto simp: evaluateCandidate_def Let_def as_evaluation_def split: option.splits if_splits sum.splits)
  with u that [of standalone] show thesis by simp
qed

lemma embedded_contract:
  assumes "checkRoster (er_BehaviorCases standalone) ids = None" "set ids = set (map mc_ID manifest)"
    "list_all (reported (Task c) manifest) (er_BehaviorCases standalone)" "list_all Required manifest"
  shows "evaluation_contract (Task c) manifest (as_evaluation (embed_evaluation ext fs root ws c standalone))"
proof -
  let ?cases = "er_BehaviorCases standalone" and ?ev = "embed_evaluation ext fs root ws c standalone"
  have items: "eval_BehaviorCases ?ev = map embed_case ?cases"
    by (simp add: embed_evaluation_def Let_def split: prod.splits)
  have ids: "case_ID \<circ> embed_case = ec_ID" by (simp add: embed_case_def fun_eq_iff)
  have roster: "distinct (map ec_ID ?cases)" "set (map ec_ID ?cases) = set (map mc_ID manifest)"
    using assms(1,2) checkRoster_None by auto
  have known: "\<exists>spec. expected_cases manifest (ec_ID x) = Some spec \<and> snd spec" if "x \<in> set ?cases" for x
  proof -
    have "ec_ID x \<in> dom (expected_cases manifest)" using that roster(2) expected_cases_dom by (metis image_eqI list.set_map)
    then obtain spec where s: "expected_cases manifest (ec_ID x) = Some spec" by blast
    then have "(ec_ID x, spec) \<in> set (map (\<lambda>item. (mc_ID item, (mc_Task item, Required item))) manifest)"
      unfolding expected_cases_def by (metis map_of_SomeD set_rev)
    then have "snd spec" using assms(4) by (auto simp: list_all_iff)
    with s show ?thesis by blast
  qed
  have rep: "reported (Task c) manifest x" if "x \<in> set ?cases" for x using assms(3) that by (simp add: list_all_iff)
  have ok: "case_ok (Task c) spec (embed_case x)" and up: "holds_up (Task c) spec (embed_case x) \<longleftrightarrow> \<not> case_failed x"
    if "x \<in> set ?cases" "expected_cases manifest (ec_ID x) = Some spec" for x spec
    using rep [OF that(1)] known [OF that(1)] that(2)
    by (auto simp: reported_def case_ok_def holds_up_def case_failed_def embed_case_def blank_def valueOrEmpty_def split: if_splits)
  have "cases_ok (Task c) (expected_cases manifest) (map embed_case ?cases)"
    unfolding cases_ok_def list_all_iff using known ok by (fastforce simp: embed_case_def)
  moreover have "all_hold_up (Task c) (expected_cases manifest) (map embed_case ?cases) \<longleftrightarrow> \<not> list_ex case_failed ?cases"
  proof -
    have "all_hold_up (Task c) (expected_cases manifest) (map embed_case ?cases)
        \<longleftrightarrow> (\<forall>x \<in> set ?cases. \<forall>spec. expected_cases manifest (ec_ID x) = Some spec \<longrightarrow> holds_up (Task c) spec (embed_case x))"
      by (auto simp: all_hold_up_def list_all_iff embed_case_def)
    also have "\<dots> \<longleftrightarrow> (\<forall>x \<in> set ?cases. \<not> case_failed x)" using known up by metis
    finally show ?thesis by (auto simp: list_ex_iff)
  qed
  moreover have "list_all snd (gates_list (eval_CommonGates ?ev)) \<longleftrightarrow> all_gates (eval_CommonGates ?ev)"
    by (auto simp: gates_list_def all_gates_def)
  moreover have "eval_CompleteSuccess ?ev \<longleftrightarrow> all_gates (eval_CommonGates ?ev) \<and> \<not> list_ex case_failed ?cases"
    by (simp add: embed_evaluation_def Let_def split: prod.splits)
  ultimately show ?thesis
    using roster items by (simp add: evaluation_contract_def as_evaluation_def ids image_comp)
qed

text \<open>
  The assembler implements what the validator demands. When the case manifest marks
  every case as required and the evaluator reports cases as it promises, an
  evaluation that \<open>evaluateCandidate\<close> returns meets the contract that \<open>freezecheck run\<close>
  enforces, \<open>completeSuccess\<close> included.
\<close>

theorem assembled_evaluation_accepted:
  assumes "evaluateCandidate ext environ fs opts bin root ws c ids = (raw, Inr ev)"
    "honest_evaluator ext (Task c) manifest" "set ids = set (map mc_ID manifest)" "list_all Required manifest"
  shows "evaluation_contract (Task c) manifest (as_evaluation ev)"
proof -
  obtain standalone where s:
    "Unmarshal dec_evaluatorResult no_evaluatorResult (command_stdout (evaluator_process ext
       (evaluator_command bin (Task c) ws) (withoutProviderCredentials environ))) = (standalone, True)"
    "checkRoster (er_BehaviorCases standalone) ids = None"
    "as_evaluation ev = as_evaluation (embed_evaluation ext fs root ws c standalone)"
    by (rule evaluateCandidate_Inr [OF assms(1)])
  then have "list_all (reported (Task c) manifest) (er_BehaviorCases standalone)"
    using assms(2) unfolding honest_evaluator_def by blast
  then show ?thesis unfolding s(3) by (rule embedded_contract [OF s(2) assms(3) _ assms(4)])
qed

text \<open>A small evaluator for the witness: one required case, applicable to every task, that passes.\<close>

definition sample_output :: json where
  "sample_output = JObject
     [(''completeSuccess'', JBool True), (''setup'', JObject [(''postgres'', JBool True)]),
      (''behaviorCases'', JArray [JObject [(''id'', JString ''a''), (''applicable'', JBool True),
         (''passed'', JBool True), (''evidence'', JString ''seen'')]])]"

definition sample_ext :: externals where
  "sample_ext = \<lparr>yaml_keys = (\<lambda>_. Inr []), open_error = (\<lambda>_. ''''), json_error = (\<lambda>_. ''''), quote_text = (\<lambda>s. s),
     codegen_container = (\<lambda>_ _. NotStarted ''''), evaluator_process = (\<lambda>_ _. Exited 0 (MarshalIndent sample_output) ''''),
     docker_ps = (\<lambda>_. None)\<rparr>"

definition sample_manifest :: caseManifest where
  "sample_manifest = [\<lparr>mc_ID = ''a'', mc_Task = ''all'', Required = True\<rparr>]"

definition sample_case :: evaluatorCase where
  "sample_case = \<lparr>ec_ID = ''a'', ec_Applicable = True, ec_Passed = Some True, ec_Evidence = ''seen''\<rparr>"

lemma sample_decoded:
  "Unmarshal dec_evaluatorResult no_evaluatorResult (MarshalIndent sample_output) =
     (\<lparr>er_CompleteSuccess = True, Setup = \<lparr>Postgres = True, setup_Build = False, setup_Migrations = False, Ready = False,
        setup_Evidence = ''''\<rparr>, er_BehaviorCases = [sample_case]\<rparr>, True)"
proof -
  have "parse_json (MarshalIndent sample_output) = Some sample_output"
    using parse_printed [of sample_output "[]"] by (simp add: sample_output_def)
  then show ?thesis
    by (simp add: Unmarshal_def sample_output_def dec_evaluatorResult_def no_evaluatorResult_def sample_case_def
        dec_struct_def select_field_def at_field_def dec_slice_def dec_bool_def dec_ptr_def dec_string_def)
qed

lemma sample_honest: "honest_evaluator sample_ext task sample_manifest"
proof -
  have "TrimSpace ''seen'' \<noteq> ''''" by (simp add: TrimSpace_head IsSpace_def)
  then have "reported task sample_manifest sample_case"
    by (simp add: reported_def sample_case_def expected_cases_def sample_manifest_def applies_def)
  then show ?thesis
    by (auto simp: honest_evaluator_def sample_ext_def command_stdout_def sample_decoded)
qed

theorem assembled_evaluation_accepted_witness:
  "\<exists>raw ev. evaluateCandidate sample_ext [] sample_fs
       \<lparr>opt_runDir = '''', opt_root = '''', opt_evaluatorBin = '''', opt_codegenImage = ''''\<rparr> ''e'' ''/'' ''/run''
       \<lparr>ID = ''c'', Stage = ''s'', Task = ''t'', Mode = ''m'', Treatment = ''direct''\<rparr> [''a''] = (raw, Inr ev)
     \<and> evaluation_contract ''t'' sample_manifest (as_evaluation ev)"
proof -
  let ?c = "\<lparr>ID = ''c'', Stage = ''s'', Task = ''t'', Mode = ''m'', Treatment = ''direct''\<rparr>"
  let ?o = "\<lparr>opt_runDir = '''', opt_root = '''', opt_evaluatorBin = '''', opt_codegenImage = ''''\<rparr>"
  have "\<exists>raw ev. evaluateCandidate sample_ext [] sample_fs ?o ''e'' ''/'' ''/run'' ?c [''a''] = (raw, Inr ev)"
    by (simp add: evaluateCandidate_def sample_ext_def process_failure_def command_stdout_def sample_decoded
        checkRoster_def sample_case_def)
  then obtain raw ev where e: "evaluateCandidate sample_ext [] sample_fs ?o ''e'' ''/'' ''/run'' ?c [''a''] = (raw, Inr ev)"
    by blast
  have "evaluation_contract (Task ?c) sample_manifest (as_evaluation ev)"
    by (rule assembled_evaluation_accepted [OF e sample_honest]) (simp_all add: sample_manifest_def)
  with e show ?thesis by auto
qed

end
