(* ===== verification/Run_Main.thy ===== *)
theory Run_Main
  imports Run_Evaluator
begin

text \<open>
  \<open>harness/runresult/manifest.go\<close>, \<open>validate.go\<close> and \<open>main.go\<close>: the workspace manifest and the
  assembly of \<open>run-result.json\<close> from a preserved run directory. \<open>assemble\<close> returns the
  file system it leaves behind together with its error or the result it wrote.
\<close>

section \<open>The workspace manifest\<close>

text \<open>\<open>hashFile\<close> of this package opens any file; the walk hands it regular files only.\<close>

definition hash_walked :: "filesystem \<Rightarrow> string \<Rightarrow> string list \<Rightarrow> manifestFile option" where
  "hash_walked fs workspaceDir rel =
     map_option (\<lambda>s. \<lparr>Path = slash_path rel, SHA256 = sha256_hex s, SizeBytes = int (length s)\<rparr>)
       (ReadFile fs (Join workspaceDir (slash_path rel)))"

fun collect_files :: "filesystem \<Rightarrow> string \<Rightarrow> visit list \<Rightarrow> manifestFile list option" where
  "collect_files fs workspaceDir [] = Some []"
| "collect_files fs workspaceDir (VisitError rel # vs) = None"
| "collect_files fs workspaceDir (VisitFile rel n # vs) =
     (if \<not> IsRegular n then collect_files fs workspaceDir vs
      else Option.bind (hash_walked fs workspaceDir rel) (\<lambda>entry.
        map_option (\<lambda>es. entry # es) (collect_files fs workspaceDir vs)))"

definition build_manifest :: "filesystem \<Rightarrow> string \<Rightarrow> workspaceManifest option" where
  "build_manifest fs workspaceDir =
     (case Stat fs workspaceDir of
        Some (Directory _ _) \<Rightarrow>
          map_option (\<lambda>es. \<lparr>manifest_SchemaVersion = 1, Files = sort_key Path es\<rparr>)
            (collect_files fs workspaceDir (walk_workspace fs workspaceDir))
      | _ \<Rightarrow> Some \<lparr>manifest_SchemaVersion = 1, Files = []\<rparr>)"

definition manifest_json :: "workspaceManifest \<Rightarrow> json" where
  "manifest_json m = JObject
     [(''schemaVersion'', JNumber (FormatInt (manifest_SchemaVersion m))),
      (''files'', JArray (map (\<lambda>e. JObject [(''path'', JString (Path e)), (''sha256'', JString (SHA256 e)),
         (''sizeBytes'', JNumber (FormatInt (SizeBytes e)))]) (Files m)))]"

definition writeWorkspaceManifest :: "filesystem \<Rightarrow> string \<Rightarrow> string \<Rightarrow> filesystem option" where
  "writeWorkspaceManifest fs workspaceDir outputPath =
     Option.bind (build_manifest fs workspaceDir) (\<lambda>m.
       WriteFile fs outputPath (MarshalIndent (manifest_json m) @ [CHR 0x0A]))"

section \<open>Inputs\<close>

abbreviation maxWallClockMilliseconds :: int where
  "maxWallClockMilliseconds \<equiv> 2700000"

datatype metadata_error =
    MetadataMissing | MetadataUnparsable | MetadataIds | MetadataRepeat int | MetadataPhase string
  | MetadataTimes | MetadataOrder | MetadataWallClock int

text \<open>The decoder reads one value; text behind it is not looked at.\<close>

definition readMetadata :: "filesystem \<Rightarrow> string \<Rightarrow> metadata_error + RunMetadata" where
  "readMetadata fs path =
     (case ReadFile fs path of
        None \<Rightarrow> Inl MetadataMissing
      | Some data \<Rightarrow>
          (case parse_value (2 * length data + 1) 0 data of
             None \<Rightarrow> Inl MetadataUnparsable
           | Some (v, _) \<Rightarrow>
               (let (metadata, ok) = dec_metadata v no_metadata in
                if \<not> ok then Inl MetadataUnparsable
                else if metadata_RunID metadata = '''' \<or> metadata_CellID metadata = '''' then Inl MetadataIds
                else if metadata_RepeatIndex metadata < 1 \<or> metadata_RepeatIndex metadata > 5
                  then Inl (MetadataRepeat (metadata_RepeatIndex metadata))
                else if metadata_Phase metadata \<noteq> ''pilot'' \<and> metadata_Phase metadata \<noteq> ''measured''
                  then Inl (MetadataPhase (metadata_Phase metadata))
                else if IsZero (StartedAt metadata) \<or> IsZero (FinishedAt metadata) then Inl MetadataTimes
                else if instant (FinishedAt metadata) < instant (StartedAt metadata) then Inl MetadataOrder
                else let wall = Milliseconds (Sub (FinishedAt metadata) (StartedAt metadata)) in
                  if wall > maxWallClockMilliseconds then Inl (MetadataWallClock wall) else Inr metadata)))"

datatype input_error = InputUnreadable | InputUnparsable | CellUndefined string | DuplicateCase string | NoCases

definition dec_cells :: "cell list decoder" where
  "dec_cells = dec_struct [(''cells'', dec_slice no_cell dec_cell)]"

definition resolveCell :: "filesystem \<Rightarrow> string \<Rightarrow> string \<Rightarrow> input_error + cell" where
  "resolveCell fs path cellID =
     (case ReadFile fs path of
        None \<Rightarrow> Inl InputUnreadable
      | Some data \<Rightarrow>
          (case Unmarshal dec_cells [] data of
             (cells, ok) \<Rightarrow>
               if \<not> ok then Inl InputUnparsable
               else case find (\<lambda>c. ID c = cellID) cells of None \<Rightarrow> Inl (CellUndefined cellID) | Some c \<Rightarrow> Inr c))"

fun collect_ids :: "string list \<Rightarrow> string list \<Rightarrow> input_error + string list" where
  "collect_ids [] ids = Inr ids"
| "collect_ids (i # rest) ids = (if i \<in> set ids then Inl (DuplicateCase i) else collect_ids rest (ids @ [i]))"

definition dec_case_ids :: "string list decoder" where
  "dec_case_ids = dec_struct [(''cases'', dec_slice '''' (dec_struct [(''id'', dec_string)]))]"

definition readCaseManifest :: "filesystem \<Rightarrow> string \<Rightarrow> input_error + string list" where
  "readCaseManifest fs path =
     (case ReadFile fs path of
        None \<Rightarrow> Inl InputUnreadable
      | Some data \<Rightarrow>
          (case Unmarshal dec_case_ids [] data of
             (ids, ok) \<Rightarrow>
               if \<not> ok then Inl InputUnparsable
               else try_res (collect_ids ids []) (\<lambda>ids. if length ids = 0 then Inl NoCases else Inr ids)))"

section \<open>Timing and infrastructure\<close>

definition failureInfrastructure :: "string \<Rightarrow> string \<Rightarrow> string option \<Rightarrow> infrastructure" where
  "failureInfrastructure category evidence replaces =
     \<lparr>IsFailure = True, Category = Some category, Evidence = Some evidence, ExclusionEligible = False, Excluded = False,
      ReplacementRunID = None, ReplacesRunID = replaces\<rparr>"

text \<open>
  The first event that meets the condition decides: its start relative to the run, unless it does
  not parse or lies before the run.
\<close>

definition first_success :: "RunMetadata \<Rightarrow> (commandEvent \<Rightarrow> bool) \<Rightarrow> commandEvent list \<Rightarrow> int option" where
  "first_success metadata p events =
     (case find (\<lambda>e. p e \<and> ExitCode e = Some 0) events of
        None \<Rightarrow> None
      | Some e \<Rightarrow>
          (case Parse_RFC3339 (event_StartedAt e) of
             None \<Rightarrow> None
           | Some start \<Rightarrow>
               (let delta = Milliseconds (Sub \<lparr>instant = start, offset = 0\<rparr> (StartedAt metadata))
                in if delta \<ge> 0 then Some delta else None)))"

definition buildTiming :: "RunMetadata \<Rightarrow> commandEvent list \<Rightarrow> Timing" where
  "buildTiming metadata events =
     \<lparr>timing_StartedAt = StartedAt metadata, timing_FinishedAt = FinishedAt metadata,
      WallClockMilliseconds = Milliseconds (Sub (FinishedAt metadata) (StartedAt metadata)),
      FirstSuccessfulBuildMilliseconds = first_success metadata (\<lambda>e. event_Category e = ''build'') events,
      FirstVisibleBehaviorSuccessMilliseconds =
        first_success metadata (\<lambda>e. event_Category e = ''test'' \<and> containsMakeCheck (Command e)) events\<rparr>"

section \<open>The document\<close>

abbreviation jint :: "int \<Rightarrow> json" where "jint n \<equiv> JNumber (FormatInt n)"
abbreviation jopt :: "('a \<Rightarrow> json) \<Rightarrow> 'a option \<Rightarrow> json" where
  "jopt f x \<equiv> (case x of None \<Rightarrow> JNull | Some v \<Rightarrow> f v)"

definition violation_json :: "ProtocolViolation \<Rightarrow> json" where
  "violation_json v = JObject
     [(''category'', JString (violation_Category v)), (''timestamp'', JString (Timestamp v)),
      (''evidence'', JString (violation_Evidence v)), (''isolationForcedTermination'', JBool (IsolationForcedTermination v))]"

definition infrastructure_json :: "infrastructure \<Rightarrow> json" where
  "infrastructure_json i = JObject
     [(''isFailure'', JBool (IsFailure i)), (''category'', jopt JString (Category i)), (''evidence'', jopt JString (Evidence i)),
      (''exclusionEligible'', JBool (ExclusionEligible i)), (''excluded'', JBool (Excluded i)),
      (''replacementRunId'', jopt JString (ReplacementRunID i)), (''replacesRunId'', jopt JString (ReplacesRunID i))]"

definition timing_json :: "Timing \<Rightarrow> json" where
  "timing_json t = JObject
     [(''startedAt'', JString (Format_RFC3339Nano (timing_StartedAt t))),
      (''finishedAt'', JString (Format_RFC3339Nano (timing_FinishedAt t))),
      (''wallClockMilliseconds'', jint (WallClockMilliseconds t)),
      (''firstSuccessfulBuildMilliseconds'', jopt jint (FirstSuccessfulBuildMilliseconds t)),
      (''firstVisibleBehaviorSuccessMilliseconds'', jopt jint (FirstVisibleBehaviorSuccessMilliseconds t))]"

definition compiler_json :: "CompilerEvent \<Rightarrow> json" where
  "compiler_json e = JObject
     [(''commandIndex'', jint (CommandIndex e)), (''category'', JString (compiler_Category e)),
      (''files'', JArray (map JString (compiler_Files e))), (''locations'', JArray (map JString (Locations e))),
      (''pointsToHandwrittenAdaptation'', jopt JBool (PointsToHandwrittenAdaptation e)),
      (''followedByRelevantRepair'', jopt JBool (FollowedByRelevantRepair e))]"

definition usage_json :: "Usage \<Rightarrow> json" where
  "usage_json u = JObject
     [(''inputTokens'', jopt jint (InputTokens u)), (''outputTokens'', jopt jint (OutputTokens u)),
      (''turns'', jint (Turns u)), (''toolCalls'', jint (ToolCalls u))]"

definition process_json :: "Process \<Rightarrow> json" where
  "process_json p = JObject
     [(''repairIterations'', jint (RepairIterations p)), (''filesTouched'', jint (FilesTouched p)),
      (''diff'', JObject [(''contractLines'', jint (ContractLines (Diff p))),
         (''handwrittenLines'', jint (HandwrittenLines (Diff p))), (''generatedLines'', jint (GeneratedLines (Diff p)))]),
      (''compilerEvents'', JArray (map compiler_json (CompilerEvents p)))]"

definition artifacts_json :: "artifacts \<Rightarrow> json" where
  "artifacts_json a = JObject
     [(''metadata'', JString (Metadata a)), (''transcript'', JString (Transcript a)), (''finalPatch'', JString (FinalPatch a)),
      (''commands'', JString (Commands a)), (''evaluation'', JString (Evaluation_file a)),
      (''workspaceManifest'', JString (WorkspaceManifest a))]"

definition case_json :: "behaviorCase \<Rightarrow> json" where
  "case_json c = JObject
     [(''id'', JString (case_ID c)), (''applicable'', JBool (Applicable c)), (''passed'', jopt JBool (Passed c)),
      (''evidence'', jopt JString (case_Evidence c))]"

definition health_json :: "CodegenHealth \<Rightarrow> json" where
  "health_json h = JObject
     [(''generationSucceeded'', JBool (GenerationSucceeded h)), (''canonical'', JBool (Canonical h)),
      (''idempotent'', JBool (Idempotent h)), (''manualEditDetected'', JBool (ManualEditDetected h))]"

definition evaluation_json :: "Evaluation \<Rightarrow> json" where
  "evaluation_json ev = JObject
     [(''completeSuccess'', JBool (eval_CompleteSuccess ev)),
      (''commonGates'', JObject (map (\<lambda>(k, b). (k, JBool b)) (gates_list (eval_CommonGates ev)))),
      (''behaviorCases'', JArray (map case_json (eval_BehaviorCases ev))),
      (''codegenHealth'', jopt health_json (eval_CodegenHealth ev)),
      (''candidateTests'', JObject [(''present'', JBool (Present (eval_CandidateTests ev))),
         (''testFiles'', jint (TestFiles (eval_CandidateTests ev)))]),
      (''residualFailures'', JArray (map JString (ResidualFailures ev)))]"

definition result_json :: "RunResult \<Rightarrow> json" where
  "result_json r = JObject
     [(''schemaVersion'', jint (result_SchemaVersion r)), (''runId'', JString (result_RunID r)),
      (''cellId'', JString (result_CellID r)), (''repeatIndex'', jint (result_RepeatIndex r)),
      (''phase'', JString (result_Phase r)), (''stage'', JString (result_Stage r)), (''task'', JString (result_Task r)),
      (''mode'', JString (result_Mode r)), (''treatment'', JString (result_Treatment r)),
      (''status'', JString (result_Status r)),
      (''protocolViolations'', JArray (map violation_json (result_ProtocolViolations r))),
      (''infrastructure'', infrastructure_json (result_Infrastructure r)), (''timing'', timing_json (result_Timing r)),
      (''usage'', usage_json (result_Usage r)), (''process'', process_json (result_Process r)),
      (''artifacts'', artifacts_json (result_Artifacts r)), (''evaluation'', jopt evaluation_json (result_Evaluation r))]"

text \<open>The check of the produced document; the schema library is a parameter as in \<open>freezecheck\<close>.\<close>

definition validateRunResult :: "'doc schema_library \<Rightarrow> filesystem \<Rightarrow> string \<Rightarrow> string \<Rightarrow> schema_error option" where
  "validateRunResult lib fs schemaPath document =
     (case ReadFile fs schemaPath of
        None \<Rightarrow> Some (SchemaUnreadable schemaPath)
      | Some schemaData \<Rightarrow>
     (case UnmarshalJSON lib schemaData of
        None \<Rightarrow> Some (SchemaUnparsable schemaPath)
      | Some schemaDoc \<Rightarrow>
          (let schemaURL = ''https://example.invalid/specs-dont-hallucinate/run-result.schema.json'' in
           if \<not> AddResource lib schemaURL schemaDoc then Some SchemaNotRegistered
           else
     (case Compile lib schemaURL schemaDoc of
        None \<Rightarrow> Some SchemaNotCompiled
      | Some valid \<Rightarrow>
     (case parse_json document of
        None \<Rightarrow> Some InstanceUndecodable
      | Some v \<Rightarrow> if valid (to_any v) then None else Some SchemaViolation)))))"

section \<open>Assembly\<close>

datatype assemble_error =
    BadMetadata metadata_error
  | BadConfig input_error
  | BadCaseManifest input_error
  | ArtifactMissing string
  | WorkspaceMissing
  | WriteError string
  | NoteRequired string
  | UnsupportedStatus string
  | BadTranscript transcript_error
  | BadPatch
  | ManifestFailed
  | SchemaRejected schema_error

definition artifact_names :: artifacts where
  "artifact_names = \<lparr>Metadata = ''metadata.json'', Transcript = ''transcript.jsonl'', FinalPatch = ''final.patch'',
     Commands = ''commands.json'', Evaluation_file = ''evaluation.json'', WorkspaceManifest = ''workspace-manifest.json''\<rparr>"

definition no_failure :: "string option \<Rightarrow> infrastructure" where
  "no_failure replaces = \<lparr>IsFailure = False, Category = None, Evidence = None, ExclusionEligible = False, Excluded = False,
     ReplacementRunID = None, ReplacesRunID = replaces\<rparr>"

text \<open>The switch on the status: what is written to \<open>evaluation.json\<close>, and the final status, infrastructure and evaluation.\<close>

definition decide :: "externals \<Rightarrow> string list \<Rightarrow> filesystem \<Rightarrow> run_options \<Rightarrow> string \<Rightarrow> string \<Rightarrow> string \<Rightarrow> RunMetadata \<Rightarrow> cell
    \<Rightarrow> string list \<Rightarrow> assemble_error + string \<times> string \<times> infrastructure \<times> Evaluation option" where
  "decide ext environ fs opts evaluatorBin root workspaceDir metadata c manifestIDs =
     (if metadata_Status metadata = statusSubmitted \<or> metadata_Status metadata = statusTimedOut then
        (case Stat fs workspaceDir of
           Some (Directory _ _) \<Rightarrow>
             (case evaluateCandidate ext environ fs opts evaluatorBin root workspaceDir c manifestIDs of
                ((_, raw), Inl failure) \<Rightarrow>
                  Inr (raw, note_status failure,
                    failureInfrastructure (note_category failure) (note_evidence failure) (metadata_ReplacesRunID metadata), None)
              | ((_, raw), Inr ev) \<Rightarrow> Inr (raw, metadata_Status metadata, no_failure (metadata_ReplacesRunID metadata), Some ev))
         | _ \<Rightarrow> Inl WorkspaceMissing)
      else if metadata_Status metadata = statusInfraFail \<or> metadata_Status metadata = statusHarnessFail then
        (case metadata_Infrastructure metadata of
           None \<Rightarrow> Inl (NoteRequired (metadata_Status metadata))
         | Some note \<Rightarrow>
             if note_Category note = '''' \<or> note_Evidence note = '''' then Inl (NoteRequired (metadata_Status metadata))
             else Inr (''null'' @ [CHR 0x0A], metadata_Status metadata,
               failureInfrastructure (note_Category note) (note_Evidence note) (metadata_ReplacesRunID metadata), None))
      else Inl (UnsupportedStatus (metadata_Status metadata)))"

text \<open>The rest of the assembly, once the inputs are read and the status is decided.\<close>

definition finish :: "'doc schema_library \<Rightarrow> filesystem \<Rightarrow> string \<Rightarrow> string \<Rightarrow> string \<Rightarrow> RunMetadata \<Rightarrow> cell
    \<Rightarrow> string \<times> infrastructure \<times> Evaluation option \<Rightarrow> filesystem \<times> (assemble_error + RunResult)" where
  "finish lib fs runDir root workspaceDir metadata c decided =
     (let (status, infra, ev) = decided in
      case parseTranscript fs runDir ''transcript.jsonl'' (Treatment c) of
        Inl err \<Rightarrow> (fs, Inl (BadTranscript err))
      | Inr (usage, events, process) \<Rightarrow>
     (case writeCommands fs runDir ''commands.json'' events of
        None \<Rightarrow> (fs, Inl (WriteError ''commands.json''))
      | Some fs \<Rightarrow>
     (case classifyPatch fs (Join runDir ''final.patch'') (Treatment c) of
        None \<Rightarrow> (fs, Inl BadPatch)
      | Some diff \<Rightarrow>
     (case writeWorkspaceManifest fs workspaceDir (Join runDir ''workspace-manifest.json'') of
        None \<Rightarrow> (fs, Inl ManifestFailed)
      | Some fs \<Rightarrow>
          (let result =
             \<lparr>result_SchemaVersion = 1, result_RunID = metadata_RunID metadata, result_CellID = metadata_CellID metadata,
              result_RepeatIndex = metadata_RepeatIndex metadata, result_Phase = metadata_Phase metadata,
              result_Stage = Stage c, result_Task = Task c, result_Mode = Mode c, result_Treatment = Treatment c,
              result_Status = status, result_ProtocolViolations = ProtocolViolations metadata,
              result_Infrastructure = infra, result_Timing = buildTiming metadata events, result_Usage = usage,
              result_Process = process\<lparr>Diff := diff\<rparr>, result_Artifacts = artifact_names, result_Evaluation = ev\<rparr>;
              encoded = MarshalIndent (result_json result)
           in case validateRunResult lib fs (Join (Join root ''schemas'') ''run-result.schema.json'') encoded of
                Some err \<Rightarrow> (fs, Inl (SchemaRejected err))
              | None \<Rightarrow>
                  (case WriteFile fs (Join runDir ''run-result.json'') (encoded @ [CHR 0x0A]) of
                     None \<Rightarrow> (fs, Inl (WriteError ''run-result.json''))
                   | Some fs \<Rightarrow> (fs, Inr result)))))))"

definition missing_artifact :: "filesystem \<Rightarrow> string \<Rightarrow> string option" where
  "missing_artifact fs runDir =
     find (\<lambda>required. case Stat fs (Join runDir required) of None \<Rightarrow> True | Some n \<Rightarrow> IsDir n) [''transcript.jsonl'', ''final.patch'']"

definition assemble :: "externals \<Rightarrow> 'doc schema_library \<Rightarrow> string list \<Rightarrow> filesystem \<Rightarrow> run_options
    \<Rightarrow> filesystem \<times> (assemble_error + RunResult)" where
  "assemble ext lib environ fs opts =
     (let runDir = Abs fs (opt_runDir opts); root = Abs fs (opt_root opts);
          evaluatorBin = (if opt_evaluatorBin opts = '''' then Join (Join root ''bin'') ''evaluator'' else opt_evaluatorBin opts)
      in case readMetadata fs (Join runDir ''metadata.json'') of
           Inl err \<Rightarrow> (fs, Inl (BadMetadata err))
         | Inr metadata \<Rightarrow>
        (case resolveCell fs (Join (Join root ''config'') ''experiment.json'') (metadata_CellID metadata) of
           Inl err \<Rightarrow> (fs, Inl (BadConfig err))
         | Inr c \<Rightarrow>
        (case readCaseManifest fs (Join (Join root ''evaluator'') ''case-manifest.json'') of
           Inl err \<Rightarrow> (fs, Inl (BadCaseManifest err))
         | Inr manifestIDs \<Rightarrow>
        (case missing_artifact fs runDir of
           Some required \<Rightarrow> (fs, Inl (ArtifactMissing required))
         | None \<Rightarrow>
             (let workspaceDir = Join runDir (if Workspace metadata = '''' then ''workspace'' else Workspace metadata)
              in case decide ext environ fs opts evaluatorBin root workspaceDir metadata c manifestIDs of
                   Inl err \<Rightarrow> (fs, Inl err)
                 | Inr (raw, decided) \<Rightarrow>
                     (case WriteFile fs (Join runDir ''evaluation.json'') raw of
                        None \<Rightarrow> (fs, Inl (WriteError ''evaluation.json''))
                      | Some fs \<Rightarrow> finish lib fs runDir root workspaceDir metadata c decided))))))"

text \<open>The exit code of \<open>main\<close>: a missing \<open>-run-dir\<close> and every assembly error are 2.\<close>

definition runresult_exit :: "externals \<Rightarrow> 'doc schema_library \<Rightarrow> string list \<Rightarrow> filesystem \<Rightarrow> run_options \<Rightarrow> int" where
  "runresult_exit ext lib environ fs opts =
     (if opt_runDir opts = '''' then 2
      else case snd (assemble ext lib environ fs opts) of Inl _ \<Rightarrow> 2 | Inr _ \<Rightarrow> 0)"

end
