(* ===== verification/Run_Props.thy ===== *)
theory Run_Props
  imports Run_Main
begin

text \<open>
  Properties of the assembly: the bounds of what it records, and that the document it writes
  is read back and accepted by \<open>freezecheck\<close>.
\<close>

section \<open>Bounds\<close>

lemma Milliseconds_nonneg: "0 \<le> d \<Longrightarrow> 0 \<le> Milliseconds d"
  by (simp add: Milliseconds_def)

lemma readMetadata_Inr:
  assumes "readMetadata fs path = Inr m"
  shows "metadata_RunID m \<noteq> ''''" "1 \<le> metadata_RepeatIndex m" "metadata_RepeatIndex m \<le> 5"
    "metadata_Phase m = ''pilot'' \<or> metadata_Phase m = ''measured''"
    "0 \<le> Milliseconds (Sub (FinishedAt m) (StartedAt m))"
    "Milliseconds (Sub (FinishedAt m) (StartedAt m)) \<le> maxWallClockMilliseconds"
  using assms
  by (auto simp: readMetadata_def Let_def Sub_def not_less intro!: Milliseconds_nonneg
      split: option.splits prod.splits if_splits)

lemma first_success_nonneg: "first_success m p events = Some d \<Longrightarrow> 0 \<le> d"
  by (auto simp: first_success_def Let_def split: option.splits if_splits)

lemma assemble_Inr:
  assumes "snd (assemble ext lib environ fs opts) = Inr r"
  obtains m c events where "readMetadata fs (Join (Abs fs (opt_runDir opts)) ''metadata.json'') = Inr m"
    "resolveCell fs (Join (Join (Abs fs (opt_root opts)) ''config'') ''experiment.json'') (metadata_CellID m) = Inr c"
    "result_RunID r = metadata_RunID m" "result_CellID r = metadata_CellID m" "result_RepeatIndex r = metadata_RepeatIndex m"
    "result_Phase r = metadata_Phase m" "result_Timing r = buildTiming m events"
    "result_Stage r = Stage c" "result_Task r = Task c" "result_Mode r = Mode c" "result_Treatment r = Treatment c"
proof -
  obtain m where m: "readMetadata fs (Join (Abs fs (opt_runDir opts)) ''metadata.json'') = Inr m"
    using assms by (auto simp: assemble_def Let_def split: sum.splits)
  obtain c where c: "resolveCell fs (Join (Join (Abs fs (opt_root opts)) ''config'') ''experiment.json'') (metadata_CellID m) = Inr c"
    using assms m by (auto simp: assemble_def Let_def split: sum.splits)
  obtain fs' runDir root ws decided where f: "snd (finish lib fs' runDir root ws m c decided) = Inr r"
    using assms m c by (auto simp: assemble_def Let_def split: sum.splits option.splits prod.splits)
  obtain status infra ev where d: "decided = (status, infra, ev)" by (metis prod_cases3)
  have "result_RunID r = metadata_RunID m \<and> result_CellID r = metadata_CellID m \<and> result_RepeatIndex r = metadata_RepeatIndex m
      \<and> result_Phase r = metadata_Phase m \<and> (\<exists>events. result_Timing r = buildTiming m events)
      \<and> result_Stage r = Stage c \<and> result_Task r = Task c \<and> result_Mode r = Mode c \<and> result_Treatment r = Treatment c"
    using f unfolding d finish_def by (auto simp: Let_def split: sum.splits option.splits prod.splits)
  with m c that show thesis by blast
qed

text \<open>
  C35: what a produced run result says of its run is within bounds: a run identifier, a
  repeat from 1 to 5, a phase, a wall clock time between zero and 45 minutes, first success times
  that are not negative, and stage, task, mode and treatment of the cell that the experiment configuration defines.
\<close>

theorem assembled_result_bounds:
  "case snd (assemble ext lib environ fs opts) of
     Inl err \<Rightarrow> True
   | Inr r \<Rightarrow>
       result_RunID r \<noteq> '''' \<and> result_RepeatIndex r \<in> {1..5} \<and> result_Phase r \<in> {''pilot'', ''measured''}
       \<and> WallClockMilliseconds (result_Timing r) \<in> {0..2700000}
       \<and> pred_option (\<lambda>d. 0 \<le> d) (FirstSuccessfulBuildMilliseconds (result_Timing r))
       \<and> pred_option (\<lambda>d. 0 \<le> d) (FirstVisibleBehaviorSuccessMilliseconds (result_Timing r))
       \<and> (\<exists>c. resolveCell fs (Join (Join (Abs fs (opt_root opts)) ''config'') ''experiment.json'') (result_CellID r) = Inr c
            \<and> result_Stage r = Stage c \<and> result_Task r = Task c \<and> result_Mode r = Mode c \<and> result_Treatment r = Treatment c)"
proof (cases "snd (assemble ext lib environ fs opts)")
  case (Inr r)
  obtain m c events where a: "readMetadata fs (Join (Abs fs (opt_runDir opts)) ''metadata.json'') = Inr m"
    "resolveCell fs (Join (Join (Abs fs (opt_root opts)) ''config'') ''experiment.json'') (metadata_CellID m) = Inr c"
    "result_RunID r = metadata_RunID m" "result_CellID r = metadata_CellID m" "result_RepeatIndex r = metadata_RepeatIndex m"
    "result_Phase r = metadata_Phase m" "result_Timing r = buildTiming m events"
    "result_Stage r = Stage c" "result_Task r = Task c" "result_Mode r = Mode c" "result_Treatment r = Treatment c"
    by (rule assemble_Inr [OF Inr])
  note b = readMetadata_Inr [OF a(1)]
  show ?thesis unfolding Inr using a b first_success_nonneg
    by (auto simp: buildTiming_def option.pred_set)
qed simp
section \<open>The document is read back\<close>

text \<open>What \<open>freezecheck\<close> decodes of a run result.\<close>

definition as_runResult :: "RunResult \<Rightarrow> runResult" where
  "as_runResult r =
     \<lparr>run_RunID = result_RunID r, run_CellID = result_CellID r, run_RepeatIndex = result_RepeatIndex r,
      run_Phase = result_Phase r, run_Stage = result_Stage r, run_Task = result_Task r, run_Mode = result_Mode r,
      run_Treatment = result_Treatment r, run_Status = result_Status r, Infrastructure = result_Infrastructure r,
      Artifacts = result_Artifacts r, Evaluation = map_option as_evaluation (result_Evaluation r)\<rparr>"

lemma dec_ptr_jopt:
  "(\<And>x old. f x \<noteq> JNull \<and> d (f x) old = (x, True)) \<Longrightarrow> dec_ptr z d (jopt f v) old = (v, True)"
  by (cases v) (auto simp: dec_ptr_def)

lemma dec_ptr_string [simp]: "dec_ptr z dec_string (jopt JString v) old = (v, True)"
  by (rule dec_ptr_jopt) simp

lemma dec_ptr_bool [simp]: "dec_ptr z dec_bool (jopt JBool v) old = (v, True)"
  by (rule dec_ptr_jopt) simp

lemma dec_infrastructure_json [simp]: "dec_infrastructure (infrastructure_json i) old = (i, True)"
  by (simp add: dec_infrastructure_def infrastructure_json_def dec_struct_def select_field_def at_field_def)

lemma dec_artifacts_json [simp]: "dec_artifacts (artifacts_json a) old = (a, True)"
  by (simp add: dec_artifacts_def artifacts_json_def dec_struct_def select_field_def at_field_def)

lemma dec_case_json [simp]: "dec_behaviorCase (case_json c) old = (c, True)"
  by (simp add: dec_behaviorCase_def case_json_def dec_struct_def select_field_def at_field_def)

lemma dec_gates:
  "dec_map False dec_bool (JObject (map (\<lambda>(k, b). (k, JBool b)) (gates_list g))) [] = (gates_list g, True)"
  by (simp add: gates_list_def dec_map_def put_def)

lemma select_known: "k \<in> set names \<Longrightarrow> select_field names k = Some k"
  by (simp add: select_field_def)

lemma evaluation_unknown:
  "select_field [''completeSuccess'', ''commonGates'', ''behaviorCases''] ''codegenHealth'' = None"
  "select_field [''completeSuccess'', ''commonGates'', ''behaviorCases''] ''candidateTests'' = None"
  "select_field [''completeSuccess'', ''commonGates'', ''behaviorCases''] ''residualFailures'' = None"
  by code_simp+

lemma result_unknown:
  "select_field [''runId'', ''cellId'', ''repeatIndex'', ''phase'', ''stage'', ''task'', ''mode'', ''treatment'', ''status'',
     ''infrastructure'', ''artifacts'', ''evaluation''] ''schemaVersion'' = None"
  "select_field [''runId'', ''cellId'', ''repeatIndex'', ''phase'', ''stage'', ''task'', ''mode'', ''treatment'', ''status'',
     ''infrastructure'', ''artifacts'', ''evaluation''] ''protocolViolations'' = None"
  "select_field [''runId'', ''cellId'', ''repeatIndex'', ''phase'', ''stage'', ''task'', ''mode'', ''treatment'', ''status'',
     ''infrastructure'', ''artifacts'', ''evaluation''] ''timing'' = None"
  "select_field [''runId'', ''cellId'', ''repeatIndex'', ''phase'', ''stage'', ''task'', ''mode'', ''treatment'', ''status'',
     ''infrastructure'', ''artifacts'', ''evaluation''] ''usage'' = None"
  "select_field [''runId'', ''cellId'', ''repeatIndex'', ''phase'', ''stage'', ''task'', ''mode'', ''treatment'', ''status'',
     ''infrastructure'', ''artifacts'', ''evaluation''] ''process'' = None"
  by code_simp+

lemma dec_evaluation_json:
  "dec_evaluation (evaluation_json ev) \<lparr>CompleteSuccess = False, CommonGates = [], BehaviorCases = []\<rparr> = (as_evaluation ev, True)"
proof -
  have "dec_elements z dec_behaviorCase (map case_json (eval_BehaviorCases ev)) [] = (eval_BehaviorCases ev, True)" for z
    by (rule dec_elements_map) simp
  then show ?thesis
    by (simp add: dec_evaluation_def evaluation_json_def as_evaluation_def dec_struct_def select_known evaluation_unknown at_field_def
        dec_gates dec_slice_def)
qed

lemma dec_evaluation_ptr:
  "dec_ptr \<lparr>CompleteSuccess = False, CommonGates = [], BehaviorCases = []\<rparr> dec_evaluation (jopt evaluation_json ev) None
     = (map_option as_evaluation ev, True)"
  by (cases ev) (simp_all add: dec_ptr_def dec_evaluation_json, simp add: evaluation_json_def)

lemma dec_result_json:
  assumes "int64 (result_RepeatIndex r)"
  shows "dec_runResult (result_json r) no_runResult = (as_runResult r, True)"
  by (simp add: dec_runResult_def result_json_def no_runResult_def as_runResult_def dec_struct_def select_known result_unknown at_field_def
      dec_int_FormatInt [OF assms] dec_evaluation_ptr)


lemma is_digit_ascii: "is_digit c \<Longrightarrow> of_char c < (128 :: nat)"
  using digit_value_iff_is_digit [of c] by (auto simp: digit_value_def Let_def split: if_splits)

lemma ascii_dec [simp]: "ascii (dec n)"
  using dec_digits is_digit_ascii by (auto simp: list_all_iff)

lemma ascii_zero_pad [simp]: "ascii (zero_pad w n)"
  by (simp add: zero_pad_def list_all_iff) (use ascii_dec [of n] in \<open>auto simp: list_all_iff\<close>)

lemma ascii_rev_dropWhile: "ascii s \<Longrightarrow> ascii (rev (dropWhile p (rev s)))"
  by (auto simp: list_all_iff dest: set_dropWhileD)

lemma ascii_time [simp]: "ascii (Format_RFC3339Nano t)"
proof -
  have "ascii (fraction_text n)" for n
    using ascii_rev_dropWhile [OF ascii_zero_pad [of 9 n]] by (simp add: fraction_text_def Let_def)
  moreover have "ascii (zone_text z)" "ascii (year_text y)" for z y by (simp_all add: zone_text_def year_text_def)
  ultimately show ?thesis by (simp add: Format_RFC3339Nano_def split: prod.splits)
qed

definition sample_result :: RunResult where
  "sample_result =
     \<lparr>result_SchemaVersion = 1, result_RunID = ''pilot-001'', result_CellID = ''c'', result_RepeatIndex = 1,
      result_Phase = ''pilot'', result_Stage = ''s'', result_Task = ''t'', result_Mode = ''m'', result_Treatment = ''direct'',
      result_Status = ''harness-failure'', result_ProtocolViolations = [],
      result_Infrastructure = failureInfrastructure ''harness-process-crash'' ''a <b> & c'' None,
      result_Timing = buildTiming no_metadata [],
      result_Usage = \<lparr>InputTokens = None, OutputTokens = None, Turns = 0, ToolCalls = 0\<rparr>,
      result_Process = \<lparr>RepairIterations = 0, FilesTouched = 0,
        Diff = \<lparr>ContractLines = 0, HandwrittenLines = 0, GeneratedLines = 0\<rparr>, CompilerEvents = []\<rparr>,
      result_Artifacts = artifact_names, result_Evaluation = None\<rparr>"

lemma printable_jint [simp]: "printable d (jint n)"
  by (auto simp: int_literal_def)

lemma sample_result_printable: "printable 0 (result_json sample_result)"
  by (simp add: sample_result_def result_json_def infrastructure_json_def timing_json_def usage_json_def process_json_def
      artifacts_json_def artifact_names_def failureInfrastructure_def buildTiming_def first_success_def del: printable.simps(1))


section \<open>The assembled result is accepted\<close>

text \<open>The driver's note on a failure it classified itself.\<close>

definition note_policy :: "RunMetadata \<Rightarrow> bool" where
  "note_policy m \<longleftrightarrow> (\<forall>note. metadata_Infrastructure m = Some note \<longrightarrow>
     note_Category note \<in> set failure_policy \<and> TrimSpace (note_Evidence note) \<noteq> '''')"

definition setup_explained :: "externals \<Rightarrow> bool" where
  "setup_explained ext \<longleftrightarrow> (\<forall>argv environ standalone ok.
     Unmarshal dec_evaluatorResult no_evaluatorResult (command_stdout (evaluator_process ext argv environ)) = (standalone, ok)
       \<longrightarrow> setup_Evidence (Setup standalone) = '''' \<or> TrimSpace (setup_Evidence (Setup standalone)) \<noteq> '''')"

definition note_ok :: "failureNote \<Rightarrow> bool" where
  "note_ok n \<longleftrightarrow> (note_status n = ''infrastructure-failure'' \<or> note_status n = ''harness-failure'')
     \<and> note_category n \<in> set failure_policy \<and> TrimSpace (note_evidence n) \<noteq> ''''"

lemmas status_defs = statusSubmitted_def statusTimedOut_def statusInfraFail_def statusHarnessFail_def
lemmas category_defs = infraCategoryHarnessCrash_def infraCategoryRuntimeFailure_def infraCategoryEvaluatorFailure_def

lemma crash_note_ok: "of_char ch < (128 :: nat) \<Longrightarrow> \<not> IsSpace (of_char ch) \<Longrightarrow> note_ok (harness_crash (ch # s))"
  by (simp add: note_ok_def harness_crash_def status_defs category_defs failure_policy_def TrimSpace_head)

lemma evaluateCandidate_note:
  assumes "evaluateCandidate ext environ fs opts bin root ws c ids = (raw, Inl note)" "setup_explained ext"
  shows "note_ok note"
proof -
  let ?r = "evaluator_process ext (evaluator_command bin (Task c) ws) (withoutProviderCredentials environ)"
  have e: "\<not> IsSpace 101" by (simp add: IsSpace_def)
  have s: "\<not> IsSpace 115" by (simp add: IsSpace_def)
  obtain st ok where u: "Unmarshal dec_evaluatorResult no_evaluatorResult (command_stdout ?r) = (st, ok)" by fastforce
  have explained: "setup_Evidence (Setup st) = '''' \<or> TrimSpace (setup_Evidence (Setup st)) \<noteq> ''''"
    using assms(2) u unfolding setup_explained_def by blast
  show ?thesis
  proof (cases "process_failure ?r")
    case (Some n)
    then have "n = note" using assms(1) by (simp add: evaluateCandidate_def Let_def)
    moreover have "note_ok n" using Some e s
      by (auto simp: process_failure_def crash_note_ok split: command_result.splits if_splits)
    ultimately show ?thesis by simp
  next
    case None
    note run = assms(1) [unfolded evaluateCandidate_def Let_def u None prod.case option.case]
    consider (unparsed) "\<not> ok \<or> length (er_BehaviorCases st) = 0"
      | (no_postgres) "ok" "length (er_BehaviorCases st) \<noteq> 0" "\<not> Postgres (Setup st)"
      | (roster) err where "ok" "length (er_BehaviorCases st) \<noteq> 0" "Postgres (Setup st)"
          "checkRoster (er_BehaviorCases st) ids = Some err"
      | (codegen) "ok" "length (er_BehaviorCases st) \<noteq> 0" "Postgres (Setup st)"
          "checkRoster (er_BehaviorCases st) ids = None"
      by (cases "checkRoster (er_BehaviorCases st) ids") blast+
    then show ?thesis
    proof cases
      case unparsed
      then have "note = harness_crash (''evaluator produced no parseable result JSON: '' @ trimEvidence (command_stderr ?r))"
        using run by simp
      then show ?thesis using e by (simp add: crash_note_ok)
    next
      case no_postgres
      then have "note = \<lparr>note_status = statusInfraFail, note_category = infraCategoryEvaluatorFailure,
          note_evidence = (if setup_Evidence (Setup st) = '''' then ''evaluator could not start the pinned PostgreSQL container''
            else setup_Evidence (Setup st))\<rparr>" using run by simp
      then show ?thesis using e explained
        by (auto simp: note_ok_def status_defs category_defs failure_policy_def TrimSpace_head)
    next
      case (roster err)
      then have "note = harness_crash (''evaluator roster mismatch: '' @ roster_text ext err)" using run by simp
      then show ?thesis using e by (simp add: crash_note_ok)
    next
      case codegen
      then obtain err where "note = \<lparr>note_status = statusInfraFail, note_category = infraCategoryRuntimeFailure,
          note_evidence = ''codegen health check environment failed: '' @ err\<rparr>"
        using run by (auto split: if_splits sum.splits)
      moreover have "\<not> IsSpace 99" by (simp add: IsSpace_def)
      ultimately show ?thesis
        by (simp add: note_ok_def status_defs category_defs failure_policy_def TrimSpace_head)
    qed
  qed
qed

lemma failure_accepted:
  assumes "run_Status r = ''infrastructure-failure'' \<or> run_Status r = ''harness-failure''"
    "Infrastructure r = failureInfrastructure category evidence replaces" "Evaluation r = None"
    "category \<in> set failure_policy" "TrimSpace evidence \<noteq> ''''"
  shows "validateEvaluation r manifest = []"
  using assms unfolding validateEvaluation_Nil
  by (simp add: links_ok_def failureStatus_def failure_explained_def failureInfrastructure_def blank_def valueOrEmpty_def)

text \<open>
  C4: whatever the outcome, a run result is assembled that \<open>freezecheck\<close> accepts: with an evaluator that reports as it
  promises, a case manifest of required cases and driver notes within the failure policy, status, infrastructure and
  evaluation of the decision pass \<open>validateEvaluation\<close>, for submitted runs, for evaluator failures and for
  failures the driver classified.
\<close>

theorem decided_result_accepted:
  assumes "decide ext environ fs opts bin root ws m c ids = Inr (raw, status, infra, ev)"
    "run_Status r = status" "Infrastructure r = infra" "Evaluation r = map_option as_evaluation ev" "run_Task r = Task c"
    "honest_evaluator ext (Task c) manifest" "setup_explained ext" "note_policy m"
    "set ids = set (map mc_ID manifest)" "list_all Required manifest"
  shows "validateEvaluation r manifest = []"
proof -
  consider (evaluated) raw' out where "evaluateCandidate ext environ fs opts bin root ws c ids = (raw', out)"
      "metadata_Status m = ''submitted'' \<or> metadata_Status m = ''timed-out''"
      "case out of
         Inl note \<Rightarrow> status = note_status note \<and> ev = None
           \<and> infra = failureInfrastructure (note_category note) (note_evidence note) (metadata_ReplacesRunID m)
       | Inr e \<Rightarrow> status = metadata_Status m \<and> infra = no_failure (metadata_ReplacesRunID m) \<and> ev = Some e"
    | (noted) dn where "metadata_Infrastructure m = Some dn" "ev = None" "status = metadata_Status m"
      "metadata_Status m = ''infrastructure-failure'' \<or> metadata_Status m = ''harness-failure''"
      "infra = failureInfrastructure (note_Category dn) (note_Evidence dn) (metadata_ReplacesRunID m)"
    using assms(1)
    by (auto simp: decide_def status_defs split: if_splits option.splits node.splits prod.splits sum.splits)
  then show ?thesis
  proof cases
    case (evaluated raw' out)
    show ?thesis
    proof (cases out)
      case (Inl fn)
      then have "note_ok fn" using evaluateCandidate_note evaluated(1) assms(7) by blast
      then show ?thesis using evaluated(3) Inl assms(2-4)
        by (intro failure_accepted) (auto simp: note_ok_def)
    next
      case (Inr e)
      then have "evaluation_contract (Task c) manifest (as_evaluation e)"
        using assembled_evaluation_accepted [OF _ assms(6,9,10)] evaluated(1) by blast
      then show ?thesis
        unfolding validateEvaluation_Nil using evaluated(2,3) Inr assms(2-5)
        by (auto simp: links_ok_def no_failure_def failureStatus_def)
    qed
  next
    case (noted dn)
    then show ?thesis using assms(2-4,8) by (intro failure_accepted) (auto simp: note_policy_def)
  qed
qed

definition sample_cell :: cell where
  "sample_cell = \<lparr>ID = ''c'', Stage = ''s'', Task = ''t'', Mode = ''m'', Treatment = ''direct''\<rparr>"

definition sample_options :: run_options where
  "sample_options = \<lparr>opt_runDir = '''', opt_root = '''', opt_evaluatorBin = '''', opt_codegenImage = ''''\<rparr>"

theorem decided_result_accepted_witness:
  "\<exists>raw status infra ev. decide sample_ext [] sample_fs sample_options ''e'' ''/'' ''/run'' (no_metadata\<lparr>metadata_Status := ''submitted''\<rparr>)
       sample_cell [''a''] = Inr (raw, status, infra, ev)
     \<and> validateEvaluation (no_runResult\<lparr>run_Status := status, Infrastructure := infra,
         Evaluation := map_option as_evaluation ev, run_Task := ''t''\<rparr>) sample_manifest = []"
proof -
  let ?m = "no_metadata\<lparr>metadata_Status := ''submitted''\<rparr>"
  have st: "Stat sample_fs ''/run'' = Some (Directory True [(''inner'', Link ''a''), (''outer'', Link ''../secret''), (''a'', Reg True ''x'')])"
    by (simp add: path_eval)
  have "\<exists>raw status infra ev. decide sample_ext [] sample_fs sample_options ''e'' ''/'' ''/run'' ?m sample_cell [''a'']
      = Inr (raw, status, infra, ev)"
    by (simp add: decide_def st status_defs evaluateCandidate_def sample_ext_def process_failure_def command_stdout_def
        sample_decoded checkRoster_def sample_case_def sample_cell_def)
  then obtain raw status infra ev where d:
    "decide sample_ext [] sample_fs sample_options ''e'' ''/'' ''/run'' ?m sample_cell [''a''] = Inr (raw, status, infra, ev)"
    by blast
  have ok: "setup_explained sample_ext" "note_policy ?m"
    by (auto simp: setup_explained_def sample_ext_def command_stdout_def sample_decoded note_policy_def no_metadata_def)
  have "validateEvaluation (no_runResult\<lparr>run_Status := status, Infrastructure := infra,
      Evaluation := map_option as_evaluation ev, run_Task := ''t''\<rparr>) sample_manifest = []"
    by (rule decided_result_accepted [OF d _ _ _ _ sample_honest ok]) (simp_all add: sample_cell_def sample_manifest_def)
  with d show ?thesis by blast
qed

end
