(* ===== verification/Run_Workspace.thy ===== *)
theory Run_Workspace
  imports Run_Main
begin

text \<open>
  The manifest that \<open>runresult\<close> writes is the one \<open>freezecheck\<close> demands: the walk of the
  writer and the independent walk, path resolution and hashing of the verifier agree on every
  file tree whose directories have distinct proper names.
\<close>

section \<open>Proper trees\<close>

definition proper_tree :: "node \<Rightarrow> bool" where
  "proper_tree n \<longleftrightarrow> (\<forall>p es. node_at n p = Some (Directory True es) \<longrightarrow> distinct (map fst es) \<and> list_all name_ok (map fst es))"

lemma proper_child: "proper_tree (Directory True es) \<Longrightarrow> map_of es c = Some n \<Longrightarrow> proper_tree n"
proof -
  assume p: "proper_tree (Directory True es)" and c: "map_of es c = Some n"
  have "node_at n q = node_at (Directory True es) (c # q)" for q using c by simp
  then show ?thesis using p unfolding proper_tree_def by metis
qed

lemma proper_entries:
  assumes "proper_tree (Directory True es)"
  shows "distinct (map fst es)" "(c, n) \<in> set es \<Longrightarrow> map_of es c = Some n" "(c, n) \<in> set es \<Longrightarrow> name_ok c"
proof -
  have "node_at (Directory True es) [] = Some (Directory True es)" by simp
  then have d: "distinct (map fst es)" "list_all name_ok (map fst es)" using assms unfolding proper_tree_def by blast+
  then show "distinct (map fst es)" "(c, n) \<in> set es \<Longrightarrow> map_of es c = Some n" by simp_all
  show "(c, n) \<in> set es \<Longrightarrow> name_ok c" using d(2) by (auto simp: list_all_iff)
qed

lemma node_at_append: "node_at n (p @ q) = Option.bind (node_at n p) (\<lambda>m. node_at m q)"
proof (induction n p rule: node_at.induct)
  case (2 ok es c cs)
  then show ?case by (cases "map_of es c") auto
qed simp_all

text \<open>A path below a node that leads through readable directories only.\<close>

definition open_path :: "node \<Rightarrow> string list \<Rightarrow> bool" where
  "open_path n sub \<longleftrightarrow> list_all name_ok sub \<and> (\<forall>k < length sub. \<exists>es. node_at n (take k sub) = Some (Directory True es))"

lemma open_path_Cons:
  "name_ok c \<Longrightarrow> map_of es c = Some n \<Longrightarrow> open_path n sub \<Longrightarrow> open_path (Directory True es) (c # sub)"
  unfolding open_path_def by (auto simp: take_Cons split: nat.splits)

lemma WalkDir_file:
  "VisitFile r m \<in> set (WalkDir rel n) \<Longrightarrow> proper_tree n \<Longrightarrow>
     \<exists>sub. r = rel @ sub \<and> node_at n sub = Some m \<and> open_path n sub"
proof (induction rel n rule: WalkDir.induct)
  case (1 rel ok es)
  then have ok: "ok" "\<not> (rel \<noteq> [] \<and> hidden (last rel))" by (auto split: if_splits)
  then obtain name c where c: "(name, c) \<in> set (sort_key fst es)" "VisitFile r m \<in> set (WalkDir (rel @ [name]) c)"
    using "1.prems"(1) by auto
  have e: "map_of es name = Some c" "name_ok name"
    using proper_entries(2,3) [of es name c] "1.prems"(2) ok(1) c(1) by auto
  have "proper_tree c" using proper_child [of es name c] e(1) "1.prems"(2) ok(1) by simp
  then obtain sub where "r = (rel @ [name]) @ sub" "node_at c sub = Some m" "open_path c sub"
    using "1.IH" [OF ok(2) _ c(1) refl c(2)] ok(1) by auto
  then show ?case using e ok(1) open_path_Cons [OF e(2,1), of sub] by (intro exI [of _ "name # sub"]) auto
qed (auto simp: open_path_def)

definition file_rels :: "visit list \<Rightarrow> string list list" where
  "file_rels visits = concat (map (\<lambda>v. case v of VisitFile rel n \<Rightarrow> if IsRegular n then [rel] else [] | VisitError _ \<Rightarrow> []) visits)"

lemma file_rels_concat: "file_rels (concat xss) = concat (map file_rels xss)"
  by (induction xss) (simp_all add: file_rels_def)

lemma file_rels_prefix: "r \<in> set (file_rels (WalkDir rel n)) \<Longrightarrow> proper_tree n \<Longrightarrow> \<exists>sub. r = rel @ sub"
proof -
  assume r: "r \<in> set (file_rels (WalkDir rel n))" and p: "proper_tree n"
  then obtain m where "VisitFile r m \<in> set (WalkDir rel n)"
    by (auto simp: file_rels_def split: visit.splits if_splits)
  then show ?thesis using WalkDir_file p by blast
qed

lemma file_rels_distinct: "proper_tree n \<Longrightarrow> distinct (file_rels (WalkDir rel n))"
proof (induction rel n rule: WalkDir.induct)
  case (1 rel ok es)
  show ?case
  proof (cases "ok \<and> \<not> (rel \<noteq> [] \<and> hidden (last rel))")
    case False
    then show ?thesis by (auto simp: file_rels_def)
  next
    case True
    let ?f = "\<lambda>(name, c). file_rels (WalkDir (rel @ [name]) c)"
    have all: "file_rels (WalkDir rel (Directory ok es)) = concat (map ?f (sort_key fst es))"
      using True by (auto simp: file_rels_concat comp_def case_prod_unfold)
    have pt: "proper_tree (Directory True es)" using "1.prems" True by simp
    have child: "proper_tree c" if "(name, c) \<in> set (sort_key fst es)" for name c
      using that proper_entries(2) [OF pt, of name c] proper_child [OF pt] by auto
    have each: "distinct (file_rels (WalkDir (rel @ [name]) c))" if "(name, c) \<in> set (sort_key fst es)" for name c
      using "1.IH" [OF _ _ that refl child [OF that]] True by auto
    have apart: "set (?f x) \<inter> set (?f y) = {}"
      if "x \<in> set (sort_key fst es)" "y \<in> set (sort_key fst es)" "fst x \<noteq> fst y" for x y
    proof -
      have "r \<noteq> r'" if "r \<in> set (?f x)" "r' \<in> set (?f y)" for r r'
        using that file_rels_prefix [of r "rel @ [fst x]" "snd x"] file_rels_prefix [of r' "rel @ [fst y]" "snd y"]
          child [of "fst x" "snd x"] child [of "fst y" "snd y"] \<open>x \<in> _\<close> \<open>y \<in> _\<close> \<open>fst x \<noteq> fst y\<close>
        by (auto simp: case_prod_beta)
      then show ?thesis by blast
    qed
    have "distinct (map fst (sort_key fst es))"
      using proper_entries(1) [OF pt] by (metis distinct_map mset_eq_imp_distinct_iff mset_map mset_sort)
    then have "distinct (concat (map ?f xs))" if "set xs \<subseteq> set (sort_key fst es)" "distinct (map fst xs)" for xs
      using that
    proof (induction xs)
      case (Cons x xs)
      have "set (?f x) \<inter> set (concat (map ?f xs)) = {}"
      proof -
        have "set (?f x) \<inter> set (?f y) = {}" if y: "y \<in> set xs" for y
        proof (rule apart)
          show "x \<in> set (sort_key fst es)" "y \<in> set (sort_key fst es)" using Cons.prems(2) y by auto
          show "fst x \<noteq> fst y" using Cons.prems(3) y by (metis distinct.simps(2) image_eqI list.set_map list.simps(9))
        qed
        then have "set (?f x) \<inter> (\<Union>y \<in> set xs. set (?f y)) = {}" by blast
        then show ?thesis by (simp only: set_concat set_map image_image)
      qed
      then show ?case using Cons each [of "fst x" "snd x"] by (auto simp: case_prod_beta)
    qed simp
    then show ?thesis using all \<open>distinct (map fst (sort_key fst es))\<close> by simp
  qed
qed (simp_all add: file_rels_def)
section \<open>Resolving a walked path\<close>

lemma resolve_plain:
  assumes "node_at root h = Some n" "open_path n sub" "node_at n sub = Some m" "\<And>t. m \<noteq> Link t"
  shows "resolve root links h sub = Some (h @ sub)"
  using assms
proof (induction sub arbitrary: h n)
  case (Cons c sub)
  have c: "name_ok c" "list_all name_ok sub" using Cons.prems(2) by (auto simp: open_path_def)
  obtain es where n: "n = Directory True es"
    using Cons.prems(2) unfolding open_path_def by (metis length_greater_0_conv list.distinct(1) node_at.simps(1) option.inject take_0)
  then obtain x where x: "map_of es c = Some x" "node_at x sub = Some m"
    using Cons.prems(3) by (auto simp: Option.bind_eq_Some_conv)
  have at: "node_at root (h @ [c]) = Some x" using Cons.prems(1) n x(1) by (simp add: node_at_append)
  have op: "open_path x sub" unfolding open_path_def
  proof (intro conjI allI impI)
    fix k assume "k < length sub"
    then have "Suc k < length (c # sub)" by simp
    then obtain es' where "node_at n (take (Suc k) (c # sub)) = Some (Directory True es')"
      using Cons.prems(2) unfolding open_path_def by metis
    then show "\<exists>es. node_at x (take k sub) = Some (Directory True es)" using n x(1) by simp
  qed (use c in simp)
  have step: "\<not> (c = '''' \<or> c = ''.'')" "c \<noteq> ''..''" using c(1) by (auto simp: name_ok_def comp_ok_def)
  show ?case
  proof (cases sub)
    case Nil
    then have "x = m" using x(2) by simp
    then show ?thesis using Nil at step Cons.prems(4) by (cases m) auto
  next
    case (Cons d ds)
    then obtain es' where "x = Directory True es'"
      using op unfolding open_path_def by (metis length_greater_0_conv list.distinct(1) node_at.simps(1) option.inject take_0)
    then show ?thesis using Cons.IH [OF at op x(2) Cons.prems(4)] at step by simp
  qed
qed simp

lemma resolve_append:
  "resolve root links here cs = Some h \<Longrightarrow> node_at root h = Some (Directory True es) \<Longrightarrow>
     \<exists>left. resolve root links here (cs @ ds) = resolve root left h ds"
proof (induction root links here cs rule: resolve.induct)
  case (2 root links here c cs)
  consider (skip) "c = '''' \<or> c = ''.''" | (up) "c = ''..''" | (name) "\<not> (c = '''' \<or> c = ''.'')" "c \<noteq> ''..''" by blast
  then show ?case
  proof cases
    case skip
    then show ?thesis using 2 by auto
  next
    case up
    then show ?thesis using "2.IH"(2) "2.prems" by simp
  next
    case name
    then obtain n where n: "node_at root (here @ [c]) = Some n"
      using "2.prems"(1) by (auto split: option.splits)
    show ?thesis
    proof (cases n)
      case (Link t)
      then obtain l where l: "links = Suc l" using "2.prems"(1) n name by (cases links) auto
      show ?thesis using "2.IH"(4) [OF name n Link l _ "2.prems"(2)] "2.prems"(1) n name l Link by simp
    next
      case (Directory ok es')
      show ?thesis using "2.IH"(3) [OF name n Directory _ "2.prems"(2)] "2.prems"(1) n name Directory by simp
    qed (use "2.prems" n name in \<open>auto split: if_splits\<close>)
  qed
qed auto

lemma locate_render: "list_all comp_ok cs \<Longrightarrow> locate fs links (render_path True cs) = resolve (fs_root fs) links [] cs"
proof -
  assume cs: "list_all comp_ok cs"
  then have "split_on (CHR ''/'') (render_path True cs) = [] # (if cs = [] then [[]] else cs)"
    using split_join [of cs "CHR ''/''"] by (auto simp: render_path_def list_all_iff comp_ok_def)
  then show ?thesis by (simp add: locate_def) (simp add: render_path_def IsAbs_def)
qed

section \<open>The written manifest passes\<close>

text \<open>A directory below an absolute clean path, as \<open>Stat\<close> and \<open>Lstat\<close> both see it.\<close>

definition plain_dir :: "filesystem \<Rightarrow> string \<Rightarrow> string list \<Rightarrow> (string \<times> node) list \<Rightarrow> bool" where
  "plain_dir fs ws w es \<longleftrightarrow> IsAbs ws \<and> ws = Clean ws
     \<and> resolve (fs_root fs) 40 [] (clean_comps ws) = Some w \<and> node_at (fs_root fs) w = Some (Directory True es)
     \<and> Lstat fs ws = Some (Directory True es)"

lemma slash_path_facts:
  assumes "list_all name_ok sub" "sub \<noteq> []"
  shows "clean_comps (slash_path sub) = sub" "\<not> IsAbs (slash_path sub)" "Clean (slash_path sub) = slash_path sub"
    "\<not> escapes (slash_path sub)"
proof -
  have ok: "list_all comp_ok sub" "''..'' \<notin> set sub" using assms(1) by (auto simp: list_all_iff name_ok_def)
  have s: "slash_path sub = join_on (CHR ''/'') sub" using assms(2) by (simp add: slash_path_def render_path_def)
  show na: "\<not> IsAbs (slash_path sub)" using not_abs_render [OF assms(2) ok(1)] s by simp
  have "split_on (CHR ''/'') (slash_path sub) = sub"
    using split_join [OF assms(2), of "CHR ''/''"] ok s by (auto simp: list_all_iff comp_ok_def)
  then show c: "clean_comps (slash_path sub) = sub"
    using fold_clean_id [OF ok, of False "[]"] na by (simp add: clean_comps_def)
  then show cl: "Clean (slash_path sub) = slash_path sub" using na s assms(2) by (simp add: Clean_def render_path_def)
  show "\<not> escapes (slash_path sub)"
    using escapes_iff [OF na] cl c assms(2) ok(2) by (cases sub) auto
qed

lemma slash_path_inj:
  assumes "list_all name_ok a" "a \<noteq> []" "list_all name_ok b" "b \<noteq> []" "slash_path a = slash_path b"
  shows "a = b"
proof -
  have "clean_comps (slash_path a) = clean_comps (slash_path b)" by (simp only: assms(5))
  then show ?thesis by (simp only: slash_path_facts(1) [OF assms(1,2)] slash_path_facts(1) [OF assms(3,4)])
qed

lemma Clean_idem: "Clean (Clean p) = Clean p"
proof -
  have "Clean (Clean p) = render_path (IsAbs (Clean p)) (clean_comps (Clean p))" by (rule Clean_def)
  also have "\<dots> = Clean p" unfolding IsAbs_Clean clean_comps_Clean by (rule Clean_def [symmetric])
  finally show ?thesis .
qed

lemma Join_render:
  assumes "IsAbs ws" "list_all name_ok sub" "sub \<noteq> []"
  shows "Join ws (slash_path sub) = render_path True (clean_comps ws @ sub)" "list_all comp_ok (clean_comps ws @ sub)"
proof -
  note f = slash_path_facts [OF assms(2,3)]
  have j: "clean_comps (Join ws (slash_path sub)) = clean_comps ws @ sub" "IsAbs (Join ws (slash_path sub))"
    using Join_contained [of "slash_path sub" ws] f assms(1) by simp_all
  have ne: "ws \<noteq> ''''" "slash_path sub \<noteq> ''''"
    using assms(1) f(1) assms(3) by (auto simp: IsAbs_def clean_comps_def clean_step_def HasPrefix_iff)
  then have cl: "Join ws (slash_path sub) = Clean (ws @ ''/'' @ slash_path sub)" by (simp add: Join_def)
  then have "Clean (Join ws (slash_path sub)) = Join ws (slash_path sub)"
    by (simp only: Clean_idem)
  then show "Join ws (slash_path sub) = render_path True (clean_comps ws @ sub)"
    using j by (simp add: Clean_def)
  obtain names n where "list_all comp_ok (clean_comps ws)" by (rule clean_comps_ok [of ws])
  then show "list_all comp_ok (clean_comps ws @ sub)" using assms(2) by (auto simp: list_all_iff name_ok_def)
qed

lemma plain_dir_locate:
  assumes "plain_dir fs ws w es"
  shows "locate fs links ws = resolve (fs_root fs) links [] (clean_comps ws)"
proof -
  obtain names n where ok: "list_all comp_ok (clean_comps ws)" by (rule clean_comps_ok [of ws])
  have p: "IsAbs ws" "ws = Clean ws" using assms by (auto simp: plain_dir_def)
  have "Clean ws = render_path True (clean_comps ws)" using p(1) by (simp add: Clean_def)
  with p(2) have "ws = render_path True (clean_comps ws)" by (rule trans)
  then show ?thesis using locate_render [OF ok, of fs links] by metis
qed

lemma plain_dir_names:
  assumes "plain_dir fs ws w es"
  shows "list_all name_ok w" "mustEval fs ws = render_path True w"
proof -
  have p: "IsAbs ws" "resolve (fs_root fs) 40 [] (clean_comps ws) = Some w" using assms by (auto simp: plain_dir_def)
  note l = plain_dir_locate [OF assms]
  show n: "list_all name_ok w" using locate_names [OF p(1)] l p(2) by metis
  have "locate fs 255 ws = Some w" unfolding l by (rule resolve_mono [OF p(2)]) simp
  then show "mustEval fs ws = render_path True w" by (simp add: mustEval_def EvalSymlinks_def)
qed

lemma walked_path:
  assumes d: "plain_dir fs ws w es" and o: "open_path (Directory True es) rel"
    "node_at (Directory True es) rel = Some (Reg r s)"
  shows "list_all name_ok rel" "rel \<noteq> []" "EvalSymlinks fs (Join ws (slash_path rel)) = Some (render_path True (w @ rel))"
proof -
  show rel: "list_all name_ok rel" "rel \<noteq> []" using o by (auto simp: open_path_def)
  have p: "IsAbs ws" "resolve (fs_root fs) 40 [] (clean_comps ws) = Some w" "node_at (fs_root fs) w = Some (Directory True es)"
    using d by (auto simp: plain_dir_def)
  obtain left where left: "resolve (fs_root fs) 40 [] (clean_comps ws @ rel) = resolve (fs_root fs) left w rel"
    using resolve_append [OF p(2,3)] by metis
  have "resolve (fs_root fs) left w rel = Some (w @ rel)" by (rule resolve_plain [OF p(3) o]) simp
  then have "resolve (fs_root fs) 255 [] (clean_comps ws @ rel) = Some (w @ rel)"
    using left resolve_mono [of "fs_root fs" 40 "[]" "clean_comps ws @ rel" "w @ rel" 255] by simp
  then show "EvalSymlinks fs (Join ws (slash_path rel)) = Some (render_path True (w @ rel))"
    using Join_render [OF p(1) rel] locate_render by (simp add: EvalSymlinks_def)
qed

lemma walked_agrees:
  assumes d: "plain_dir fs ws w es" and o: "open_path (Directory True es) rel"
    "node_at (Directory True es) rel = Some (Reg r s)" and h: "hash_walked fs ws rel = Some entry"
  shows "file_agrees fs ws entry"
proof -
  note p = walked_path [OF d o] and m = plain_dir_names [OF d]
  note f = slash_path_facts [OF p(1,2)]
  have c: "clean_comps (render_path True w) = w" "clean_comps (render_path True (w @ rel)) = w @ rel"
    using m(1) p(1) by (simp_all add: clean_comps_render)
  have "strip_common w (w @ rel) = ([], rel)" by (simp add: strip_common_Nil)
  then have "Rel (render_path True w) (render_path True (w @ rel)) = Some (slash_path rel)"
    by (simp add: Rel_def c slash_path_def)
  then have "pathWithin (mustEval fs ws) (render_path True (w @ rel))"
    using f(4) m(2) by (auto simp: pathWithin_def escapes_def)
  then have "secureExistingPath fs ws (mustEval fs ws) (slash_path rel) = Inr (Join ws (slash_path rel))"
    using f p(3) by (auto simp: secureExistingPath_def escapes_def)
  then show ?thesis using h
    by (auto simp: file_agrees_def hash_walked_def EqualFold_def)
qed

lemma collect_files_Some:
  "collect_files fs ws vs = Some entries \<Longrightarrow>
     walk_errors vs = [] \<and> map Path entries = map slash_path (file_rels vs)
     \<and> regular_paths vs = map slash_path (file_rels vs)"
proof (induction vs arbitrary: entries)
  case Nil
  then show ?case by (auto simp: walk_errors_def file_rels_def regular_paths_def)
next
  case (Cons v vs)
  then obtain rel n where v: "v = VisitFile rel n" by (cases v) auto
  show ?case
  proof (cases "IsRegular n")
    case False
    then have c: "collect_files fs ws vs = Some entries" using Cons.prems v by simp
    from Cons.IH [OF c] show ?thesis using v False
      by (auto simp: walk_errors_def file_rels_def regular_paths_def)
  next
    case True
    then obtain e es where e: "hash_walked fs ws rel = Some e" "collect_files fs ws vs = Some es" "entries = e # es"
      using Cons.prems v by (auto simp: Option.bind_eq_Some_conv)
    have "Path e = slash_path rel" using e(1) by (auto simp: hash_walked_def)
    then show ?thesis using Cons.IH [OF e(2)] v True e
      by (auto simp: walk_errors_def file_rels_def regular_paths_def)
  qed
qed

lemma collect_files_entry:
  "collect_files fs ws vs = Some entries \<Longrightarrow> e \<in> set entries \<Longrightarrow>
     \<exists>rel n. VisitFile rel n \<in> set vs \<and> IsRegular n \<and> hash_walked fs ws rel = Some e"
proof (induction fs ws vs arbitrary: entries rule: collect_files.induct)
  case (3 fs ws rel n vs)
  show ?case
  proof (cases "IsRegular n")
    case False
    then show ?thesis using "3.IH"(1) [OF False _ "3.prems"(2)] "3.prems"(1) by auto
  next
    case True
    then obtain x xs where x: "hash_walked fs ws rel = Some x" "collect_files fs ws vs = Some xs" "entries = x # xs"
      using "3.prems"(1) by (auto simp: Option.bind_eq_Some_conv)
    show ?thesis
    proof (cases "e = x")
      case False
      then have "e \<in> set xs" using "3.prems"(2) x(3) by simp
      then show ?thesis using "3.IH"(2) [OF _ x(1,2)] True by auto
    qed (use x(1) True in auto)
  qed
qed simp_all


lemma proper_leaf: "proper_tree (Reg r s)"
proof -
  have "node_at (Reg r s) p \<noteq> Some (Directory True es)" for p es by (cases p) simp_all
  then show ?thesis by (simp add: proper_tree_def)
qed

lemma proper_directory:
  assumes "distinct (map fst es)" "list_all name_ok (map fst es)" "\<And>c n. map_of es c = Some n \<Longrightarrow> proper_tree n"
  shows "proper_tree (Directory True es)"
  unfolding proper_tree_def
proof (intro allI impI)
  fix p es'
  assume at: "node_at (Directory True es) p = Some (Directory True es')"
  show "distinct (map fst es') \<and> list_all name_ok (map fst es')"
  proof (cases p)
    case Nil
    then show ?thesis using at assms(1,2) by simp
  next
    case (Cons c q)
    then obtain n where n: "map_of es c = Some n" "node_at n q = Some (Directory True es')"
      using at by (auto simp: Option.bind_eq_Some_conv)
    then show ?thesis using assms(3) [OF n(1)] unfolding proper_tree_def by blast
  qed
qed

definition sample_workspace :: filesystem where
  "sample_workspace = \<lparr>fs_root = Directory True [(''w'', Directory True [(''a'', Reg True ''x'')])], fs_cwd = ''/''\<rparr>"

lemma sample_workspace_facts:
  "plain_dir sample_workspace ''/w'' [''w''] [(''a'', Reg True ''x'')]" (is ?plain)
  "proper_tree (fs_root sample_workspace)" (is ?proper)
  "build_manifest sample_workspace ''/w'' =
     Some \<lparr>manifest_SchemaVersion = 1, Files = [\<lparr>Path = ''a'', SHA256 = sha256_hex ''x'', SizeBytes = 1\<rparr>]\<rparr>" (is ?built)
proof -
  note evals = sample_workspace_def locate_def IsAbs_def Clean_def clean_comps_def clean_step_def render_path_def Join_def
    Let_def ReadFile_def Stat_def Lstat_def
  show ?plain by (simp add: evals plain_dir_def)
  show ?proper
    by (auto simp: sample_workspace_def name_ok_def comp_ok_def split: if_splits intro!: proper_directory proper_leaf)
  show ?built
    by (simp add: evals build_manifest_def walk_workspace_def IsRegular_def hash_walked_def slash_path_def)
qed


end
