(* ===== verification/Driver_Files.thy ===== *)
theory Driver_Files
  imports Run_Workspace Go_Write "HOL-Library.Sublist"
begin

text \<open>
  The file operations of \<open>harness/rundriver\<close>: \<open>copyTree\<close>, \<open>copyFile\<close> and \<open>writeJSONAtomic\<close> of
  \<open>main.go\<close>, \<open>makeWorkspaceWritable\<close> and \<open>validateWorkspaceTree\<close> of \<open>production.go\<close>, on the file tree
  of \<open>Go_Fs\<close>. All walks share \<open>walk_fs\<close>, which is \<open>filepath.WalkDir\<close> on the live tree: a directory is
  read when the walk comes to it, after its callback, so a callback that writes into the walked tree is walked over in turn and the
  walk need not end. Not returning is the value \<^const>\<open>None\<close>.
\<close>

section \<open>Effects\<close>

datatype (plugins only: code size) driver_error =
    NotADirectory string | MkdirFailed string | WalkFailed "string list" | SymlinkRefused "string list"
  | HiddenRefused "string list" | SpecialRefused "string list" | OpenFailed string | CreateFailed string | CopyFailed string
  | ChmodFailed "string list" | WriteFailed string | RenameFailed string | RemoveFailed string
  | RunDirExists string | RunDirDenied string | Required string | RepeatRange | PhaseUnknown | TimeUnparsable string
  | DurationRange | StatusUnsupported string | TimedOutDuration | InfrastructureFields
  | InputFailed string | InputSyntax string | ExecutionLimits | DuplicateRun string | AbsentRun string | InvalidEntry string
  | AbsentCell string | EmptyField string | MutableImage string | MutablePostgres
  | PatchDigest | PatchHeader | PatchPath string | PatchApply string | TargetPath string | TargetHash string
  | DiffFailed | RandomFailed | SlotFailed string | Cancelled | ConfigSyntax | AmbiguousFinalization
  | AssemblyFailed | CandidateFailed int

type_synonym 'a outcome = "(driver_error + 'a) \<times> filesystem"
type_synonym 'a io = "filesystem \<Rightarrow> 'a outcome option"

definition io_return :: "'a \<Rightarrow> 'a io" where
  "io_return x fs = Some (Inr x, fs)"

definition io_fail :: "driver_error \<Rightarrow> 'a io" where
  "io_fail e fs = Some (Inl e, fs)"

definition io_bind :: "'a io \<Rightarrow> ('a \<Rightarrow> 'b io) \<Rightarrow> 'b io" where
  "io_bind act k fs =
     (case act fs of None \<Rightarrow> None | Some (Inl e, fs') \<Rightarrow> Some (Inl e, fs') | Some (Inr x, fs') \<Rightarrow> k x fs')"

definition io_require :: "bool \<Rightarrow> driver_error \<Rightarrow> unit io" where
  "io_require c e = (if c then io_return () else io_fail e)"

text \<open>A call that either changes the tree or fails without doing so.\<close>

definition io_write :: "driver_error \<Rightarrow> (filesystem \<Rightarrow> filesystem option) \<Rightarrow> unit io" where
  "io_write e f fs = (case f fs of None \<Rightarrow> Some (Inl e, fs) | Some fs' \<Rightarrow> Some (Inr (), fs'))"

lemma io_simps [simp]:
  "io_bind (io_return x) k = k x" "io_bind (io_fail e) k = io_fail e"
  "io_require True e = io_return ()" "io_require False e = io_fail e"
  by (auto simp: io_bind_def io_return_def io_fail_def io_require_def)

lemma io_bind_Some:
  "act fs = Some (Inr x, fs') \<Longrightarrow> io_bind act k fs = k x fs'"
  "act fs = Some (Inl e, fs') \<Longrightarrow> io_bind act k fs = Some (Inl e, fs')"
  by (simp_all add: io_bind_def)

lemma io_bind_success:
  "io_bind act k fs = Some (Inr y, fs'') \<longleftrightarrow> (\<exists>x fs'. act fs = Some (Inr x, fs') \<and> k x fs' = Some (Inr y, fs''))"
  by (auto simp: io_bind_def split: option.splits sum.splits)

section \<open>The calls of package os\<close>

text \<open>\<open>os.Mkdir\<close> wants a free name; \<open>os.MkdirAll\<close> makes the missing directories from the outermost on.\<close>

definition make_node :: "filesystem \<Rightarrow> string \<Rightarrow> node \<Rightarrow> filesystem option" where
  "make_node fs p n = map_option (\<lambda>r. fs\<lparr>fs_root := put_node (fs_root fs) r n\<rparr>) (create_place fs p)"

fun mkdir_comps :: "bool \<Rightarrow> string list \<Rightarrow> filesystem \<Rightarrow> bool \<times> filesystem" where
  "mkdir_comps rooted [] fs = (True, fs)"
| "mkdir_comps rooted (c # cs) fs =
     (let p = render_path rooted (rev (c # cs)) in
      case Stat fs p of
        Some n \<Rightarrow> (IsDir n, fs)
      | None \<Rightarrow>
          (case mkdir_comps rooted cs fs of
             (False, fs) \<Rightarrow> (False, fs)
           | (True, fs) \<Rightarrow> (case make_node fs p (Directory True []) of None \<Rightarrow> (False, fs) | Some fs' \<Rightarrow> (True, fs'))))"

definition MkdirAll :: "string \<Rightarrow> unit io" where
  "MkdirAll p fs =
     (case mkdir_comps (IsAbs p) (rev (clean_comps p)) fs of
        (True, fs') \<Rightarrow> Some (Inr (), fs') | (False, fs') \<Rightarrow> Some (Inl (MkdirFailed p), fs'))"

section \<open>copyFile\<close>

text \<open>
  The source is opened before the destination is created or truncated and read after it: a file copied onto
  itself is read empty. A directory opens and fails to read.
\<close>

definition opens :: "node option \<Rightarrow> bool" where
  "opens n \<longleftrightarrow> (case n of Some (Reg ok s) \<Rightarrow> ok | Some (Directory ok es) \<Rightarrow> ok | _ \<Rightarrow> False)"

definition copyFile :: "string \<Rightarrow> string \<Rightarrow> bool \<Rightarrow> unit io" where
  "copyFile source destination overwrite fs =
     (if \<not> opens (Stat fs source) then Some (Inl (OpenFailed source), fs)
      else io_bind (MkdirAll (Dir destination)) (\<lambda>_.
        io_bind (io_write (CreateFailed destination)
            (\<lambda>fs. if overwrite then WriteFile fs destination '''' else make_node fs destination (Reg True ''''))) (\<lambda>_ fs.
          case ReadFile fs source of
            None \<Rightarrow> Some (Inl (CopyFailed source), fs)
          | Some content \<Rightarrow> io_write (CopyFailed source) (\<lambda>fs. WriteFile fs destination content) fs)) fs)"

section \<open>Walks\<close>

type_synonym visitor = "string list \<Rightarrow> node \<Rightarrow> unit io"

partial_function (option) walk_fs :: "visitor \<Rightarrow> string \<Rightarrow> (string list \<times> node) list \<Rightarrow> filesystem \<Rightarrow> unit outcome option" where
  [code]: "walk_fs visit root pending fs =
     (case pending of
        [] \<Rightarrow> Some (Inr (), fs)
      | (rel, n) # rest \<Rightarrow>
          (case visit rel n fs of
             None \<Rightarrow> None
           | Some (Inl e, fs') \<Rightarrow> Some (Inl e, fs')
           | Some (Inr _, fs') \<Rightarrow>
               if \<not> IsDir n then walk_fs visit root rest fs'
               else (case ReadDir fs' (Join root (slash_path rel)) of
                   None \<Rightarrow> Some (Inl (WalkFailed rel), fs')
                 | Some es \<Rightarrow> walk_fs visit root (map (\<lambda>(c, k). (rel @ [c], k)) es @ rest) fs')))"

definition WalkDir_fs :: "visitor \<Rightarrow> string \<Rightarrow> unit io" where
  "WalkDir_fs visit root fs =
     (case Lstat fs root of None \<Rightarrow> Some (Inl (WalkFailed []), fs) | Some n \<Rightarrow> walk_fs visit root [([], n)] fs)"

definition copy_entry :: "string \<Rightarrow> string \<Rightarrow> bool \<Rightarrow> visitor" where
  "copy_entry source destination overwrite rel n =
     (if rel = [] then io_return ()
      else case n of
        Link t \<Rightarrow> io_fail (SymlinkRefused rel)
      | Directory ok es \<Rightarrow>
          if hidden (last rel) then io_fail (HiddenRefused rel) else MkdirAll (Join destination (slash_path rel))
      | Special \<Rightarrow> io_fail (SpecialRefused rel)
      | Reg ok s \<Rightarrow> copyFile (Join source (slash_path rel)) (Join destination (slash_path rel)) overwrite)"

definition copyTree :: "string \<Rightarrow> string \<Rightarrow> bool \<Rightarrow> unit io" where
  "copyTree source destination overwrite fs =
     (case Stat fs source of
        Some (Directory ok es) \<Rightarrow>
          io_bind (if overwrite then io_return ()
            else io_write (MkdirFailed destination) (\<lambda>fs. make_node fs destination (Directory True [])))
          (\<lambda>_. WalkDir_fs (copy_entry source destination overwrite) source) fs
      | _ \<Rightarrow> Some (Inl (NotADirectory source), fs))"

text \<open>\<open>os.Chmod\<close> follows links; the bits it adds make a directory or the target of a link readable.\<close>

definition make_readable :: "node \<Rightarrow> node" where
  "make_readable n = (case n of Reg ok s \<Rightarrow> Reg True s | Directory ok es \<Rightarrow> Directory True es | _ \<Rightarrow> n)"

definition chmod_entry :: "string \<Rightarrow> visitor" where
  "chmod_entry root rel n fs =
     (case locate fs 40 (Join root (slash_path rel)) of
        None \<Rightarrow> Some (Inl (ChmodFailed rel), fs)
      | Some r \<Rightarrow>
          (case node_at (fs_root fs) r of
             None \<Rightarrow> Some (Inl (ChmodFailed rel), fs)
           | Some m \<Rightarrow>
               Some (Inr (), fs\<lparr>fs_root := put_node (fs_root fs) r
                 (case n of Directory _ _ \<Rightarrow> make_readable m | Link _ \<Rightarrow> make_readable m | _ \<Rightarrow> m)\<rparr>)))"

definition makeWorkspaceWritable :: "string \<Rightarrow> unit io" where
  "makeWorkspaceWritable root = WalkDir_fs (chmod_entry root) root"

definition validate_entry :: visitor where
  "validate_entry rel n =
     (if rel = [] then io_return ()
      else case n of
        Link t \<Rightarrow> io_fail (SymlinkRefused rel)
      | Directory ok es \<Rightarrow> if hidden (last rel) then io_fail (HiddenRefused rel) else io_return ()
      | Special \<Rightarrow> io_fail (SpecialRefused rel)
      | Reg ok s \<Rightarrow> io_return ())"

definition validateWorkspaceTree :: "string \<Rightarrow> unit io" where
  "validateWorkspaceTree root = WalkDir_fs validate_entry root"







section \<open>Placing nodes in a tree\<close>

lemma node_at_Cons_Some:
  "node_at n (c # cs) = Some m \<longleftrightarrow> (\<exists>es k. n = Directory True es \<and> map_of es c = Some k \<and> node_at k cs = Some m)"
  by (cases n) (auto simp: Option.bind_eq_Some_conv)

lemma open_pathI: "list_all name_ok sub \<Longrightarrow> node_at n sub = Some m \<Longrightarrow> open_path n sub"
proof (induction sub arbitrary: n)
  case (Cons c sub)
  then obtain es k where k: "n = Directory True es" "map_of es c = Some k" "node_at k sub = Some m"
    by (auto simp: node_at_Cons_Some)
  show ?case unfolding k(1) using Cons k by (intro open_path_Cons) auto
qed (simp add: open_path_def)

lemma put_node_nested:
  "node_at R (butlast d) = Some (Directory True es) \<Longrightarrow> d \<noteq> [] \<Longrightarrow>
     put_node (put_node R d X) (d @ q) Y = put_node R d (put_node X q Y)"
proof (induction d arbitrary: R)
  case (Cons c cs)
  obtain ok es' where R: "R = Directory ok es'" using Cons.prems(1) by (cases R) (auto split: if_splits)
  have same: "put_entry c b (put_entry c a zs) = put_entry c b zs" for a b :: node and zs by (induction zs) auto
  show ?case
  proof (cases "cs = []")
    case True
    then show ?thesis using R by (cases "map_of es' c") (simp_all add: map_of_put_entry same)
  next
    case False
    then obtain k where k: "map_of es' c = Some k" "node_at k (butlast cs) = Some (Directory True es)"
      using Cons.prems(1) R by (auto simp: Option.bind_eq_Some_conv split: if_splits)
    then show ?thesis using Cons.IH [OF k(2) False] R by (simp add: map_of_put_entry same)
  qed
qed simp

lemma node_at_put_below:
  assumes "node_at R (butlast d) = Some (Directory True es)" "d \<noteq> []"
  shows "node_at (put_node R d X) (d @ q) = node_at X q"
  using node_at_put_same [OF assms] by (simp add: node_at_append)

lemma node_at_put_apart:
  "\<not> Sublist.prefix d p \<Longrightarrow> \<not> Sublist.prefix p d \<Longrightarrow> node_at (put_node R d X) p = node_at R p"
proof (induction d arbitrary: R p)
  case (Cons c cs)
  then obtain a as where p: "p = a # as" by (cases p) auto
  show ?case
  proof (cases R)
    case (Directory ok es)
    show ?thesis
    proof (cases "a = c")
      case True
      then have "\<not> Sublist.prefix cs as" "\<not> Sublist.prefix as cs" using Cons.prems p by auto
      moreover from this have "cs \<noteq> []" by auto
      ultimately show ?thesis using Cons.IH Directory p True
        by (cases "map_of es c") (simp_all add: map_of_put_entry)
    next
      case False
      then show ?thesis using Directory p
        by (cases "map_of es c") (simp_all add: map_of_put_entry)
    qed
  qed (use p in simp_all)
qed simp

section \<open>Plain paths\<close>

text \<open>An absolute path whose components lead to a node without passing a link.\<close>

abbreviation abs_path :: "string list \<Rightarrow> string" where
  "abs_path \<equiv> render_path True"

lemma plain_locate:
  assumes "list_all name_ok p" "node_at (fs_root fs) p = Some m" "\<And>t. m \<noteq> Link t"
  shows "locate fs links (abs_path p) = Some p" "Stat fs (abs_path p) = Some m"
proof -
  have ok: "list_all comp_ok p" using assms(1) by (auto simp: list_all_iff name_ok_def)
  have "resolve (fs_root fs) links [] p = Some ([] @ p)" for links
    using resolve_plain [OF _ open_pathI [OF assms(1,2)] assms(2) assms(3), of "fs_root fs" "[]"] by simp
  then show loc: "locate fs links (abs_path p) = Some p" for links using locate_render [OF ok] by simp
  from loc [of 40] show "Stat fs (abs_path p) = Some m" using assms(2) by (simp add: Stat_def)
qed

lemma resolve_dir:
  assumes "list_all name_ok p" "node_at root p = Some (Directory ok es)"
  shows "resolve root links [] p = Some p"
  using resolve_plain [OF _ open_pathI [OF assms] assms(2), of root "[]"] by simp

lemma plain_Lstat:
  assumes "list_all name_ok p" "node_at (fs_root fs) p = Some (Directory ok es)"
  shows "Lstat fs (abs_path p) = Some (Directory ok es)"
proof (cases p rule: rev_cases)
  case Nil
  then show ?thesis using plain_locate(2) [OF assms] by (simp add: Lstat_def clean_comps_render)
next
  case (snoc q c)
  then obtain es' where q: "node_at (fs_root fs) q = Some (Directory True es')" "map_of es' c = Some (Directory ok es)"
    using assms(2) by (auto simp: node_at_append Option.bind_eq_Some_conv node_at_Cons_Some)
  have "list_all name_ok q" using assms(1) snoc by simp
  then have "resolve (fs_root fs) 40 [] q = Some q" using q(1) by (rule resolve_dir)
  then show ?thesis using assms snoc by (simp add: Lstat_def clean_comps_render)
qed

lemma Join_abs:
  assumes "list_all name_ok p" "list_all name_ok rel"
  shows "Join (abs_path p) (slash_path rel) = abs_path (p @ rel)"
proof (cases "rel = []")
  case True
  have "IsAbs (abs_path p @ ''/.'')" by (simp add: IsAbs_def HasPrefix_iff render_path_def)
  moreover have "clean_comps (abs_path p @ ''/.'') = p"
  proof -
    have "split_on (CHR ''/'') (abs_path p @ ''/.'') = split_on (CHR ''/'') (abs_path p) @ [''.'']"
      using split_on_append [of "CHR ''/''" "abs_path p" "''.''"] by simp
    then have "clean_comps (abs_path p @ ''/.'') = clean_comps (abs_path p)"
      using \<open>IsAbs (abs_path p @ ''/.'')\<close> by (simp add: clean_comps_def clean_step_def)
    then show ?thesis using assms(1) by (simp add: clean_comps_render)
  qed
  ultimately have "Clean (abs_path p @ ''/.'') = abs_path p" by (simp add: Clean_def)
  then show ?thesis using True by (simp add: Join_def slash_path_def render_path_def)
qed (use Join_render(1) [of "abs_path p" rel] assms in \<open>simp add: clean_comps_render\<close>)

lemma plain_create:
  assumes "list_all name_ok (p @ [c])" "node_at (fs_root fs) p = Some (Directory True es)" "map_of es c = None"
  shows "create_place fs (abs_path (p @ [c])) = Some (p @ [c])"
proof -
  have "resolve (fs_root fs) 40 [] p = Some p" using assms(1,2) by (intro resolve_dir) simp_all
  then show ?thesis using assms clean_comps_render [OF assms(1)] by (simp add: create_place_def)
qed

lemma plain_missing:
  assumes "list_all name_ok (p @ [c])" "node_at (fs_root fs) p = Some (Directory True es)" "map_of es c = None"
  shows "locate fs 40 (abs_path (p @ [c])) = None" "Stat fs (abs_path (p @ [c])) = None"
proof -
  have ok: "list_all comp_ok (p @ [c])" using assms(1) by (auto simp: list_all_iff name_ok_def)
  have r: "resolve (fs_root fs) 40 [] p = Some p" using assms(1,2) by (intro resolve_dir) simp_all
  obtain left where "resolve (fs_root fs) 40 [] (p @ [c]) = resolve (fs_root fs) left p [c]"
    using resolve_append [OF r assms(2)] by metis
  moreover have "node_at (fs_root fs) (p @ [c]) = None" using assms(2,3) by (simp add: node_at_append)
  ultimately have "resolve (fs_root fs) 40 [] (p @ [c]) = None"
    using assms(1) by (simp add: name_ok_def comp_ok_def)
  then show loc: "locate fs 40 (abs_path (p @ [c])) = None" using locate_render [OF ok] by simp
  show "Stat fs (abs_path (p @ [c])) = None" using loc by (simp add: Stat_def)
qed

lemma MkdirAll_present:
  assumes "list_all name_ok p" "node_at (fs_root fs) p = Some (Directory ok es)"
  shows "MkdirAll (abs_path p) fs = Some (Inr (), fs)"
proof (cases "rev p")
  case (Cons c cs)
  have "p = rev (c # cs)" using Cons by (metis rev_rev_ident)
  then have "Stat fs (abs_path (rev (c # cs))) = Some (Directory ok es)"
    using plain_locate(2) [OF assms] by simp
  then show ?thesis using assms Cons by (simp add: MkdirAll_def clean_comps_render IsDir_def)
qed (use assms in \<open>simp add: MkdirAll_def clean_comps_render\<close>)

lemma MkdirAll_missing:
  assumes "list_all name_ok (p @ [c])" "node_at (fs_root fs) p = Some (Directory True es)" "map_of es c = None"
  shows "MkdirAll (abs_path (p @ [c])) fs = Some (Inr (), fs\<lparr>fs_root := put_node (fs_root fs) (p @ [c]) (Directory True [])\<rparr>)"
proof -
  have "mkdir_comps True (rev p) fs = (True, fs)"
    using MkdirAll_present [of p fs True es] assms(1,2)
    by (auto simp: MkdirAll_def clean_comps_render split: prod.splits bool.splits)
  then show ?thesis using plain_missing(2) [OF assms] plain_create [OF assms] clean_comps_render [OF assms(1)]
    by (simp add: MkdirAll_def make_node_def)
qed

section \<open>What a walk finds acceptable\<close>

text \<open>No links, no special files, no unreadable directories, no hidden directories; with \<open>strict\<close> every file is readable.\<close>

function clean_tree :: "bool \<Rightarrow> node \<Rightarrow> bool" where
  "clean_tree strict (Directory ok es) \<longleftrightarrow>
     ok \<and> list_all (\<lambda>(c, n). (IsDir n \<longrightarrow> \<not> hidden c) \<and> clean_tree strict n) es"
| "clean_tree strict (Reg ok s) \<longleftrightarrow> (strict \<longrightarrow> ok)"
| "clean_tree strict (Link t) \<longleftrightarrow> False"
| "clean_tree strict Special \<longleftrightarrow> False"
  by pat_completeness auto
termination
  by (relation "measure (\<lambda>(strict, n). size n)") (auto dest: entry_size)

text \<open>The tree a copy makes: entries in the order of the walk, everything readable.\<close>

function copied :: "node \<Rightarrow> node" where
  "copied (Directory ok es) = Directory True (map (\<lambda>(c, n). (c, copied n)) (sort_key fst es))"
| "copied (Reg ok s) = Reg True s"
| "copied (Link t) = Link t"
| "copied Special = Special"
  by pat_completeness auto
termination
  by (relation "measure size") (auto dest: entry_size)

lemma map_of_sorted: "distinct (map fst es) \<Longrightarrow> map_of (sort_key fst es) c = map_of es c"
  by (rule fun_cong [OF map_of_eqI]) (auto simp: map_of_eq_Some_iff distinct_map)

lemma node_at_copied:
  "proper_tree t \<Longrightarrow> clean_tree strict t \<Longrightarrow> node_at (copied t) rel = map_option copied (node_at t rel)"
proof (induction rel arbitrary: t)
  case (Cons c cs)
  show ?case
  proof (cases t)
    case (Directory ok es)
    then have ok: ok and p: "proper_tree (Directory True es)" using Cons.prems by auto
    have "map_of (map (\<lambda>(c, n). (c, copied n)) (sort_key fst es)) c = map_option copied (map_of es c)"
      using map_of_sorted [OF proper_entries(1) [OF p]] by (simp add: map_of_map)
    moreover have "node_at (copied n) cs = map_option copied (node_at n cs)" if n: "map_of es c = Some n" for n
    proof (rule Cons.IH)
      show "proper_tree n" using proper_child [OF p n] .
      show "clean_tree strict n" using Cons.prems(2) Directory map_of_SomeD [OF n] by (auto simp: list_all_iff)
    qed
    ultimately show ?thesis using Directory ok by (cases "map_of es c") simp_all
  qed (use Cons.prems in simp_all)
qed simp

section \<open>A copy into a new directory\<close>

text \<open>
  The source at components \<open>s\<close>, the destination at \<open>d\<close> in an existing directory, neither inside the
  other. \<open>dest fs d X\<close> is the state with the tree \<open>X\<close> at the destination.
\<close>

definition copy_ready :: "filesystem \<Rightarrow> string list \<Rightarrow> string list \<Rightarrow> node \<Rightarrow> bool" where
  "copy_ready fs s d t \<longleftrightarrow> list_all name_ok s \<and> list_all name_ok d \<and> d \<noteq> [] \<and> node_at (fs_root fs) s = Some t
     \<and> (\<exists>es. node_at (fs_root fs) (butlast d) = Some (Directory True es))
     \<and> \<not> Sublist.prefix s d \<and> \<not> Sublist.prefix d s"

definition dest :: "filesystem \<Rightarrow> string list \<Rightarrow> node \<Rightarrow> filesystem" where
  "dest fs d X = fs\<lparr>fs_root := put_node (fs_root fs) d X\<rparr>"

lemma dest_facts:
  assumes "copy_ready fs s d t"
  shows dest_source: "node_at (fs_root (dest fs d X)) (s @ rel) = node_at t rel"
    and dest_below: "node_at (fs_root (dest fs d X)) (d @ q) = node_at X q"
    and dest_put: "(dest fs d X)\<lparr>fs_root := put_node (fs_root (dest fs d X)) (d @ q) Y\<rparr> = dest fs d (put_node X q Y)"
proof -
  obtain es where par: "node_at (fs_root fs) (butlast d) = Some (Directory True es)" "d \<noteq> []"
    using assms by (auto simp: copy_ready_def)
  have "\<not> Sublist.prefix d (s @ rel)" "\<not> Sublist.prefix (s @ rel) d"
    using assms prefix_same_cases [of d "s @ rel" s] by (auto simp: copy_ready_def dest: append_prefixD)
  then show "node_at (fs_root (dest fs d X)) (s @ rel) = node_at t rel"
    using assms node_at_put_apart by (simp add: dest_def node_at_append copy_ready_def)
  show "node_at (fs_root (dest fs d X)) (d @ q) = node_at X q" using node_at_put_below [OF par] by (simp add: dest_def)
  show "(dest fs d X)\<lparr>fs_root := put_node (fs_root (dest fs d X)) (d @ q) Y\<rparr> = dest fs d (put_node X q Y)"
    using put_node_nested [OF par] by (simp add: dest_def)
qed

lemma copy_dir_step:
  assumes r: "copy_ready fs s d t" and n: "list_all name_ok (p @ [c])"
    and X: "node_at X p = Some (Directory True es)" "map_of es c = None"
  shows "MkdirAll (abs_path (d @ p @ [c])) (dest fs d X) = Some (Inr (), dest fs d (put_node X (p @ [c]) (Directory True [])))"
proof -
  have "list_all name_ok ((d @ p) @ [c])" using r n by (simp add: copy_ready_def)
  from MkdirAll_missing [OF this] show ?thesis
    using dest_below [OF r] X dest_put [OF r, of X "p @ [c]"] by simp
qed

lemma copy_file_step:
  assumes r: "copy_ready fs s d t" and n: "list_all name_ok (p @ [c])"
    and X: "node_at X p = Some (Directory True es)" "map_of es c = None"
    and src: "node_at t (p @ [c]) = Some (Reg True x)"
  shows "copyFile (abs_path (s @ p @ [c])) (abs_path (d @ p @ [c])) False (dest fs d X)
    = Some (Inr (), dest fs d (put_node X (p @ [c]) (Reg True x)))"
proof -
  let ?q = "p @ [c]"
  let ?made = "dest fs d (put_node X ?q (Reg True ''''))"
  have names: "list_all name_ok (s @ ?q)" "list_all name_ok (d @ ?q)" "list_all name_ok (d @ p)"
    using r n by (auto simp: copy_ready_def)
  have source: "Stat (dest fs d Y) (abs_path (s @ ?q)) = Some (Reg True x)" for Y
    using plain_locate(2) [OF names(1)] dest_source [OF r, of Y ?q] src by simp
  have dir: "Dir (abs_path (d @ ?q)) = abs_path (d @ p)"
    using names(2) Dir_render [of "d @ p"] by simp
  have "MkdirAll (Dir (abs_path (d @ ?q))) (dest fs d X) = Some (Inr (), dest fs d X)"
    unfolding dir using MkdirAll_present [OF names(3)] dest_below [OF r, of X p] X(1) by simp
  moreover have "make_node (dest fs d X) (abs_path (d @ ?q)) (Reg True '''') = Some ?made"
    using plain_create [of "d @ p" c "dest fs d X" es] names(2) dest_below [OF r, of X p] X dest_put [OF r, of X ?q]
    by (simp add: make_node_def)
  moreover have "WriteFile ?made (abs_path (d @ ?q)) x = Some (dest fs d (put_node X ?q (Reg True x)))"
  proof -
    have par: "node_at X (butlast ?q) = Some (Directory True es)" using X(1) by simp
    note at = node_at_put_same [OF par, of "Reg True ''''"]
      and nested = put_node_nested [OF par, of "Reg True ''''" "[]" "Reg True x"]
    have "node_at (fs_root ?made) (d @ ?q) = Some (Reg True '''')" using dest_below [OF r] at by simp
    then show ?thesis
      using plain_locate(1) [OF names(2), of ?made] dest_put [OF r, of "put_node X ?q (Reg True '''')" ?q] nested
      by (simp add: WriteFile_def)
  qed
  ultimately show ?thesis using source
    by (simp add: copyFile_def opens_def io_bind_def io_write_def ReadFile_def)
qed

lemma put_child:
  assumes "rel \<noteq> [] \<Longrightarrow> node_at X (butlast rel) = Some (Directory True es)" "c \<notin> fst ` set done"
  shows "put_node (put_node X rel (Directory True done)) (rel @ [c]) n = put_node X rel (Directory True (done @ [(c, n)]))"
proof -
  have e: "put_entry c n done = done @ [(c, n)]" using assms(2) by (induction "done") auto
  have "map_of done c = None" using assms(2) by (simp add: map_of_eq_None_iff)
  then show ?thesis using put_node_nested [OF assms(1)] e by (cases "rel = []") simp_all
qed

lemma copy_children:
  assumes each: "\<And>c k Y zs rest. (c, k) \<in> set cs \<Longrightarrow> node_at Y rel = Some (Directory True zs) \<Longrightarrow> map_of zs c = None \<Longrightarrow>
      walk_fs v src ((rel @ [c], k) # rest) (dest fs d Y) = walk_fs v src rest (dest fs d (put_node Y (rel @ [c]) (copied k)))"
    and "distinct (map fst cs)" and par: "rel \<noteq> [] \<Longrightarrow> node_at X (butlast rel) = Some (Directory True es)"
    and "fst ` set done \<inter> fst ` set cs = {}"
  shows "walk_fs v src (map (\<lambda>(c, k). (rel @ [c], k)) cs @ rest) (dest fs d (put_node X rel (Directory True done)))
     = walk_fs v src rest (dest fs d (put_node X rel (Directory True (done @ map (\<lambda>(c, k). (c, copied k)) cs))))"
  using assms
proof (induction cs arbitrary: "done")
  case (Cons e cs)
  obtain c k where e: "e = (c, k)" by (cases e)
  have fresh: "c \<notin> fst ` set done" "map_of done c = None" using Cons.prems(4) e by (auto simp: map_of_eq_None_iff)
  have at: "node_at (put_node X rel (Directory True done)) rel = Some (Directory True done)"
    using node_at_put_same [OF Cons.prems(3)] by (cases "rel = []") simp_all
  have "walk_fs v src ((rel @ [c], k) # map (\<lambda>(c, k). (rel @ [c], k)) cs @ rest) (dest fs d (put_node X rel (Directory True done)))
      = walk_fs v src (map (\<lambda>(c, k). (rel @ [c], k)) cs @ rest)
          (dest fs d (put_node X rel (Directory True (done @ [(c, copied k)]))))"
    using Cons.prems(1) [OF _ at fresh(2)] put_child [OF Cons.prems(3) fresh(1)] e by simp
  also have "\<dots> = walk_fs v src rest
      (dest fs d (put_node X rel (Directory True ((done @ [(c, copied k)]) @ map (\<lambda>(c, k). (c, copied k)) cs))))"
    using Cons.prems e by (intro Cons.IH) auto
  finally show ?case using e by simp
qed simp

lemma copy_walk:
  assumes r: "copy_ready fs s d t"
  shows "node_at t (p @ [c]) = Some n \<Longrightarrow> list_all name_ok (p @ [c]) \<Longrightarrow> node_at X p = Some (Directory True es) \<Longrightarrow>
    map_of es c = None \<Longrightarrow> (IsDir n \<longrightarrow> \<not> hidden c) \<Longrightarrow> clean_tree True n \<Longrightarrow> proper_tree n \<Longrightarrow>
    walk_fs (copy_entry (abs_path s) (abs_path d) False) (abs_path s) ((p @ [c], n) # rest) (dest fs d X)
      = walk_fs (copy_entry (abs_path s) (abs_path d) False) (abs_path s) rest (dest fs d (put_node X (p @ [c]) (copied n)))"
proof (induction n arbitrary: p c X es rest rule: copied.induct)
  case (1 ok zs)
  let ?rel = "p @ [c]" and ?v = "copy_entry (abs_path s) (abs_path d) False"
  have names: "list_all name_ok s" "list_all name_ok d" using r by (auto simp: copy_ready_def)
  have ok: ok and pt: "proper_tree (Directory True zs)" using "1.prems"(6,7) by auto
  have visit: "?v ?rel (Directory ok zs) (dest fs d X) = Some (Inr (), dest fs d (put_node X ?rel (Directory True [])))"
    using copy_dir_step [OF r "1.prems"(2,3,4)] "1.prems"(2,5) names by (simp add: copy_entry_def Join_abs IsDir_def)
  have "Stat (dest fs d Y) (abs_path (s @ ?rel)) = Some (Directory True zs)" for Y
    using plain_locate(2) [of "s @ ?rel" "dest fs d Y"] dest_source [OF r, of Y ?rel] "1.prems"(1,2) names ok by simp
  then have entries: "ReadDir (dest fs d Y) (Join (abs_path s) (slash_path ?rel)) = Some (sort_key fst zs)" for Y
    using "1.prems"(2) names by (simp add: ReadDir_def Join_abs)
  have each: "walk_fs ?v (abs_path s) ((?rel @ [k], m) # rest') (dest fs d Y)
      = walk_fs ?v (abs_path s) rest' (dest fs d (put_node Y (?rel @ [k]) (copied m)))"
    if "(k, m) \<in> set (sort_key fst zs)" "node_at Y ?rel = Some (Directory True es')" "map_of es' k = None" for k m Y es' rest'
  proof (rule "1.IH")
    have m: "(k, m) \<in> set zs" "map_of zs k = Some m" using that(1) proper_entries(2) [OF pt] by auto
    show "node_at t (?rel @ [k]) = Some m"
      using "1.prems"(1) m(2) ok by (simp add: node_at_append [of t "p @ [c]"] del: append_assoc)
    show "list_all name_ok (?rel @ [k])" using "1.prems"(2) proper_entries(3) [OF pt m(1)] by simp
    show "IsDir m \<longrightarrow> \<not> hidden k" "clean_tree True m" using "1.prems"(6) m(1) by (auto simp: list_all_iff)
    show "proper_tree m" by (rule proper_child [OF pt m(2)])
  qed (use that in auto)
  have "walk_fs ?v (abs_path s) ((?rel, Directory ok zs) # rest) (dest fs d X)
      = walk_fs ?v (abs_path s) (map (\<lambda>(c, k). (?rel @ [c], k)) (sort_key fst zs) @ rest)
          (dest fs d (put_node X ?rel (Directory True [])))"
    by (subst walk_fs.simps) (simp add: visit entries IsDir_def)
  also have "\<dots> = walk_fs ?v (abs_path s) rest
      (dest fs d (put_node X ?rel (Directory True ([] @ map (\<lambda>(c, k). (c, copied k)) (sort_key fst zs)))))"
    using proper_entries(1) [OF pt] "1.prems"(3) by (intro copy_children each) (auto simp: distinct_map)
  finally show ?case by simp
next
  case (2 ok x)
  have names: "list_all name_ok s" "list_all name_ok d" using r by (auto simp: copy_ready_def)
  have "copy_entry (abs_path s) (abs_path d) False (p @ [c]) (Reg ok x) (dest fs d X)
      = Some (Inr (), dest fs d (put_node X (p @ [c]) (Reg True x)))"
    using copy_file_step [OF r "2.prems"(2,3,4)] "2.prems"(1,2,6) names by (simp add: copy_entry_def Join_abs)
  then show ?case by (subst walk_fs.simps) (simp add: IsDir_def)
qed simp_all

lemma clean_tree_at: "clean_tree strict t \<Longrightarrow> node_at t rel = Some n \<Longrightarrow> clean_tree strict n"
proof (induction rel arbitrary: t)
  case (Cons c rel)
  then obtain es k where k: "t = Directory True es" "map_of es c = Some k" "node_at k rel = Some n"
    by (auto simp: node_at_Cons_Some)
  then have "clean_tree strict k" using Cons.prems(1) map_of_SomeD [OF k(2)] by (auto simp: list_all_iff)
  then show ?case using Cons.IH k(3) by blast
qed simp

lemma copyTree_new:
  assumes "list_all name_ok s" "list_all name_ok (d @ [c])" "node_at (fs_root fs) s = Some (Directory ok zs)"
    "node_at (fs_root fs) d = Some (Directory True es)" "map_of es c = None" "\<not> Sublist.prefix s (d @ [c])"
    "clean_tree True (Directory ok zs)" "proper_tree (Directory ok zs)"
  shows "copyTree (abs_path s) (abs_path (d @ [c])) False fs = Some (Inr (), dest fs (d @ [c]) (copied (Directory ok zs)))"
proof -
  let ?d = "d @ [c]" and ?v = "copy_entry (abs_path s) (abs_path (d @ [c])) False"
  have ok: ok using assms(7) by simp
  have "\<not> Sublist.prefix ?d s"
  proof
    assume "Sublist.prefix ?d s"
    then obtain q where "s = ?d @ q" by (auto simp: Sublist.prefix_def)
    then show False using assms(3,4,5) by (simp add: node_at_append)
  qed
  then have r: "copy_ready fs s ?d (Directory ok zs)" using assms by (simp add: copy_ready_def)
  let ?start = "dest fs ?d (Directory True [])"
  have made: "make_node fs (abs_path ?d) (Directory True []) = Some ?start"
    using plain_create [OF assms(2,4,5)] by (simp add: make_node_def dest_def)
  have src: "node_at (fs_root ?start) s = Some (Directory True zs)" using dest_source [OF r, of _ "[]"] ok by simp
  have entries: "ReadDir ?start (Join (abs_path s) (slash_path [])) = Some (sort_key fst zs)"
    using plain_locate(2) [OF assms(1) src] Join_abs [OF assms(1), of "[]"] by (simp add: ReadDir_def)
  have pt: "proper_tree (Directory True zs)" using assms(8) ok by simp
  have each: "walk_fs ?v (abs_path s) (([] @ [k], m) # rest) (dest fs ?d Y)
      = walk_fs ?v (abs_path s) rest (dest fs ?d (put_node Y ([] @ [k]) (copied m)))"
    if "(k, m) \<in> set (sort_key fst zs)" "node_at Y [] = Some (Directory True es')" "map_of es' k = None" for k m Y es' rest
  proof (rule copy_walk [OF r])
    have m: "(k, m) \<in> set zs" "map_of zs k = Some m" using that(1) proper_entries(2) [OF pt] by auto
    show "node_at (Directory ok zs) ([] @ [k]) = Some m" using m(2) ok by simp
    show "list_all name_ok ([] @ [k])" using proper_entries(3) [OF pt m(1)] by simp
    show "IsDir m \<longrightarrow> \<not> hidden k" "clean_tree True m" using assms(7) m(1) by (auto simp: list_all_iff)
    show "proper_tree m" by (rule proper_child [OF pt m(2)])
  qed (use that in auto)
  have "walk_fs ?v (abs_path s) [([], Directory True zs)] ?start
      = walk_fs ?v (abs_path s) (map (\<lambda>(c, k). ([] @ [c], k)) (sort_key fst zs) @ [])
          (dest fs ?d (put_node (Directory True []) [] (Directory True [])))"
    by (subst walk_fs.simps) (simp add: copy_entry_def io_return_def IsDir_def entries)
  also have "\<dots> = walk_fs ?v (abs_path s) []
      (dest fs ?d (put_node (Directory True []) [] (Directory True ([] @ map (\<lambda>(c, k). (c, copied k)) (sort_key fst zs)))))"
    using proper_entries(1) [OF pt] by (intro copy_children each) (auto simp: distinct_map)
  also have "\<dots> = Some (Inr (), dest fs ?d (copied (Directory ok zs)))" by (subst walk_fs.simps) simp
  finally show ?thesis
    using plain_locate(2) [OF assms(1,3)] made plain_Lstat [OF assms(1) src]
    by (simp add: copyTree_def io_bind_def io_write_def WalkDir_fs_def)
qed

text \<open>
  C15: a workspace copy is exact. Copying a tree of readable files and directories, with no link, special file or
  hidden directory in it, to a new place outside of it ends and succeeds; the new place then has
  the same files with the same bytes and the same directories, and nothing apart from it is touched.
\<close>

theorem copy_tree_exact:
  assumes "list_all name_ok s" "list_all name_ok (d @ [c])" "node_at (fs_root fs) s = Some (Directory ok zs)"
    "node_at (fs_root fs) d = Some (Directory True es)" "map_of es c = None" "\<not> Sublist.prefix s (d @ [c])"
    "clean_tree True (Directory ok zs)" "proper_tree (Directory ok zs)"
  shows "\<exists>fs'. copyTree (abs_path s) (abs_path (d @ [c])) False fs = Some (Inr (), fs')
     \<and> (\<forall>rel x. node_at (fs_root fs') (d @ c # rel) = Some (Reg True x) \<longleftrightarrow> node_at (fs_root fs) (s @ rel) = Some (Reg True x))
     \<and> (\<forall>rel. (\<exists>es. node_at (fs_root fs') (d @ c # rel) = Some (Directory True es))
          \<longleftrightarrow> (\<exists>es. node_at (fs_root fs) (s @ rel) = Some (Directory True es)))
     \<and> (\<forall>p. \<not> Sublist.prefix (d @ [c]) p \<and> \<not> Sublist.prefix p (d @ [c]) \<longrightarrow> node_at (fs_root fs') p = node_at (fs_root fs) p)"
proof -
  let ?t = "Directory ok zs"
  let ?fs = "dest fs (d @ [c]) (copied ?t)"
  have below: "node_at (fs_root ?fs) (d @ c # rel) = map_option copied (node_at ?t rel)" for rel
    using node_at_put_below [of "fs_root fs" "d @ [c]" es "copied ?t" rel] assms(4) node_at_copied [OF assms(8,7)]
    by (simp add: dest_def)
  have src: "node_at (fs_root fs) (s @ rel) = node_at ?t rel" for rel using assms(3) by (simp add: node_at_append)
  have strict: "clean_tree True n" if "node_at ?t rel = Some n" for rel n
    using clean_tree_at [OF assms(7) that] .
  have "node_at (fs_root ?fs) (d @ c # rel) = Some (Reg True x) \<longleftrightarrow> node_at (fs_root fs) (s @ rel) = Some (Reg True x)" for rel x
    using strict [of rel] unfolding below src by (cases "node_at ?t rel") (auto split: node.splits elim!: copied.elims)
  moreover have "(\<exists>es. node_at (fs_root ?fs) (d @ c # rel) = Some (Directory True es))
      \<longleftrightarrow> (\<exists>es. node_at (fs_root fs) (s @ rel) = Some (Directory True es))" for rel
    using strict [of rel] unfolding below src by (cases "node_at ?t rel") (auto elim!: copied.elims)
  moreover have "node_at (fs_root ?fs) p = node_at (fs_root fs) p"
    if "\<not> Sublist.prefix (d @ [c]) p \<and> \<not> Sublist.prefix p (d @ [c])" for p
    using node_at_put_apart that by (simp add: dest_def)
  ultimately show ?thesis using copyTree_new [OF assms] by blast
qed

definition sample_source :: node where
  "sample_source = Directory True [(''b'', Directory True [(''x'', Reg True ''1'')]), (''a'', Reg True ''2'')]"

definition sample_disk :: filesystem where
  "sample_disk = \<lparr>fs_root = Directory True [(''src'', sample_source), (''run'', Directory True [])], fs_cwd = ''/''\<rparr>"

lemma sample_source_facts: "clean_tree True sample_source" "proper_tree sample_source"
  by (auto simp: sample_source_def IsDir_def hidden_def HasPrefix_def name_ok_def comp_ok_def split: if_splits
      intro!: proper_directory proper_leaf)

theorem copy_tree_exact_witness:
  "\<exists>fs'. copyTree ''/src'' ''/run/workspace'' False sample_disk = Some (Inr (), fs')
     \<and> node_at (fs_root fs') [''run'', ''workspace'', ''b'', ''x''] = Some (Reg True ''1'')"
proof -
  have n: "node_at (fs_root sample_disk) [''src''] = Some sample_source" by (simp add: sample_disk_def)
  obtain fs' where fs': "copyTree (abs_path [''src'']) (abs_path ([''run''] @ [''workspace''])) False sample_disk = Some (Inr (), fs')"
    "\<And>rel x. node_at (fs_root fs') ([''run''] @ ''workspace'' # rel) = Some (Reg True x)
       \<longleftrightarrow> node_at (fs_root sample_disk) ([''src''] @ rel) = Some (Reg True x)"
    using copy_tree_exact [OF _ _ n [unfolded sample_source_def] _ _ _ sample_source_facts [unfolded sample_source_def],
        of "[''run'']" "''workspace''" "[]"]
    by (auto simp: name_ok_def comp_ok_def sample_disk_def)
  then show ?thesis
    using fs'(2) [of "[''b'', ''x'']" "''1''"] by (auto simp: render_path_def sample_disk_def sample_source_def)
qed

section \<open>The workspace check\<close>

abbreviation clean_child :: "string \<Rightarrow> node \<Rightarrow> bool" where
  "clean_child c n \<equiv> (IsDir n \<longrightarrow> \<not> hidden c) \<and> clean_tree False n"

lemma validate_children:
  assumes each: "\<And>c k rest. (c, k) \<in> set cs \<Longrightarrow>
      if clean_child c k then walk_fs v root ((rel @ [c], k) # rest) fs = walk_fs v root rest fs
      else \<exists>e. walk_fs v root ((rel @ [c], k) # rest) fs = Some (Inl e, fs)"
  shows "if list_all (\<lambda>(c, k). clean_child c k) cs
    then walk_fs v root (map (\<lambda>(c, k). (rel @ [c], k)) cs @ rest) fs = walk_fs v root rest fs
    else \<exists>e. walk_fs v root (map (\<lambda>(c, k). (rel @ [c], k)) cs @ rest) fs = Some (Inl e, fs)"
  using assms
proof (induction cs)
  case (Cons e cs)
  obtain c k where e: "e = (c, k)" by (cases e)
  have IH: "if list_all (\<lambda>(c, k). clean_child c k) cs
    then walk_fs v root (map (\<lambda>(c, k). (rel @ [c], k)) cs @ rest) fs = walk_fs v root rest fs
    else \<exists>e. walk_fs v root (map (\<lambda>(c, k). (rel @ [c], k)) cs @ rest) fs = Some (Inl e, fs)"
    by (rule Cons.IH) (rule Cons.prems, simp)
  show ?case using IH Cons.prems [of c k "map (\<lambda>(c, k). (rel @ [c], k)) cs @ rest"] e
    by (cases "clean_child c k") (auto split: if_splits)
qed simp

lemma validate_walk:
  assumes w: "list_all name_ok w" "node_at (fs_root fs) w = Some t"
  shows "node_at t (p @ [c]) = Some n \<Longrightarrow> list_all name_ok (p @ [c]) \<Longrightarrow> proper_tree n \<Longrightarrow>
    if clean_child c n then walk_fs validate_entry (abs_path w) ((p @ [c], n) # rest) fs = walk_fs validate_entry (abs_path w) rest fs
    else \<exists>e. walk_fs validate_entry (abs_path w) ((p @ [c], n) # rest) fs = Some (Inl e, fs)"
proof (induction n arbitrary: p c rest rule: copied.induct)
  case (1 ok zs)
  let ?rel = "p @ [c]"
  have "Stat fs (abs_path (w @ ?rel)) = Some (Directory ok zs)"
    using plain_locate(2) [of "w @ ?rel" fs] w "1.prems"(1,2) by (simp add: node_at_append)
  then have entries: "ReadDir fs (Join (abs_path w) (slash_path ?rel)) = (if ok then Some (sort_key fst zs) else None)"
    using w(1) "1.prems"(2) by (simp add: ReadDir_def Join_abs split: bool.splits)
  show ?case
  proof (cases "hidden c \<or> \<not> ok")
    case True
    then show ?thesis using entries
      by (subst (1 2) walk_fs.simps) (auto simp: validate_entry_def IsDir_def io_return_def io_fail_def)
  next
    case False
    then have pt: "proper_tree (Directory True zs)" using "1.prems"(3) by simp
    have each: "if clean_child k m
        then walk_fs validate_entry (abs_path w) ((?rel @ [k], m) # rest') fs = walk_fs validate_entry (abs_path w) rest' fs
        else \<exists>e. walk_fs validate_entry (abs_path w) ((?rel @ [k], m) # rest') fs = Some (Inl e, fs)"
      if "(k, m) \<in> set (sort_key fst zs)" for k m rest'
    proof (rule "1.IH")
      have m: "(k, m) \<in> set zs" "map_of zs k = Some m" using that proper_entries(2) [OF pt] by auto
      show "node_at t (?rel @ [k]) = Some m"
        using "1.prems"(1) m(2) False by (simp add: node_at_append [of t "p @ [c]"] del: append_assoc)
      show "list_all name_ok (?rel @ [k])" using "1.prems"(2) proper_entries(3) [OF pt m(1)] by simp
      show "proper_tree m" by (rule proper_child [OF pt m(2)])
    qed (use that in auto)
    have walk: "walk_fs validate_entry (abs_path w) ((?rel, Directory ok zs) # rest) fs
      = walk_fs validate_entry (abs_path w) (map (\<lambda>(c, k). (?rel @ [c], k)) (sort_key fst zs) @ rest) fs"
      using False entries by (subst walk_fs.simps) (simp add: validate_entry_def IsDir_def io_return_def)
    have "list_all (\<lambda>(c, k). clean_child c k) (sort_key fst zs) \<longleftrightarrow> list_all (\<lambda>(c, k). clean_child c k) zs"
      by (simp add: list_all_iff)
    then show ?thesis using validate_children [of "sort_key fst zs" validate_entry "abs_path w" ?rel fs rest, OF each] walk False
      by (auto simp: IsDir_def split: if_splits)
  qed
next
  case (2 ok x)
  show ?case by (subst walk_fs.simps) (simp add: validate_entry_def IsDir_def io_return_def)
next
  case (3 t)
  show ?case by (subst (2) walk_fs.simps) (simp add: validate_entry_def IsDir_def io_fail_def)
next
  case 4
  show ?case by (subst (2) walk_fs.simps) (simp add: validate_entry_def IsDir_def io_fail_def)
qed

lemma validate_total:
  assumes "list_all name_ok w" "node_at (fs_root fs) w = Some (Directory ok zs)" "proper_tree (Directory ok zs)"
  shows "\<exists>r. validateWorkspaceTree (abs_path w) fs = Some (r, fs) \<and> (r = Inr () \<longleftrightarrow> clean_tree False (Directory ok zs))"
proof -
  let ?v = validate_entry
  have entries: "ReadDir fs (Join (abs_path w) (slash_path [])) = (if ok then Some (sort_key fst zs) else None)"
    using plain_locate(2) [OF assms(1,2)] Join_abs [OF assms(1), of "[]"] by (simp add: ReadDir_def split: bool.splits)
  have start: "validateWorkspaceTree (abs_path w) fs = walk_fs ?v (abs_path w) [([], Directory ok zs)] fs"
    using plain_Lstat [OF assms(1,2)] by (simp add: validateWorkspaceTree_def WalkDir_fs_def)
  show ?thesis
  proof (cases ok)
    case False
    then show ?thesis unfolding start using entries
      by (subst walk_fs.simps) (simp add: validate_entry_def io_return_def IsDir_def)
  next
    case True
    then have pt: "proper_tree (Directory True zs)" using assms(3) by simp
    have each: "if clean_child k m
        then walk_fs ?v (abs_path w) (([] @ [k], m) # rest) fs = walk_fs ?v (abs_path w) rest fs
        else \<exists>e. walk_fs ?v (abs_path w) (([] @ [k], m) # rest) fs = Some (Inl e, fs)"
      if "(k, m) \<in> set (sort_key fst zs)" for k m rest
    proof (rule validate_walk [OF assms(1,2)])
      have m: "(k, m) \<in> set zs" "map_of zs k = Some m" using that proper_entries(2) [OF pt] by auto
      show "node_at (Directory ok zs) ([] @ [k]) = Some m" using m(2) True by simp
      show "list_all name_ok ([] @ [k])" using proper_entries(3) [OF pt m(1)] by simp
      show "proper_tree m" by (rule proper_child [OF pt m(2)])
    qed
    have "walk_fs ?v (abs_path w) [([], Directory ok zs)] fs
        = walk_fs ?v (abs_path w) (map (\<lambda>(c, k). ([] @ [c], k)) (sort_key fst zs) @ []) fs"
      using True entries by (subst walk_fs.simps) (simp add: validate_entry_def io_return_def IsDir_def)
    moreover have "walk_fs ?v (abs_path w) [] fs = Some (Inr (), fs)" by (subst walk_fs.simps) simp
    moreover have "list_all (\<lambda>(c, k). clean_child c k) (sort_key fst zs) \<longleftrightarrow> clean_tree False (Directory ok zs)"
      using True by (simp add: list_all_iff)
    ultimately show ?thesis unfolding start
      using validate_children [of "sort_key fst zs" ?v "abs_path w" "[]" fs "[]", OF each] by (auto split: if_splits)
  qed
qed

text \<open>
  C36: the check of the candidate's workspace ends and is exact. It changes nothing and passes exactly the trees without
  symbolic links, special files, hidden directories or unreadable directories.
\<close>

theorem workspace_check_exact:
  assumes "list_all name_ok w" "node_at (fs_root fs) w = Some (Directory ok zs)" "proper_tree (Directory ok zs)"
  shows "\<exists>r. validateWorkspaceTree (abs_path w) fs = Some (r, fs) \<and> (r = Inr () \<longleftrightarrow> clean_tree False (Directory ok zs))"
  using assms by (rule validate_total)

theorem workspace_check_exact_witness:
  "\<exists>r. validateWorkspaceTree ''/src'' sample_disk = Some (r, sample_disk) \<and> r = Inr ()"
proof -
  have "node_at (fs_root sample_disk) [''src''] = Some sample_source" by (simp add: sample_disk_def)
  then obtain r where r: "validateWorkspaceTree (abs_path [''src'']) sample_disk = Some (r, sample_disk)"
    "r = Inr () \<longleftrightarrow> clean_tree False sample_source"
    using workspace_check_exact [of "[''src'']" sample_disk] sample_source_facts(2)
    unfolding sample_source_def by (auto simp: name_ok_def comp_ok_def)
  have "clean_tree False sample_source" by (simp add: sample_source_def IsDir_def hidden_def HasPrefix_def)
  then show ?thesis using r by (simp add: render_path_def)
qed

end
