(* ===== verification/Driver_Resolve.thy ===== *)
theory Driver_Resolve
  imports Driver_Files
begin

text \<open>
  \<open>resolveProduction\<close> of \<open>harness/rundriver/production.go\<close>: from the experiment configuration, the schedule and the tool
  versions to everything one run needs, with the digest tests and the environment of a child process.
\<close>

section \<open>Inputs\<close>

record productionConfig =
  Model_ID :: string
  Agent_Version_of :: string
  Coordinator :: string
  ToolDirect :: string
  ToolCodegen :: string
  Evaluator :: string
  config_TimeoutSeconds :: int
  MaxConcurrency :: int
  config_Cells :: "cell list"

definition dec_productionCell :: "cell decoder" where
  "dec_productionCell = dec_struct
     [(''ID'', at_field ID ID_update dec_string), (''Stage'', at_field Stage Stage_update dec_string),
      (''Task'', at_field Task Task_update dec_string), (''Mode'', at_field Mode Mode_update dec_string),
      (''Treatment'', at_field Treatment Treatment_update dec_string)]"

definition dec_productionConfig :: "productionConfig decoder" where
  "dec_productionConfig = dec_struct
     [(''model'', dec_struct [(''id'', at_field Model_ID Model_ID_update dec_string)]),
      (''agent'', dec_struct [(''version'', at_field Agent_Version_of Agent_Version_of_update dec_string)]),
      (''frozenInputs'', dec_struct
         [(''environmentImages'', dec_struct
             [(''coordinator'', at_field Coordinator Coordinator_update dec_string),
              (''toolDirect'', at_field ToolDirect ToolDirect_update dec_string),
              (''toolCodegen'', at_field ToolCodegen ToolCodegen_update dec_string),
              (''evaluator'', at_field Evaluator Evaluator_update dec_string)])]),
      (''execution'', dec_struct
         [(''timeoutSeconds'', at_field config_TimeoutSeconds config_TimeoutSeconds_update dec_int),
          (''maxConcurrency'', at_field MaxConcurrency MaxConcurrency_update dec_int)]),
      (''cells'', at_field config_Cells config_Cells_update (dec_slice no_cell dec_productionCell))]"

definition no_productionConfig :: productionConfig where
  "no_productionConfig = \<lparr>Model_ID = '''', Agent_Version_of = '''', Coordinator = '''', ToolDirect = '''', ToolCodegen = '''',
     Evaluator = '''', config_TimeoutSeconds = 0, MaxConcurrency = 0, config_Cells = []\<rparr>"

text \<open>Only \<open>frozen.postgresImage\<close> is read from the versions file.\<close>

definition dec_productionVersions :: "string decoder" where
  "dec_productionVersions = dec_struct [(''frozen'', dec_struct [(''postgresImage'', dec_string)])]"

definition dec_productionSchedule :: "scheduleRun list decoder" where
  "dec_productionSchedule = dec_struct
     [(''runs'', dec_slice \<lparr>Ordinal = 0, RunID = '''', CellID = '''', RepeatIndex = 0\<rparr>
        (dec_struct
          [(''Ordinal'', at_field Ordinal Ordinal_update dec_int), (''RepeatIndex'', at_field RepeatIndex RepeatIndex_update dec_int),
           (''RunID'', at_field RunID RunID_update dec_string), (''CellID'', at_field CellID CellID_update dec_string)]))]"

text \<open>One value is decoded; unknown members and text behind the value are let pass.\<close>

definition decodeStrict :: "'a decoder \<Rightarrow> 'a \<Rightarrow> filesystem \<Rightarrow> string \<Rightarrow> driver_error + 'a" where
  "decodeStrict d z fs path =
     (case ReadFile fs path of
        None \<Rightarrow> Inl (InputFailed path)
      | Some data \<Rightarrow>
          (case parse_value (2 * length data + 1) 0 data of
             None \<Rightarrow> Inl (InputSyntax path)
           | Some (v, _) \<Rightarrow> (case d v z of (x, ok) \<Rightarrow> if ok then Inr x else Inl (InputSyntax path))))"

section \<open>Digests\<close>

definition validDigest :: "string \<Rightarrow> bool" where
  "validDigest value \<longleftrightarrow> HasPrefix value ''sha256:'' \<and> length value = 71
     \<and> hex_DecodeString (TrimPrefix value ''sha256:'') \<noteq> None"

definition validNamedDigest :: "string \<Rightarrow> bool" where
  "validNamedDigest value \<longleftrightarrow>
     (case split_on (CHR ''@'') value of [name, digest] \<Rightarrow> name \<noteq> '''' \<and> validDigest digest | _ \<Rightarrow> False)"

section \<open>Resolution\<close>

record resolvedRun =
  Cell :: cell
  resolved_RepeatIndex :: int
  resolved_Ordinal :: int
  Fixture :: string
  resolved_Treatment :: string
  WorkspaceOverlay :: string
  resolved_Task :: string
  ProblemDetails :: string
  resolved_Model :: string
  resolved_AgentVersion :: string
  CoordinatorImage :: string
  ToolImage :: string
  CodegenImage :: string
  EvaluatorImage :: string
  PostgresImage :: string
  resolved_Timeout :: int
  resolved_Concurrency :: int
  Blocker :: string

abbreviation productionTimeout :: int where
  "productionTimeout \<equiv> 2700"

abbreviation productionConcurrency :: int where
  "productionConcurrency \<equiv> 2"

fun find_entry :: "string \<Rightarrow> scheduleRun list \<Rightarrow> scheduleRun option \<Rightarrow> driver_error + scheduleRun option" where
  "find_entry runID [] entry = Inr entry"
| "find_entry runID (r # rs) entry =
     (if RunID r = runID
      then (if entry \<noteq> None then Inl (DuplicateRun runID) else find_entry runID rs (Some r))
      else find_entry runID rs entry)"

text \<open>The paths that follow from the stage, the mode and the treatment of the cell.\<close>

definition resolved_paths :: "cell \<Rightarrow> resolvedRun \<Rightarrow> resolvedRun" where
  "resolved_paths c r =
     (let r = (if Stage c = ''greenfield''
        then r\<lparr>Fixture := ''fixtures/base1'', resolved_Task := ''tasks/part1.md'',
               WorkspaceOverlay := if Treatment c = ''codegen'' then ''treatments/codegen/workspace'' else WorkspaceOverlay r\<rparr>
        else r\<lparr>Fixture := ''fixtures/base2-'' @ Treatment c,
               resolved_Task := (if Mode c = ''full-workflow'' then ''tasks/full/'' @ Task c @ ''.md''
                 else ''tasks/propagation/'' @ Task c @ ''.md'')\<rparr>)
      in r\<lparr>resolved_Treatment := ''treatments/'' @ Treatment c @ ''/overlay.md''\<rparr>)"

definition resolve_entry :: "productionConfig \<Rightarrow> string \<Rightarrow> scheduleRun \<Rightarrow> cell \<Rightarrow> resolvedRun" where
  "resolve_entry config postgres entry c =
     resolved_paths c
       \<lparr>Cell = c, resolved_RepeatIndex = RepeatIndex entry, resolved_Ordinal = Ordinal entry, Fixture = '''',
        resolved_Treatment = '''', WorkspaceOverlay = '''', resolved_Task = '''', ProblemDetails = ''tasks/problem-details.md'',
        resolved_Model = Model_ID config, resolved_AgentVersion = Agent_Version_of config, CoordinatorImage = Coordinator config,
        ToolImage = (if Treatment c = ''direct'' then ToolDirect config else ToolCodegen config),
        CodegenImage = ToolCodegen config, EvaluatorImage = Evaluator config, PostgresImage = postgres,
        resolved_Timeout = config_TimeoutSeconds config, resolved_Concurrency = MaxConcurrency config, Blocker = ''''\<rparr>"

text \<open>Both tables are Go maps: which of several errors comes first is not determined, the model takes the order of the text.\<close>

definition required_values :: "resolvedRun \<Rightarrow> (string \<times> string) list" where
  "required_values r =
     [(''model'', resolved_Model r), (''agent version'', resolved_AgentVersion r), (''coordinator image'', CoordinatorImage r),
      (''tool image'', ToolImage r), (''evaluator image'', EvaluatorImage r), (''PostgreSQL image'', PostgresImage r)]"

definition image_values :: "resolvedRun \<Rightarrow> (string \<times> string) list" where
  "image_values r =
     [(''coordinator'', CoordinatorImage r), (''tool'', ToolImage r), (''codegen'', CodegenImage r), (''evaluator'', EvaluatorImage r)]"

definition check_resolved :: "resolvedRun \<Rightarrow> driver_error option" where
  "check_resolved r =
     (case first_error (\<lambda>(name, value). if value = '''' then Some (EmptyField name) else None) (required_values r) of
        Some e \<Rightarrow> Some e
      | None \<Rightarrow>
          (case first_error (\<lambda>(name, value). if validDigest value then None else Some (MutableImage name)) (image_values r) of
             Some e \<Rightarrow> Some e
           | None \<Rightarrow> if validNamedDigest (PostgresImage r) then None else Some MutablePostgres))"

definition resolve_documents :: "productionConfig \<Rightarrow> scheduleRun list \<Rightarrow> string \<Rightarrow> string \<Rightarrow> driver_error + resolvedRun" where
  "resolve_documents config runs postgres runID =
     try_res (find_entry runID runs None) (\<lambda>found.
       case found of
         None \<Rightarrow> Inl (AbsentRun runID)
       | Some entry \<Rightarrow>
           if Ordinal entry < 1 \<or> RepeatIndex entry < 1 \<or> RepeatIndex entry > 5 then Inl (InvalidEntry runID)
           else (case find (\<lambda>c. ID c = CellID entry) (config_Cells config) of
             None \<Rightarrow> Inl (AbsentCell (CellID entry))
           | Some c \<Rightarrow>
               let r = resolve_entry config postgres entry c in
               (case check_resolved r of Some e \<Rightarrow> Inl e | None \<Rightarrow> Inr r)))"

definition resolveProduction :: "filesystem \<Rightarrow> string \<Rightarrow> string \<Rightarrow> string \<Rightarrow> driver_error + resolvedRun" where
  "resolveProduction fs root schedulePath runID =
     try_res (decodeStrict dec_productionConfig no_productionConfig fs (Join (Join root ''config'') ''experiment.json'')) (\<lambda>config.
       if config_TimeoutSeconds config \<noteq> productionTimeout \<or> MaxConcurrency config \<noteq> productionConcurrency then Inl ExecutionLimits
       else try_res (decodeStrict dec_productionSchedule [] fs schedulePath) (\<lambda>runs.
         try_res (decodeStrict dec_productionVersions '''' fs (Join (Join root ''config'') ''versions.json'')) (\<lambda>postgres.
           resolve_documents config runs postgres runID)))"

section \<open>Child processes\<close>

definition scriptCommand :: "string \<Rightarrow> string list" where
  "scriptCommand path = (if HasSuffix path ''.sh'' then [''bash'', path] else [path])"

definition env_key :: "string \<Rightarrow> string" where
  "env_key entry = hd (split_on (CHR ''='') entry)"

definition withEnvironment :: "string list \<Rightarrow> string list \<Rightarrow> string list" where
  "withEnvironment environment overrides =
     filter (\<lambda>value. env_key value \<notin> set (map env_key overrides)) environment @ overrides"

end
