(* ===== verification/Driver_Main.thy ===== *)
theory Driver_Main
  imports Driver_Resolve
begin

text \<open>
  \<open>harness/rundriver/main.go\<close>: the synthetic finalization of a run from prepared inputs. The world a driver runs in, with its
  environment, its clock and what the programs it starts do, is a parameter: \<open>spawn\<close> takes
  the arguments, the environment, the working directory and the file tree and returns how the program ended and the tree it left.
\<close>

section \<open>The world of a driver\<close>

datatype process_end = EndedExit int | EndedSignal string | EndedError

record candidate_run =
  started_ok :: bool
  ended :: process_end
  ctx_done :: bool
  deadline :: bool

record driver_world =
  environ :: "string list"
  spawn :: "string list \<Rightarrow> string list \<Rightarrow> string \<Rightarrow> filesystem \<Rightarrow> command_result \<times> filesystem"
  candidate :: "string list \<Rightarrow> string list \<Rightarrow> filesystem \<Rightarrow> candidate_run \<times> filesystem"
  sources_in_order :: bool
  now_started :: int
  now_finished :: int
  random_bytes :: "bytes option"
  os_error :: "driver_error \<Rightarrow> string"
  slot_free :: "nat \<Rightarrow> nat \<Rightarrow> bool"
  slot_cancelled :: "nat \<Rightarrow> bool"

definition run_ok :: "command_result \<Rightarrow> bool" where
  "run_ok r \<longleftrightarrow> (case r of Exited code out err \<Rightarrow> code = 0 | _ \<Rightarrow> False)"

section \<open>Moving and removing\<close>

text \<open>The place of a path whose last component is not followed.\<close>

definition entry_place :: "filesystem \<Rightarrow> string \<Rightarrow> string list option" where
  "entry_place fs p =
     (case rev (clean_comps p) of
        [] \<Rightarrow> None
      | c # cs \<Rightarrow>
          Option.bind (resolve (fs_root fs) 40 (if IsAbs p then [] else clean_comps (fs_cwd fs)) (rev cs)) (\<lambda>d.
            case node_at (fs_root fs) d of Some (Directory True es) \<Rightarrow> Some (d @ [c]) | _ \<Rightarrow> None))"

fun remove_node :: "node \<Rightarrow> string list \<Rightarrow> node" where
  "remove_node n [] = n"
| "remove_node (Directory ok es) [c] = Directory ok (filter (\<lambda>(k, _). k \<noteq> c) es)"
| "remove_node (Directory ok es) (c # cs) =
     (case map_of es c of None \<Rightarrow> Directory ok es | Some n \<Rightarrow> Directory ok (put_entry c (remove_node n cs) es))"
| "remove_node n (c # cs) = n"

text \<open>\<open>os.Rename\<close> of a file: an existing file at the new name is replaced, a directory is not.\<close>

definition Rename :: "filesystem \<Rightarrow> string \<Rightarrow> string \<Rightarrow> filesystem option" where
  "Rename fs old new =
     Option.bind (entry_place fs old) (\<lambda>a. Option.bind (node_at (fs_root fs) a) (\<lambda>n.
     Option.bind (entry_place fs new) (\<lambda>b.
       case node_at (fs_root fs) b of
         Some (Directory _ _) \<Rightarrow> None
       | _ \<Rightarrow> if a = b then Some fs else Some (fs\<lparr>fs_root := put_node (remove_node (fs_root fs) a) b n\<rparr>))))"

text \<open>\<open>os.RemoveAll\<close>: a missing path is no error.\<close>

definition RemoveAll :: "filesystem \<Rightarrow> string \<Rightarrow> filesystem option" where
  "RemoveAll fs p =
     (case entry_place fs p of None \<Rightarrow> if Lstat fs p = None then Some fs else None
      | Some r \<Rightarrow> Some (fs\<lparr>fs_root := remove_node (fs_root fs) r\<rparr>))"

section \<open>Metadata\<close>

text \<open>\<open>Time.MarshalJSON\<close> refuses a year of more than four digits and a zone of a day or more.\<close>

definition json_time :: "gotime \<Rightarrow> string option" where
  "json_time t =
     (if 0 \<le> year_of (instant t + offset t * 1000000000) \<and> year_of (instant t + offset t * 1000000000) \<le> 9999
         \<and> \<bar>offset t\<bar> < 86400
      then Some (Format_RFC3339Nano t) else None)"

definition map_json :: "string_map \<Rightarrow> json" where
  "map_json m = JObject (map (\<lambda>(k, v). (k, JString v)) (sort_key fst m))"

definition note_json :: "InfrastructureNote \<Rightarrow> json" where
  "note_json n = JObject [(''category'', JString (note_Category n)), (''evidence'', JString (note_Evidence n))]"

definition orchestration_json :: "Orchestration \<Rightarrow> json" where
  "orchestration_json orch = JObject
     ([(''schedulePath'', JString (SchedulePath_of orch)), (''scheduleOrdinal'', JNumber (FormatInt (ScheduleOrdinal orch))),
       (''scheduleRunId'', JString (ScheduleRunID orch)), (''model'', JString (Model orch)),
       (''agentVersion'', JString (orchestration_AgentVersion orch)), (''resolvedSources'', map_json (ResolvedSources orch)),
       (''images'', map_json (Images orch)), (''timeoutSeconds'', JNumber (FormatInt (TimeoutSeconds orch))),
       (''resourceLabels'', map_json (ResourceLabels orch)), (''candidateExitCode'', JNumber (FormatInt (CandidateExitCode orch)))]
      @ (if CandidateSignal orch = '''' then [] else [(''candidateSignal'', JString (CandidateSignal orch))]))"

text \<open>
  The driver's \<open>metadata\<close> and \<open>productionMetadata\<close> have the fields of the record \<^typ>\<open>RunMetadata\<close> that \<open>runresult\<close>
  reads, without \<open>replacesRunId\<close>, and the former without \<open>orchestration\<close>.
\<close>

definition driver_metadata_json :: "RunMetadata \<Rightarrow> json option" where
  "driver_metadata_json m =
     Option.bind (json_time (StartedAt m)) (\<lambda>started. map_option (\<lambda>finished. JObject
       ([(''runId'', JString (metadata_RunID m)), (''cellId'', JString (metadata_CellID m)),
         (''repeatIndex'', JNumber (FormatInt (metadata_RepeatIndex m))), (''phase'', JString (metadata_Phase m)),
         (''status'', JString (metadata_Status m)), (''startedAt'', JString started), (''finishedAt'', JString finished),
         (''workspace'', JString (Workspace m)), (''protocolViolations'', JArray (map violation_json (ProtocolViolations m)))]
        @ (case metadata_Infrastructure m of None \<Rightarrow> [] | Some n \<Rightarrow> [(''infrastructure'', note_json n)])
        @ (case metadata_Orchestration m of None \<Rightarrow> [] | Some orch \<Rightarrow> [(''orchestration'', orchestration_json orch)])))
       (json_time (FinishedAt m)))"

definition writeJSONAtomic :: "string \<Rightarrow> json option \<Rightarrow> unit io" where
  "writeJSONAtomic path doc =
     (case doc of
        None \<Rightarrow> io_fail (WriteFailed path)
      | Some v \<Rightarrow>
          io_bind (io_write (WriteFailed (path @ ''.tmp'')) (\<lambda>fs. WriteFile fs (path @ ''.tmp'') (MarshalIndent v @ [CHR 0x0A]))) (\<lambda>_.
            io_write (RenameFailed path) (\<lambda>fs. Rename fs (path @ ''.tmp'') path)))"

section \<open>Options\<close>

record driver_options =
  do_root :: string
  do_runDir :: string
  do_runID :: string
  do_cellID :: string
  do_phase :: string
  do_status :: string
  do_workspaceSource :: string
  do_workspaceOverlay :: string
  do_transcriptSource :: string
  do_patchSource :: string
  do_startedAt :: string
  do_finishedAt :: string
  do_infrastructureCategory :: string
  do_infrastructureEvidence :: string
  do_runresultBin :: string
  do_evaluatorBin :: string
  do_repeatIndex :: int

definition required_options :: "driver_options \<Rightarrow> (string \<times> string) list" where
  "required_options opts =
     [(''run-dir'', do_runDir opts), (''run-id'', do_runID opts), (''cell-id'', do_cellID opts), (''status'', do_status opts),
      (''workspace-source'', do_workspaceSource opts), (''transcript-source'', do_transcriptSource opts),
      (''patch-source'', do_patchSource opts), (''started-at'', do_startedAt opts), (''finished-at'', do_finishedAt opts)]"

definition parse_time :: "string \<Rightarrow> gotime option" where
  "parse_time s = map_option (\<lambda>t. \<lparr>instant = t, offset = zone_offset s\<rparr>) (Parse_RFC3339 s)"

abbreviation driver_timeout :: int where
  "driver_timeout \<equiv> 2700000000000"

definition failure_status :: "string \<Rightarrow> bool" where
  "failure_status s \<longleftrightarrow> s = ''infrastructure-failure'' \<or> s = ''harness-failure''"

definition validateOptions :: "driver_options \<Rightarrow> driver_error option" where
  "validateOptions opts =
     (case first_error (\<lambda>(label, value). if TrimSpace value = '''' then Some (Required label) else None) (required_options opts) of
        Some e \<Rightarrow> Some e
      | None \<Rightarrow>
          if do_repeatIndex opts < 1 \<or> do_repeatIndex opts > 5 then Some RepeatRange
          else if do_phase opts \<noteq> ''pilot'' \<and> do_phase opts \<noteq> ''measured'' then Some PhaseUnknown
          else (case parse_time (do_startedAt opts) of
              None \<Rightarrow> Some (TimeUnparsable ''started-at'')
            | Some started \<Rightarrow>
                (case parse_time (do_finishedAt opts) of
                   None \<Rightarrow> Some (TimeUnparsable ''finished-at'')
                 | Some finished \<Rightarrow>
                     let duration = Sub finished started; failure = failure_status (do_status opts) in
                     if duration < 0 \<or> duration > driver_timeout then Some DurationRange
                     else if do_status opts \<noteq> ''submitted'' \<and> do_status opts \<noteq> ''timed-out'' \<and> \<not> failure
                       then Some (StatusUnsupported (do_status opts))
                     else if do_status opts = ''timed-out'' \<and> duration \<noteq> driver_timeout then Some TimedOutDuration
                     else if failure \<noteq> (do_infrastructureCategory opts \<noteq> '''' \<and> do_infrastructureEvidence opts \<noteq> '''')
                       then Some InfrastructureFields
                     else None)))"

section \<open>The synthetic run\<close>

text \<open>\<open>os.Lstat\<close> of the run directory: only a path that does not exist may be created.\<close>

definition refuse_existing :: "string \<Rightarrow> unit io" where
  "refuse_existing runDir fs =
     (case (case rev (clean_comps runDir) of [] \<Rightarrow> Found (fs_root fs) | c # cs \<Rightarrow> Lstat_in fs (Dir runDir) c) of
        NotExist \<Rightarrow> Some (Inr (), fs)
      | Found n \<Rightarrow> Some (Inl (RunDirExists runDir), fs)
      | Denied \<Rightarrow> Some (Inl (RunDirDenied runDir), fs))"

text \<open>
  The range over a map literal with two computed keys: its order is not determined, and where
  the keys are equal the second entry is the only one.
\<close>

definition input_files :: "driver_world \<Rightarrow> driver_options \<Rightarrow> (string \<times> string) list" where
  "input_files w opts =
     (let t = (do_transcriptSource opts, ''transcript.jsonl''); p = (do_patchSource opts, ''final.patch'') in
      if do_transcriptSource opts = do_patchSource opts then [p] else if sources_in_order w then [t, p] else [p, t])"

fun copy_inputs :: "string \<Rightarrow> (string \<times> string) list \<Rightarrow> unit io" where
  "copy_inputs runDir [] = io_return ()"
| "copy_inputs runDir ((source, name) # rest) =
     io_bind (copyFile source (Join runDir name) False) (\<lambda>_. copy_inputs runDir rest)"

definition synthetic_metadata :: "driver_options \<Rightarrow> RunMetadata" where
  "synthetic_metadata opts =
     \<lparr>metadata_RunID = do_runID opts, metadata_CellID = do_cellID opts, metadata_RepeatIndex = do_repeatIndex opts,
      metadata_Phase = do_phase opts, metadata_Status = do_status opts,
      StartedAt = (case parse_time (do_startedAt opts) of None \<Rightarrow> zero_time | Some t \<Rightarrow> t),
      FinishedAt = (case parse_time (do_finishedAt opts) of None \<Rightarrow> zero_time | Some t \<Rightarrow> t),
      Workspace = ''workspace'', ProtocolViolations = [],
      metadata_Infrastructure = (if do_infrastructureCategory opts \<noteq> ''''
        then Some \<lparr>note_Category = do_infrastructureCategory opts, note_Evidence = do_infrastructureEvidence opts\<rparr> else None),
      metadata_ReplacesRunID = None, metadata_Orchestration = None\<rparr>"

definition driver_withoutProviderCredentials :: "string list \<Rightarrow> string list" where
  "driver_withoutProviderCredentials environment =
     filter (\<lambda>item. \<not> HasPrefix item ''OPENROUTER_API_KEY='') environment"

definition io_spawn :: "driver_world \<Rightarrow> string list \<Rightarrow> string list \<Rightarrow> string \<Rightarrow> command_result io" where
  "io_spawn w args env dir fs = (case spawn w args env dir fs of (r, fs') \<Rightarrow> Some (Inr r, fs'))"

definition driver_run :: "driver_world \<Rightarrow> driver_options \<Rightarrow> unit io" where
  "driver_run w opts fs =
     (case validateOptions opts of
        Some e \<Rightarrow> Some (Inl e, fs)
      | None \<Rightarrow>
          (let root = Abs fs (do_root opts); runDir = Abs fs (do_runDir opts); workspace = Join runDir ''workspace'';
               runresult = (if do_runresultBin opts = '''' then Join (Join root ''bin'') ''runresult'' else do_runresultBin opts);
               args = [''-run-dir'', runDir, ''-root'', root]
                 @ (if do_evaluatorBin opts \<noteq> '''' then [''-evaluator'', do_evaluatorBin opts] else [])
           in io_bind (refuse_existing runDir) (\<lambda>_.
              io_bind (io_write (MkdirFailed runDir) (\<lambda>fs. make_node fs runDir (Directory True []))) (\<lambda>_.
              io_bind (copyTree (do_workspaceSource opts) workspace False) (\<lambda>_.
              io_bind (if do_workspaceOverlay opts \<noteq> '''' then copyTree (do_workspaceOverlay opts) workspace True
                       else io_return ()) (\<lambda>_.
              io_bind (copy_inputs runDir (input_files w opts)) (\<lambda>_.
              io_bind (writeJSONAtomic (Join runDir ''metadata.json'') (driver_metadata_json (synthetic_metadata opts))) (\<lambda>_.
              io_bind (io_spawn w (runresult # args) (driver_withoutProviderCredentials (environ w)) '''') (\<lambda>r.
              io_require (run_ok r) AssemblyFailed))))))) fs))"

end
