(* ===== verification/Driver_Production.thy ===== *)
theory Driver_Production
  imports Driver_Main
begin

text \<open>
  \<open>harness/rundriver/production.go\<close>: one scheduled run from the run directory it creates to the assembly of its result.
  The candidate, \<open>patch\<close>, \<open>git\<close> and \<open>runresult\<close> are programs of the world. The polling
  for a slot may go on for ever: not returning is \<^const>\<open>None\<close>. The concurrent view of the slots is in \<open>Driver_Slots\<close>.
\<close>

section \<open>Slots\<close>

definition slot_path :: "string \<Rightarrow> nat \<Rightarrow> string" where
  "slot_path directory slot = Join directory (''slot-'' @ dec slot @ ''.lock'')"

text \<open>\<open>O_CREATE|O_RDWR\<close>: an existing file is kept.\<close>

definition open_create :: "filesystem \<Rightarrow> string \<Rightarrow> filesystem option" where
  "open_create fs p =
     (case locate fs 40 p of
        Some r \<Rightarrow> (case node_at (fs_root fs) r of Some (Reg True _) \<Rightarrow> Some fs | _ \<Rightarrow> None)
      | None \<Rightarrow> make_node fs p (Reg True ''''))"

fun try_slots :: "(nat \<Rightarrow> bool) \<Rightarrow> string \<Rightarrow> nat list \<Rightarrow> filesystem \<Rightarrow> nat option outcome" where
  "try_slots free directory [] fs = (Inr None, fs)"
| "try_slots free directory (slot # rest) fs =
     (case open_create fs (slot_path directory slot) of
        None \<Rightarrow> (Inl (SlotFailed (slot_path directory slot)), fs)
      | Some fs' \<Rightarrow> if free slot then (Inr (Some slot), fs') else try_slots free directory rest fs')"

partial_function (option) poll_slots :: "driver_world \<Rightarrow> string \<Rightarrow> nat \<Rightarrow> nat \<Rightarrow> filesystem \<Rightarrow> nat outcome option" where
  [code]: "poll_slots w directory slots round fs =
     (case try_slots (slot_free w round) directory [1..<Suc slots] fs of
        (Inl e, fs') \<Rightarrow> Some (Inl e, fs')
      | (Inr (Some slot), fs') \<Rightarrow> Some (Inr slot, fs')
      | (Inr None, fs') \<Rightarrow>
          if slot_cancelled w round then Some (Inl Cancelled, fs') else poll_slots w directory slots (Suc round) fs')"

definition acquireSlot :: "driver_world \<Rightarrow> string \<Rightarrow> nat \<Rightarrow> nat io" where
  "acquireSlot w directory slots = io_bind (MkdirAll directory) (\<lambda>_. poll_slots w directory slots 0)"

section \<open>Propagation\<close>

definition safeRelativePath :: "string \<Rightarrow> bool" where
  "safeRelativePath path \<longleftrightarrow> \<not> (path = '''' \<or> IsAbs path \<or> Contains path [CHR 0x5C])
     \<and> Clean path = path \<and> Clean path \<noteq> ''.'' \<and> Clean path \<noteq> ''..'' \<and> \<not> HasPrefix (Clean path) ''../''"

record formal_target =
  FormalPatchSHA256 :: string
  target_Files :: "target_file list"

definition dec_formal_target :: "formal_target decoder" where
  "dec_formal_target = dec_struct
     [(''formalPatchSha256'', at_field FormalPatchSHA256 FormalPatchSHA256_update dec_string),
      (''files'', at_field target_Files target_Files_update (dec_slice \<lparr>target_Path = '''', target_SHA256 = ''''\<rparr>
        (dec_struct [(''Path'', at_field target_Path target_Path_update dec_string),
                     (''SHA256'', at_field target_SHA256 target_SHA256_update dec_string)])))]"

definition header_error :: "string \<Rightarrow> driver_error option" where
  "header_error line =
     (if HasPrefix line ''--- '' \<or> HasPrefix line ''+++ ''
      then (case Fields line of
          f # path # rest \<Rightarrow>
            if path = ''/dev/null'' then None
            else let path = TrimPrefix (TrimPrefix path ''a/'') ''b/'' in
              if safeRelativePath path then None else Some (PatchPath path)
        | _ \<Rightarrow> Some PatchHeader)
      else None)"

fun check_targets :: "filesystem \<Rightarrow> string \<Rightarrow> string list \<Rightarrow> target_file list \<Rightarrow> driver_error option" where
  "check_targets fs workspace seen [] = None"
| "check_targets fs workspace seen (file # rest) =
     (if target_Path file \<in> set seen \<or> \<not> safeRelativePath (target_Path file) then Some (TargetPath (target_Path file))
      else case ReadFile fs (Join workspace (target_Path file)) of
        None \<Rightarrow> Some (InputFailed (target_Path file))
      | Some data \<Rightarrow>
          if sha256_hex data \<noteq> target_SHA256 file then Some (TargetHash (target_Path file))
          else check_targets fs workspace (target_Path file # seen) rest)"

definition io_check :: "(filesystem \<Rightarrow> driver_error option) \<Rightarrow> unit io" where
  "io_check f fs = (case f fs of None \<Rightarrow> Some (Inr (), fs) | Some e \<Rightarrow> Some (Inl e, fs))"

definition io_read :: "string \<Rightarrow> string io" where
  "io_read path fs = (case ReadFile fs path of None \<Rightarrow> Some (Inl (InputFailed path), fs) | Some s \<Rightarrow> Some (Inr s, fs))"

definition io_pure :: "(filesystem \<Rightarrow> driver_error + 'a) \<Rightarrow> 'a io" where
  "io_pure f fs = Some (f fs, fs)"

text \<open>The patch is fed to the standard input of \<open>patch\<close>: it stands behind its arguments.\<close>

definition applyPropagation :: "driver_world \<Rightarrow> string \<Rightarrow> string \<Rightarrow> string \<Rightarrow> unit io" where
  "applyPropagation w root workspace task =
     (let directory = Join (Join (Join root ''tasks'') ''propagation'') task in
      io_bind (io_pure (\<lambda>fs. decodeStrict dec_formal_target \<lparr>FormalPatchSHA256 = '''', target_Files = []\<rparr> fs
          (Join directory ''target-manifest.json''))) (\<lambda>manifest.
      io_bind (io_read (Join directory ''formal.patch'')) (\<lambda>patchData.
      io_bind (io_require (sha256_hex patchData = FormalPatchSHA256 manifest) PatchDigest) (\<lambda>_.
      io_bind (io_check (\<lambda>fs. first_error header_error (split_on (CHR 0x0A) patchData))) (\<lambda>_.
      io_bind (io_spawn w [''patch'', ''--silent'', ''-p1'', ''-d'', workspace, patchData] (environ w) '''') (\<lambda>r.
      io_bind (io_require (run_ok r) (PatchApply task)) (\<lambda>_.
      io_check (\<lambda>fs. check_targets fs workspace [] (target_Files manifest)))))))))"

section \<open>The candidate\<close>

text \<open>
  The exit code, the signal name and whether there was an error. A process that a signal ended has exit code minus
  one; one that could not be started or waited for counts as a runtime failure.
\<close>

definition runCandidate :: "candidate_run \<Rightarrow> int \<times> string \<times> bool" where
  "runCandidate c =
     (if \<not> started_ok c then (71, '''', True)
      else case ended c of
        EndedError \<Rightarrow> (71, '''', True)
      | EndedExit code \<Rightarrow> (code, if ctx_done c then ''context-cancelled'' else '''', code \<noteq> 0)
      | EndedSignal name \<Rightarrow> (- 1, if ctx_done c \<and> name = '''' then ''context-cancelled'' else name, True))"

definition infra_note :: "string \<Rightarrow> string \<Rightarrow> InfrastructureNote option" where
  "infra_note category evidence = Some \<lparr>note_Category = category, note_Evidence = evidence\<rparr>"

definition classify_exit :: "int \<Rightarrow> string \<Rightarrow> string \<times> InfrastructureNote option" where
  "classify_exit exitCode candidateSignal =
     (if exitCode = 0 then (''submitted'', None)
      else if exitCode = 124 then (''timed-out'', None)
      else if exitCode = 70
        then (''harness-failure'', infra_note ''harness-process-crash'' ''coordinator failed; see candidate-stderr.log'')
      else if exitCode = 71
        then (''infrastructure-failure'',
              infra_note ''host-container-runtime-failure'' ''tool or container runtime failed; see candidate-stderr.log'')
      else (''harness-failure'', infra_note ''harness-process-crash''
              (''candidate runner terminated with exit '' @ FormatInt exitCode @ '' signal '' @ candidateSignal)))"

section \<open>The final patch\<close>

function ReplaceAll :: "string \<Rightarrow> string \<Rightarrow> string \<Rightarrow> string" where
  "ReplaceAll old new s =
     (if s = [] \<or> old = [] then s
      else if HasPrefix s old then new @ ReplaceAll old new (drop (length old) s)
      else hd s # ReplaceAll old new (tl s))"
  by pat_completeness auto
termination
  by (relation "measure (\<lambda>(old, new, s). length s)") auto

declare ReplaceAll.simps [simp del]

fun SplitAfter :: "char \<Rightarrow> string \<Rightarrow> string list" where
  "SplitAfter sep [] = [[]]"
| "SplitAfter sep (c # s) =
     (if c = sep then [c] # SplitAfter sep s
      else case SplitAfter sep s of [] \<Rightarrow> [[c]] | l # ls \<Rightarrow> (c # l) # ls)"

definition patch_header :: "string \<Rightarrow> bool" where
  "patch_header line \<longleftrightarrow> list_ex (HasPrefix line)
     [''diff --git '', ''--- '', ''+++ '', ''Binary files '', ''rename from '', ''rename to '']"

definition rewrite_header :: "string \<Rightarrow> string \<Rightarrow> string \<Rightarrow> string" where
  "rewrite_header oldPrefix newPrefix line =
     (if patch_header line then ReplaceAll newPrefix ''b/'' (ReplaceAll oldPrefix ''a/'' line) else line)"

definition Base :: "string \<Rightarrow> string" where
  "Base p = (if p = '''' then ''.'' else case rev (clean_comps p) of [] \<Rightarrow> ''/'' | c # _ \<Rightarrow> c)"

definition generatePatch :: "driver_world \<Rightarrow> string \<Rightarrow> string \<Rightarrow> string \<Rightarrow> string \<Rightarrow> unit io" where
  "generatePatch w runDir starting workspace output =
     io_bind (io_spawn w [''git'', ''diff'', ''--no-index'', ''--binary'', ''--no-prefix'', ''--'', Base starting, Base workspace]
       (environ w) runDir) (\<lambda>r.
       case r of
         Exited code data err \<Rightarrow>
           if code \<noteq> 0 \<and> code \<noteq> 1 then io_fail DiffFailed
           else io_write (WriteFailed output) (\<lambda>fs. WriteFile fs output
             (concat (map (rewrite_header (Base starting @ ''/'') (Base workspace @ ''/'')) (SplitAfter (CHR 0x0A) data))))
       | _ \<Rightarrow> io_fail DiffFailed)"

section \<open>Compact\<close>

text \<open>\<open>json.Compact\<close>: white space outside of strings goes; the text must be one JSON value.\<close>

fun strip_space :: "bool \<Rightarrow> string \<Rightarrow> string" where
  "strip_space inside [] = []"
| "strip_space inside (c # s) =
     (if inside then
        (if c = CHR 0x5C then (case s of [] \<Rightarrow> [c] | d # r \<Rightarrow> c # d # strip_space True r)
         else c # strip_space (c \<noteq> CHR 0x22) s)
      else if c = CHR 0x20 \<or> c = CHR 0x09 \<or> c = CHR 0x0A \<or> c = CHR 0x0D then strip_space False s
      else c # strip_space (c = CHR 0x22) s)"

definition Compact :: "string \<Rightarrow> string option" where
  "Compact s = (if parse_json s = None then None else Some (strip_space False s))"

section \<open>A production run\<close>

record productionOptions =
  po_root :: string
  po_phase :: string
  po_schedule :: string
  po_runDir :: string
  po_runID :: string
  po_candidateRunner :: string
  po_runresultBin :: string
  po_evaluatorWrapper :: string

text \<open>From the created run directory to the workspace, its snapshot and the prompt.\<close>

definition prepare_workspace :: "driver_world \<Rightarrow> resolvedRun \<Rightarrow> string \<Rightarrow> string \<Rightarrow> unit io" where
  "prepare_workspace w resolved root runDir =
     (let workspace = Join runDir ''workspace'' in
      io_bind (copyTree (Join root (Fixture resolved)) workspace False) (\<lambda>_.
      io_bind (if Mode (Cell resolved) = ''propagation-only'' then applyPropagation w root workspace (Task (Cell resolved))
               else io_return ()) (\<lambda>_.
      io_bind (if WorkspaceOverlay resolved \<noteq> '''' then copyTree (Join root (WorkspaceOverlay resolved)) workspace True
               else io_return ()) (\<lambda>_.
      io_bind (makeWorkspaceWritable workspace) (\<lambda>_.
      copyTree workspace (Join runDir ''starting-workspace'') False)))))"

definition write_prompt :: "resolvedRun \<Rightarrow> string \<Rightarrow> string \<Rightarrow> unit io" where
  "write_prompt resolved root runDir =
     io_bind (io_read (Join root (resolved_Treatment resolved))) (\<lambda>treatmentText.
     io_bind (io_read (Join root (resolved_Task resolved))) (\<lambda>taskText.
     io_bind (io_read (Join root (ProblemDetails resolved))) (\<lambda>problemDetailsText.
     io_write (WriteFailed ''prompt.md'') (\<lambda>fs. WriteFile fs (Join runDir ''prompt.md'')
       (treatmentText @ [CHR 0x0A, CHR 0x0A] @ problemDetailsText @ [CHR 0x0A, CHR 0x0A] @ taskText)))))"

fun empty_files :: "string \<Rightarrow> string list \<Rightarrow> unit io" where
  "empty_files runDir [] = io_return ()"
| "empty_files runDir (name # rest) =
     io_bind (io_write (WriteFailed name) (\<lambda>fs. WriteFile fs (Join runDir name) '''')) (\<lambda>_. empty_files runDir rest)"

definition candidate_environment :: "resolvedRun \<Rightarrow> string \<Rightarrow> string \<Rightarrow> string \<Rightarrow> string \<Rightarrow> string \<Rightarrow> string list" where
  "candidate_environment resolved root runDir runID instance compactConfig =
     [''EXPERIMENT_ROOT='' @ root, ''EXPERIMENT_RUN_ID='' @ runID, ''EXPERIMENT_INSTANCE_ID='' @ instance,
      ''CANDIDATE_WORKSPACE='' @ Join runDir ''workspace'', ''CANDIDATE_PROMPT_FILE='' @ Join runDir ''prompt.md'',
      ''CANDIDATE_TRANSCRIPT='' @ Join runDir ''transcript.jsonl'', ''CANDIDATE_STDERR='' @ Join runDir ''candidate-stderr.log'',
      ''COORDINATOR_IMAGE='' @ CoordinatorImage resolved, ''TOOL_IMAGE='' @ ToolImage resolved,
      ''EVALUATOR_IMAGE='' @ EvaluatorImage resolved, ''POSTGRES_IMAGE='' @ PostgresImage resolved,
      ''OPENCODE_MODEL='' @ resolved_Model resolved, ''OPENCODE_CONFIG_CONTENT='' @ compactConfig,
      ''CANDIDATE_TIMEOUT_SECONDS='' @ FormatInt (resolved_Timeout resolved)]"

text \<open>
  The candidate runs; a deadline overrides its exit code. The driver's own runner is then asked to clean up, and a
  cleanup that fails turns the run into a runtime failure.
\<close>

definition candidate_phase :: "driver_world \<Rightarrow> productionOptions \<Rightarrow> resolvedRun \<Rightarrow> string \<Rightarrow> string \<Rightarrow> string \<Rightarrow> string \<Rightarrow> (int \<times> string) io" where
  "candidate_phase w opts resolved root runDir instance compactConfig fs =
     (let defaultRunner = (po_candidateRunner opts = '''');
          runner = (if defaultRunner then Join (Join root ''harness'') ''run-candidate.sh'' else po_candidateRunner opts) in
      case candidate w (scriptCommand runner)
             (withEnvironment (environ w) (candidate_environment resolved root runDir (po_runID opts) instance compactConfig)) fs of
        (c, fs) \<Rightarrow>
          (let (exitCode, candidateSignal, failed) = runCandidate c;
               (exitCode, candidateSignal) = (if deadline c then (124, '''') else (exitCode, candidateSignal)) in
           if \<not> defaultRunner then Some (Inr (exitCode, candidateSignal), fs)
           else let opened = (case ReadFile fs (Join runDir ''candidate-stderr.log'') of None \<Rightarrow> False | Some _ \<Rightarrow> True) in
             (case spawn w [''bash'', runner, ''--cleanup'']
                (withEnvironment (environ w) [''EXPERIMENT_RUN_ID='' @ po_runID opts, ''EXPERIMENT_INSTANCE_ID='' @ instance])
                '''' fs of
                (r, fs) \<Rightarrow> Some (Inr (if \<not> opened \<or> \<not> run_ok r then 71 else exitCode, candidateSignal), fs))))"

definition reject_text :: "driver_world \<Rightarrow> driver_error \<Rightarrow> string" where
  "reject_text w e =
     (case e of
        SymlinkRefused rel \<Rightarrow> ''symlink is not allowed: '' @ slash_path rel
      | HiddenRefused rel \<Rightarrow> ''hidden directory is outside workspace-manifest coverage: '' @ slash_path rel
      | SpecialRefused rel \<Rightarrow> ''special file is not allowed: '' @ slash_path rel
      | e \<Rightarrow> os_error w e)"

text \<open>An error of the workspace check is an outcome, not a failure of the driver.\<close>

definition io_catch :: "unit io \<Rightarrow> driver_error option io" where
  "io_catch act fs =
     (case act fs of None \<Rightarrow> None | Some (Inl e, fs') \<Rightarrow> Some (Inr (Some e), fs') | Some (Inr _, fs') \<Rightarrow> Some (Inr None, fs'))"

definition final_patch :: "driver_world \<Rightarrow> string \<Rightarrow> driver_error option \<Rightarrow> unit io" where
  "final_patch w runDir unsafe =
     (let output = Join runDir ''final.patch'' in
      case unsafe of
        Some e \<Rightarrow> io_write (WriteFailed output) (\<lambda>fs. WriteFile fs output '''')
      | None \<Rightarrow> generatePatch w runDir (Join runDir ''starting-workspace'') (Join runDir ''workspace'') output)"

definition production_metadata ::
  "driver_world \<Rightarrow> productionOptions \<Rightarrow> resolvedRun \<Rightarrow> string \<Rightarrow> string \<Rightarrow> int \<Rightarrow> string \<Rightarrow> driver_error option \<Rightarrow> RunMetadata" where
  "production_metadata w opts resolved schedulePath instance exitCode candidateSignal unsafe =
     (let (status, infrastructure) =
            (case unsafe of
               None \<Rightarrow> classify_exit exitCode candidateSignal
             | Some e \<Rightarrow> (''harness-failure'', infra_note ''harness-process-crash'' (''candidate workspace rejected: '' @ reject_text w e)));
          finished = (if exitCode = 124 then now_started w + resolved_Timeout resolved * 1000000000 else now_finished w)
      in \<lparr>metadata_RunID = po_runID opts, metadata_CellID = ID (Cell resolved), metadata_RepeatIndex = resolved_RepeatIndex resolved,
          metadata_Phase = po_phase opts, metadata_Status = status,
          StartedAt = \<lparr>instant = now_started w, offset = 0\<rparr>, FinishedAt = \<lparr>instant = finished, offset = 0\<rparr>,
          Workspace = ''workspace'', ProtocolViolations = [], metadata_Infrastructure = infrastructure,
          metadata_ReplacesRunID = None,
          metadata_Orchestration = Some
            \<lparr>SchedulePath_of = schedulePath, ScheduleOrdinal = resolved_Ordinal resolved, ScheduleRunID = po_runID opts,
             Model = resolved_Model resolved, orchestration_AgentVersion = resolved_AgentVersion resolved,
             ResolvedSources = [(''fixture'', Fixture resolved), (''treatment'', resolved_Treatment resolved),
               (''workspaceOverlay'', WorkspaceOverlay resolved), (''problemDetails'', ProblemDetails resolved),
               (''task'', resolved_Task resolved)],
             Images = [(''coordinator'', CoordinatorImage resolved), (''tool'', ToolImage resolved),
               (''toolCodegen'', CodegenImage resolved), (''evaluator'', EvaluatorImage resolved),
               (''postgres'', PostgresImage resolved)],
             TimeoutSeconds = resolved_Timeout resolved,
             ResourceLabels = [(''experiment.run-id'', po_runID opts), (''experiment.instance-id'', instance)],
             CandidateExitCode = exitCode, CandidateSignal = candidateSignal\<rparr>\<rparr>)"

definition assembly_command :: "productionOptions \<Rightarrow> resolvedRun \<Rightarrow> string \<Rightarrow> string \<Rightarrow> string list" where
  "assembly_command opts resolved root runDir =
     (let runresult = (if po_runresultBin opts = '''' then Join (Join root ''bin'') ''runresult'' else po_runresultBin opts);
          evaluator = (if po_evaluatorWrapper opts = '''' then Join (Join root ''harness'') ''run-evaluator-container.sh''
            else po_evaluatorWrapper opts)
      in scriptCommand runresult
         @ [''-run-dir'', runDir, ''-root'', root, ''-evaluator'', evaluator, ''-codegen-image'', CodegenImage resolved])"

definition assembly_environment :: "driver_world \<Rightarrow> productionOptions \<Rightarrow> resolvedRun \<Rightarrow> string \<Rightarrow> string \<Rightarrow> string list" where
  "assembly_environment w opts resolved root instance =
     withEnvironment (driver_withoutProviderCredentials (environ w))
       [''EXPERIMENT_ROOT='' @ root, ''EXPERIMENT_RUN_ID='' @ po_runID opts, ''EXPERIMENT_INSTANCE_ID='' @ instance,
        ''EVALUATOR_IMAGE='' @ EvaluatorImage resolved]"

definition finalize :: "driver_world \<Rightarrow> productionOptions \<Rightarrow> resolvedRun \<Rightarrow> string \<Rightarrow> string \<Rightarrow> string \<Rightarrow> string \<Rightarrow> int \<Rightarrow> string \<Rightarrow> unit io" where
  "finalize w opts resolved root runDir schedulePath instance exitCode candidateSignal =
     io_bind (io_catch (validateWorkspaceTree (Join runDir ''workspace''))) (\<lambda>unsafe.
     io_bind (final_patch w runDir unsafe) (\<lambda>_.
     io_bind (io_write (RemoveFailed ''starting-workspace'') (\<lambda>fs. RemoveAll fs (Join runDir ''starting-workspace''))) (\<lambda>_.
     io_bind (writeJSONAtomic (Join runDir ''metadata.json'')
       (driver_metadata_json (production_metadata w opts resolved schedulePath instance exitCode candidateSignal unsafe))) (\<lambda>_.
     io_bind (io_write AmbiguousFinalization (\<lambda>fs. make_node fs (Join runDir ''.finalization-started'') (Reg True ''''))) (\<lambda>_.
     io_bind (io_spawn w (assembly_command opts resolved root runDir) (assembly_environment w opts resolved root instance) '''') (\<lambda>r.
     io_bind (io_require (run_ok r) AssemblyFailed) (\<lambda>_.
     io_bind (io_require (exitCode = 0 \<or> exitCode = 124) (CandidateFailed exitCode)) (\<lambda>_.
     case unsafe of None \<Rightarrow> io_return () | Some e \<Rightarrow> io_fail e))))))))"

definition runProduction :: "driver_world \<Rightarrow> productionOptions \<Rightarrow> unit io" where
  "runProduction w opts fs =
     (let root = Abs fs (po_root opts); runDir = Abs fs (po_runDir opts); schedulePath = Abs fs (po_schedule opts) in
      io_bind (refuse_existing runDir) (\<lambda>_.
      io_bind (io_pure (\<lambda>fs. resolveProduction fs root schedulePath (po_runID opts))) (\<lambda>resolved.
      io_bind (io_require (Blocker resolved = '''') (InvalidEntry (Blocker resolved))) (\<lambda>_.
      io_bind (acquireSlot w (Join (Join root ''.cache'') ''production-rundriver-locks'') (nat (resolved_Concurrency resolved))) (\<lambda>slot.
      io_bind (io_write (MkdirFailed runDir) (\<lambda>fs. make_node fs runDir (Directory True []))) (\<lambda>_.
      io_bind (prepare_workspace w resolved root runDir) (\<lambda>_.
      io_bind (write_prompt resolved root runDir) (\<lambda>_.
      io_bind (empty_files runDir [''transcript.jsonl'', ''candidate-stderr.log'']) (\<lambda>_.
      case random_bytes w of
        None \<Rightarrow> io_fail RandomFailed
      | Some random \<Rightarrow>
          (let instance = hex_EncodeToString random in
           io_bind (io_read (Join (Join root ''harness'') ''opencode-run.json'')) (\<lambda>runConfig.
           case Compact runConfig of
             None \<Rightarrow> io_fail ConfigSyntax
           | Some compactConfig \<Rightarrow>
               io_bind (candidate_phase w opts resolved root runDir instance compactConfig) (\<lambda>(exitCode, candidateSignal).
               finalize w opts resolved root runDir schedulePath instance exitCode candidateSignal))))))))))) fs)"

definition productionMain :: "driver_world \<Rightarrow> productionOptions \<Rightarrow> unit io" where
  "productionMain w opts =
     (case first_error (\<lambda>(name, value). if TrimSpace value = '''' then Some (Required name) else None)
        [(''phase'', po_phase opts), (''schedule'', po_schedule opts), (''run-dir'', po_runDir opts), (''run-id'', po_runID opts)] of
        Some e \<Rightarrow> io_fail e
      | None \<Rightarrow>
          if po_phase opts \<noteq> ''pilot'' \<and> po_phase opts \<noteq> ''measured'' then io_fail PhaseUnknown
          else runProduction w opts)"

end
