(* ===== verification/Driver_Workspace.thy ===== *)
theory Driver_Workspace
  imports Driver_Production
begin

text \<open>
  The workspace between the driver and the assembly: which relative paths a formal target may have, what the target check of the
  driver means to the formal-inputs gate, that the manifest covers an accepted workspace, and how the patch headers are rewritten.
\<close>

section \<open>Relative paths\<close>

text \<open>
  The paths a formal patch or target may name are exactly the sequences of proper file names, none of them \<open>..\<close>, joined by
  single slashes and free of backslashes: joined to a workspace they stay below it.
\<close>

theorem safe_relative_path_exact:
  "safeRelativePath p \<longleftrightarrow>
     (\<exists>names. names \<noteq> [] \<and> list_all name_ok names \<and> p = slash_path names \<and> \<not> Contains p [CHR 0x5C])"
proof
  assume s: "safeRelativePath p"
  then have p: "\<not> IsAbs p" "Clean p = p" "p \<noteq> ''.''" "p \<noteq> ''..''" "\<not> HasPrefix p ''../''" "\<not> Contains p [CHR 0x5C]"
    by (auto simp: safeRelativePath_def)
  obtain names n where c: "clean_comps p = replicate n ''..'' @ names" "''..'' \<notin> set names" "list_all comp_ok (clean_comps p)"
    by (rule clean_comps_ok [of p])
  have r: "p = slash_path (clean_comps p)" using p(1,2) by (simp add: Clean_def slash_path_def)
  have "clean_comps p \<noteq> []" using r p(3) by (auto simp: slash_path_def render_path_def)
  then have j: "p = join_on (CHR ''/'') (clean_comps p)" using r by (simp add: slash_path_def render_path_def)
  have "n = 0"
  proof (rule ccontr)
    assume "n \<noteq> 0"
    then obtain rest where rest: "clean_comps p = ''..'' # rest" using c(1) by (cases n) auto
    show False using j p(4,5) unfolding rest by (cases rest) (auto simp: HasPrefix_def)
  qed
  then have "list_all name_ok (clean_comps p)" using c by (auto simp: list_all_iff name_ok_def)
  then show "\<exists>names. names \<noteq> [] \<and> list_all name_ok names \<and> p = slash_path names \<and> \<not> Contains p [CHR 0x5C]"
    using r \<open>clean_comps p \<noteq> []\<close> p(6) by blast
next
  assume "\<exists>names. names \<noteq> [] \<and> list_all name_ok names \<and> p = slash_path names \<and> \<not> Contains p [CHR 0x5C]"
  then obtain names where n: "names \<noteq> []" "list_all name_ok names" "p = slash_path names" "\<not> Contains p [CHR 0x5C]" by blast
  note f = slash_path_facts [OF n(2,1)]
  have "p \<noteq> ''''" "p \<noteq> ''.''" using f(1) n(1,3) by (auto simp: clean_comps_def clean_step_def IsAbs_def HasPrefix_def)
  then show "safeRelativePath p" using f n(3,4) by (auto simp: safeRelativePath_def escapes_def)
qed

section \<open>Formal targets\<close>

lemma check_targets_None:
  "check_targets fs workspace seen files = None \<Longrightarrow>
     scan_targets fs workspace files = (True, '''') \<and> distinct (map target_Path files)
     \<and> set seen \<inter> set (map target_Path files) = {} \<and> list_all (\<lambda>f. safeRelativePath (target_Path f)) files"
proof (induction files arbitrary: seen)
  case (Cons x files)
  then obtain data where data: "ReadFile fs (Join workspace (target_Path x)) = Some data"
    "sha256_hex data = target_SHA256 x" "check_targets fs workspace (target_Path x # seen) files = None"
    "target_Path x \<notin> set seen" "safeRelativePath (target_Path x)"
    by (auto split: if_splits option.splits)
  then show ?case using Cons.IH [OF data(3)] by (auto simp: EqualFold_def)
qed simp

text \<open>
  A workspace that the driver propagated passes the gate of the assembly. When the driver's check of the formal targets
  passes, the same check of \<open>runresult\<close> on the same tree passes too, and the targets are distinct paths inside the workspace.
\<close>

theorem propagated_targets_pass_gate:
  assumes "check_targets fs workspace [] files = None"
  shows "scan_targets fs workspace files = (True, '''') \<and> distinct (map target_Path files)
     \<and> list_all (\<lambda>f. safeRelativePath (target_Path f)) files"
  using check_targets_None [OF assms] by blast

theorem propagated_targets_pass_gate_witness:
  "scan_targets sample_workspace ''/w'' [\<lparr>target_Path = ''a'', target_SHA256 = sha256_hex ''x''\<rparr>] = (True, '''')"
proof -
  have "check_targets sample_workspace ''/w'' [] [\<lparr>target_Path = ''a'', target_SHA256 = sha256_hex ''x''\<rparr>] = None"
    by (simp add: sample_workspace_def locate_def IsAbs_def Clean_def clean_comps_def clean_step_def render_path_def Join_def
        Let_def ReadFile_def Stat_def safeRelativePath_def HasPrefix_def)
  from propagated_targets_pass_gate [OF this] show ?thesis by blast
qed

section \<open>The manifest of an accepted workspace\<close>

lemma file_rels_clean:
  "clean_tree False n \<Longrightarrow> proper_tree n \<Longrightarrow> (rel \<noteq> [] \<Longrightarrow> IsDir n \<Longrightarrow> \<not> hidden (last rel)) \<Longrightarrow>
     node_at n q = Some (Reg r s) \<Longrightarrow> rel @ q \<in> set (file_rels (WalkDir rel n))"
proof (induction rel n arbitrary: q rule: WalkDir.induct)
  case (1 rel ok es)
  obtain c k q' where q: "q = c # q'" "map_of es c = Some k" "node_at k q' = Some (Reg r s)"
    using "1.prems"(4) by (cases q) (auto simp: Option.bind_eq_Some_conv split: if_splits)
  have ok: ok and pt: "proper_tree (Directory True es)" using "1.prems"(1,2) by auto
  have k: "(c, k) \<in> set (sort_key fst es)" "(c, k) \<in> set es" using map_of_SomeD [OF q(2)] by auto
  have h: "\<not> (rel \<noteq> [] \<and> hidden (last rel))" using "1.prems"(3) by (auto simp: IsDir_def)
  have "rel @ [c] @ q' \<in> set (file_rels (WalkDir (rel @ [c]) k))"
    using "1.IH" [OF h _ k(1) refl, of q'] ok q(3) proper_child [OF pt q(2)] "1.prems"(1) k(2)
    by (auto simp: list_all_iff)
  then show ?case using h ok k(1) q(1) by (force simp: file_rels_concat)
next
  case (2 rel ok x)
  then show ?case by (cases q) (auto simp: file_rels_def IsRegular_def)
qed simp_all

text \<open>
  C16: no file escapes the manifest. When the driver accepts the candidate's workspace, the paths of the manifest that the
  assembly writes for it are exactly the paths of all regular files below it.
\<close>

theorem accepted_workspace_fully_listed:
  assumes "list_all name_ok w" "node_at (fs_root fs) w = Some (Directory ok zs)" "proper_tree (Directory ok zs)"
    "validateWorkspaceTree (abs_path w) fs = Some (Inr (), fs)" "build_manifest fs (abs_path w) = Some m"
  shows "set (map Path (Files m)) = {slash_path rel | rel. \<exists>r s. node_at (Directory ok zs) rel = Some (Reg r s)}"
proof -
  let ?t = "Directory ok zs"
  have clean: "clean_tree False ?t" using validate_total [OF assms(1-3)] assms(4) by auto
  have walk: "walk_workspace fs (abs_path w) = WalkDir [] ?t"
    using plain_Lstat [OF assms(1,2)] by (simp add: walk_workspace_def)
  obtain entries where e: "collect_files fs (abs_path w) (WalkDir [] ?t) = Some entries" "Files m = sort_key Path entries"
    using assms(5) plain_locate(2) [OF assms(1,2)] walk by (auto simp: build_manifest_def)
  have "set (file_rels (WalkDir [] ?t)) = {rel. \<exists>r s. node_at ?t rel = Some (Reg r s)}"
  proof (intro equalityI subsetI CollectI)
    fix rel assume "rel \<in> set (file_rels (WalkDir [] ?t))"
    then obtain n where "VisitFile rel n \<in> set (WalkDir [] ?t)" "IsRegular n"
      by (auto simp: file_rels_def split: visit.splits if_splits)
    then show "\<exists>r s. node_at ?t rel = Some (Reg r s)"
      using WalkDir_file [of rel n "[]" ?t] assms(3) by (auto simp: IsRegular_def split: node.splits)
  next
    fix rel assume "rel \<in> {rel. \<exists>r s. node_at ?t rel = Some (Reg r s)}"
    then show "rel \<in> set (file_rels (WalkDir [] ?t))" using file_rels_clean [OF clean assms(3), of "[]" rel] by auto
  qed
  moreover have "set (map Path (Files m)) = slash_path ` set (file_rels (WalkDir [] ?t))"
  proof -
    have "set (map Path (Files m)) = set (map Path entries)" using e(2) by simp
    also have "\<dots> = set (map slash_path (file_rels (WalkDir [] ?t)))" using collect_files_Some [OF e(1)] by metis
    finally show ?thesis by simp
  qed
  ultimately show ?thesis by blast
qed

theorem accepted_workspace_fully_listed_witness:
  "set (map Path (Files \<lparr>manifest_SchemaVersion = 1, Files = [\<lparr>Path = ''a'', SHA256 = sha256_hex ''x'', SizeBytes = 1\<rparr>]\<rparr>))
     = {slash_path rel | rel. \<exists>r s. node_at (Directory True [(''a'', Reg True ''x'')]) rel = Some (Reg r s)}"
proof -
  let ?t = "Directory True [(''a'', Reg True ''x'')]"
  have t: "list_all name_ok [''w'']" "node_at (fs_root sample_workspace) [''w''] = Some ?t" "proper_tree ?t"
    by (auto simp: name_ok_def comp_ok_def sample_workspace_def split: if_splits intro!: proper_directory proper_leaf)
  have "validateWorkspaceTree (abs_path [''w'']) sample_workspace = Some (Inr (), sample_workspace)"
    using validate_total [OF t] by (auto simp: IsDir_def)
  moreover have "build_manifest sample_workspace (abs_path [''w'']) = Some \<lparr>manifest_SchemaVersion = 1,
      Files = [\<lparr>Path = ''a'', SHA256 = sha256_hex ''x'', SizeBytes = 1\<rparr>]\<rparr>"
    using sample_workspace_facts(3) by (simp add: render_path_def)
  ultimately show ?thesis by (rule accepted_workspace_fully_listed [OF t])
qed

section \<open>Patch headers\<close>

lemma ReplaceAll_Cons:
  "old \<noteq> [] \<Longrightarrow> ReplaceAll old new (c # s) =
     (if HasPrefix (c # s) old then new @ ReplaceAll old new (drop (length old) (c # s)) else c # ReplaceAll old new s)"
  by (subst ReplaceAll.simps) simp

lemma ReplaceAll_none: "\<not> Contains s old \<Longrightarrow> ReplaceAll old new s = s"
proof (induction s)
  case Nil
  then show ?case by (subst ReplaceAll.simps) simp
next
  case (Cons c s)
  then have "old \<noteq> []" "\<not> HasPrefix (c # s) old" "\<not> Contains s old" by (cases old; auto simp: HasPrefix_def)+
  then show ?case using Cons.IH ReplaceAll_Cons by simp
qed

lemma Contains_suffix: "Contains s (a @ b) \<Longrightarrow> Contains s b"
  unfolding Contains_iff by (metis append.assoc)

text \<open>
  The headers of the final patch name the files by their path in the workspace. The snapshot's prefix becomes \<open>a/\<close>, the
  workspace's \<open>b/\<close>, and the path behind it is kept, as long as no directory of that path has a name that ends in \<open>workspace\<close>.
\<close>

theorem patch_headers_keep_paths:
  assumes "\<not> Contains p ''workspace/''"
  shows "rewrite_header ''starting-workspace/'' ''workspace/'' (''--- starting-workspace/'' @ p) = ''--- a/'' @ p
    \<and> rewrite_header ''starting-workspace/'' ''workspace/'' (''+++ workspace/'' @ p) = ''+++ b/'' @ p"
proof -
  have "\<not> Contains p ''starting-workspace/''" using assms Contains_suffix [of p "''starting-''" "''workspace/''"] by auto
  then have "ReplaceAll ''starting-workspace/'' new p = p" "ReplaceAll ''workspace/'' new p = p" for new
    using assms by (auto simp: ReplaceAll_none)
  then show ?thesis by (simp add: rewrite_header_def patch_header_def HasPrefix_def ReplaceAll_Cons)
qed

theorem patch_headers_keep_paths_witness:
  "rewrite_header ''starting-workspace/'' ''workspace/'' ''+++ workspace/db/queries/tasks.sql'' = ''+++ b/db/queries/tasks.sql''"
  using patch_headers_keep_paths [of "''db/queries/tasks.sql''"] by (simp add: HasPrefix_def)

text \<open>Without the restriction the path is not kept: a directory called \<open>workspace\<close> comes out as \<open>b\<close>.\<close>

lemma nested_workspace_header:
  "rewrite_header ''starting-workspace/'' ''workspace/'' ''+++ workspace/db/workspace/x.sql'' = ''+++ b/db/b/x.sql''"
  by code_simp

end
