(* ===== verification/Driver_Slots.thy ===== *)
theory Driver_Slots
  imports Driver_Production
begin

text \<open>
  The slots of \<open>acquireSlot\<close> seen by all drivers of a machine at once. Each driver tries the lock files in turn, waits and tries
  again, holds one lock while its run lasts and gives it back when it returns or dies; the kernel's \<open>flock\<close> grants a
  lock to one open file at a time. A step is one system call of one driver.
\<close>

datatype driver_state = Trying nat | Waiting | Holding nat | Gone

record 'd slots =
  holder :: "nat \<Rightarrow> 'd option"
  driver :: "'d \<Rightarrow> driver_state"

inductive slot_step :: "nat \<Rightarrow> 'd slots \<Rightarrow> 'd slots \<Rightarrow> bool" for limit :: nat where
  lock: "driver s d = Trying k \<Longrightarrow> k \<le> limit \<Longrightarrow> holder s k = None \<Longrightarrow>
    slot_step limit s (s\<lparr>holder := (holder s)(k \<mapsto> d), driver := (driver s)(d := Holding k)\<rparr>)"
| busy: "driver s d = Trying k \<Longrightarrow> k \<le> limit \<Longrightarrow> holder s k \<noteq> None \<Longrightarrow>
    slot_step limit s (s\<lparr>driver := (driver s)(d := Trying (Suc k))\<rparr>)"
| wait: "driver s d = Trying k \<Longrightarrow> limit < k \<Longrightarrow> slot_step limit s (s\<lparr>driver := (driver s)(d := Waiting)\<rparr>)"
| again: "driver s d = Waiting \<Longrightarrow> slot_step limit s (s\<lparr>driver := (driver s)(d := Trying 1)\<rparr>)"
| cancel: "driver s d = Waiting \<Longrightarrow> slot_step limit s (s\<lparr>driver := (driver s)(d := Gone)\<rparr>)"
| release: "driver s d = Holding k \<Longrightarrow>
    slot_step limit s (s\<lparr>holder := (holder s)(k := None), driver := (driver s)(d := Gone)\<rparr>)"
| die: "driver s d = Trying k \<Longrightarrow> slot_step limit s (s\<lparr>driver := (driver s)(d := Gone)\<rparr>)"

text \<open>Drivers start by trying the first slot; a driver that is gone may be started anew under another name.\<close>

definition slots_start :: "'d slots" where
  "slots_start = \<lparr>holder = (\<lambda>_. None), driver = (\<lambda>_. Trying 1)\<rparr>"

definition reachable_slots :: "nat \<Rightarrow> 'd slots \<Rightarrow> bool" where
  "reachable_slots limit s \<longleftrightarrow> (slot_step limit)\<^sup>*\<^sup>* slots_start s"

definition slots_inv :: "nat \<Rightarrow> 'd slots \<Rightarrow> bool" where
  "slots_inv limit s \<longleftrightarrow> (\<forall>d k. driver s d = Holding k \<longleftrightarrow> holder s k = Some d)
     \<and> (\<forall>d k. driver s d = Holding k \<or> driver s d = Trying k \<longrightarrow> 1 \<le> k) \<and> (\<forall>d k. driver s d = Holding k \<longrightarrow> k \<le> limit)"

lemma slots_invD:
  assumes "slots_inv limit s"
  shows "driver s d = Holding k \<longleftrightarrow> holder s k = Some d" "driver s d = Holding k \<Longrightarrow> 1 \<le> k \<and> k \<le> limit"
    "driver s d = Trying k \<Longrightarrow> 1 \<le> k"
  using assms unfolding slots_inv_def by blast+

lemma slots_inv_move:
  assumes "slots_inv limit s" "\<And>k. driver s d \<noteq> Holding k" "\<And>k. st \<noteq> Holding k" "\<And>k. st = Trying k \<Longrightarrow> 1 \<le> k"
  shows "slots_inv limit (s\<lparr>driver := (driver s)(d := st)\<rparr>)"
proof -
  have free: "holder s k \<noteq> Some d" for k using slots_invD(1) [OF assms(1)] assms(2) by metis
  show ?thesis unfolding slots_inv_def
    using slots_invD [OF assms(1)] assms(3,4) free by (simp add: all_conj_distrib)
qed

lemma slot_step_inv: "slot_step limit s s' \<Longrightarrow> slots_inv limit s \<Longrightarrow> slots_inv limit s'"
proof (induction rule: slot_step.induct)
  case (lock s d k)
  note i = slots_invD [OF lock.prems]
  have "holder s j \<noteq> Some d" for j using i(1) [of d j] lock.hyps(1) by simp
  moreover have "driver s e \<noteq> Holding k" for e using i(1) [of e k] lock.hyps(3) by simp
  ultimately show ?case unfolding slots_inv_def using i lock.hyps by (simp add: all_conj_distrib)
next
  case (release s d k)
  note i = slots_invD [OF release.prems]
  have h: "holder s k = Some d" using i(1) release.hyps by blast
  have "driver s e \<noteq> Holding k" if "e \<noteq> d" for e using i(1) [of e k] h that by simp
  moreover have "holder s j \<noteq> Some d" if "j \<noteq> k" for j using i(1) [of d j] release.hyps that by simp
  ultimately show ?case unfolding slots_inv_def using i by (simp add: all_conj_distrib)
next
  case (busy s d k)
  show ?case by (rule slots_inv_move [OF busy.prems]) (use busy.hyps in simp_all)
next
  case (wait s d k)
  show ?case by (rule slots_inv_move [OF wait.prems]) (use wait.hyps in simp_all)
next
  case (again s d)
  show ?case by (rule slots_inv_move [OF again.prems]) (use again.hyps in simp_all)
next
  case (cancel s d)
  show ?case by (rule slots_inv_move [OF cancel.prems]) (use cancel.hyps in simp_all)
next
  case (die s d k)
  show ?case by (rule slots_inv_move [OF die.prems]) (use die.hyps in simp_all)
qed

lemma reachable_slots_inv: "reachable_slots limit s \<Longrightarrow> slots_inv limit s"
  unfolding reachable_slots_def
proof (induction rule: rtranclp_induct)
  case base
  show ?case by (auto simp: slots_start_def slots_inv_def)
qed (rule slot_step_inv)

text \<open>
  C17: at no moment do more drivers hold a slot than there are slots, and no two of them hold the same one, however their
  system calls interleave and whichever of them are cancelled or die.
\<close>

theorem slots_bound_concurrency:
  assumes "reachable_slots limit s"
  shows "finite {d. \<exists>k. driver s d = Holding k} \<and> card {d. \<exists>k. driver s d = Holding k} \<le> limit
     \<and> (driver s d = Holding k \<and> driver s d' = Holding k \<longrightarrow> d = d')"
proof -
  let ?H = "{d. \<exists>k. driver s d = Holding k}"
  have i: "driver s d = Holding k \<longleftrightarrow> holder s k = Some d" "driver s d = Holding k \<Longrightarrow> 1 \<le> k \<and> k \<le> limit" for d k
    using reachable_slots_inv [OF assms] by (auto simp: slots_inv_def)
  have sub: "?H \<subseteq> (\<lambda>k. the (holder s k)) ` {1..limit}"
    using i by (force simp: image_iff)
  have "card ?H \<le> card {1..limit}" by (rule surj_card_le [OF _ sub]) simp
  moreover have "finite ?H" using sub by (rule finite_subset) simp
  ultimately show ?thesis using i(1) by auto
qed

lemma try_from:
  assumes "driver s d = Trying k" "k \<le> free" "free \<le> limit" "holder s free = None"
  shows "\<exists>s' j. (slot_step limit)\<^sup>*\<^sup>* s s' \<and> driver s' d = Holding j"
  using assms
proof (induction "free - k" arbitrary: s k)
  case 0
  then have "k = free" by simp
  then have "slot_step limit s (s\<lparr>holder := (holder s)(k \<mapsto> d), driver := (driver s)(d := Holding k)\<rparr>)"
    using 0 by (intro slot_step.lock) auto
  then show ?case by (intro exI conjI, rule r_into_rtranclp) auto
next
  case (Suc n)
  show ?case
  proof (cases "holder s k = None")
    case True
    then have "slot_step limit s (s\<lparr>holder := (holder s)(k \<mapsto> d), driver := (driver s)(d := Holding k)\<rparr>)"
      using Suc by (intro slot_step.lock) auto
    then show ?thesis by (intro exI conjI, rule r_into_rtranclp) auto
  next
    case False
    let ?s = "s\<lparr>driver := (driver s)(d := Trying (Suc k))\<rparr>"
    have step: "slot_step limit s ?s" using False Suc by (intro slot_step.busy) auto
    have "\<exists>s' j. (slot_step limit)\<^sup>*\<^sup>* ?s s' \<and> driver s' d = Holding j"
      using Suc.prems Suc.hyps(2) False by (intro Suc.hyps(1) [of "Suc k"]) (auto simp: le_less)
    then show ?thesis using step by (meson converse_rtranclp_into_rtranclp)
  qed
qed

lemma try_from_start:
  assumes "driver s d = Trying 1" "1 \<le> free" "free \<le> limit" "holder s free = None"
  shows "\<exists>s' j. (slot_step limit)\<^sup>*\<^sup>* s s' \<and> driver s' d = Holding j"
  using try_from [OF assms(1,2,3,4)] .

lemma wait_and_try:
  assumes "driver s d = Waiting" "1 \<le> free" "free \<le> limit" "holder s free = None"
  shows "\<exists>s' j. (slot_step limit)\<^sup>*\<^sup>* s s' \<and> driver s' d = Holding j"
proof -
  let ?s = "s\<lparr>driver := (driver s)(d := Trying 1)\<rparr>"
  have "\<exists>s' j. (slot_step limit)\<^sup>*\<^sup>* ?s s' \<and> driver s' d = Holding j"
    using assms by (intro try_from_start [of _ _ free]) auto
  then show ?thesis using slot_step.again [OF assms(1)] by (meson converse_rtranclp_into_rtranclp)
qed

lemma try_on:
  assumes "driver s d = Trying k" "1 \<le> free" "free \<le> limit" "holder s free = None"
  shows "\<exists>s' j. (slot_step limit)\<^sup>*\<^sup>* s s' \<and> driver s' d = Holding j"
  using assms
proof (induction "Suc limit - k" arbitrary: s k)
  case 0
  let ?s = "s\<lparr>driver := (driver s)(d := Waiting)\<rparr>"
  have "slot_step limit s ?s" using 0 by (intro slot_step.wait) auto
  moreover have "\<exists>s' j. (slot_step limit)\<^sup>*\<^sup>* ?s s' \<and> driver s' d = Holding j"
    using 0 by (intro wait_and_try [of _ _ free]) auto
  ultimately show ?case by (meson converse_rtranclp_into_rtranclp)
next
  case (Suc n)
  then have k: "k \<le> limit" by simp
  show ?case
  proof (cases "holder s k = None")
    case True
    then show ?thesis using try_from [OF Suc.prems(1) _ k] by blast
  next
    case False
    let ?s = "s\<lparr>driver := (driver s)(d := Trying (Suc k))\<rparr>"
    have "slot_step limit s ?s" using False Suc.prems(1) k by (intro slot_step.busy) auto
    moreover have "\<exists>s' j. (slot_step limit)\<^sup>*\<^sup>* ?s s' \<and> driver s' d = Holding j"
      using Suc.prems Suc.hyps(2) k by (intro Suc.hyps(1) [of "Suc k"]) auto
    ultimately show ?thesis by (meson converse_rtranclp_into_rtranclp)
  qed
qed



theorem slots_bound_concurrency_witness:
  "\<exists>s. reachable_slots 2 s \<and> driver s (0 :: nat) = Holding 1 \<and> card {d. \<exists>k. driver s d = Holding k} \<le> 2"
proof -
  let ?s = "slots_start\<lparr>holder := (holder slots_start)(1 \<mapsto> 0 :: nat), driver := (driver slots_start)(0 := Holding 1)\<rparr>"
  have "slot_step 2 slots_start ?s" by (rule slot_step.lock) (auto simp: slots_start_def)
  then have "reachable_slots 2 ?s" by (simp add: reachable_slots_def r_into_rtranclp)
  from this slots_bound_concurrency [OF this, THEN conjunct2, THEN conjunct1]
  show ?thesis by (intro exI [of _ ?s] conjI) simp_all
qed

section \<open>The polling loop\<close>

lemma try_slots_found:
  "try_slots free directory ks fs = (Inr (Some k), fs') \<Longrightarrow> k \<in> set ks \<and> free k"
  by (induction ks arbitrary: fs) (auto split: option.splits if_splits)

lemma try_slots_none:
  "try_slots free directory ks fs = (Inr None, fs') \<Longrightarrow> \<not> list_ex free ks"
  by (induction ks arbitrary: fs) (auto split: option.splits if_splits)

lemma poll_slots_returns:
  assumes "round \<le> final" "slot_cancelled w final \<or> (\<exists>k \<in> {1..slots}. slot_free w final k)"
  shows "poll_slots w directory slots round fs \<noteq> None"
  using assms
proof (induction "final - round" arbitrary: round fs)
  case 0
  then have r: "round = final" by simp
  have "slot_cancelled w final" if "try_slots (slot_free w final) directory [1..<Suc slots] fs = (Inr None, fs')" for fs'
    using try_slots_none [OF that] "0.prems"(2) by (auto simp: list_ex_iff)
  then show ?case unfolding r
    by (subst poll_slots.simps) (auto split: prod.splits sum.splits option.splits)
next
  case (Suc n)
  have "poll_slots w directory slots (Suc round) fs' \<noteq> None" for fs'
    using Suc.prems Suc.hyps(2) by (intro Suc.hyps(1)) auto
  then show ?case by (subst poll_slots.simps) (auto split: prod.splits sum.splits option.splits)
qed

text \<open>
  Waiting for a slot ends. As soon as in some round one of the locks is free or the run is cancelled, \<open>acquireSlot\<close> returns, with
  a slot, with the cancellation or with the error of a lock file.
\<close>

theorem acquire_slot_returns:
  assumes "slot_cancelled w final \<or> (\<exists>k \<in> {1..slots}. slot_free w final k)"
  shows "\<exists>result fs'. acquireSlot w directory slots fs = Some (result, fs')"
proof -
  have "MkdirAll directory fs \<noteq> None" by (auto simp: MkdirAll_def split: prod.splits bool.splits)
  then obtain r fs' where m: "MkdirAll directory fs = Some (r, fs')" by auto
  have "poll_slots w directory slots 0 fs' \<noteq> None" by (rule poll_slots_returns [OF _ assms]) simp
  then show ?thesis using m by (cases r) (auto simp: acquireSlot_def io_bind_def)
qed

theorem acquire_slot_returns_witness:
  "\<exists>result fs'. acquireSlot \<lparr>environ = [], spawn = (\<lambda>args env dir fs. (NotStarted '''', fs)),
     candidate = (\<lambda>args env fs. (\<lparr>started_ok = False, ended = EndedError, ctx_done = False, deadline = False\<rparr>, fs)),
     sources_in_order = True, now_started = 0, now_finished = 0, random_bytes = None, os_error = (\<lambda>_. ''''),
     slot_free = (\<lambda>round k. round = 3 \<and> k = 2), slot_cancelled = (\<lambda>_. False)\<rparr> ''/locks'' 2 sample_disk = Some (result, fs')"
  by (rule acquire_slot_returns [of _ 3]) auto

end
