(* ===== verification/Driver_Props.thy ===== *)
theory Driver_Props
  imports Driver_Production Freeze_Experiment Run_Props
begin

text \<open>
  What a production run guarantees to the programs behind it: scheduled runs resolve, the notes of a failed run fit the failure
  policy, the workspace manifest covers every file of an accepted workspace, a propagated workspace passes the formal-inputs gate,
  the assembly does not see the provider key, and a refused run changes nothing.
\<close>

section \<open>Resolution\<close>

lemma find_entry_rest: "RunID r \<notin> set (map RunID rs) \<Longrightarrow> find_entry (RunID r) rs entry = Inr entry"
  by (induction rs) auto

lemma find_entry_distinct:
  "distinct (map RunID rs) \<Longrightarrow> r \<in> set rs \<Longrightarrow> find_entry (RunID r) rs None = Inr (Some r)"
proof (induction rs)
  case (Cons x rs)
  show ?case
  proof (cases "x = r")
    case True
    then show ?thesis using Cons.prems(1) find_entry_rest [of r rs "Some r"] by simp
  next
    case False
    then have "r \<in> set rs" using Cons.prems(2) by simp
    then have "RunID x \<noteq> RunID r" using Cons.prems(1) by force
    then show ?thesis using Cons \<open>r \<in> set rs\<close> by simp
  qed
qed simp

lemma scheduled_entry:
  assumes "schedule_wf strata blocks runs" "run \<in> set runs" "blocks \<le> 5"
  shows "1 \<le> Ordinal run" "1 \<le> RepeatIndex run" "RepeatIndex run \<le> 5"
proof -
  obtain i where i: "i < length runs" "run = runs ! i" using assms(2) by (metis in_set_conv_nth)
  then show "1 \<le> Ordinal run" using assms(1) by (simp add: schedule_wf_def)
  have len: "length runs = blocks * 14" using assms(1) by (simp add: schedule_wf_def)
  define block pair where "block = i div 14" and "pair = i mod 14 div 2"
  have b: "block < blocks" "pair < 7" using i(1) len by (auto simp: block_def pair_def)
  have "i = block * 14 + pair * 2 \<or> i = block * 14 + pair * 2 + 1" by (simp add: block_def pair_def) presburger
  moreover have "pair_ok strata runs block pair" using assms(1) b by (simp add: schedule_wf_def)
  ultimately have "RepeatIndex run = int (block + 1)" using i(2) by (auto simp: pair_ok_def Let_def)
  then show "1 \<le> RepeatIndex run" "RepeatIndex run \<le> 5" using b(1) assms(3) by auto
qed

text \<open>The values every run needs, for both tool images.\<close>

definition pinned_config :: "productionConfig \<Rightarrow> string \<Rightarrow> bool" where
  "pinned_config config postgres \<longleftrightarrow> Model_ID config \<noteq> '''' \<and> Agent_Version_of config \<noteq> ''''
     \<and> validDigest (Coordinator config) \<and> validDigest (ToolDirect config) \<and> validDigest (ToolCodegen config)
     \<and> validDigest (Evaluator config) \<and> validNamedDigest postgres"

lemma validDigest_nonempty: "validDigest d \<Longrightarrow> d \<noteq> ''''"
  by (auto simp: validDigest_def)

lemma validNamedDigest_nonempty: "validNamedDigest d \<Longrightarrow> d \<noteq> ''''"
  by (auto simp: validNamedDigest_def)

lemma resolved_paths_keeps:
  "Cell (resolved_paths c r) = Cell r" "resolved_RepeatIndex (resolved_paths c r) = resolved_RepeatIndex r"
  "resolved_Ordinal (resolved_paths c r) = resolved_Ordinal r"
  "required_values (resolved_paths c r) = required_values r" "image_values (resolved_paths c r) = image_values r"
  "PostgresImage (resolved_paths c r) = PostgresImage r"
  by (auto simp: resolved_paths_def required_values_def image_values_def Let_def)

lemma check_resolved_pinned:
  assumes "pinned_config config postgres"
  shows "check_resolved (resolve_entry config postgres entry c) = None"
proof -
  note d = assms [unfolded pinned_config_def]
  have ne: "Coordinator config \<noteq> ''''" "ToolDirect config \<noteq> ''''" "ToolCodegen config \<noteq> ''''" "Evaluator config \<noteq> ''''" "postgres \<noteq> ''''"
    using d validDigest_nonempty validNamedDigest_nonempty by metis+
  show ?thesis
    using d ne
    by (simp only: check_resolved_def resolve_entry_def resolved_paths_keeps) (simp add: required_values_def image_values_def)
qed

text \<open>
  C8: every run of an accepted schedule can be driven. When \<open>freezecheck\<close> accepts the schedule for the
  configuration and the configuration pins its images, the driver finds the run under its identifier, once,
  and resolves it to the cell, repeat and ordinal of the schedule.
\<close>

theorem scheduled_run_resolves:
  assumes "phase = ''measured'' \<or> phase = ''pilot''" "matrixStrata (Cells config) = Inr strata"
    "validateScheduleSemantic config document phase = None" "run \<in> set (Runs document)"
    "config_Cells driver_config = Cells config" "pinned_config driver_config postgres"
  shows "\<exists>r. resolve_documents driver_config (Runs document) postgres (RunID run) = Inr r
     \<and> Cell r \<in> set (Cells config) \<and> ID (Cell r) = CellID run
     \<and> resolved_RepeatIndex r = RepeatIndex run \<and> resolved_Ordinal r = Ordinal run"
proof -
  have wf: "schedule_wf strata (phase_blocks phase) (Runs document)"
    using validateScheduleSemantic_None_iff [OF assms(1,2)] assms(3) by blast
  have entry: "find_entry (RunID run) (Runs document) None = Inr (Some run)"
    using find_entry_distinct wf assms(4) by (auto simp: schedule_wf_def)
  have range: "1 \<le> Ordinal run" "1 \<le> RepeatIndex run" "RepeatIndex run \<le> 5"
    using scheduled_entry [OF wf assms(4)] by (auto simp: phase_blocks_def)
  have "CellID run \<in> ID ` set (Cells config)"
    using wf assms(4) matrixStrata_Inr(2) [OF assms(2)] unfolding schedule_wf_def by (meson image_subset_iff image_mono subsetD)
  then obtain c where c: "find (\<lambda>c. ID c = CellID run) (Cells config) = Some c"
    by (cases "find (\<lambda>c. ID c = CellID run) (Cells config)") (auto simp: find_None_iff)
  then have "c \<in> set (Cells config)" "ID c = CellID run" by (auto simp: find_Some_iff)
  then show ?thesis
    using entry range c check_resolved_pinned [OF assms(6), of run c] assms(5)
    by (simp add: resolve_documents_def Let_def resolve_entry_def resolved_paths_keeps)
qed

definition sample_runs :: "scheduleRun list" where
  "sample_runs = map (\<lambda>(i, c). \<lparr>Ordinal = int i + 1, RunID = ID c, CellID = ID c, RepeatIndex = 1\<rparr>) (enumerate 0 experiment_cells)"

definition sample_digest :: string where
  "sample_digest = ''sha256:'' @ replicate 64 (CHR ''a'')"

definition sample_driver_config :: productionConfig where
  "sample_driver_config = \<lparr>Model_ID = ''m'', Agent_Version_of = ''1'', Coordinator = sample_digest, ToolDirect = sample_digest,
     ToolCodegen = sample_digest, Evaluator = sample_digest, config_TimeoutSeconds = 2700, MaxConcurrency = 2,
     config_Cells = experiment_cells\<rparr>"

lemma sample_schedule_accepted:
  "validateScheduleSemantic experiment_config (schedule_document ''s'' ''r'' ''t'' sample_runs) ''pilot'' = None"
  by code_simp

lemma sample_pinned: "pinned_config sample_driver_config (''postgres@'' @ sample_digest)"
  by code_simp

theorem scheduled_run_resolves_witness:
  "\<exists>r. resolve_documents sample_driver_config sample_runs (''postgres@'' @ sample_digest) ''greenfield-codegen'' = Inr r
     \<and> ID (Cell r) = ''greenfield-codegen'' \<and> resolved_Ordinal r = 2"
proof -
  let ?run = "\<lparr>Ordinal = 2, RunID = ''greenfield-codegen'', CellID = ''greenfield-codegen'', RepeatIndex = 1\<rparr>"
  obtain strata where "matrixStrata (Cells experiment_config) = Inr strata"
    using experiment_strata by (auto simp: experiment_config_def)
  moreover have "?run \<in> set sample_runs" by (simp add: sample_runs_def experiment_cells_def mk_cell_def)
  ultimately show ?thesis
    using scheduled_run_resolves [OF _ _ sample_schedule_accepted _ _ sample_pinned, of strata ?run]
    by (auto simp: schedule_document_def sample_driver_config_def experiment_config_def)
qed

section \<open>The metadata of a run\<close>

text \<open>
  What the driver records of a run stays within the policies of the programs behind it. A failure status comes with a note
  of a category the failure policy lists and an evidence text, no other status has a note, and
  a run that timed out finishes exactly 45 minutes after its start.
\<close>

theorem production_metadata_policy:
  "let m = production_metadata w opts resolved schedulePath instance exitCode candidateSignal unsafe in
     note_policy m
     \<and> metadata_Status m \<in> {''submitted'', ''timed-out'', ''harness-failure'', ''infrastructure-failure''}
     \<and> (metadata_Infrastructure m \<noteq> None \<longleftrightarrow> failure_status (metadata_Status m))
     \<and> (metadata_Status m = ''timed-out'' \<longleftrightarrow> exitCode = 124 \<and> unsafe = None)
     \<and> instant (FinishedAt m) - instant (StartedAt m)
         = (if exitCode = 124 then resolved_Timeout resolved * 1000000000 else now_finished w - now_started w)"
proof -
  have nonblank: "TrimSpace (CHR ''c'' # s) \<noteq> ''''" "TrimSpace (CHR ''t'' # s) \<noteq> ''''" for s
    by (rule TrimSpace_head; simp add: IsSpace_def)+
  show ?thesis
    using nonblank
    by (cases unsafe)
      (simp_all add: production_metadata_def classify_exit_def infra_note_def note_policy_def failure_policy_def
          failure_status_def Let_def split: prod.splits)
qed

section \<open>Refused runs\<close>

text \<open>
  C37: a run that is refused changes nothing. When the run directory exists already, or the run does not resolve against the
  frozen inputs, the driver reports it and leaves the file tree as it found it: no slot is taken, nothing is created.
\<close>

theorem refused_run_changes_nothing:
  assumes "refuse_existing (Abs fs (po_runDir opts)) fs \<noteq> Some (Inr (), fs)
    \<or> (\<exists>e. resolveProduction fs (Abs fs (po_root opts)) (Abs fs (po_schedule opts)) (po_runID opts) = Inl e)"
  shows "\<exists>e. runProduction w opts fs = Some (Inl e, fs)"
proof (cases "refuse_existing (Abs fs (po_runDir opts)) fs = Some (Inr (), fs)")
  case True
  then obtain e where "resolveProduction fs (Abs fs (po_root opts)) (Abs fs (po_schedule opts)) (po_runID opts) = Inl e"
    using assms by blast
  then show ?thesis using True by (simp add: runProduction_def Let_def io_bind_def io_pure_def)
next
  case False
  then obtain e where "refuse_existing (Abs fs (po_runDir opts)) fs = Some (Inl e, fs)"
    by (auto simp: refuse_existing_def split: lstat_result.splits)
  then show ?thesis by (simp add: runProduction_def Let_def io_bind_def)
qed

theorem refused_run_changes_nothing_witness:
  "\<forall>w. \<exists>e. runProduction w (\<lparr>po_root = ''/'', po_phase = ''pilot'', po_schedule = ''/s'', po_runDir = ''/run'', po_runID = ''r'',
      po_candidateRunner = '''', po_runresultBin = '''', po_evaluatorWrapper = ''''\<rparr>) sample_disk = Some (Inl e, sample_disk)"
  by (intro allI refused_run_changes_nothing)
    (simp add: refuse_existing_def sample_disk_def Abs_def Lstat_in_def Dir_def Stat_def locate_def IsAbs_def Clean_def
      clean_comps_def clean_step_def render_path_def HasPrefix_def)

section \<open>The environment of the assembly\<close>

lemma env_key_override: "CHR ''='' \<notin> set k \<Longrightarrow> env_key (k @ CHR ''='' # v) = k"
  by (simp add: env_key_def split_on_append split_on_single)

text \<open>
  An override reaches the child once. In the environment of a child process every overridden variable stands exactly
  once, with its new value, and every other entry is kept in its place.
\<close>

theorem with_environment_exact:
  assumes "distinct (map env_key overrides)" "entry \<in> set overrides"
  shows "filter (\<lambda>e. env_key e = env_key entry) (withEnvironment environment overrides) = [entry]
     \<and> filter (\<lambda>e. env_key e \<notin> set (map env_key overrides)) (withEnvironment environment overrides)
         = filter (\<lambda>e. env_key e \<notin> set (map env_key overrides)) environment"
proof -
  have once: "filter (\<lambda>e. env_key e = env_key entry) overrides = [entry]"
    using distinct_map_filter_single [OF assms] by simp
  have "env_key entry \<in> set (map env_key overrides)" using assms(2) by auto
  then have "filter (\<lambda>e. env_key e = env_key entry) (filter (\<lambda>e. env_key e \<notin> set (map env_key overrides)) environment) = []"
    by (auto simp: filter_empty_conv)
  moreover have "filter (\<lambda>e. env_key e \<notin> set (map env_key overrides)) overrides = []"
    by (auto simp: filter_empty_conv)
  ultimately show ?thesis using once by (simp add: withEnvironment_def)
qed

theorem with_environment_exact_witness:
  "filter (\<lambda>e. env_key e = ''A'') (withEnvironment [''A=1'', ''B=2'', ''A=3''] [''A=4'']) = [''A=4'']"
  using with_environment_exact [of "[''A=4'']" "''A=4''" "[''A=1'', ''B=2'', ''A=3'']"] by (simp add: env_key_def)

text \<open>
  The provider key never reaches the assembly or the evaluator. No entry of the environment the driver gives to
  \<open>runresult\<close> sets it, whatever the driver's own environment holds.
\<close>

theorem assembly_without_credentials:
  "list_all (\<lambda>entry. \<not> HasPrefix entry ''OPENROUTER_API_KEY='') (assembly_environment w opts resolved root instance)
   \<and> list_all (\<lambda>entry. \<not> HasPrefix entry ''OPENROUTER_API_KEY='') (driver_withoutProviderCredentials (environ w))"
  by (auto simp: assembly_environment_def withEnvironment_def driver_withoutProviderCredentials_def list_all_iff HasPrefix_def)

end
