(* ===== verification/Driver_Metadata.thy ===== *)
theory Driver_Metadata
  imports Driver_Props
begin

text \<open>
  The metadata document between the driver and the assembly: what \<open>rundriver\<close> writes is what \<open>runresult\<close> reads, up to the
  order of the entries of maps, and it is refused exactly when the run took more than 45 minutes.
\<close>

section \<open>Times\<close>

lemma get_fraction_digits:
  assumes "ds \<noteq> []" "list_all is_digit ds" "length ds \<le> 9" "dec_value 0 ds = Some n"
  shows "get_fraction (CHR ''.'' # ds @ CHR ''Z'' # s) = (n * 10 ^ (9 - length ds), CHR ''Z'' # s)"
proof -
  have "takeWhile is_digit (ds @ CHR ''Z'' # s) = ds"
    using assms(2) by (subst takeWhile_append2) (auto simp: list_all_iff is_digit_def)
  moreover have "is_digit ((ds @ CHR ''Z'' # s) ! 0)" using assms(1,2) by (cases ds) auto
  ultimately show ?thesis using assms by (cases ds) (simp_all add: get_fraction_def)
qed

lemma trailing_zeros:
  obtains ds k where "s = ds @ replicate k (CHR ''0'')" "rev (dropWhile (\<lambda>c. c = CHR ''0'') (rev s)) = ds"
proof -
  have "takeWhile (\<lambda>c. c = CHR ''0'') (rev s) = replicate (length (takeWhile (\<lambda>c. c = CHR ''0'') (rev s))) (CHR ''0'')"
    by (rule replicate_length_same [symmetric]) (auto dest: set_takeWhileD)
  then have "rev s = replicate (length (takeWhile (\<lambda>c. c = CHR ''0'') (rev s))) (CHR ''0'')
      @ dropWhile (\<lambda>c. c = CHR ''0'') (rev s)"
    by (metis takeWhile_dropWhile_id)
  then have "s = rev (dropWhile (\<lambda>c. c = CHR ''0'') (rev s)) @ replicate (length (takeWhile (\<lambda>c. c = CHR ''0'') (rev s))) (CHR ''0'')"
    by (metis rev_append rev_replicate rev_rev_ident)
  then show thesis using that by blast
qed

lemma get_fraction_text:
  assumes "ns < 1000000000"
  shows "get_fraction (fraction_text ns @ CHR ''Z'' # s) = (ns, CHR ''Z'' # s)"
proof -
  have len: "length (zero_pad 9 ns) = 9" using assms length_zero_pad [of ns 9] by simp
  obtain ds k where ds: "zero_pad 9 ns = ds @ replicate k (CHR ''0'')"
    "rev (dropWhile (\<lambda>c. c = CHR ''0'') (rev (zero_pad 9 ns))) = ds" by (rule trailing_zeros)
  have k: "k = 9 - length ds" "length ds \<le> 9" using len ds(1) by auto
  have digits: "list_all is_digit ds" using zero_pad_digits [of _ 9 ns] ds(1) by (auto simp: list_all_iff)
  have zeros: "dec_value m (replicate j (CHR ''0'')) = Some (m * 10 ^ j)" for m j
    by (induction j arbitrary: m) (simp_all add: digit_value_def)
  have whole: "dec_value 0 (ds @ replicate k (CHR ''0'')) = Some ns" using zero_pad_value [of 9 ns] ds(1) by simp
  obtain n where n: "dec_value 0 ds = Some n" "n * 10 ^ k = ns"
    using zeros whole by (auto simp: dec_value_append split: option.splits)
  show ?thesis
  proof (cases "ds = []")
    case True
    then show ?thesis using n ds(2) by (simp add: fraction_text_def get_fraction_def)
  next
    case False
    then show ?thesis using get_fraction_digits [OF False digits k(2) n(1)] n(2) k(1) ds(2)
      by (simp add: fraction_text_def)
  qed
qed

lemma Parse_Format_Nano:
  assumes "0 \<le> year_of (instant t)" "year_of (instant t) \<le> 9999" "offset t = 0"
  shows "Parse_RFC3339 (Format_RFC3339Nano t) = Some (instant t)" "strict_RFC3339 (Format_RFC3339Nano t)"
    "zone_offset (Format_RFC3339Nano t) = 0"
proof -
  obtain y month day h mi s ns where tf: "time_fields (instant t) = (y, month, day, h, mi, s, ns)"
    by (cases "time_fields (instant t)") auto
  note b = time_fields_bounds [OF tf]
  from assms tf have y: "0 \<le> y" "nat y < 10000" by (auto simp: year_of_def)
  have day: "day < 100" using days_in_le [OF b(1,2), of "is_leap y"] b(4) by linarith
  have shape: "Format_RFC3339Nano t = zero_pad 4 (nat y) @ CHR ''-'' # zero_pad 2 month @ CHR ''-'' # zero_pad 2 day
      @ CHR ''T'' # zero_pad 2 h @ CHR '':'' # zero_pad 2 mi @ CHR '':'' # zero_pad 2 s @ fraction_text ns @ CHR ''Z'' # []"
    using y assms(3) by (simp add: Format_RFC3339Nano_def tf year_text_def zone_text_def)
  then have "Parse_RFC3339 (Format_RFC3339Nano t) = Some (make_time (nat y) month day h mi s ns 0)"
    using b(1-8) y day by (simp add: Parse_RFC3339_def get_year_pad getnum_pad get_fraction_text)
  also have "make_time (nat y) month day h mi s ns 0 = instant t" using b(9) y by (simp add: make_time_def)
  finally show "Parse_RFC3339 (Format_RFC3339Nano t) = Some (instant t)" .
  have len: "length (zero_pad 4 (nat y)) = 4" "length (zero_pad 2 month) = 2" "length (zero_pad 2 day) = 2"
    "length (zero_pad 2 h) = 2" "length (zero_pad 2 mi) = 2" "length (zero_pad 2 s) = 2"
    using y b day by (simp_all add: length_zero_pad)
  have "Format_RFC3339Nano t ! 12 = zero_pad 2 h ! 1" unfolding shape using len by (simp add: nth_append nth_Cons')
  moreover have "is_digit (zero_pad 2 h ! 1)" using nth_mem [of 1 "zero_pad 2 h"] len(4) by (intro zero_pad_digits [of _ 2 h]) simp
  ultimately have colon: "Format_RFC3339Nano t ! 12 \<noteq> CHR '':''" by (auto simp: is_digit_def digit_value_def)
  have "Format_RFC3339Nano t ! 19 = (fraction_text ns @ CHR ''Z'' # []) ! 0"
    unfolding shape using len by (simp add: nth_append nth_Cons')
  then have comma: "Format_RFC3339Nano t ! 19 \<noteq> CHR '',''" by (auto simp: fraction_text_def Let_def)
  have last: "Format_RFC3339Nano t \<noteq> []" "last (Format_RFC3339Nano t) = CHR ''Z''" unfolding shape by simp_all
  show "strict_RFC3339 (Format_RFC3339Nano t)" using colon comma last by (simp add: strict_RFC3339_def)
  show "zone_offset (Format_RFC3339Nano t) = 0" using last by (simp add: zone_offset_def)
qed

lemma dec_time_Format:
  "0 \<le> year_of (instant t) \<Longrightarrow> year_of (instant t) \<le> 9999 \<Longrightarrow> offset t = 0 \<Longrightarrow>
     dec_time (JString (Format_RFC3339Nano t)) old = (t, True)"
  using Parse_Format_Nano [of t] by (simp add: dec_time_def)

section \<open>The document\<close>

lemma put_fresh: "k \<notin> fst ` set m \<Longrightarrow> put k x m = m @ [(k, x)]"
  by (induction m) (auto simp: put_def)

lemma dec_map_fresh:
  "distinct (map fst (old @ m)) \<Longrightarrow>
   fold (\<lambda>(k, v) (m, ok). let (y, good) = dec_string v '''' in (put k y m, ok \<and> good)) (map (\<lambda>(k, v). (k, JString v)) m) (old, True)
     = (old @ m, True)"
proof (induction m arbitrary: old)
  case (Cons e m)
  obtain k v where e: "e = (k, v)" by (cases e)
  have "put k v old = old @ [(k, v)]" using Cons.prems e by (intro put_fresh) auto
  then show ?case using Cons.IH [of "old @ [(k, v)]"] Cons.prems e by (simp add: dec_string_def)
qed simp

lemma dec_map_json:
  "distinct (map fst m) \<Longrightarrow> dec_map '''' dec_string (map_json m) [] = (sort_key fst m, True)"
  using dec_map_fresh [of "[]" "sort_key fst m"] by (simp add: dec_map_def map_json_def distinct_map)

text \<open>What the reader makes of the maps: their entries in the order of the keys.\<close>

definition sorted_maps :: "Orchestration \<Rightarrow> Orchestration" where
  "sorted_maps orch = orch\<lparr>ResolvedSources := sort_key fst (ResolvedSources orch), Images := sort_key fst (Images orch),
     ResourceLabels := sort_key fst (ResourceLabels orch)\<rparr>"

lemma dec_orchestration_json:
  assumes "distinct (map fst (ResolvedSources orch))" "distinct (map fst (Images orch))" "distinct (map fst (ResourceLabels orch))"
    "int64 (ScheduleOrdinal orch)" "int64 (TimeoutSeconds orch)" "int64 (CandidateExitCode orch)"
  shows "dec_orchestration (orchestration_json orch) no_orchestration = (sorted_maps orch, True)"
  by (cases "CandidateSignal orch = ''''")
    (simp_all add: dec_orchestration_def orchestration_json_def no_orchestration_def sorted_maps_def dec_strict_def select_known
      at_field_def dec_map_json assms dec_int_FormatInt)

lemma dec_note_json: "dec_note (note_json n) old = (n, True)"
  by (simp add: dec_note_def note_json_def dec_strict_def select_known at_field_def)

lemma dec_violation_json: "dec_violation (violation_json v) old = (v, True)"
  by (simp add: dec_violation_def violation_json_def dec_strict_def select_known at_field_def)

definition orchestration_ok :: "Orchestration \<Rightarrow> bool" where
  "orchestration_ok orch \<longleftrightarrow> distinct (map fst (ResolvedSources orch)) \<and> distinct (map fst (Images orch))
     \<and> distinct (map fst (ResourceLabels orch)) \<and> int64 (ScheduleOrdinal orch) \<and> int64 (TimeoutSeconds orch)
     \<and> int64 (CandidateExitCode orch)"

lemma dec_metadata_json:
  assumes "driver_metadata_json m = Some v" "offset (StartedAt m) = 0" "offset (FinishedAt m) = 0"
    "metadata_ReplacesRunID m = None" "int64 (metadata_RepeatIndex m)" "pred_option orchestration_ok (metadata_Orchestration m)"
  shows "dec_metadata v no_metadata = (m\<lparr>metadata_Orchestration := map_option sorted_maps (metadata_Orchestration m)\<rparr>, True)"
proof -
  have years: "0 \<le> year_of (instant (StartedAt m))" "year_of (instant (StartedAt m)) \<le> 9999"
    "0 \<le> year_of (instant (FinishedAt m))" "year_of (instant (FinishedAt m)) \<le> 9999"
    using assms(1-3) by (auto simp: driver_metadata_json_def json_time_def split: if_splits)
  have times: "dec_time (JString (Format_RFC3339Nano (StartedAt m))) old = (StartedAt m, True)"
    "dec_time (JString (Format_RFC3339Nano (FinishedAt m))) old = (FinishedAt m, True)" for old
    using years assms(2,3) by (simp_all add: dec_time_Format)
  have violations: "dec_slice z dec_violation (JArray (map violation_json vs)) old = (vs, True)" for z vs old
    unfolding dec_slice_def by (simp, rule dec_elements_map) (rule dec_violation_json)
  have noted: "dec_ptr z dec_note (note_json n) None = (Some n, True)" for z n
    using dec_note_json by (simp add: dec_ptr_def note_json_def)
  have orch: "dec_ptr no_orchestration dec_orchestration (orchestration_json orch) None = (Some (sorted_maps orch), True)"
    if "metadata_Orchestration m = Some orch" for orch
    using dec_orchestration_json [of orch] assms(6) that by (simp add: dec_ptr_def orchestration_ok_def orchestration_json_def)
  have "json_time (StartedAt m) = Some (Format_RFC3339Nano (StartedAt m))"
    "json_time (FinishedAt m) = Some (Format_RFC3339Nano (FinishedAt m))"
    using years assms(2,3) by (simp_all add: json_time_def)
  note v = assms(1) [unfolded driver_metadata_json_def this, simplified, symmetric]
  show ?thesis
    unfolding v
    by (cases "metadata_Infrastructure m"; cases "metadata_Orchestration m")
      (simp_all add: dec_metadata_def no_metadata_def dec_strict_def select_known at_field_def times violations noted orch
        dec_int_FormatInt [OF assms(5)] assms(4))
qed

lemma readMetadata_written:
  assumes "driver_metadata_json m = Some v" "printable 0 v" "ReadFile fs path = Some (MarshalIndent v @ [CHR 0x0A])"
    "offset (StartedAt m) = 0" "offset (FinishedAt m) = 0" "metadata_ReplacesRunID m = None"
    "pred_option orchestration_ok (metadata_Orchestration m)"
    "metadata_RunID m \<noteq> ''''" "metadata_CellID m \<noteq> ''''" "metadata_RepeatIndex m \<in> {1..5}"
    "metadata_Phase m \<in> {''pilot'', ''measured''}" "\<not> IsZero (StartedAt m)" "\<not> IsZero (FinishedAt m)"
    "instant (StartedAt m) \<le> instant (FinishedAt m)"
  shows "readMetadata fs path = (let wall = Milliseconds (Sub (FinishedAt m) (StartedAt m)) in
     if wall > maxWallClockMilliseconds then Inl (MetadataWallClock wall)
     else Inr (m\<lparr>metadata_Orchestration := map_option sorted_maps (metadata_Orchestration m)\<rparr>))"
proof -
  let ?data = "MarshalIndent v @ [CHR 0x0A]"
  have parsed: "parse_value (2 * length ?data + 1) 0 ?data = Some (v, [CHR 0x0A])"
    by (rule parse_value_printed [OF assms(2)]) (simp add: ends_value_def)
  have "int64 (metadata_RepeatIndex m)" using assms(10) by simp
  note decoded = dec_metadata_json [OF assms(1,4,5,6) this assms(7)]
  show ?thesis
    unfolding readMetadata_def assms(3) option.case parsed prod.case decoded
    using assms(8-14) by (auto simp: Let_def not_less IsZero_def)
qed

lemma resolve_entry_repeat: "resolved_RepeatIndex (resolve_entry config postgres entry c) = RepeatIndex entry"
  by (simp add: resolve_entry_def resolved_paths_keeps)

lemma resolve_documents_range:
  assumes "resolve_documents config runs postgres runID = Inr r"
  shows "resolved_RepeatIndex r \<in> {1..5}"
proof -
  obtain found where f: "find_entry runID runs None = Inr found"
    using assms by (auto simp: resolve_documents_def try_res_Inr_iff)
  then obtain entry where e: "found = Some entry"
    using assms by (cases found) (simp_all add: resolve_documents_def try_res_def)
  have range: "1 \<le> RepeatIndex entry" "RepeatIndex entry \<le> 5"
    using assms f e by (auto simp: resolve_documents_def try_res_def split: if_splits)
  obtain c where "r = resolve_entry config postgres entry c"
    using assms f e by (auto simp: resolve_documents_def try_res_def Let_def split: if_splits option.splits)
  then show ?thesis using range resolve_entry_repeat by simp
qed

lemma production_metadata_fields:
  assumes "m = production_metadata w opts resolved schedulePath instance exitCode candidateSignal unsafe"
  shows "metadata_RunID m = po_runID opts" "metadata_CellID m = ID (Cell resolved)"
    "metadata_RepeatIndex m = resolved_RepeatIndex resolved" "metadata_Phase m = po_phase opts"
    "metadata_ReplacesRunID m = None" "StartedAt m = \<lparr>instant = now_started w, offset = 0\<rparr>"
    "FinishedAt m = \<lparr>instant = if exitCode = 124 then now_started w + resolved_Timeout resolved * 1000000000 else now_finished w,
       offset = 0\<rparr>"
    "int64 (resolved_Ordinal resolved) \<Longrightarrow> int64 (resolved_Timeout resolved) \<Longrightarrow> int64 exitCode \<Longrightarrow>
       pred_option orchestration_ok (metadata_Orchestration m)"
  unfolding assms production_metadata_def
  by (cases unsafe; cases "classify_exit exitCode candidateSignal"; simp add: Let_def orchestration_ok_def)+


definition sample_world :: driver_world where
  "sample_world = \<lparr>environ = [], spawn = (\<lambda>args env dir fs. (NotStarted '''', fs)),
     candidate = (\<lambda>args env fs. (\<lparr>started_ok = False, ended = EndedError, ctx_done = False, deadline = False\<rparr>, fs)),
     sources_in_order = True, now_started = 1000000000, now_finished = 61000000000, random_bytes = None,
     os_error = (\<lambda>_. ''''), slot_free = (\<lambda>round k. True), slot_cancelled = (\<lambda>_. False)\<rparr>"

definition sample_production :: productionOptions where
  "sample_production = \<lparr>po_root = ''/'', po_phase = ''pilot'', po_schedule = ''/s'', po_runDir = ''/run'',
     po_runID = ''greenfield-codegen'', po_candidateRunner = '''', po_runresultBin = '''', po_evaluatorWrapper = ''''\<rparr>"

definition sample_driven :: cell where
  "sample_driven = \<lparr>ID = ''greenfield-codegen'', Stage = ''greenfield'', Task = ''baseline-service'', Mode = ''greenfield'',
     Treatment = ''codegen''\<rparr>"

definition sample_entry :: scheduleRun where
  "sample_entry = \<lparr>Ordinal = 2, RunID = ''greenfield-codegen'', CellID = ''greenfield-codegen'', RepeatIndex = 1\<rparr>"

definition sample_resolved :: resolvedRun where
  "sample_resolved = resolve_entry sample_driver_config (''postgres@'' @ sample_digest) sample_entry sample_driven"

lemma sample_resolves:
  "resolve_documents (sample_driver_config\<lparr>config_Cells := [sample_driven]\<rparr>) [sample_entry] (''postgres@'' @ sample_digest)
     ''greenfield-codegen'' = Inr sample_resolved"
proof -
  have "pinned_config (sample_driver_config\<lparr>config_Cells := [sample_driven]\<rparr>) (''postgres@'' @ sample_digest)"
    using sample_pinned by (simp add: pinned_config_def)
  from check_resolved_pinned [OF this, of sample_entry sample_driven] show ?thesis
    by (simp add: resolve_documents_def sample_entry_def sample_driven_def try_res_def Let_def sample_resolved_def)
      (simp add: resolve_entry_def)
qed

definition sample_metadata :: RunMetadata where
  "sample_metadata = production_metadata sample_world sample_production sample_resolved ''/s'' ''00'' 0 '''' None"

lemma sample_years: "0 \<le> year_of 1000000000 \<and> year_of 1000000000 \<le> 9999 \<and> 0 \<le> year_of 61000000000 \<and> year_of 61000000000 \<le> 9999"
  by code_simp

lemma sample_texts:
  "ascii (resolved_Model sample_resolved)" "ascii (resolved_AgentVersion sample_resolved)" "ascii (Fixture sample_resolved)"
  "ascii (resolved_Treatment sample_resolved)" "ascii (WorkspaceOverlay sample_resolved)" "ascii (ProblemDetails sample_resolved)"
  "ascii (resolved_Task sample_resolved)" "ascii (CoordinatorImage sample_resolved)" "ascii (ToolImage sample_resolved)"
  "ascii (CodegenImage sample_resolved)" "ascii (EvaluatorImage sample_resolved)" "ascii (PostgresImage sample_resolved)"
  "ascii (ID (Cell sample_resolved))"
  by (simp_all add: sample_resolved_def resolve_entry_def resolved_paths_def sample_driven_def sample_driver_config_def sample_digest_def
      list_all_iff)

lemma sample_document: "\<exists>v. driver_metadata_json sample_metadata = Some v \<and> printable 0 v"
  using sample_years sample_texts
  by (simp add: sample_metadata_def production_metadata_def classify_exit_def driver_metadata_json_def json_time_def sample_world_def
      sample_production_def orchestration_json_def map_json_def Let_def del: printable.simps(1))


end
