(* ===== verification/Eval_Suite.thy ===== *)
theory Eval_Suite
  imports Go_Decode Go_Time Go_Encoding
begin

text \<open>
  \<open>evaluator/internal/evaluator/evaluator.go\<close>: what a behaviour case of the hidden evaluator works with. The
  candidate service and its database are a world of type \<open>'w\<close>, reached only through the environment \<open>E\<close>: an
  HTTP exchange, an SQL statement without rows, an SQL query of one row. A case is a computation that fails with an error,
  yields a value, or never returns (\<^const>\<open>None\<close>); whatever it does, the world it leaves behind is the next case's.
\<close>

section \<open>Errors\<close>

text \<open>
  \<open>errors.New\<close> and \<open>fmt.Errorf\<close> with the format and its arguments, and the errors of libraries. \<open>Error\<close>, which
  renders one, is a parameter; a struct is given by the fields a reader of the message sees.
\<close>

datatype go_error = External string | Errorf string "format_argument list"
  and format_argument = Text string | Number int | Texts "string list" | Cause go_error | Struct "string list"

abbreviation New :: "string \<Rightarrow> go_error" where
  "New message \<equiv> Errorf message []"

section \<open>Computations\<close>

record http_request =
  Method :: string
  request_Path :: string
  request_Body :: string
  request_Header :: "(string \<times> string) list"

text \<open>
  A response carries its status, its \<open>Content-Type\<close> and what \<open>mime.ParseMediaType\<close> makes of it, its \<open>ETag\<close>,
  and the bytes of its body, behind which reading may break off.
\<close>

record http_response =
  StatusCode :: int
  ContentType :: string
  MediaType :: "string option"
  ETag :: string
  Body :: string
  BrokenOff :: "string option"

datatype column = TextColumn string | TimeColumn int | IntColumn int | NullColumn

record 'w environment =
  Do :: "http_request \<Rightarrow> 'w \<Rightarrow> (string + http_response) \<times> 'w"
  DoTogether :: "http_request list \<Rightarrow> 'w \<Rightarrow> (string + http_response) list \<times> 'w"
  Exec :: "string \<Rightarrow> column list \<Rightarrow> 'w \<Rightarrow> string option \<times> 'w"
  QueryRow :: "string \<Rightarrow> column list \<Rightarrow> 'w \<Rightarrow> (string + column list) \<times> 'w"
  decoding_error :: "string \<Rightarrow> string"
  url_error :: "string \<Rightarrow> string"
  map_order :: "(string \<times> string) list \<Rightarrow> (string \<times> string) list"

record 'w suite =
  world :: 'w
  suite_task :: string
  createdID :: string

type_synonym ('w, 'a) test = "'w suite \<Rightarrow> ((go_error + 'a) \<times> 'w suite) option"

definition test_return :: "'a \<Rightarrow> ('w, 'a) test" where
  "test_return x s = Some (Inr x, s)"

definition test_fail :: "go_error \<Rightarrow> ('w, 'a) test" where
  "test_fail e s = Some (Inl e, s)"

definition test_bind :: "('w, 'a) test \<Rightarrow> ('a \<Rightarrow> ('w, 'b) test) \<Rightarrow> ('w, 'b) test" where
  "test_bind act k s =
     (case act s of None \<Rightarrow> None | Some (Inl e, s') \<Rightarrow> Some (Inl e, s') | Some (Inr x, s') \<Rightarrow> k x s')"

definition test_lift :: "go_error + 'a \<Rightarrow> ('w, 'a) test" where
  "test_lift r = (case r of Inl e \<Rightarrow> test_fail e | Inr x \<Rightarrow> test_return x)"

definition test_require :: "bool \<Rightarrow> go_error \<Rightarrow> ('w, unit) test" where
  "test_require c e = (if c then test_return () else test_fail e)"

text \<open>\<open>if err := ...; err != nil { return fmt.Errorf("prefix: %w", err) }\<close>\<close>

definition test_wrap :: "(go_error \<Rightarrow> go_error) \<Rightarrow> ('w, 'a) test \<Rightarrow> ('w, 'a) test" where
  "test_wrap f act s = map_option (\<lambda>(r, s'). (map_sum f id r, s')) (act s)"

primrec test_each :: "('x \<Rightarrow> ('w, unit) test) \<Rightarrow> 'x list \<Rightarrow> ('w, unit) test" where
  "test_each f [] = test_return ()"
| "test_each f (x # xs) = test_bind (f x) (\<lambda>_. test_each f xs)"

definition test_get :: "('w suite \<Rightarrow> 'a) \<Rightarrow> ('w, 'a) test" where
  "test_get f s = Some (Inr (f s), s)"

definition set_createdID :: "string \<Rightarrow> ('w, unit) test" where
  "set_createdID i s = Some (Inr (), s\<lparr>createdID := i\<rparr>)"

lemma test_simps [simp]:
  "test_bind (test_return x) k = k x" "test_bind (test_fail e) k = test_fail e"
  "test_require True e = test_return ()" "test_require False e = test_fail e"
  "test_lift (Inr x) = test_return x" "test_lift (Inl e) = test_fail e"
  "test_wrap f (test_return x) = test_return x" "test_wrap f (test_fail e) = test_fail (f e)"
  by (auto simp: test_bind_def test_return_def test_fail_def test_require_def test_lift_def test_wrap_def)

lemma test_bind_success:
  "test_bind act k s = Some (Inr y, s'') \<longleftrightarrow> (\<exists>x s'. act s = Some (Inr x, s') \<and> k x s' = Some (Inr y, s''))"
  by (auto simp: test_bind_def split: option.splits sum.splits)

lemma test_bind_Some:
  "act s = Some (Inr x, s') \<Longrightarrow> test_bind act k s = k x s'"
  "act s = Some (Inl e, s') \<Longrightarrow> test_bind act k s = Some (Inl e, s')"
  by (simp_all add: test_bind_def)

lemma test_lift_success [simp]: "test_lift r s = Some (Inr x, s') \<longleftrightarrow> r = Inr x \<and> s' = s"
  by (auto simp: test_lift_def test_return_def test_fail_def split: sum.splits)

lemma test_require_success [simp]: "test_require c e s = Some (Inr u, s') \<longleftrightarrow> c \<and> s' = s"
  by (auto simp: test_require_def test_return_def test_fail_def)

lemma test_wrap_success [simp]: "test_wrap f act s = Some (Inr x, s') \<longleftrightarrow> act s = Some (Inr x, s')"
  by (cases "act s") (auto simp: test_wrap_def map_sum_def split: sum.splits)

section \<open>Requests\<close>

text \<open>
  \<open>http.NewRequestWithContext\<close> on the base URL followed by a path: \<open>url.Parse\<close> refuses ASCII control bytes and a percent
  sign that two hexadecimal digits do not follow, in the path or the fragment; a query is taken as it is.
\<close>

fun escapes_ok :: "string \<Rightarrow> bool" where
  "escapes_ok [] = True"
| "escapes_ok (c # s) =
     (if c = CHR ''%'' then 2 \<le> length s \<and> list_all (\<lambda>d. hex_value d \<noteq> None) (take 2 s) \<and> escapes_ok s else escapes_ok s)"

definition url_ok :: "string \<Rightarrow> bool" where
  "url_ok path \<longleftrightarrow>
     list_all (\<lambda>c. 32 \<le> (of_char c :: nat) \<and> (of_char c :: nat) \<noteq> 127) path
     \<and> escapes_ok (takeWhile (\<lambda>c. c \<noteq> CHR ''?'' \<and> c \<noteq> CHR ''#'') path)
     \<and> escapes_ok (dropWhile (\<lambda>c. c \<noteq> CHR ''#'') path)"

definition do_request :: "'w environment \<Rightarrow> http_request \<Rightarrow> ('w, http_response) test" where
  "do_request E r s =
     (case Do E r (world s) of
        (Inl e, w) \<Rightarrow> Some (Inl (External e), s\<lparr>world := w\<rparr>)
      | (Inr response, w) \<Rightarrow> Some (Inr response, s\<lparr>world := w\<rparr>))"

definition make_request :: "string \<Rightarrow> string \<Rightarrow> string \<Rightarrow> (string \<times> string) list \<Rightarrow> http_request" where
  "make_request verb path body header =
     \<lparr>Method = verb, request_Path = path, request_Body = body,
      request_Header = (if body \<noteq> '''' then [(''Content-Type'', ''application/json'')] else []) @ header\<rparr>"

definition jsonRequestWithHeaders ::
  "'w environment \<Rightarrow> string \<Rightarrow> string \<Rightarrow> string \<Rightarrow> (string \<times> string) list \<Rightarrow> ('w, http_response) test" where
  "jsonRequestWithHeaders E verb path body header =
     (if url_ok path then do_request E (make_request verb path body header)
      else test_fail (External (url_error E path)))"

definition jsonRequest :: "'w environment \<Rightarrow> string \<Rightarrow> string \<Rightarrow> string \<Rightarrow> ('w, http_response) test" where
  "jsonRequest E verb path body = jsonRequestWithHeaders E verb path body []"

definition exec_sql :: "'w environment \<Rightarrow> string \<Rightarrow> column list \<Rightarrow> ('w, unit) test" where
  "exec_sql E sql args s =
     (case Exec E sql args (world s) of
        (None, w) \<Rightarrow> Some (Inr (), s\<lparr>world := w\<rparr>)
      | (Some e, w) \<Rightarrow> Some (Inl (External e), s\<lparr>world := w\<rparr>))"

text \<open>\<open>QueryRow\<close> and \<open>Scan\<close>, which fails on a column of another type.\<close>

definition query_row :: "'w environment \<Rightarrow> string \<Rightarrow> column list \<Rightarrow> (column list \<Rightarrow> 'a option) \<Rightarrow> ('w, 'a) test" where
  "query_row E sql args scan s =
     (case QueryRow E sql args (world s) of
        (Inl e, w) \<Rightarrow> Some (Inl (External e), s\<lparr>world := w\<rparr>)
      | (Inr row, w) \<Rightarrow>
          (case scan row of
             None \<Rightarrow> Some (Inl (External ''can't scan into dest''), s\<lparr>world := w\<rparr>)
           | Some x \<Rightarrow> Some (Inr x, s\<lparr>world := w\<rparr>)))"

definition reset :: "'w environment \<Rightarrow> ('w, unit) test" where
  "reset E = exec_sql E ''TRUNCATE TABLE tasks'' []"

section \<open>Evidence\<close>

abbreviation evidenceLogLimit :: nat where "evidenceLogLimit \<equiv> 16 * 1024"
abbreviation responseBodyEvidenceLimit :: nat where "responseBodyEvidenceLimit \<equiv> 8 * 1024"
abbreviation responseBodyDecodeLimit :: nat where "responseBodyDecodeLimit \<equiv> 64 * 1024"

definition tailEvidence :: "string \<Rightarrow> nat \<Rightarrow> string" where
  "tailEvidence text limit =
     (let trimmed = TrimSpace text in
      if length trimmed > limit
      then ''(truncated to last '' @ FormatInt (int limit) @ '' bytes)'' @ [CHR 0x0A] @ drop (length trimmed - limit) trimmed
      else trimmed)"

definition readEvidence :: "string \<Rightarrow> nat \<Rightarrow> string" where
  "readEvidence body limit =
     (let data = take (limit + 1) body in
      if length data > limit then TrimSpace (take limit data) @ '' (truncated)'' else TrimSpace data)"

section \<open>Checks of responses\<close>

definition expectStatusAndType :: "http_response \<Rightarrow> int \<Rightarrow> string \<Rightarrow> go_error + unit" where
  "expectStatusAndType response code mediaType =
     (if StatusCode response \<noteq> code
      then Inl (Errorf ''status = %d, want %d; body=%s''
        [Number (StatusCode response), Number code, Text (readEvidence (Body response) responseBodyEvidenceLimit)])
      else if MediaType response \<noteq> Some mediaType
      then Inl (Errorf ''Content-Type = %q, want %s'' [Text (ContentType response), Text mediaType])
      else Inr ())"

text \<open>
  \<open>decodeExact\<close>: one value, decoded with \<open>DisallowUnknownFields\<close>, and then the end of the body. The second
  \<open>Decode\<close> is into an empty struct, so that only another \<open>{}\<close> or \<open>null\<close> is reported as a second value.
\<close>

definition decodeExact :: "'w environment \<Rightarrow> 'a decoder \<Rightarrow> 'a \<Rightarrow> http_response \<Rightarrow> go_error + 'a" where
  "decodeExact E d zero response =
     (let text = Body response; refused = Inl (External (decoding_error E text)) in
      case parse_value (2 * length text + 1) 0 text of
        None \<Rightarrow> refused
      | Some (v, rest) \<Rightarrow>
          (case d v zero of
             (x, False) \<Rightarrow> refused
           | (x, True) \<Rightarrow>
               if skip_ws rest = [] then (case BrokenOff response of None \<Rightarrow> Inr x | Some e \<Rightarrow> Inl (External e))
               else (case parse_value (2 * length rest + 1) 0 rest of
                       Some (v', _) \<Rightarrow> if snd (dec_strict [] v' ()) then Inl (New ''multiple JSON values'') else refused
                     | None \<Rightarrow> refused)))"

lemma decodeExact_Inr:
  "decodeExact E d zero response = Inr x \<longleftrightarrow>
     BrokenOff response = None \<and> (\<exists>v. parse_json (Body response) = Some v \<and> d v zero = (x, True))"
  by (auto simp: decodeExact_def parse_json_def Let_def bind_eq_Some_conv split: option.splits prod.splits bool.splits)

end
