(* ===== verification/Eval_Cases.thy ===== *)
theory Eval_Cases
  imports Eval_Suite
begin

text \<open>
  The tasks, lists and problem documents the evaluator decodes, the checks on them, and the baseline cases of
  \<open>evaluator.go\<close>.
\<close>

section \<open>Documents\<close>

text \<open>\<open>dueAt\<close> and \<open>nextCursor\<close> are raw: nil when absent, and \<open>null\<close> is a value like any other.\<close>

record wire_task =
  wire_ID :: string
  wire_Title :: string
  wire_CreatedAt :: string
  DueAt :: "json option"
  wire_Version :: "int option"

record taskList =
  list_Items :: "wire_task list option"
  NextCursor :: "json option"

record problem_body =
  body_Type :: string
  body_Title :: string
  body_Status :: int
  body_Detail :: string

definition no_wire_task :: wire_task where
  "no_wire_task = \<lparr>wire_ID = '''', wire_Title = '''', wire_CreatedAt = '''', DueAt = None, wire_Version = None\<rparr>"

definition dec_RawMessage :: "json option decoder" where
  "dec_RawMessage v old = (Some v, True)"

definition dec_wire_task :: "wire_task decoder" where
  "dec_wire_task = dec_strict
     [(''id'', at_field wire_ID wire_ID_update dec_string),
      (''title'', at_field wire_Title wire_Title_update dec_string),
      (''createdAt'', at_field wire_CreatedAt wire_CreatedAt_update dec_string),
      (''dueAt'', at_field DueAt DueAt_update dec_RawMessage),
      (''version'', at_field wire_Version wire_Version_update (dec_ptr 0 dec_int))]"

text \<open>A slice that may be nil: \<open>null\<close> makes it nil, an array does not.\<close>

definition dec_items :: "wire_task list option decoder" where
  "dec_items v old =
     (case v of
        JNull \<Rightarrow> (None, True)
      | JArray vs \<Rightarrow> (let (xs, ok) = dec_elements no_wire_task dec_wire_task vs (case old of None \<Rightarrow> [] | Some l \<Rightarrow> l) in (Some xs, ok))
      | _ \<Rightarrow> (old, False))"

definition dec_taskList :: "taskList decoder" where
  "dec_taskList = dec_strict
     [(''items'', at_field list_Items list_Items_update dec_items),
      (''nextCursor'', at_field NextCursor NextCursor_update dec_RawMessage)]"

definition dec_problem_body :: "problem_body decoder" where
  "dec_problem_body = dec_strict
     [(''type'', at_field body_Type body_Type_update dec_string),
      (''title'', at_field body_Title body_Title_update dec_string),
      (''status'', at_field body_Status body_Status_update dec_int),
      (''detail'', at_field body_Detail body_Detail_update dec_string)]"

definition no_problem_body :: problem_body where
  "no_problem_body = \<lparr>body_Type = '''', body_Title = '''', body_Status = 0, body_Detail = ''''\<rparr>"

definition wanted_validation :: problem_body where
  "wanted_validation = \<lparr>body_Type = ''urn:problem:validation'', body_Title = ''Validation failed'', body_Status = 400,
     body_Detail = ''The request is invalid.''\<rparr>"

definition wanted_notFound :: problem_body where
  "wanted_notFound = \<lparr>body_Type = ''urn:problem:not-found'', body_Title = ''Task not found'', body_Status = 404,
     body_Detail = ''The requested task does not exist.''\<rparr>"

definition wanted_preconditionRequired :: problem_body where
  "wanted_preconditionRequired = \<lparr>body_Type = ''urn:problem:precondition-required'', body_Title = ''Precondition required'',
     body_Status = 428, body_Detail = ''A valid If-Match header is required.''\<rparr>"

definition wanted_preconditionFailed :: problem_body where
  "wanted_preconditionFailed = \<lparr>body_Type = ''urn:problem:precondition-failed'', body_Title = ''Precondition failed'',
     body_Status = 412, body_Detail = ''The supplied task version is stale.''\<rparr>"

definition task_fields :: "wire_task \<Rightarrow> format_argument" where
  "task_fields t = Struct [wire_ID t, wire_Title t, wire_CreatedAt t]"

definition problem_fields :: "problem_body \<Rightarrow> format_argument" where
  "problem_fields p = Struct [body_Type p, body_Title p, FormatInt (body_Status p), body_Detail p]"

section \<open>Shapes\<close>

definition TaskBaseline :: string where "TaskBaseline = ''baseline-service''"
definition TaskNullable :: string where "TaskNullable = ''nullable-patch''"
definition TaskLocking :: string where "TaskLocking = ''optimistic-locking''"
definition TaskPagination :: string where "TaskPagination = ''cursor-pagination''"
definition taskAll :: string where "taskAll = ''all''"

lemmas task_names = TaskBaseline_def TaskNullable_def TaskLocking_def TaskPagination_def taskAll_def

definition ValidTask :: "string \<Rightarrow> bool" where
  "ValidTask t \<longleftrightarrow> t \<in> {TaskBaseline, TaskNullable, TaskLocking, TaskPagination}"

text \<open>The two patterns, a class for every byte.\<close>

definition hex_class :: "char \<Rightarrow> bool" where
  "hex_class c \<longleftrightarrow> is_digit c \<or> CHR ''a'' \<le> c \<and> c \<le> CHR ''f''"

abbreviation literal :: "char \<Rightarrow> char \<Rightarrow> bool" where
  "literal c \<equiv> (\<lambda>d. d = c)"

definition uuidV4Pattern :: "(char \<Rightarrow> bool) list" where
  "uuidV4Pattern = replicate 8 hex_class @ [literal CHR ''-''] @ replicate 4 hex_class @ [literal CHR ''-'']
     @ [literal CHR ''4''] @ replicate 3 hex_class @ [literal CHR ''-''] @ [\<lambda>c. c \<in> set ''89ab''] @ replicate 3 hex_class
     @ [literal CHR ''-''] @ replicate 12 hex_class"

definition timestampPattern :: "(char \<Rightarrow> bool) list" where
  "timestampPattern = replicate 4 is_digit @ [literal CHR ''-''] @ replicate 2 is_digit @ [literal CHR ''-'']
     @ replicate 2 is_digit @ [literal CHR ''T''] @ replicate 2 is_digit @ [literal CHR '':''] @ replicate 2 is_digit
     @ [literal CHR '':''] @ replicate 2 is_digit @ [literal CHR ''.''] @ replicate 6 is_digit @ [literal CHR ''Z'']"

definition MatchString :: "(char \<Rightarrow> bool) list \<Rightarrow> string \<Rightarrow> bool" where
  "MatchString pattern text = list_all2 (\<lambda>p c. p c) pattern text"

definition isUUIDv4 :: "string \<Rightarrow> bool" where
  "isUUIDv4 text = MatchString uuidV4Pattern text"

definition isCanonicalTimestamp :: "string \<Rightarrow> bool" where
  "isCanonicalTimestamp text \<longleftrightarrow> MatchString timestampPattern text \<and> Parse_RFC3339 text \<noteq> None"

definition validateTaskValue :: "wire_task \<Rightarrow> string \<Rightarrow> go_error + unit" where
  "validateTaskValue t selectedTask =
     (if wire_ID t = '''' \<or> wire_Title t = '''' \<or> wire_CreatedAt t = '''' then Inl (New ''task response has an empty required field'')
      else if selectedTask = TaskNullable then
        (if DueAt t = None then Inl (New ''task response is missing dueAt'')
         else if wire_Version t \<noteq> None then Inl (New ''task response unexpectedly contains version'')
         else Inr ())
      else if selectedTask = TaskLocking then
        (if (case wire_Version t of None \<Rightarrow> True | Some n \<Rightarrow> n < 1)
         then Inl (New ''task response has invalid or missing version'')
         else if DueAt t \<noteq> None then Inl (New ''task response unexpectedly contains dueAt'')
         else Inr ())
      else if DueAt t \<noteq> None \<or> wire_Version t \<noteq> None then Inl (New ''baseline task response contains feature fields'')
      else Inr ())"

definition decodeTaskFor :: "'w environment \<Rightarrow> http_response \<Rightarrow> string \<Rightarrow> go_error + wire_task" where
  "decodeTaskFor E response selectedTask =
     (case decodeExact E dec_wire_task no_wire_task response of
        Inl err \<Rightarrow> Inl (Errorf ''task response shape: %w'' [Cause err])
      | Inr t \<Rightarrow> (case validateTaskValue t selectedTask of Inl err \<Rightarrow> Inl err | Inr _ \<Rightarrow> Inr t))"

definition decodeTask :: "'w environment \<Rightarrow> http_response \<Rightarrow> ('w, wire_task) test" where
  "decodeTask E response = test_bind (test_get suite_task) (\<lambda>t. test_lift (decodeTaskFor E response t))"

fun check_items :: "wire_task list \<Rightarrow> string \<Rightarrow> go_error + unit" where
  "check_items [] selectedTask = Inr ()"
| "check_items (item # items) selectedTask =
     (case validateTaskValue item selectedTask of
        Inl err \<Rightarrow> Inl (Errorf ''invalid list item: %w'' [Cause err])
      | Inr _ \<Rightarrow> check_items items selectedTask)"

definition decodeTaskListFor :: "'w environment \<Rightarrow> http_response \<Rightarrow> string \<Rightarrow> go_error + taskList" where
  "decodeTaskListFor E response selectedTask =
     (case decodeExact E dec_taskList \<lparr>list_Items = None, NextCursor = None\<rparr> response of
        Inl err \<Rightarrow> Inl err
      | Inr l \<Rightarrow>
          (case list_Items l of
             None \<Rightarrow> Inl (New ''items is missing or null'')
           | Some items \<Rightarrow>
               (case check_items items selectedTask of
                  Inl err \<Rightarrow> Inl err
                | Inr _ \<Rightarrow>
                    if selectedTask \<noteq> TaskPagination \<and> NextCursor l \<noteq> None
                    then Inl (New ''list response unexpectedly contains nextCursor'') else Inr l)))"

definition decodeTaskList :: "'w environment \<Rightarrow> http_response \<Rightarrow> ('w, taskList) test" where
  "decodeTaskList E response = test_bind (test_get suite_task) (\<lambda>t. test_lift (decodeTaskListFor E response t))"

text \<open>The items of a list that \<open>decodeTaskListFor\<close> returns; elsewhere a nil slice is empty.\<close>

definition items :: "taskList \<Rightarrow> wire_task list" where
  "items l = (case list_Items l of None \<Rightarrow> [] | Some ts \<Rightarrow> ts)"

definition expectProblemResponse :: "'w environment \<Rightarrow> http_response \<Rightarrow> problem_body \<Rightarrow> go_error + unit" where
  "expectProblemResponse E response want =
     (case expectStatusAndType response (body_Status want) ''application/problem+json'' of
        Inl err \<Rightarrow> Inl err
      | Inr _ \<Rightarrow>
          (case decodeExact E dec_problem_body no_problem_body response of
             Inl err \<Rightarrow> Inl (Errorf ''Problem Details shape: %w'' [Cause err])
           | Inr got \<Rightarrow>
               if got \<noteq> want
               then Inl (Errorf ''Problem Details = %+v, want %+v'' [problem_fields got, problem_fields want])
               else Inr ()))"

text \<open>\<open>return expectProblemResponse(response, want)\<close> at the end of a case.\<close>

definition expect_problem :: "'w environment \<Rightarrow> problem_body \<Rightarrow> http_response \<Rightarrow> ('w, unit) test" where
  "expect_problem E want response = test_lift (expectProblemResponse E response want)"

definition taskIDs :: "wire_task list \<Rightarrow> string list" where
  "taskIDs tasks = map wire_ID tasks"

definition checkTaskIDs :: "wire_task list \<Rightarrow> string list \<Rightarrow> go_error + unit" where
  "checkTaskIDs tasks expectedIDs =
     (if length tasks \<noteq> length expectedIDs
      then Inl (Errorf ''got %d items, want %d'' [Number (int (length tasks)), Number (int (length expectedIDs))])
      else if list_ex (\<lambda>index. wire_ID (tasks ! index) \<noteq> expectedIDs ! index) [0..<length expectedIDs]
      then Inl (Errorf ''ids = %v, want %v'' [Texts (taskIDs tasks), Texts expectedIDs])
      else Inr ())"

section \<open>The baseline cases\<close>

text \<open>The title of the first case, and the 201 characters of a title that is too long, in UTF-8.\<close>

definition unicode_title :: string where
  "unicode_title = map char_of [0xD0, 0x9F, 0xD1, 0x80, 0xD0, 0xB8, 0xD0, 0xB2, 0xD0, 0xB5, 0xD1, 0x82 :: nat] @ '' task''"

definition long_title :: string where
  "long_title = concat (replicate 201 (map char_of [0xE7, 0x95, 0x8C :: nat]))"

definition escaped :: "char \<Rightarrow> string" where
  "escaped c = [CHR 0x5C, c]"

definition blank_body :: string where
  "blank_body = ''{\"title\":\" '' @ escaped (CHR ''t'') @ escaped (CHR ''n'') @ '' \"}''"

definition long_body :: string where
  "long_body = ''{\"title\":\"'' @ long_title @ ''\"}''"

definition missing_id :: string where
  "missing_id = ''ffffffff-ffff-4fff-8fff-ffffffffffff''"

definition created_required :: "('w, string) test" where
  "created_required = test_bind (test_get createdID) (\<lambda>i.
     test_bind (test_require (i \<noteq> '''') (New ''valid create did not produce an id'')) (\<lambda>_. test_return i))"

definition createValid :: "'w environment \<Rightarrow> ('w, unit) test" where
  "createValid E =
     test_bind (jsonRequest E ''POST'' ''/tasks'' (''{\"title\":\"  '' @ unicode_title @ ''  \"}'')) (\<lambda>response.
     test_bind (test_lift (expectStatusAndType response 201 ''application/json'')) (\<lambda>_.
     test_bind (decodeTask E response) (\<lambda>created.
     test_bind (test_require (wire_Title created = unicode_title)
       (Errorf ''title = %q, want trimmed Unicode title'' [Text (wire_Title created)])) (\<lambda>_.
     test_bind (test_require (isUUIDv4 (wire_ID created)) (Errorf ''id %q is not UUIDv4'' [Text (wire_ID created)])) (\<lambda>_.
     test_bind (test_require (isCanonicalTimestamp (wire_CreatedAt created))
       (Errorf ''createdAt %q is not UTC with six fractional digits'' [Text (wire_CreatedAt created)])) (\<lambda>_.
     set_createdID (wire_ID created)))))))"

definition createInvalidTitle :: "'w environment \<Rightarrow> ('w, unit) test" where
  "createInvalidTitle E =
     test_each (\<lambda>(name, body).
       test_wrap (\<lambda>err. Errorf ''%s: %w'' [Text name, Cause err])
         (test_bind (jsonRequest E ''POST'' ''/tasks'' body) (expect_problem E wanted_validation)))
       (map_order E [(''blank'', blank_body), (''too-long'', long_body)])"

definition getExisting :: "'w environment \<Rightarrow> ('w, unit) test" where
  "getExisting E =
     test_bind created_required (\<lambda>i.
     test_bind (jsonRequest E ''GET'' (''/tasks/'' @ i) '''') (\<lambda>response.
     test_bind (test_lift (expectStatusAndType response 200 ''application/json'')) (\<lambda>_.
     test_bind (decodeTask E response) (\<lambda>got.
     test_require (wire_ID got = i \<and> wire_Title got = unicode_title) (Errorf ''unexpected task: %+v'' [task_fields got])))))"

definition getNotFound :: "'w environment \<Rightarrow> ('w, unit) test" where
  "getNotFound E =
     test_bind (jsonRequest E ''GET'' (''/tasks/'' @ missing_id) '''') (expect_problem E wanted_notFound)"

definition tie_two :: string where "tie_two = ''00000000-0000-4000-8000-000000000002''"
definition tie_one :: string where "tie_one = ''00000000-0000-4000-8000-000000000001''"

definition insert_row :: string where
  "insert_row = ''INSERT INTO tasks (id, title, created_at) VALUES ($1, $2, $3)''"

definition listOrdered :: "'w environment \<Rightarrow> ('w, unit) test" where
  "listOrdered E =
     test_bind (test_each (\<lambda>(i, title).
       test_wrap (\<lambda>err. Errorf ''seed ordered list: %w'' [Cause err])
         (exec_sql E insert_row [TextColumn i, TextColumn title, TextColumn ''2000-01-01T00:00:00.000000Z'']))
       [(tie_two, ''tie two''), (tie_one, ''tie one'')]) (\<lambda>_.
     test_bind (jsonRequest E ''GET'' ''/tasks'' '''') (\<lambda>response.
     test_bind (test_lift (expectStatusAndType response 200 ''application/json'')) (\<lambda>_.
     test_bind (decodeTaskList E response) (\<lambda>list.
     test_bind (test_require (length (items list) = 3)
       (Errorf ''list has %d items, want 3'' [Number (int (length (items list)))])) (\<lambda>_.
     test_bind (test_get createdID) (\<lambda>created.
     test_wrap (\<lambda>err. Errorf ''ids are not ordered by (createdAt, id): %w'' [Cause err])
       (test_lift (checkTaskIDs (items list) [tie_one, tie_two, created]))))))))"

definition deleteExisting :: "'w environment \<Rightarrow> ('w, unit) test" where
  "deleteExisting E =
     test_bind created_required (\<lambda>i.
     test_bind (jsonRequest E ''DELETE'' (''/tasks/'' @ i) '''') (\<lambda>response.
     test_bind (test_require (StatusCode response = 204)
       (Errorf ''status = %d, want 204'' [Number (StatusCode response)])) (\<lambda>_.
     case (BrokenOff response, take 2 (Body response)) of
       (Some e, [c]) \<Rightarrow> test_fail (External e)
     | (Some e, []) \<Rightarrow> test_fail (External e)
     | (_, body) \<Rightarrow> test_require (body = '''')
         (Errorf ''204 response has a non-empty body: %s'' [Text (readEvidence body responseBodyEvidenceLimit)]))))"

definition deleteAgainNotFound :: "'w environment \<Rightarrow> ('w, unit) test" where
  "deleteAgainNotFound E =
     test_bind created_required (\<lambda>i.
     test_bind (jsonRequest E ''DELETE'' (''/tasks/'' @ i) '''') (expect_problem E wanted_notFound))"

definition openapiConformance :: "'w environment \<Rightarrow> ('w, unit) test" where
  "openapiConformance E =
     test_bind (jsonRequest E ''GET'' ''/tasks'' '''') (\<lambda>response.
     test_bind (test_lift (expectStatusAndType response 200 ''application/json'')) (\<lambda>_.
     test_bind (test_wrap (\<lambda>err. Errorf ''list response shape: %w'' [Cause err]) (decodeTaskList E response)) (\<lambda>_.
     test_bind (jsonRequest E ''POST'' ''/tasks'' ''{\"title\":\"ok\",\"extra\":true}'')
       (expect_problem E wanted_validation))))"

definition problemDetails :: "'w environment \<Rightarrow> ('w, unit) test" where
  "problemDetails E =
     test_each (\<lambda>(path, want). test_bind (jsonRequest E ''GET'' path '''') (expect_problem E want))
       [(''/tasks/not-a-uuid'', wanted_validation), (''/tasks/'' @ missing_id, wanted_notFound)]"

definition scan_title_time :: "column list \<Rightarrow> (string \<times> int) option" where
  "scan_title_time row = (case row of [TextColumn title, TimeColumn t] \<Rightarrow> Some (title, t) | _ \<Rightarrow> None)"

definition scan_count :: "column list \<Rightarrow> int option" where
  "scan_count row = (case row of [IntColumn n] \<Rightarrow> Some n | _ \<Rightarrow> None)"

definition databaseConsistency :: "'w environment \<Rightarrow> ('w, unit) test" where
  "databaseConsistency E =
     test_bind (jsonRequest E ''POST'' ''/tasks'' ''{\"title\":\"  persisted  \"}'') (\<lambda>response.
     test_bind (test_lift (expectStatusAndType response 201 ''application/json'')) (\<lambda>_.
     test_bind (decodeTask E response) (\<lambda>created.
     test_bind (test_wrap (\<lambda>err. Errorf ''query created row: %w'' [Cause err])
       (query_row E ''SELECT title, created_at FROM tasks WHERE id = $1'' [TextColumn (wire_ID created)] scan_title_time)) (\<lambda>(title, createdAt).
     test_bind (test_require (title = wire_Title created \<and> Format_micro createdAt = wire_CreatedAt created)
       (Errorf ''database row does not match response: title=%q createdAt=%s'' [Text title, Text (Format_micro createdAt)])) (\<lambda>_.
     test_bind (jsonRequest E ''DELETE'' (''/tasks/'' @ wire_ID created) '''') (\<lambda>deleteResponse.
     test_bind (test_require (StatusCode deleteResponse = 204)
       (Errorf ''delete status = %d, want 204'' [Number (StatusCode deleteResponse)])) (\<lambda>_.
     test_bind (query_row E ''SELECT count(*) FROM tasks WHERE id = $1'' [TextColumn (wire_ID created)] scan_count) (\<lambda>count.
     test_require (count = 0) (New ''deleted task remains in database'')))))))))"

end
