(* ===== verification/Eval_Nullable.thy ===== *)
theory Eval_Nullable
  imports Eval_Cases Go_Marshal
begin

text \<open>\<open>evaluator/internal/evaluator/nullable.go\<close>: the cases of the task that adds the nullable field \<open>dueAt\<close>.\<close>

definition nullableSetInput :: string where
  "nullableSetInput = ''2030-01-02T03:04:05.123456+02:30''"

definition nullableSetUTC :: string where
  "nullableSetUTC = ''2030-01-02T00:34:05.123456Z''"

text \<open>The body that \<open>json.Marshal\<close> makes of a map with the one key \<open>title\<close>.\<close>

definition title_json :: "string \<Rightarrow> string" where
  "title_json title = ''{\"title\":'' @ json_quote title @ ''}''"

definition due_body :: string where
  "due_body = ''{\"dueAt\":\"'' @ nullableSetInput @ ''\"}''"

text \<open>The request, the status and the media type of a reply that must be a task.\<close>

definition task_reply :: "'w environment \<Rightarrow> int \<Rightarrow> http_response \<Rightarrow> ('w, wire_task) test" where
  "task_reply E code response =
     test_bind (test_lift (expectStatusAndType response code ''application/json'')) (\<lambda>_. decodeTask E response)"

definition createNullable :: "'w environment \<Rightarrow> string \<Rightarrow> ('w, wire_task) test" where
  "createNullable E title = test_bind (jsonRequest E ''POST'' ''/tasks'' (title_json title)) (task_reply E 201)"

definition patchNullable :: "'w environment \<Rightarrow> string \<Rightarrow> string \<Rightarrow> ('w, wire_task) test" where
  "patchNullable E i body = test_bind (jsonRequest E ''PATCH'' (''/tasks/'' @ i) body) (task_reply E 200)"

text \<open>The message of \<open>UnmarshalTypeError\<close> for a string.\<close>

definition not_a_string :: "json \<Rightarrow> go_error" where
  "not_a_string v = External (''json: cannot unmarshal ''
     @ (case v of JNumber _ \<Rightarrow> ''number'' | JBool _ \<Rightarrow> ''bool'' | JArray _ \<Rightarrow> ''array'' | _ \<Rightarrow> ''object'')
     @ '' into Go value of type string'')"

definition dueAtValue :: "wire_task \<Rightarrow> go_error + string option" where
  "dueAtValue t =
     (case DueAt t of
        None \<Rightarrow> Inl (New ''dueAt is missing'')
      | Some JNull \<Rightarrow> Inr None
      | Some v \<Rightarrow>
          (case dec_string v '''' of
             (_, False) \<Rightarrow> Inl (Errorf ''dueAt is not a string or null: %w'' [Cause (not_a_string v)])
           | (timestamp, True) \<Rightarrow>
               if \<not> isCanonicalTimestamp timestamp
               then Inl (Errorf ''dueAt %q is not UTC with six fractional digits'' [Text timestamp])
               else Inr (Some timestamp)))"

definition scan_due :: "column list \<Rightarrow> int option option" where
  "scan_due row = (case row of [NullColumn] \<Rightarrow> Some None | [TimeColumn t] \<Rightarrow> Some (Some t) | _ \<Rightarrow> None)"

definition select_due :: string where
  "select_due = ''SELECT due_at FROM tasks WHERE id = $1''"

definition due_text :: "string option \<Rightarrow> format_argument" where
  "due_text d = (case d of None \<Rightarrow> Text ''<nil>'' | Some t \<Rightarrow> Text t)"

definition nullableInitialNull :: "'w environment \<Rightarrow> ('w, unit) test" where
  "nullableInitialNull E =
     test_bind (createNullable E ''new task'') (\<lambda>created.
     test_bind (test_lift (dueAtValue created)) (\<lambda>dueAt.
     test_bind (test_require (dueAt = None) (Errorf ''new task dueAt = %v, want null'' [due_text dueAt])) (\<lambda>_.
     test_bind (query_row E select_due [TextColumn (wire_ID created)] scan_due) (\<lambda>stored.
     test_bind (test_require (stored = None)
       (Errorf ''new task database due_at = %s, want null'' [Text (Format_micro (the stored))])) (\<lambda>_.
     test_bind (test_wrap (\<lambda>err. Errorf ''seed existing row: %w'' [Cause err])
       (exec_sql E ''INSERT INTO tasks (id, title) VALUES ($1, $2)'' [TextColumn tie_one, TextColumn ''existing''])) (\<lambda>_.
     test_bind (jsonRequest E ''GET'' (''/tasks/'' @ tie_one) '''') (\<lambda>response.
     test_bind (task_reply E 200 response) (\<lambda>existing.
     test_bind (test_lift (dueAtValue existing)) (\<lambda>dueAt.
     test_require (dueAt = None) (Errorf ''existing task dueAt = %v, want null'' [due_text dueAt]))))))))))"

definition expectRowCount :: "'w environment \<Rightarrow> int \<Rightarrow> ('w, unit) test" where
  "expectRowCount E want =
     test_bind (query_row E ''SELECT count(*) FROM tasks'' [] scan_count) (\<lambda>count.
     test_require (count = want) (Errorf ''database row count = %d, want %d'' [Number count, Number want]))"

definition nullablePostRejectsDueAt :: "'w environment \<Rightarrow> ('w, unit) test" where
  "nullablePostRejectsDueAt E =
     test_bind (test_each (\<lambda>body. test_bind (jsonRequest E ''POST'' ''/tasks'' body) (expect_problem E wanted_validation))
       [''{\"title\":\"task\",\"dueAt\":null}'', ''{\"title\":\"task\",\"dueAt\":\"2030-01-01T00:00:00Z\"}'']) (\<lambda>_.
     expectRowCount E 0)"

definition compareNullableState :: "wire_task \<Rightarrow> wire_task \<Rightarrow> string \<Rightarrow> string \<Rightarrow> go_error + unit" where
  "compareNullableState before after title dueAt =
     (if wire_ID after \<noteq> wire_ID before \<or> wire_CreatedAt after \<noteq> wire_CreatedAt before \<or> wire_Title after \<noteq> title
      then Inl (Errorf ''unexpected task state after PATCH: %+v'' [task_fields after])
      else case dueAtValue after of
        Inl err \<Rightarrow> Inl err
      | Inr actual \<Rightarrow>
          if actual \<noteq> Some dueAt then Inl (Errorf ''dueAt = %v, want %s'' [due_text actual, Text dueAt]) else Inr ())"

definition expectNullableStored :: "'w environment \<Rightarrow> wire_task \<Rightarrow> string \<Rightarrow> string \<Rightarrow> ('w, unit) test" where
  "expectNullableStored E t title dueAt =
     test_bind (test_lift (dueAtValue t)) (\<lambda>actual.
     test_bind (test_require (wire_Title t = title \<and> actual = Some dueAt)
       (Errorf ''response state = title %q dueAt %v, want %q %s'' [Text (wire_Title t), due_text actual, Text title, Text dueAt])) (\<lambda>_.
     test_bind (query_row E ''SELECT title, due_at FROM tasks WHERE id = $1'' [TextColumn (wire_ID t)] scan_title_time)
       (\<lambda>(storedTitle, storedDueAt).
     test_require (storedTitle = title \<and> Format_micro storedDueAt = dueAt)
       (Errorf ''database state = title %q dueAt %s, want %q %s''
          [Text storedTitle, Text (Format_micro storedDueAt), Text title, Text dueAt]))))"

definition world_title :: string where
  "world_title = map char_of [0xE4, 0xB8, 0x96, 0xE7, 0x95, 0x8C :: nat] @ '' title''"

definition world_body :: string where
  "world_body = ''{\"title\":\"  '' @ world_title @ ''  \"}''"

definition nullableOmittedPreserves :: "'w environment \<Rightarrow> ('w, unit) test" where
  "nullableOmittedPreserves E =
     test_bind (createNullable E ''original'') (\<lambda>created.
     test_bind (patchNullable E (wire_ID created) due_body) (\<lambda>set.
     test_bind (patchNullable E (wire_ID created) ''{\"title\":\"changed\"}'') (\<lambda>updated.
     test_lift (compareNullableState set updated ''changed'' nullableSetUTC))))"

definition nullableNullClears :: "'w environment \<Rightarrow> ('w, unit) test" where
  "nullableNullClears E =
     test_bind (createNullable E ''original'') (\<lambda>created.
     test_bind (patchNullable E (wire_ID created) due_body) (\<lambda>_.
     test_bind (patchNullable E (wire_ID created) ''{\"dueAt\":null}'') (\<lambda>cleared.
     test_bind (test_lift (dueAtValue cleared)) (\<lambda>dueAt.
     test_bind (test_require (dueAt = None) (Errorf ''cleared dueAt = %v, want null'' [due_text dueAt])) (\<lambda>_.
     test_bind (test_require (wire_Title cleared = wire_Title created \<and> wire_ID cleared = wire_ID created
         \<and> wire_CreatedAt cleared = wire_CreatedAt created)
       (New ''clearing dueAt changed immutable fields or title'')) (\<lambda>_.
     test_bind (query_row E select_due [TextColumn (wire_ID created)] scan_due) (\<lambda>stored.
     test_require (stored = None) (New ''cleared dueAt remains non-null in database''))))))))"

definition nullableValueSets :: "'w environment \<Rightarrow> ('w, unit) test" where
  "nullableValueSets E =
     test_bind (createNullable E ''original'') (\<lambda>created.
     test_bind (patchNullable E (wire_ID created) due_body) (\<lambda>updated.
     expectNullableStored E updated ''original'' nullableSetUTC))"

definition nullableTitleOnly :: "'w environment \<Rightarrow> ('w, unit) test" where
  "nullableTitleOnly E =
     test_bind (createNullable E ''original'') (\<lambda>created.
     test_bind (patchNullable E (wire_ID created) due_body) (\<lambda>set.
     test_bind (patchNullable E (wire_ID created) world_body) (\<lambda>updated.
     test_bind (test_lift (compareNullableState set updated world_title nullableSetUTC)) (\<lambda>_.
     expectNullableStored E updated world_title nullableSetUTC))))"

definition nullableBothFields :: "'w environment \<Rightarrow> ('w, unit) test" where
  "nullableBothFields E =
     test_bind (createNullable E ''original'') (\<lambda>created.
     test_bind (patchNullable E (wire_ID created)
       (''{\"title\":\"  changed  \",\"dueAt\":\"'' @ nullableSetInput @ ''\"}'')) (\<lambda>updated.
     test_bind (test_require (wire_ID updated = wire_ID created \<and> wire_CreatedAt updated = wire_CreatedAt created)
       (New ''combined PATCH changed immutable fields'')) (\<lambda>_.
     expectNullableStored E updated ''changed'' nullableSetUTC)))"

definition nullableRejectedWithoutMutation :: "'w environment \<Rightarrow> string \<Rightarrow> ('w, unit) test" where
  "nullableRejectedWithoutMutation E body =
     test_bind (createNullable E ''original'') (\<lambda>created.
     test_bind (patchNullable E (wire_ID created) due_body) (\<lambda>before.
     test_bind (jsonRequest E ''PATCH'' (''/tasks/'' @ wire_ID created) body) (\<lambda>response.
     test_bind (expect_problem E wanted_validation response) (\<lambda>_.
     test_bind (jsonRequest E ''GET'' (''/tasks/'' @ wire_ID created) '''') (\<lambda>getResponse.
     test_bind (task_reply E 200 getResponse) (\<lambda>after.
     test_lift (compareNullableState before after ''original'' nullableSetUTC)))))))"

definition nullableEmptyRejected :: "'w environment \<Rightarrow> ('w, unit) test" where
  "nullableEmptyRejected E = nullableRejectedWithoutMutation E ''{}''"

definition nullableUnknownFieldRejected :: "'w environment \<Rightarrow> ('w, unit) test" where
  "nullableUnknownFieldRejected E = nullableRejectedWithoutMutation E ''{\"title\":\"changed\",\"extra\":true}''"

definition nullableTitleNullRejected :: "'w environment \<Rightarrow> ('w, unit) test" where
  "nullableTitleNullRejected E = nullableRejectedWithoutMutation E ''{\"title\":null}''"

definition nullableInvalidTitle :: "'w environment \<Rightarrow> ('w, unit) test" where
  "nullableInvalidTitle E =
     test_each (\<lambda>body. test_bind (nullableRejectedWithoutMutation E body) (\<lambda>_. reset E)) [blank_body, long_body]"

definition nullableInvalidTimestamp :: "'w environment \<Rightarrow> ('w, unit) test" where
  "nullableInvalidTimestamp E = nullableRejectedWithoutMutation E ''{\"dueAt\":\"not-a-timestamp\"}''"

definition nullableUnknownTask :: "'w environment \<Rightarrow> ('w, unit) test" where
  "nullableUnknownTask E =
     test_bind (jsonRequest E ''PATCH'' (''/tasks/'' @ missing_id) ''{\"title\":\"changed\"}'') (expect_problem E wanted_notFound)"

definition nullableGetConsistent :: "'w environment \<Rightarrow> ('w, unit) test" where
  "nullableGetConsistent E =
     test_bind (createNullable E ''original'') (\<lambda>created.
     test_bind (patchNullable E (wire_ID created)
       (''{\"title\":\"  final  \",\"dueAt\":\"'' @ nullableSetInput @ ''\"}'')) (\<lambda>patched.
     test_bind (jsonRequest E ''GET'' (''/tasks/'' @ wire_ID created) '''') (\<lambda>response.
     test_bind (task_reply E 200 response) (\<lambda>got.
     test_bind (test_lift (compareNullableState patched got ''final'' nullableSetUTC)) (\<lambda>_.
     expectNullableStored E got ''final'' nullableSetUTC)))))"

section \<open>What the comparisons accept\<close>

lemma compareNullableState_exact:
  "compareNullableState before after title dueAt = Inr () \<longleftrightarrow>
     wire_ID after = wire_ID before \<and> wire_CreatedAt after = wire_CreatedAt before \<and> wire_Title after = title
     \<and> DueAt after = Some (JString dueAt) \<and> isCanonicalTimestamp dueAt"
  by (auto simp: compareNullableState_def dueAtValue_def dec_string_def split: sum.splits option.splits json.splits if_splits bool.splits)

end
