(* ===== verification/Eval_Locking.thy ===== *)
theory Eval_Locking
  imports Eval_Nullable
begin

text \<open>\<open>evaluator/internal/evaluator/locking.go\<close>: the cases of the task that adds versions, entity tags and \<open>If-Match\<close>.\<close>

definition quoted :: "string \<Rightarrow> string" where
  "quoted s = ''\"'' @ s @ ''\"''"

definition if_match_header :: "string list \<Rightarrow> (string \<times> string) list" where
  "if_match_header values = map (\<lambda>v. (''If-Match'', v)) values"

definition createLocking :: "'w environment \<Rightarrow> string \<Rightarrow> ('w, wire_task \<times> string) test" where
  "createLocking E title =
     test_bind (jsonRequest E ''POST'' ''/tasks'' (title_json title)) (\<lambda>response.
     test_bind (task_reply E 201 response) (\<lambda>created. test_return (created, ETag response)))"

definition putLocking :: "'w environment \<Rightarrow> string \<Rightarrow> string \<Rightarrow> string \<Rightarrow> ('w, wire_task \<times> string) test" where
  "putLocking E i etag body =
     test_bind (jsonRequestWithHeaders E ''PUT'' (''/tasks/'' @ i) body
       (if etag \<noteq> '''' then if_match_header [etag] else [])) (\<lambda>response.
     test_bind (task_reply E 200 response) (\<lambda>updated. test_return (updated, ETag response)))"

definition scan_version :: "column list \<Rightarrow> int option" where
  "scan_version row = (case row of [IntColumn n] \<Rightarrow> Some n | _ \<Rightarrow> None)"

definition scan_title_version :: "column list \<Rightarrow> (string \<times> int) option" where
  "scan_title_version row = (case row of [TextColumn title, IntColumn n] \<Rightarrow> Some (title, n) | _ \<Rightarrow> None)"

definition expectLockingStored :: "'w environment \<Rightarrow> string \<Rightarrow> string \<Rightarrow> int \<Rightarrow> ('w, unit) test" where
  "expectLockingStored E i title version =
     test_bind (query_row E ''SELECT title, version FROM tasks WHERE id = $1'' [TextColumn i] scan_title_version)
       (\<lambda>(storedTitle, storedVersion).
     test_require (storedTitle = title \<and> storedVersion = version)
       (Errorf ''database title/version = %q/%d, want %q/%d''
          [Text storedTitle, Number storedVersion, Text title, Number version]))"

definition version_text :: "int option \<Rightarrow> format_argument" where
  "version_text v = (case v of None \<Rightarrow> Text ''<nil>'' | Some n \<Rightarrow> Number n)"

definition lockingInitialVersion :: "'w environment \<Rightarrow> ('w, unit) test" where
  "lockingInitialVersion E =
     test_bind (createLocking E ''task'') (\<lambda>(created, etag).
     test_bind (test_require (wire_Version created = Some 1 \<and> etag = quoted ''1'')
       (Errorf ''initial version/ETag = %v/%q, want 1/%q'' [version_text (wire_Version created), Text etag, Text (quoted ''1'')])) (\<lambda>_.
     test_bind (query_row E ''SELECT version FROM tasks WHERE id = $1'' [TextColumn (wire_ID created)] scan_version) (\<lambda>stored.
     test_bind (test_require (stored = 1) (Errorf ''database version = %d, want 1'' [Number stored])) (\<lambda>_.
     test_bind (jsonRequest E ''GET'' ''/tasks'' '''') (\<lambda>response.
     test_bind (test_lift (expectStatusAndType response 200 ''application/json'')) (\<lambda>_.
     test_bind (decodeTaskList E response) (\<lambda>list.
     test_require (case items list of [item] \<Rightarrow> wire_Version item = Some 1 | _ \<Rightarrow> False)
       (New ''collection does not expose initial integer version 1''))))))))"

definition lockingGetETag :: "'w environment \<Rightarrow> ('w, unit) test" where
  "lockingGetETag E =
     test_bind (createLocking E ''task'') (\<lambda>(created, _).
     test_bind (jsonRequest E ''GET'' (''/tasks/'' @ wire_ID created) '''') (\<lambda>response.
     test_bind (task_reply E 200 response) (\<lambda>got.
     test_require (case wire_Version got of None \<Rightarrow> False | Some n \<Rightarrow> ETag response = quoted (FormatInt n))
       (Errorf ''GET ETag %q does not match version %v'' [Text (ETag response), version_text (wire_Version got)]))))"

definition lockingPutSuccess :: "'w environment \<Rightarrow> ('w, unit) test" where
  "lockingPutSuccess E =
     test_bind (createLocking E ''original'') (\<lambda>(created, etag).
     test_bind (putLocking E (wire_ID created) etag world_body) (\<lambda>(updated, newETag).
     test_bind (test_require (wire_Title updated = world_title \<and> wire_Version updated = Some 2 \<and> newETag = quoted ''2'')
       (Errorf ''updated task/ETag = %+v/%q, want trimmed title, version 2, ETag %q''
          [task_fields updated, Text newETag, Text (quoted ''2'')])) (\<lambda>_.
     test_bind (test_require (wire_ID updated = wire_ID created \<and> wire_CreatedAt updated = wire_CreatedAt created)
       (New ''PUT changed immutable fields'')) (\<lambda>_.
     expectLockingStored E (wire_ID updated) world_title 2))))"

definition changed_body :: string where
  "changed_body = ''{\"title\":\"changed\"}''"

definition lockingMissingIfMatch :: "'w environment \<Rightarrow> ('w, unit) test" where
  "lockingMissingIfMatch E =
     test_bind (jsonRequest E ''PUT'' (''/tasks/'' @ missing_id) changed_body) (expect_problem E wanted_preconditionRequired)"

definition malformed_values :: "string list list" where
  "malformed_values =
     [[quoted ''0''], [quoted ''+1''], [quoted ''-1''], [quoted ''01''], [quoted ''9223372036854775808''],
      [''1''], [''W/'' @ quoted ''1''], [''*''], [quoted ''1'' @ '', '' @ quoted ''2''], [quoted ''1'', quoted ''2'']]"

definition lockingMalformedIfMatch :: "'w environment \<Rightarrow> ('w, unit) test" where
  "lockingMalformedIfMatch E =
     test_each (\<lambda>headerValues.
       test_bind (jsonRequestWithHeaders E ''PUT'' (''/tasks/'' @ missing_id) changed_body (if_match_header headerValues))
         (\<lambda>response. test_wrap (\<lambda>err. Errorf ''If-Match %q: %w'' [Texts headerValues, Cause err])
           (expect_problem E wanted_validation response)))
       malformed_values"

definition lockingStaleIfMatch :: "'w environment \<Rightarrow> ('w, unit) test" where
  "lockingStaleIfMatch E =
     test_bind (createLocking E ''original'') (\<lambda>(created, etag).
     test_bind (putLocking E (wire_ID created) etag ''{\"title\":\"winner\"}'') (\<lambda>_.
     test_bind (jsonRequestWithHeaders E ''PUT'' (''/tasks/'' @ wire_ID created) ''{\"title\":\"stale\"}'' (if_match_header [etag]))
       (\<lambda>response.
     test_bind (expect_problem E wanted_preconditionFailed response) (\<lambda>_.
     expectLockingStored E (wire_ID created) ''winner'' 2))))"

definition lockingUnknownTask :: "'w environment \<Rightarrow> ('w, unit) test" where
  "lockingUnknownTask E =
     test_bind (jsonRequestWithHeaders E ''PUT'' (''/tasks/'' @ missing_id) changed_body (if_match_header [quoted ''1'']))
       (expect_problem E wanted_notFound)"

definition lockingRejectedWithoutMutation :: "'w environment \<Rightarrow> string \<Rightarrow> ('w, unit) test" where
  "lockingRejectedWithoutMutation E body =
     test_bind (createLocking E ''original'') (\<lambda>(created, etag).
     test_bind (jsonRequestWithHeaders E ''PUT'' (''/tasks/'' @ wire_ID created) body (if_match_header [etag])) (\<lambda>response.
     test_bind (expect_problem E wanted_validation response) (\<lambda>_.
     expectLockingStored E (wire_ID created) ''original'' 1)))"

definition lockingUnknownField :: "'w environment \<Rightarrow> ('w, unit) test" where
  "lockingUnknownField E = lockingRejectedWithoutMutation E ''{\"title\":\"changed\",\"extra\":true}''"

definition lockingInvalidTitle :: "'w environment \<Rightarrow> ('w, unit) test" where
  "lockingInvalidTitle E =
     test_each (\<lambda>body. test_bind (lockingRejectedWithoutMutation E body) (\<lambda>_. reset E)) [blank_body, long_body]"

section \<open>Two concurrent updates\<close>

text \<open>
  \<open>readAndClose\<close>: the first 64 KiB of a body; an error behind them is not seen. The response the evaluator builds of an
  outcome has that body and nothing behind it.
\<close>

definition readAndClose :: "http_response \<Rightarrow> go_error + http_response" where
  "readAndClose response =
     (case BrokenOff response of
        Some e \<Rightarrow>
          if length (Body response) < responseBodyDecodeLimit then Inl (External e)
          else Inr (response\<lparr>Body := take responseBodyDecodeLimit (Body response), BrokenOff := None\<rparr>)
      | None \<Rightarrow> Inr (response\<lparr>Body := take responseBodyDecodeLimit (Body response)\<rparr>))"

definition outcome :: "string + http_response \<Rightarrow> go_error + http_response" where
  "outcome r = (case r of Inl e \<Rightarrow> Inl (External e) | Inr response \<Rightarrow> readAndClose response)"

text \<open>The loop over the outcomes: the successes, the stale answers and the title of the last success.\<close>

fun judge_outcomes :: "'w environment \<Rightarrow> (go_error + http_response) list \<Rightarrow> nat \<times> nat \<times> string \<Rightarrow> go_error + nat \<times> nat \<times> string" where
  "judge_outcomes E [] acc = Inr acc"
| "judge_outcomes E (Inl err # rest) acc = Inl err"
| "judge_outcomes E (Inr result # rest) (successes, stale, winnerTitle) =
     (if StatusCode result = 200 then
        (if ETag result \<noteq> quoted ''2'' then Inl (Errorf ''winner ETag = %q, want %q'' [Text (ETag result), Text (quoted ''2'')])
         else case decodeTaskFor E result TaskLocking of
           Inl err \<Rightarrow> Inl err
         | Inr winner \<Rightarrow>
             if wire_Version winner \<noteq> Some 2 then Inl (New ''winning response does not have version 2'')
             else judge_outcomes E rest (Suc successes, stale, wire_Title winner))
      else if StatusCode result = 412 then
        (case expectProblemResponse E result wanted_preconditionFailed of
           Inl err \<Rightarrow> Inl err
         | Inr _ \<Rightarrow> judge_outcomes E rest (successes, Suc stale, winnerTitle))
      else Inl (Errorf ''concurrent PUT status = %d, want 200 or 412; body=%s'' [Number (StatusCode result), Text (Body result)]))"

definition winner_of :: "'w environment \<Rightarrow> (go_error + http_response) list \<Rightarrow> go_error + string" where
  "winner_of E results =
     (case judge_outcomes E results (0, 0, '''') of
        Inl err \<Rightarrow> Inl err
      | Inr (successes, stale, winnerTitle) \<Rightarrow>
          if successes \<noteq> 1 \<or> stale \<noteq> 1 \<or> winnerTitle \<noteq> ''first'' \<and> winnerTitle \<noteq> ''second''
          then Inl (Errorf ''concurrent outcomes: successes=%d stale=%d winner=%q''
            [Number (int successes), Number (int stale), Text winnerTitle])
          else Inr winnerTitle)"

definition do_together :: "'w environment \<Rightarrow> http_request list \<Rightarrow> ('w, (go_error + http_response) list) test" where
  "do_together E rs s = (case DoTogether E rs (world s) of (results, w) \<Rightarrow> Some (Inr (map outcome results), s\<lparr>world := w\<rparr>))"

text \<open>
  Both goroutines build their request, meet in the wait group \<open>ready\<close> and are released together; the outcomes come in the
  order of their arrival. A goroutine that cannot build its request returns before \<open>ready.Done()\<close>, and
  \<open>ready.Wait()\<close> then waits for ever.
\<close>

definition lockingConcurrentSingleWinner :: "'w environment \<Rightarrow> ('w, unit) test" where
  "lockingConcurrentSingleWinner E =
     test_bind (createLocking E ''original'') (\<lambda>(created, etag).
     test_bind (if url_ok (''/tasks/'' @ wire_ID created)
       then do_together E (map (\<lambda>title. make_request ''PUT'' (''/tasks/'' @ wire_ID created)
              (''{\"title\":\"'' @ title @ ''\"}'') (if_match_header [etag])) [''first'', ''second''])
       else (\<lambda>s. None)) (\<lambda>results.
     test_bind (test_lift (winner_of E results)) (\<lambda>winnerTitle.
     expectLockingStored E (wire_ID created) winnerTitle 2)))"

end
