(* ===== verification/Eval_Pagination.thy ===== *)
theory Eval_Pagination
  imports Eval_Nullable
begin

text \<open>\<open>evaluator/internal/evaluator/pagination.go\<close>: the cases of the task that adds \<open>limit\<close>, \<open>cursor\<close> and \<open>nextCursor\<close>.\<close>

section \<open>Pages\<close>

definition page_id :: "nat \<Rightarrow> string" where
  "page_id index = ''00000000-0000-4000-8000-'' @ zero_pad 12 (index + 1)"

text \<open>\<open>time.Date(2000, 1, 1, 0, 0, index, 0, time.UTC)\<close> in nanoseconds.\<close>

definition page_time :: "bool \<Rightarrow> nat \<Rightarrow> int" where
  "page_time tied index = (946684800 + (if tied then 0 else int index)) * 1000000000"

definition seedPageTasks :: "'w environment \<Rightarrow> nat \<Rightarrow> bool \<Rightarrow> ('w, string list) test" where
  "seedPageTasks E n tied =
     test_bind (test_each (\<lambda>index. exec_sql E insert_row
       [TextColumn (page_id index), TextColumn (''task '' @ zero_pad 3 (index + 1)), TimeColumn (page_time tied index)])
       [0..<n]) (\<lambda>_. test_return (map page_id [0..<n]))"

definition unreserved :: "char \<Rightarrow> bool" where
  "unreserved c \<longleftrightarrow> is_digit c \<or> CHR ''a'' \<le> c \<and> c \<le> CHR ''z'' \<or> CHR ''A'' \<le> c \<and> c \<le> CHR ''Z''
     \<or> c \<in> set ''-_.~''"

definition escape_byte :: "char \<Rightarrow> string" where
  "escape_byte c =
     (if unreserved c then [c] else if c = CHR '' '' then ''+''
      else (let n = of_char c :: nat in [CHR ''%'', ''0123456789ABCDEF'' ! (n div 16), ''0123456789ABCDEF'' ! (n mod 16)]))"

definition QueryEscape :: "string \<Rightarrow> string" where
  "QueryEscape s = concat (map escape_byte s)"

text \<open>\<open>Values.Encode\<close> writes the keys in their order.\<close>

definition page_path :: "nat option \<Rightarrow> string \<Rightarrow> string" where
  "page_path limit cursor =
     (let parts = (if cursor \<noteq> '''' then [''cursor='' @ QueryEscape cursor] else [])
        @ (case limit of None \<Rightarrow> [] | Some n \<Rightarrow> [''limit='' @ QueryEscape (FormatInt (int n))])
      in if parts = [] then ''/tasks'' else ''/tasks?'' @ join_on (CHR ''&'') parts)"

definition fetchPage :: "'w environment \<Rightarrow> nat option \<Rightarrow> string \<Rightarrow> ('w, taskList) test" where
  "fetchPage E limit cursor =
     test_bind (jsonRequest E ''GET'' (page_path limit cursor) '''') (\<lambda>response.
     test_bind (test_lift (expectStatusAndType response 200 ''application/json'')) (\<lambda>_.
     decodeTaskList E response))"

definition pageCursor :: "taskList \<Rightarrow> go_error + string option" where
  "pageCursor page =
     (case NextCursor page of
        None \<Rightarrow> Inr None
      | Some JNull \<Rightarrow> Inl (New ''nextCursor must be omitted, not null'')
      | Some v \<Rightarrow>
          (case dec_string v '''' of
             (_, False) \<Rightarrow> Inl (Errorf ''nextCursor is not a string: %w'' [Cause (not_a_string v)])
           | (cursor, True) \<Rightarrow>
               if cursor = '''' then Inl (New ''nextCursor must not be empty'') else Inr (Some cursor)))"

text \<open>\<open>err != nil || !present\<close> and \<open>err != nil || present\<close>; \<open>%w\<close> of a nil error prints as such.\<close>

definition nil_cause :: "go_error + 'a \<Rightarrow> format_argument" where
  "nil_cause r = (case r of Inl err \<Rightarrow> Cause err | Inr _ \<Rightarrow> Text ''%!w(<nil>)'')"

definition cursor_present :: "string \<Rightarrow> taskList \<Rightarrow> go_error + string" where
  "cursor_present what page =
     (case pageCursor page of Inr (Some cursor) \<Rightarrow> Inr cursor | r \<Rightarrow> Inl (Errorf (what @ '': %w'') [nil_cause r]))"

definition cursor_absent :: "string \<Rightarrow> taskList \<Rightarrow> go_error + unit" where
  "cursor_absent what page =
     (case pageCursor page of Inr None \<Rightarrow> Inr () | r \<Rightarrow> Inl (Errorf (what @ '' must be absent: %w'') [nil_cause r]))"

fun scan_ids :: "string list \<Rightarrow> string list \<Rightarrow> string set \<Rightarrow> string list \<Rightarrow> string list \<Rightarrow> go_error option" where
  "scan_ids got want seen [] ws = None"
| "scan_ids got want seen (g # gs) [] = None"
| "scan_ids got want seen (g # gs) (w # ws) =
     (if g \<noteq> w then Some (Errorf ''got ids %v, want %v'' [Texts got, Texts want])
      else if g \<in> seen then Some (Errorf ''duplicate id %s'' [Text g])
      else scan_ids got want (insert g seen) gs ws)"

definition checkStringIDs :: "string list \<Rightarrow> string list \<Rightarrow> go_error + unit" where
  "checkStringIDs got want =
     (if length got \<noteq> length want then Inl (Errorf ''got ids %v, want %v'' [Texts got, Texts want])
      else case scan_ids got want {} got want of Some err \<Rightarrow> Inl err | None \<Rightarrow> Inr ())"

text \<open>The loop of \<open>collectPages\<close> with the number of pages that are left.\<close>

fun collect_pages :: "'w environment \<Rightarrow> nat \<Rightarrow> nat \<Rightarrow> string \<Rightarrow> string list \<Rightarrow> ('w, string list) test" where
  "collect_pages E 0 limit cursor result = test_fail (New ''pagination did not terminate within 100 pages'')"
| "collect_pages E (Suc left) limit cursor result =
     test_bind (fetchPage E (Some limit) cursor) (\<lambda>page.
     test_bind (test_require (length (items page) \<le> limit)
       (Errorf ''page has %d items, limit is %d'' [Number (int (length (items page))), Number (int limit)])) (\<lambda>_.
     test_bind (test_lift (pageCursor page)) (\<lambda>following.
     case following of
       None \<Rightarrow> test_return (result @ map wire_ID (items page))
     | Some cursor' \<Rightarrow>
         if cursor' = cursor then test_fail (New ''pagination cursor did not advance'')
         else collect_pages E left limit cursor' (result @ map wire_ID (items page)))))"

definition collectPages :: "'w environment \<Rightarrow> nat \<Rightarrow> ('w, string list) test" where
  "collectPages E limit = collect_pages E 100 limit '''' []"

section \<open>The cases\<close>

definition page_ids :: "taskList \<Rightarrow> string list \<Rightarrow> ('w, unit) test" where
  "page_ids page ids = test_lift (checkTaskIDs (items page) ids)"

definition paginationDefaultLimit :: "'w environment \<Rightarrow> ('w, unit) test" where
  "paginationDefaultLimit E =
     test_bind (seedPageTasks E 21 False) (\<lambda>ids.
     test_bind (fetchPage E None '''') (\<lambda>page.
     test_bind (page_ids page (take 20 ids)) (\<lambda>_.
     test_bind (test_lift (cursor_present ''default page must have nextCursor'' page)) (\<lambda>_. test_return ()))))"

definition paginationLimitBounds :: "'w environment \<Rightarrow> ('w, unit) test" where
  "paginationLimitBounds E =
     test_bind (seedPageTasks E 101 False) (\<lambda>ids.
     test_bind (fetchPage E (Some 1) '''') (\<lambda>page.
     test_bind (test_wrap (\<lambda>err. Errorf ''limit 1: %w'' [Cause err]) (page_ids page (take 1 ids))) (\<lambda>_.
     test_bind (test_lift (cursor_present ''limit 1 cursor'' page)) (\<lambda>_.
     test_bind (fetchPage E (Some 100) '''') (\<lambda>page.
     test_bind (test_wrap (\<lambda>err. Errorf ''limit 100: %w'' [Cause err]) (page_ids page (take 100 ids))) (\<lambda>_.
     test_bind (test_lift (cursor_present ''limit 100 cursor'' page)) (\<lambda>_. test_return ())))))))"

definition paginationInvalidLimit :: "'w environment \<Rightarrow> ('w, unit) test" where
  "paginationInvalidLimit E =
     test_each (\<lambda>limit.
       test_bind (jsonRequest E ''GET'' (''/tasks?limit='' @ QueryEscape limit) '''') (\<lambda>response.
       test_wrap (\<lambda>err. Errorf ''limit %q: %w'' [Text limit, Cause err]) (expect_problem E wanted_validation response)))
       [''0'', ''-1'', ''101'', ''text'', ''1.5'']"

definition paginationMalformedCursor :: "'w environment \<Rightarrow> ('w, unit) test" where
  "paginationMalformedCursor E =
     test_bind (seedPageTasks E 1 False) (\<lambda>_.
     test_bind (jsonRequest E ''GET'' ''/tasks?cursor=%25%25%25not-a-cursor'' '''') (expect_problem E wanted_validation))"

definition paginationEmpty :: "'w environment \<Rightarrow> ('w, unit) test" where
  "paginationEmpty E =
     test_bind (fetchPage E None '''') (\<lambda>page.
     test_bind (test_require (length (items page) = 0)
       (Errorf ''empty page has %d items'' [Number (int (length (items page)))])) (\<lambda>_.
     test_lift (cursor_absent ''empty page cursor'' page)))"

definition paginationSinglePage :: "'w environment \<Rightarrow> ('w, unit) test" where
  "paginationSinglePage E =
     test_bind (seedPageTasks E 3 False) (\<lambda>ids.
     test_bind (fetchPage E (Some 10) '''') (\<lambda>page.
     test_bind (page_ids page ids) (\<lambda>_.
     test_lift (cursor_absent ''single page cursor'' page))))"

definition paginationMultiplePages :: "'w environment \<Rightarrow> ('w, unit) test" where
  "paginationMultiplePages E =
     test_bind (seedPageTasks E 11 False) (\<lambda>ids.
     test_bind (collectPages E 3) (\<lambda>got. test_lift (checkStringIDs got ids)))"

definition paginationTimestampTie :: "'w environment \<Rightarrow> ('w, unit) test" where
  "paginationTimestampTie E =
     test_bind (seedPageTasks E 7 True) (\<lambda>ids.
     test_bind (collectPages E 2) (\<lambda>got. test_lift (checkStringIDs got ids)))"

definition paginationFinalPage :: "'w environment \<Rightarrow> ('w, unit) test" where
  "paginationFinalPage E =
     test_bind (seedPageTasks E 3 False) (\<lambda>ids.
     test_bind (fetchPage E (Some 2) '''') (\<lambda>first.
     test_bind (test_lift (cursor_present ''first page cursor'' first)) (\<lambda>cursor.
     test_bind (fetchPage E (Some 2) cursor) (\<lambda>final.
     test_bind (page_ids final (drop 2 ids)) (\<lambda>_.
     test_lift (cursor_absent ''final page cursor'' final))))))"

definition delete_rows :: string where
  "delete_rows = ''DELETE FROM tasks WHERE id = $1 OR id = $2''"

definition paginationCursorAfterDelete :: "'w environment \<Rightarrow> ('w, unit) test" where
  "paginationCursorAfterDelete E =
     test_bind (seedPageTasks E 4 False) (\<lambda>ids.
     test_bind (fetchPage E (Some 2) '''') (\<lambda>first.
     test_bind (test_lift (cursor_present ''first page cursor'' first)) (\<lambda>cursor.
     test_bind (exec_sql E delete_rows [TextColumn (ids ! 2), TextColumn (ids ! 3)]) (\<lambda>_.
     test_bind (fetchPage E (Some 2) cursor) (\<lambda>afterDelete.
     test_bind (test_require (length (items afterDelete) = 0)
       (Errorf ''page after deleting later rows has ids %v, want empty'' [Texts (taskIDs (items afterDelete))])) (\<lambda>_.
     test_lift (cursor_absent ''empty final page cursor'' afterDelete)))))))"

section \<open>What the checks of identifiers accept\<close>

lemma scan_ids_None:
  "length gs = length ws \<Longrightarrow> scan_ids got want seen gs ws = None \<longleftrightarrow> gs = ws \<and> distinct gs \<and> set gs \<inter> seen = {}"
  by (induction got want seen gs ws rule: scan_ids.induct) auto

lemma checkStringIDs_exact: "checkStringIDs got want = Inr () \<longleftrightarrow> got = want \<and> distinct want"
  using scan_ids_None [of got want got want "{}"] by (auto simp: checkStringIDs_def split: option.splits)

lemma checkTaskIDs_exact: "checkTaskIDs tasks ids = Inr () \<longleftrightarrow> map wire_ID tasks = ids"
proof (cases "length tasks = length ids")
  case True
  then have "map wire_ID tasks = ids \<longleftrightarrow> (\<forall>i < length ids. wire_ID (tasks ! i) = ids ! i)"
    using list_eq_iff_nth_eq [of "map wire_ID tasks" ids] by auto
  also have "\<dots> \<longleftrightarrow> \<not> list_ex (\<lambda>i. wire_ID (tasks ! i) \<noteq> ids ! i) [0..<length ids]"
    unfolding list_ex_iff set_upt by fastforce
  also have "\<dots> \<longleftrightarrow> checkTaskIDs tasks ids = Inr ()" using True by (simp only: checkTaskIDs_def) simp
  finally show ?thesis by (rule sym)
next
  case False
  then show ?thesis by (auto simp: checkTaskIDs_def)
qed

lemma pageCursor_exact:
  "pageCursor page = Inr c \<longleftrightarrow>
     (case c of None \<Rightarrow> NextCursor page = None | Some s \<Rightarrow> s \<noteq> '''' \<and> NextCursor page = Some (JString s))"
proof (cases "NextCursor page")
  case None
  then show ?thesis by (auto simp: pageCursor_def split: option.splits)
next
  case (Some v)
  then show ?thesis by (cases v) (auto simp: pageCursor_def dec_string_def split: option.splits)
qed

end
