(* ===== verification/Eval_Main.thy ===== *)
theory Eval_Main
  imports Eval_Locking Eval_Pagination Driver_Main
begin

text \<open>
  The registry of the cases (\<open>cases_registry.go\<close>), \<open>Evaluate\<close> with the setup of a candidate (\<open>evaluator.go\<close>) and the command line
  (\<open>cmd/evaluator/main.go\<close>). The platform, that is the PostgreSQL container, the candidate's \<open>make\<close> targets, its service
  process and the clock, is a parameter. \<open>SetupResult\<close> and \<open>CaseResult\<close> have the fields of the records of
  \<open>runresult\<close> that read them, and are shared with those.
\<close>

section \<open>The registry\<close>

record 'w caseDefinition =
  def_ID :: string
  def_Task :: string
  Run :: "'w environment \<Rightarrow> ('w, unit) test"

definition case_of :: "string \<Rightarrow> string \<Rightarrow> ('w environment \<Rightarrow> ('w, unit) test) \<Rightarrow> 'w caseDefinition" where
  "case_of i t run = \<lparr>def_ID = i, def_Task = t, Run = run\<rparr>"

definition caseDefinitions :: "'w caseDefinition list" where
  "caseDefinitions =
     [case_of ''baseline.create-valid'' taskAll createValid,
      case_of ''baseline.create-invalid-title'' taskAll createInvalidTitle,
      case_of ''baseline.get-existing'' taskAll getExisting,
      case_of ''baseline.get-not-found'' taskAll getNotFound,
      case_of ''baseline.list-ordered'' taskAll listOrdered,
      case_of ''baseline.delete-existing'' taskAll deleteExisting,
      case_of ''baseline.delete-again-not-found'' taskAll deleteAgainNotFound,
      case_of ''nullable.initial-null'' TaskNullable nullableInitialNull,
      case_of ''nullable.post-rejects-due-at'' TaskNullable nullablePostRejectsDueAt,
      case_of ''nullable.omitted-preserves'' TaskNullable nullableOmittedPreserves,
      case_of ''nullable.null-clears'' TaskNullable nullableNullClears,
      case_of ''nullable.value-sets'' TaskNullable nullableValueSets,
      case_of ''nullable.title-only'' TaskNullable nullableTitleOnly,
      case_of ''nullable.both-fields'' TaskNullable nullableBothFields,
      case_of ''nullable.empty-rejected'' TaskNullable nullableEmptyRejected,
      case_of ''nullable.unknown-field-rejected'' TaskNullable nullableUnknownFieldRejected,
      case_of ''nullable.title-null-rejected'' TaskNullable nullableTitleNullRejected,
      case_of ''nullable.invalid-title'' TaskNullable nullableInvalidTitle,
      case_of ''nullable.invalid-timestamp'' TaskNullable nullableInvalidTimestamp,
      case_of ''nullable.unknown-task'' TaskNullable nullableUnknownTask,
      case_of ''nullable.get-consistent'' TaskNullable nullableGetConsistent,
      case_of ''locking.initial-version'' TaskLocking lockingInitialVersion,
      case_of ''locking.get-etag'' TaskLocking lockingGetETag,
      case_of ''locking.put-success'' TaskLocking lockingPutSuccess,
      case_of ''locking.missing-if-match'' TaskLocking lockingMissingIfMatch,
      case_of ''locking.malformed-if-match'' TaskLocking lockingMalformedIfMatch,
      case_of ''locking.stale-if-match'' TaskLocking lockingStaleIfMatch,
      case_of ''locking.unknown-task'' TaskLocking lockingUnknownTask,
      case_of ''locking.unknown-field'' TaskLocking lockingUnknownField,
      case_of ''locking.invalid-title'' TaskLocking lockingInvalidTitle,
      case_of ''locking.concurrent-single-winner'' TaskLocking lockingConcurrentSingleWinner,
      case_of ''pagination.default-limit'' TaskPagination paginationDefaultLimit,
      case_of ''pagination.limit-bounds'' TaskPagination paginationLimitBounds,
      case_of ''pagination.invalid-limit'' TaskPagination paginationInvalidLimit,
      case_of ''pagination.malformed-cursor'' TaskPagination paginationMalformedCursor,
      case_of ''pagination.empty'' TaskPagination paginationEmpty,
      case_of ''pagination.single-page'' TaskPagination paginationSinglePage,
      case_of ''pagination.multiple-pages'' TaskPagination paginationMultiplePages,
      case_of ''pagination.timestamp-tie'' TaskPagination paginationTimestampTie,
      case_of ''pagination.final-page'' TaskPagination paginationFinalPage,
      case_of ''pagination.cursor-after-delete'' TaskPagination paginationCursorAfterDelete,
      case_of ''contract.openapi-conformance'' taskAll openapiConformance,
      case_of ''contract.problem-details'' taskAll problemDetails,
      case_of ''contract.database-consistency'' taskAll databaseConsistency]"

definition ManifestIDs :: "string list" where
  "ManifestIDs = sort (map def_ID (caseDefinitions :: unit caseDefinition list))"

section \<open>The platform\<close>

text \<open>One round of the readiness loop: whether \<open>/healthz\<close> answered 200, and what the \<open>select\<close> saw next.\<close>

datatype ready_event = ServiceExited "string option" | ContextDone string | DeadlineReached | Ticked

record 'w platform =
  os_environ :: "string list"
  postgres_run :: "string option"
  ConnectionString :: "string + string"
  run_program :: "string list \<Rightarrow> string \<Rightarrow> string list \<Rightarrow> 'w \<Rightarrow> (string \<times> string option) \<times> 'w"
  free_address :: "string + string"
  service_start :: "string \<Rightarrow> string list \<Rightarrow> 'w \<Rightarrow> string option \<times> 'w"
  healthy :: "nat \<Rightarrow> bool"
  ready_events :: "nat \<Rightarrow> ready_event"
  service_output :: "string option"
  open_pool :: "string option"
  Error :: "go_error \<Rightarrow> string"
  time_started :: gotime
  time_finished :: gotime
  context_error :: "string option"
  temp_name :: string

definition evaluator_credentials :: "string list" where
  "evaluator_credentials = [''OPENROUTER_API_KEY'']"

definition candidateEnvironment :: "string list \<Rightarrow> string list \<Rightarrow> string list" where
  "candidateEnvironment environment extra =
     filter (\<lambda>entry. \<not> list_ex (\<lambda>key. HasPrefix entry (key @ ''='')) evaluator_credentials) environment @ extra"

definition runCommand :: "'w platform \<Rightarrow> string \<Rightarrow> string \<Rightarrow> string list \<Rightarrow> 'w \<Rightarrow> (string \<times> string option) \<times> 'w" where
  "runCommand P dir databaseURL command w =
     (case run_program P command dir (candidateEnvironment (os_environ P) [''DATABASE_URL='' @ databaseURL]) w of
        ((output, err), w') \<Rightarrow> ((tailEvidence output evidenceLogLimit, err), w'))"

definition startService :: "'w platform \<Rightarrow> string \<Rightarrow> string \<Rightarrow> string \<Rightarrow> 'w \<Rightarrow> string option \<times> 'w" where
  "startService P dir databaseURL addr w =
     service_start P dir (candidateEnvironment (os_environ P) [''DATABASE_URL='' @ databaseURL, ''HTTP_ADDR='' @ addr]) w"

definition logs :: "'w platform \<Rightarrow> string" where
  "logs P = (case service_output P of None \<Rightarrow> '''' | Some text \<Rightarrow> tailEvidence text evidenceLogLimit)"

definition exit_cause :: "string option \<Rightarrow> format_argument" where
  "exit_cause e = (case e of None \<Rightarrow> Text ''%!w(<nil>)'' | Some text \<Rightarrow> Cause (External text))"

partial_function (option) waitReady :: "(nat \<Rightarrow> bool) \<Rightarrow> (nat \<Rightarrow> ready_event) \<Rightarrow> string \<Rightarrow> nat \<Rightarrow> go_error option option" where
  "waitReady ok events log round =
     (if ok round then Some None
      else case events round of
        ServiceExited err \<Rightarrow> Some (Some (Errorf ''service exited before readiness: %w; logs: %s'' [exit_cause err, Text log]))
      | ContextDone err \<Rightarrow> Some (Some (External err))
      | DeadlineReached \<Rightarrow> Some (Some (Errorf ''30 second readiness timeout; logs: %s'' [Text log]))
      | Ticked \<Rightarrow> waitReady ok events log (Suc round))"

section \<open>Evaluate\<close>

record evaluation_result =
  res_Candidate :: string
  res_Task :: string
  res_StartedAt :: gotime
  res_FinishedAt :: gotime
  res_CompleteSuccess :: bool
  res_Setup :: evaluatorSetup
  res_BehaviorCases :: "evaluatorCase list"
  ServiceLogs :: string

definition applicable_to :: "string \<Rightarrow> 'w caseDefinition \<Rightarrow> bool" where
  "applicable_to selectedTask d \<longleftrightarrow> def_Task d = taskAll \<or> def_Task d = selectedTask"

definition skipped_case :: "'w caseDefinition \<Rightarrow> evaluatorCase" where
  "skipped_case d = \<lparr>ec_ID = def_ID d, ec_Applicable = False, ec_Passed = None, ec_Evidence = ''''\<rparr>"

definition judged_case :: "'w caseDefinition \<Rightarrow> bool \<Rightarrow> string \<Rightarrow> evaluatorCase" where
  "judged_case d passed evidence =
     \<lparr>ec_ID = def_ID d, ec_Applicable = True, ec_Passed = Some passed, ec_Evidence = evidence\<rparr>"

definition setupFailureCases :: "'w caseDefinition list \<Rightarrow> string \<Rightarrow> string \<Rightarrow> evaluatorCase list" where
  "setupFailureCases definitions selectedTask setupErr =
     map (\<lambda>d. if applicable_to selectedTask d then judged_case d False (''not run: '' @ setupErr) else skipped_case d) definitions"

text \<open>One definition of the loop: the case result and the suite it leaves.\<close>

definition run_case :: "'w platform \<Rightarrow> 'w environment \<Rightarrow> string \<Rightarrow> 'w caseDefinition \<Rightarrow> 'w suite
    \<Rightarrow> (evaluatorCase \<times> 'w suite) option" where
  "run_case P E selectedTask d s =
     (if \<not> applicable_to selectedTask d then Some (skipped_case d, s)
      else case (if def_Task d \<noteq> taskAll then reset E s else Some (Inr (), s)) of
        None \<Rightarrow> None
      | Some (Inl err, s) \<Rightarrow> Some (judged_case d False (''reset database: '' @ Error P err), s)
      | Some (Inr _, s) \<Rightarrow>
          (case Run d E s of
             None \<Rightarrow> None
           | Some (Inl err, s) \<Rightarrow> Some (judged_case d False (Error P err), s)
           | Some (Inr _, s) \<Rightarrow> Some (judged_case d True ''passed'', s)))"

fun run_cases :: "'w platform \<Rightarrow> 'w environment \<Rightarrow> string \<Rightarrow> 'w caseDefinition list \<Rightarrow> 'w suite
    \<Rightarrow> (bool \<times> evaluatorCase list \<times> 'w suite) option" where
  "run_cases P E selectedTask [] s = Some (True, [], s)"
| "run_cases P E selectedTask (d # ds) s =
     (case run_case P E selectedTask d s of
        None \<Rightarrow> None
      | Some (c, s) \<Rightarrow>
          (case run_cases P E selectedTask ds s of
             None \<Rightarrow> None
           | Some (success, cs, s) \<Rightarrow> Some (ec_Passed c \<noteq> Some False \<and> success, c # cs, s)))"

definition failSetup :: "'w platform \<Rightarrow> evaluation_result \<Rightarrow> go_error \<Rightarrow> evaluation_result" where
  "failSetup P result err =
     result\<lparr>res_Setup := (res_Setup result)\<lparr>setup_Evidence := Error P err\<rparr>,
       res_BehaviorCases := setupFailureCases (caseDefinitions :: unit caseDefinition list) (res_Task result) (Error P err)\<rparr>"

definition stage :: "(evaluatorSetup \<Rightarrow> evaluatorSetup) \<Rightarrow> evaluation_result \<Rightarrow> evaluation_result" where
  "stage f result = result\<lparr>res_Setup := f (res_Setup result)\<rparr>"

text \<open>The suite on a candidate that is ready: the second half of \<open>Evaluate\<close>.\<close>

definition run_suite :: "'w platform \<Rightarrow> 'w environment \<Rightarrow> evaluation_result \<Rightarrow> 'w \<Rightarrow> (evaluation_result \<times> 'w) option" where
  "run_suite P E result w =
     (case open_pool P of
        Some err \<Rightarrow> Some (failSetup P result (Errorf ''open evaluator database connection: %w'' [Cause (External err)]), w)
      | None \<Rightarrow>
          (case run_cases P E (res_Task result) caseDefinitions \<lparr>world = w, suite_task = res_Task result, createdID = ''''\<rparr> of
             None \<Rightarrow> None
           | Some (success, cases, s) \<Rightarrow>
               Some (result\<lparr>res_CompleteSuccess := success, res_BehaviorCases := cases, ServiceLogs := logs P\<rparr>, world s)))"

definition command_error :: "string \<Rightarrow> string \<Rightarrow> string \<Rightarrow> go_error" where
  "command_error format output err = Errorf format [Cause (External err), Text output]"

definition serve :: "'w platform \<Rightarrow> 'w environment \<Rightarrow> evaluation_result \<Rightarrow> string \<Rightarrow> 'w \<Rightarrow> (evaluation_result \<times> 'w) option" where
  "serve P E result databaseURL w =
     (case free_address P of
        Inl err \<Rightarrow> Some (failSetup P result (Errorf ''allocate HTTP address: %w'' [Cause (External err)]), w)
      | Inr addr \<Rightarrow>
     (case startService P (res_Candidate result) databaseURL addr w of
        (Some err, w) \<Rightarrow> Some (failSetup P result (Errorf ''start service: %w'' [Cause (External err)]), w)
      | (None, w) \<Rightarrow>
     (case waitReady (healthy P) (ready_events P) (logs P) 0 of
        None \<Rightarrow> None
      | Some (Some err) \<Rightarrow>
          Some (failSetup P (result\<lparr>ServiceLogs := logs P\<rparr>) (Errorf ''wait for service readiness: %w'' [Cause err]), w)
      | Some None \<Rightarrow> run_suite P E (stage (Ready_update (\<lambda>_. True)) result) w)))"

definition build_and_migrate :: "'w platform \<Rightarrow> 'w environment \<Rightarrow> evaluation_result \<Rightarrow> string \<Rightarrow> 'w
    \<Rightarrow> (evaluation_result \<times> 'w) option" where
  "build_and_migrate P E result databaseURL w =
     (case runCommand P (res_Candidate result) databaseURL [''make'', ''build''] w of
        ((output, Some err), w) \<Rightarrow> Some (failSetup P result (command_error ''build candidate: %w: %s'' output err), w)
      | ((output, None), w) \<Rightarrow>
     (let result = stage (setup_Build_update (\<lambda>_. True)) result in
      case runCommand P (res_Candidate result) databaseURL [''make'', ''migrate''] w of
        ((output, Some err), w) \<Rightarrow>
          Some (failSetup P result (command_error ''apply candidate migrations: %w: %s'' output err), w)
      | ((output, None), w) \<Rightarrow> serve P E (stage (setup_Migrations_update (\<lambda>_. True)) result) databaseURL w))"

definition new_result :: "'w platform \<Rightarrow> string \<Rightarrow> string \<Rightarrow> evaluation_result" where
  "new_result P dir task =
     \<lparr>res_Candidate = dir, res_Task = task, res_StartedAt = time_started P, res_FinishedAt = time_finished P,
      res_CompleteSuccess = False, res_Setup = Setup no_evaluatorResult, res_BehaviorCases = [], ServiceLogs = ''''\<rparr>"

definition Evaluate :: "'w platform \<Rightarrow> 'w environment \<Rightarrow> string \<Rightarrow> string \<Rightarrow> 'w \<Rightarrow> (evaluation_result \<times> 'w) option" where
  "Evaluate P E dir task w =
     (let result = new_result P dir task in
      if \<not> ValidTask task then Some (failSetup P result (Errorf ''unsupported task %q'' [Text task]), w)
      else case postgres_run P of
        Some err \<Rightarrow> Some (failSetup P result (Errorf ''start PostgreSQL: %w'' [Cause (External err)]), w)
      | None \<Rightarrow>
     (let result = stage (Postgres_update (\<lambda>_. True)) result in
      case ConnectionString P of
        Inl err \<Rightarrow> Some (failSetup P result (Errorf ''get PostgreSQL connection string: %w'' [Cause (External err)]), w)
      | Inr databaseURL \<Rightarrow> build_and_migrate P E result databaseURL w))"

section \<open>The report\<close>

definition setup_json :: "evaluatorSetup \<Rightarrow> json" where
  "setup_json setup = JObject
     ([(''postgres'', JBool (Postgres setup)), (''build'', JBool (setup_Build setup)),
       (''migrations'', JBool (setup_Migrations setup)), (''serviceReady'', JBool (Ready setup))]
      @ (if setup_Evidence setup = '''' then [] else [(''evidence'', JString (setup_Evidence setup))]))"

definition case_result_json :: "evaluatorCase \<Rightarrow> json" where
  "case_result_json c = JObject
     [(''id'', JString (ec_ID c)), (''applicable'', JBool (ec_Applicable c)), (''passed'', jopt JBool (ec_Passed c)),
      (''evidence'', JString (ec_Evidence c))]"

definition evaluation_json_of :: "string \<Rightarrow> string \<Rightarrow> evaluation_result \<Rightarrow> json" where
  "evaluation_json_of started finished r = JObject
     ([(''schemaVersion'', jint 1), (''candidate'', JString (res_Candidate r)), (''task'', JString (res_Task r)),
       (''startedAt'', JString started), (''finishedAt'', JString finished),
       (''completeSuccess'', JBool (res_CompleteSuccess r)), (''setup'', setup_json (res_Setup r)),
       (''behaviorCases'', JArray (map case_result_json (res_BehaviorCases r)))]
      @ (if ServiceLogs r = '''' then [] else [(''serviceLogs'', JString (ServiceLogs r))]))"

text \<open>Encoding fails only on a time that JSON cannot carry.\<close>

definition evaluation_report :: "evaluation_result \<Rightarrow> string option" where
  "evaluation_report r =
     Option.bind (json_time (res_StartedAt r)) (\<lambda>started.
     Option.bind (json_time (res_FinishedAt r)) (\<lambda>finished.
       Some (MarshalIndent (evaluation_json_of started finished r) @ [CHR 0x0A])))"

section \<open>The command line\<close>

record evaluator_flags =
  flag_candidate :: string
  flag_task :: string
  flag_output :: string
  positional :: "string list"

text \<open>A temporary file next to the output, renamed over it; whatever happens, no temporary file is left.\<close>

definition writeAtomic :: "string \<Rightarrow> filesystem \<Rightarrow> string \<Rightarrow> string \<Rightarrow> bool \<times> filesystem" where
  "writeAtomic random fs path data =
     (let tmp = Join (Dir path) (''.evaluator-result-'' @ random @ ''.tmp'') in
      case make_node fs tmp (Reg True data) of
        None \<Rightarrow> (False, fs)
      | Some fs' \<Rightarrow>
          (case Rename fs' tmp path of
             Some fs'' \<Rightarrow> (True, fs'')
           | None \<Rightarrow> (False, (case RemoveAll fs' tmp of Some fs'' \<Rightarrow> fs'' | None \<Rightarrow> fs'))))"

definition existing_directory :: "filesystem \<Rightarrow> string \<Rightarrow> bool" where
  "existing_directory fs p \<longleftrightarrow> (case Stat fs p of Some n \<Rightarrow> IsDir n | None \<Rightarrow> False)"

text \<open>The exit code, what stands on the standard output, and the file tree.\<close>

definition evaluator_main :: "'w platform \<Rightarrow> 'w environment \<Rightarrow> evaluator_flags \<Rightarrow> filesystem \<Rightarrow> 'w
    \<Rightarrow> (int \<times> string \<times> filesystem) option" where
  "evaluator_main P E flags fs w =
     (let refused = Some (2, '''', fs) in
      if positional flags \<noteq> [] then refused
      else if flag_candidate flags = '''' then refused
      else if \<not> ValidTask (flag_task flags) then refused
      else let absCandidate = Abs fs (flag_candidate flags) in
      if \<not> existing_directory fs absCandidate then refused
      else if flag_output flags \<noteq> ''-'' \<and> \<not> existing_directory fs (Dir (flag_output flags)) then refused
      else case Evaluate P E absCandidate (flag_task flags) w of
        None \<Rightarrow> None
      | Some (result, w') \<Rightarrow>
          if context_error P \<noteq> None then refused
          else case evaluation_report result of
            None \<Rightarrow> refused
          | Some report \<Rightarrow>
              (let code = (if res_CompleteSuccess result then 0 else 1) in
               if flag_output flags = ''-'' then Some (code, report, fs)
               else case writeAtomic (temp_name P) fs (flag_output flags) report of
                 (True, fs') \<Rightarrow> Some (code, '''', fs')
               | (False, fs') \<Rightarrow> Some (2, '''', fs')))"

end
