(* ===== verification/Eval_Report.thy ===== *)
theory Eval_Report
  imports Eval_Main Run_Props
begin

text \<open>
  What a finished evaluation reports: every case of the registry once, with a verdict exactly where it applies; the report as the
  assembler of \<open>runresult\<close> reads it; the exit code of the command line; and that an evaluation returns.
\<close>

section \<open>Evaluations return\<close>

text \<open>A computation that returns from every state, whatever the candidate answers.\<close>

definition total :: "('w, 'a) test \<Rightarrow> bool" where
  "total act \<longleftrightarrow> (\<forall>s. act s \<noteq> None)"

lemma totalD: "total act \<Longrightarrow> act s \<noteq> None"
  by (simp add: total_def)

lemma total_basic [simp, intro]:
  "total (test_return x)" "total (test_fail e)" "total (test_lift r)" "total (test_require c e)" "total (test_get f)"
  "total (set_createdID i)" "total (do_request E request)" "total (exec_sql E sql args)" "total (query_row E sql args scan)"
  "total (do_together E rs)" "total (expect_problem E want response)"
  by (auto simp: total_def test_return_def test_fail_def test_lift_def test_require_def test_get_def set_createdID_def
      do_request_def exec_sql_def query_row_def do_together_def expect_problem_def split: sum.splits prod.splits option.splits)

lemma total_bind [intro]: "total act \<Longrightarrow> (\<And>x. total (k x)) \<Longrightarrow> total (test_bind act k)"
  by (fastforce simp: total_def test_bind_def split: option.splits sum.splits)

lemma total_wrap [intro]: "total act \<Longrightarrow> total (test_wrap f act)"
  by (simp add: total_def test_wrap_def)

lemma total_each [intro]: "(\<And>x. total (f x)) \<Longrightarrow> total (test_each f xs)"
  by (induction xs) auto

lemma total_request [intro]: "total (jsonRequestWithHeaders E verb path body header)" "total (jsonRequest E verb path body)"
  by (auto simp: jsonRequest_def jsonRequestWithHeaders_def)

lemma total_cases [intro]:
  "(\<And>x y. p = (x, y) \<Longrightarrow> total (k x y)) \<Longrightarrow> total (case p of (x, y) \<Rightarrow> k x y)"
  by (cases p) simp

lemmas test_defs = decodeTask_def decodeTaskList_def created_required_def task_reply_def reset_def page_ids_def
  createNullable_def patchNullable_def expectNullableStored_def expectRowCount_def createLocking_def putLocking_def
  expectLockingStored_def seedPageTasks_def fetchPage_def

lemma total_helpers [intro]:
  "total (decodeTask E response)" "total (decodeTaskList E response)" "total created_required" "total (task_reply E code response)"
  "total (reset E)" "total (page_ids page ids)" "total (createNullable E title)" "total (patchNullable E i body)"
  "total (expectNullableStored E t title due)" "total (expectRowCount E want)" "total (createLocking E title)"
  "total (putLocking E i etag body)" "total (expectLockingStored E i title v)" "total (seedPageTasks E n tied)"
  "total (fetchPage E limit cursor)"
  unfolding test_defs by (intro total_basic total_bind total_wrap total_each total_request total_cases)+

lemma total_rejected [intro]:
  "total (nullableRejectedWithoutMutation E body)" "total (lockingRejectedWithoutMutation E body)"
  unfolding nullableRejectedWithoutMutation_def lockingRejectedWithoutMutation_def
  by (intro total_basic total_bind total_request total_cases total_helpers)+

lemma total_collect [intro]: "total (collect_pages E left limit cursor result)"
proof (induction left arbitrary: cursor result)
  case (Suc left)
  show ?case unfolding collect_pages.simps
    by (intro total_bind total_helpers total_basic) (auto split: option.splits intro: Suc)
qed auto

lemma total_deleteExisting: "total (deleteExisting E)"
  unfolding deleteExisting_def
  by (intro total_bind total_helpers total_request total_basic) (auto split: prod.splits option.splits list.splits)

lemmas case_defs = createValid_def createInvalidTitle_def getExisting_def getNotFound_def listOrdered_def deleteAgainNotFound_def
  openapiConformance_def problemDetails_def databaseConsistency_def nullableInitialNull_def nullablePostRejectsDueAt_def
  nullableOmittedPreserves_def nullableNullClears_def nullableValueSets_def nullableTitleOnly_def nullableBothFields_def
  nullableEmptyRejected_def nullableUnknownFieldRejected_def nullableTitleNullRejected_def nullableInvalidTitle_def
  nullableInvalidTimestamp_def nullableUnknownTask_def nullableGetConsistent_def lockingInitialVersion_def lockingGetETag_def
  lockingPutSuccess_def lockingMissingIfMatch_def lockingMalformedIfMatch_def lockingStaleIfMatch_def lockingUnknownTask_def
  lockingUnknownField_def lockingInvalidTitle_def paginationDefaultLimit_def paginationLimitBounds_def
  paginationInvalidLimit_def paginationMalformedCursor_def paginationEmpty_def paginationSinglePage_def
  paginationMultiplePages_def paginationTimestampTie_def paginationFinalPage_def paginationCursorAfterDelete_def
  collectPages_def

lemma total_registry:
  assumes "d \<in> set caseDefinitions" "def_ID d \<noteq> ''locking.concurrent-single-winner''"
  shows "total (Run d E)"
proof -
  have "\<forall>d \<in> set caseDefinitions. def_ID d = ''locking.concurrent-single-winner'' \<or> total (Run d E)"
    unfolding caseDefinitions_def case_of_def list.set ball_simps caseDefinition.select_convs case_defs
    by (intro conjI disjI1 [OF refl] disjI2 total_deleteExisting total_basic total_bind total_wrap total_each total_request
        total_cases total_helpers total_rejected total_collect TrueI)
  with assms show ?thesis by blast
qed

text \<open>The identifier a candidate gives to a new task can be used in the path of a request.\<close>

definition usable_ids :: "'w environment \<Rightarrow> bool" where
  "usable_ids E \<longleftrightarrow> (\<forall>s created etag s'. createLocking E ''original'' s = Some (Inr (created, etag), s')
     \<longrightarrow> url_ok (''/tasks/'' @ wire_ID created))"

lemma concurrent_returns:
  "lockingConcurrentSingleWinner E s = None \<longleftrightarrow>
     (\<exists>created etag s'. createLocking E ''original'' s = Some (Inr (created, etag), s') \<and> \<not> url_ok (''/tasks/'' @ wire_ID created))"
proof -
  have c: "createLocking E ''original'' s \<noteq> None" using total_helpers(11) unfolding total_def by blast
  have rest: "test_bind (do_together E rs) (\<lambda>results. test_bind (test_lift (winner_of E results)) (\<lambda>winnerTitle.
      expectLockingStored E i winnerTitle v)) s' \<noteq> None" for rs i v s'
    by (intro totalD total_bind total_basic total_helpers)
  have never: "test_bind (\<lambda>s. None) k = (\<lambda>s. None)" for k :: "'x \<Rightarrow> ('w, 'y) test"
    by (simp add: test_bind_def fun_eq_iff)
  show ?thesis
    using c rest unfolding lockingConcurrentSingleWinner_def
    by (subst test_bind_def) (auto simp: never split: option.splits sum.splits prod.splits)
qed

lemma concurrent_total: "usable_ids E \<Longrightarrow> total (lockingConcurrentSingleWinner E)"
  unfolding total_def concurrent_returns usable_ids_def by blast

lemma run_case_returns:
  assumes "d \<in> set caseDefinitions" "usable_ids E \<or> selectedTask \<noteq> TaskLocking"
  shows "run_case P E selectedTask d s \<noteq> None"
proof (cases "applicable_to selectedTask d")
  case True
  have "total (Run d E)"
  proof (cases "def_ID d = ''locking.concurrent-single-winner''")
    case concurrent: True
    have "\<forall>d \<in> set caseDefinitions. def_ID d = ''locking.concurrent-single-winner'' \<longrightarrow>
        def_Task d = TaskLocking \<and> Run d = (lockingConcurrentSingleWinner :: 'a environment \<Rightarrow> _)"
      unfolding caseDefinitions_def case_of_def by simp
    with concurrent assms(1) have "def_Task d = TaskLocking" "Run d = lockingConcurrentSingleWinner" by blast+
    with True assms(2) show ?thesis using concurrent_total by (auto simp: applicable_to_def task_names)
  qed (use total_registry assms(1) in blast)
  then have run: "Run d E s \<noteq> None" for s by (rule totalD)
  have "reset E s \<noteq> None" by (intro totalD total_helpers)
  then obtain r s' where start: "(if def_Task d \<noteq> taskAll then reset E s else Some (Inr (), s)) = Some (r, s')" by fastforce
  show ?thesis
    unfolding run_case_def start using True run [of s'] by (auto split: option.splits sum.splits)
qed (simp add: run_case_def)

lemma run_cases_returns:
  assumes "\<And>d s. d \<in> set ds \<Longrightarrow> run_case P E selectedTask d s \<noteq> None"
  shows "run_cases P E selectedTask ds s \<noteq> None"
  using assms
proof (induction ds arbitrary: s)
  case (Cons d ds)
  obtain c s' where "run_case P E selectedTask d s = Some (c, s')" using Cons.prems [of d s] by auto
  moreover obtain r where "run_cases P E selectedTask ds s' = Some r" using Cons.IH [of s'] Cons.prems by auto
  ultimately show ?case by (cases r) simp
qed simp

lemma waitReady_returns: "ok n \<or> events n \<noteq> Ticked \<Longrightarrow> m \<le> n \<Longrightarrow> waitReady ok events log m \<noteq> None"
proof (induction "n - m" arbitrary: m)
  case 0
  then show ?case by (subst waitReady.simps) (auto split: ready_event.splits)
next
  case (Suc k)
  then have "waitReady ok events log (Suc m) \<noteq> None" by simp
  then show ?case by (subst waitReady.simps) (auto split: ready_event.splits)
qed

text \<open>
  C9: an evaluation returns. When the candidate's service becomes ready, exits or runs into the deadline, and
  the identifiers it gives to tasks can be used in a path (which matters only for \<open>optimistic-locking\<close>), \<open>Evaluate\<close> returns
  a result, whatever the candidate answers to the requests of all cases.
\<close>

theorem evaluation_returns:
  assumes "healthy P n \<or> ready_events P n \<noteq> Ticked" "usable_ids E \<or> task \<noteq> TaskLocking"
  shows "\<exists>r w'. Evaluate P E dir task w = Some (r, w')"
proof -
  have "run_cases P E task caseDefinitions s \<noteq> None" for s
    by (rule run_cases_returns, rule run_case_returns [OF _ assms(2)])
  then have suite: "run_suite P E r w \<noteq> None" if "res_Task r = task" for r w
  proof -
    obtain x where "run_cases P E task caseDefinitions \<lparr>world = w, suite_task = task, createdID = ''''\<rparr> = Some x"
      using \<open>\<And>s. run_cases P E task caseDefinitions s \<noteq> None\<close> by blast
    then show ?thesis by (cases x) (simp add: run_suite_def that split: option.splits)
  qed
  have "waitReady (healthy P) (ready_events P) (logs P) 0 \<noteq> None" by (rule waitReady_returns [where n = n]) (use assms(1) in auto)
  then have serve: "serve P E r u w \<noteq> None" if "res_Task r = task" for r u w
    using that suite by (auto simp: serve_def stage_def split: sum.splits option.splits prod.splits)
  have "build_and_migrate P E r u w \<noteq> None" if "res_Task r = task" for r u w
    using that serve by (auto simp: build_and_migrate_def stage_def Let_def split: option.splits prod.splits)
  then have "Evaluate P E dir task w \<noteq> None"
    by (auto simp: Evaluate_def Let_def stage_def new_result_def split: sum.splits option.splits)
  then show ?thesis by auto
qed

definition silent_environment :: "unit environment" where
  "silent_environment = \<lparr>Do = (\<lambda>r w. (Inl ''EOF'', w)), DoTogether = (\<lambda>rs w. (map (\<lambda>_. Inl ''EOF'') rs, w)),
     Exec = (\<lambda>sql args w. (None, w)), QueryRow = (\<lambda>sql args w. (Inl ''no rows in result set'', w)),
     decoding_error = (\<lambda>_. ''unexpected EOF''), url_error = (\<lambda>_. ''invalid URL''), map_order = (\<lambda>m. m)\<rparr>"

definition plain_platform :: "unit platform" where
  "plain_platform = \<lparr>os_environ = [''PATH=/bin''], postgres_run = None, ConnectionString = Inr ''postgres://'',
     run_program = (\<lambda>argv dir env w. (('''', None), w)), free_address = Inr ''127.0.0.1:1'',
     service_start = (\<lambda>dir env w. (None, w)), healthy = (\<lambda>n. n = 2), ready_events = (\<lambda>_. Ticked), service_output = None,
     open_pool = None, Error = (\<lambda>_. ''failed''), time_started = UnixMilli 0, time_finished = UnixMilli 5,
     context_error = None, temp_name = ''1''\<rparr>"

theorem evaluation_returns_witness:
  "\<exists>r w'. Evaluate plain_platform silent_environment ''/candidate'' ''cursor-pagination'' () = Some (r, w')"
  by (rule evaluation_returns [of _ 2]) (simp_all add: plain_platform_def task_names)

section \<open>What is reported\<close>

definition case_manifest :: "caseManifest" where
  "case_manifest = map (\<lambda>d. \<lparr>mc_ID = def_ID d, mc_Task = def_Task d, Required = True\<rparr>) (caseDefinitions :: unit caseDefinition list)"

definition registry :: "(string \<times> string) list" where
  "registry = map (\<lambda>d. (def_ID d, def_Task d)) (caseDefinitions :: unit caseDefinition list)"

lemma registry_any: "map (\<lambda>d. (def_ID d, def_Task d)) caseDefinitions = registry"
  by (simp add: registry_def caseDefinitions_def case_of_def)

lemma registry_distinct: "distinct (map fst registry)"
  by (simp add: registry_def caseDefinitions_def case_of_def)

definition evidence_texts :: "'w platform \<Rightarrow> string set" where
  "evidence_texts P = {''passed''} \<union> range (Error P) \<union> range (\<lambda>err. ''reset database: '' @ Error P err)
     \<union> range (\<lambda>err. ''not run: '' @ Error P err)"

lemma evidence_intros:
  "''passed'' \<in> evidence_texts P" "Error P err \<in> evidence_texts P"
  "''reset database: '' @ Error P err \<in> evidence_texts P" "''not run: '' @ Error P err \<in> evidence_texts P"
  unfolding evidence_texts_def by blast+

text \<open>The report of one case: its applicability, and a verdict with evidence exactly where it applies; only a passed case says so.\<close>

definition case_reported :: "'w platform \<Rightarrow> string \<Rightarrow> string \<times> string \<Rightarrow> evaluatorCase \<Rightarrow> bool" where
  "case_reported P task spec c \<longleftrightarrow>
     ec_ID c = fst spec \<and> ec_Applicable c = (snd spec = taskAll \<or> snd spec = task)
     \<and> (if ec_Applicable c
        then ec_Passed c \<noteq> None \<and> ec_Evidence c \<in> evidence_texts P \<and> (ec_Passed c = Some True \<longrightarrow> ec_Evidence c = ''passed'')
        else ec_Passed c = None)"

definition all_reported :: "'w platform \<Rightarrow> string \<Rightarrow> evaluatorCase list \<Rightarrow> bool" where
  "all_reported P task cases \<longleftrightarrow> list_all2 (case_reported P task) registry cases"

lemma judged_reported:
  "applicable_to task d \<Longrightarrow> evidence \<in> evidence_texts P \<Longrightarrow> passed \<longrightarrow> evidence = ''passed'' \<Longrightarrow> t = def_Task d
     \<Longrightarrow> case_reported P task (def_ID d, t) (judged_case d passed evidence)"
  "\<not> applicable_to task d \<Longrightarrow> t = def_Task d \<Longrightarrow> case_reported P task (def_ID d, t) (skipped_case d)"
  by (auto simp: case_reported_def judged_case_def skipped_case_def applicable_to_def)

lemma run_case_reported:
  "run_case P E task d s = Some (c, s') \<Longrightarrow> case_reported P task (def_ID d, def_Task d) c"
  unfolding run_case_def
  by (cases "applicable_to task d")
    (auto intro!: judged_reported evidence_intros simp del: append.simps split: option.splits sum.splits if_splits)

lemma run_cases_reported:
  "run_cases P E task ds s = Some (success, cases, s') \<Longrightarrow>
     list_all2 (case_reported P task) (map (\<lambda>d. (def_ID d, def_Task d)) ds) cases
     \<and> success = list_all (\<lambda>c. ec_Passed c \<noteq> Some False) cases"
  by (induction ds arbitrary: s success cases)
    (auto split: option.splits prod.splits dest: run_case_reported)

lemma setupFailureCases_reported: "all_reported P task (setupFailureCases (caseDefinitions :: unit caseDefinition list) task (Error P err))"
  unfolding all_reported_def registry_def setupFailureCases_def
  by (auto simp: list_all2_map1 list_all2_map2 list.rel_refl_strong simp del: append.simps intro!: list.rel_refl_strong judged_reported evidence_intros)

lemma some_case_applies: "\<exists>c \<in> set (setupFailureCases (caseDefinitions :: unit caseDefinition list) task err). ec_Applicable c \<and> ec_Passed c = Some False"
  by (simp add: setupFailureCases_def caseDefinitions_def case_of_def applicable_to_def judged_case_def)

text \<open>What every result of \<open>Evaluate\<close> satisfies; \<open>ready\<close> is needed for success.\<close>

definition sound_result :: "'w platform \<Rightarrow> string \<Rightarrow> evaluation_result \<Rightarrow> bool" where
  "sound_result P task r \<longleftrightarrow>
     res_Task r = task \<and> all_reported P task (res_BehaviorCases r)
     \<and> (res_CompleteSuccess r \<longleftrightarrow> Ready (res_Setup r) \<and> list_all (\<lambda>c. ec_Applicable c \<longrightarrow> ec_Passed c = Some True) (res_BehaviorCases r))
     \<and> (Ready (res_Setup r) \<longrightarrow> Postgres (res_Setup r) \<and> setup_Build (res_Setup r) \<and> setup_Migrations (res_Setup r))"

lemma failSetup_sound:
  assumes "res_Task r = task" "\<not> res_CompleteSuccess r"
    "Ready (res_Setup r) \<longrightarrow> Postgres (res_Setup r) \<and> setup_Build (res_Setup r) \<and> setup_Migrations (res_Setup r)"
  shows "sound_result P task (failSetup P r err)"
  using assms some_case_applies [of task "Error P err"]
  by (auto simp: sound_result_def failSetup_def setupFailureCases_reported list_all_iff Bex_def)

lemma run_suite_sound:
  assumes "run_suite P E r w = Some (r', w')" "res_Task r = task" "\<not> res_CompleteSuccess r"
    "Ready (res_Setup r)" "Postgres (res_Setup r) \<and> setup_Build (res_Setup r) \<and> setup_Migrations (res_Setup r)"
  shows "sound_result P task r'"
proof (cases "open_pool P")
  case (Some err)
  then show ?thesis using assms failSetup_sound [of r task P] by (auto simp: run_suite_def)
next
  case None
  then obtain success cases s where
    run: "run_cases P E task caseDefinitions \<lparr>world = w, suite_task = task, createdID = ''''\<rparr> = Some (success, cases, s)"
    and r': "r' = r\<lparr>res_CompleteSuccess := success, res_BehaviorCases := cases, ServiceLogs := logs P\<rparr>"
    using assms(1,2) by (auto simp: run_suite_def split: option.splits prod.splits)
  note rep = run_cases_reported [OF run, unfolded registry_any]
  then have reported: "case_reported P task spec c" if "(spec, c) \<in> set (zip registry cases)" for spec c
    using that by (auto simp: list_all2_iff)
  have "list_all (\<lambda>c. ec_Passed c \<noteq> Some False) cases \<longleftrightarrow> list_all (\<lambda>c. ec_Applicable c \<longrightarrow> ec_Passed c = Some True) cases"
  proof (unfold list_all_iff, intro ball_cong refl)
    fix c assume "c \<in> set cases"
    then obtain spec where "case_reported P task spec c"
      using rep reported by (metis in_set_impl_in_set_zip2 list_all2_lengthD)
    then show "(ec_Passed c \<noteq> Some False) = (ec_Applicable c \<longrightarrow> ec_Passed c = Some True)"
      by (cases "ec_Passed c") (auto simp: case_reported_def split: if_splits)
  qed
  with rep r' assms show ?thesis by (simp add: sound_result_def all_reported_def)
qed

lemma Evaluate_sound: 
  assumes "Evaluate P E dir task w = Some (r, w')"
  shows "sound_result P task r"
proof -
  let ?r = "stage (setup_Migrations_update (\<lambda>_. True)) (stage (setup_Build_update (\<lambda>_. True)) (stage (Postgres_update (\<lambda>_. True)) (new_result P dir task)))"
  have serve: "sound_result P task r" if "serve P E ?r u w = Some (r, w')" for u w
    using that run_suite_sound [of P E "stage (Ready_update (\<lambda>_. True)) ?r" _ r w' task]
    by (auto simp: serve_def new_result_def stage_def no_evaluatorResult_def intro!: failSetup_sound
        split: sum.splits option.splits prod.splits)
  have "sound_result P task r" if "build_and_migrate P E (stage (Postgres_update (\<lambda>_. True)) (new_result P dir task)) u w = Some (r, w')" for u w
    using that serve unfolding build_and_migrate_def Let_def
    by (auto simp: new_result_def stage_def no_evaluatorResult_def intro!: failSetup_sound split: option.splits prod.splits)
  with assms show ?thesis
    by (auto simp: Evaluate_def Let_def new_result_def stage_def no_evaluatorResult_def intro!: failSetup_sound
        split: if_splits sum.splits option.splits)
qed

text \<open>
  C10: a finished evaluation reports every case of the registry once, in its order, with a verdict and evidence
  exactly where the case applies to the selected task; it claims complete success exactly when the candidate was
  built, migrated and ready and every applicable case passed.
\<close>

theorem every_case_reported:
  assumes "Evaluate P E dir task w = Some (r, w')"
  shows "list_all2 (case_reported P task) registry (res_BehaviorCases r)
    \<and> (res_CompleteSuccess r \<longleftrightarrow> Ready (res_Setup r) \<and> filter case_failed (res_BehaviorCases r) = [])
    \<and> (res_CompleteSuccess r \<longrightarrow> Postgres (res_Setup r) \<and> setup_Build (res_Setup r) \<and> setup_Migrations (res_Setup r))"
proof -
  have "filter case_failed (res_BehaviorCases r) = [] \<longleftrightarrow>
      list_all (\<lambda>c. ec_Applicable c \<longrightarrow> ec_Passed c = Some True) (res_BehaviorCases r)"
    by (auto simp: filter_empty_conv case_failed_def list_all_iff)
  with Evaluate_sound [OF assms] show ?thesis by (auto simp: sound_result_def all_reported_def)
qed

text \<open>A candidate that does not build.\<close>

definition broken_platform :: "unit platform" where
  "broken_platform = plain_platform\<lparr>run_program := (\<lambda>argv dir env w. ((''no rule'', Some ''exit status 2''), w))\<rparr>"

lemma broken_evaluation:
  "Evaluate broken_platform silent_environment dir ''cursor-pagination'' ()
   = Some (failSetup broken_platform (stage (Postgres_update (\<lambda>_. True)) (new_result broken_platform dir ''cursor-pagination''))
       (command_error ''build candidate: %w: %s'' (tailEvidence ''no rule'' evidenceLogLimit) ''exit status 2''), ())"
  by (simp add: Evaluate_def Let_def build_and_migrate_def runCommand_def broken_platform_def plain_platform_def task_names ValidTask_def
      new_result_def stage_def)

theorem every_case_reported_witness:
  "\<exists>r. Evaluate broken_platform silent_environment ''/candidate'' ''cursor-pagination'' () = Some (r, ())
     \<and> \<not> res_CompleteSuccess r \<and> length (res_BehaviorCases r) = 44"
proof -
  note e = broken_evaluation [of "''/candidate''"]
  have "length registry = 44" by (simp add: registry_def caseDefinitions_def)
  with every_case_reported [OF e] e show ?thesis
    by (auto simp: failSetup_def stage_def new_result_def no_evaluatorResult_def dest!: list_all2_lengthD)
qed

section \<open>The report read by the assembler\<close>

lemma decode_case: "dec_struct
    [(''id'', at_field ec_ID ec_ID_update dec_string), (''applicable'', at_field ec_Applicable ec_Applicable_update dec_bool),
     (''passed'', at_field ec_Passed ec_Passed_update (dec_ptr False dec_bool)),
     (''evidence'', at_field ec_Evidence ec_Evidence_update dec_string)] (case_result_json c)
    \<lparr>ec_ID = '''', ec_Applicable = False, ec_Passed = None, ec_Evidence = ''''\<rparr> = (c, True)"
  by (cases "ec_Passed c") (simp_all add: case_result_json_def dec_struct_def select_field_def at_field_def dec_ptr_def)

lemma decode_elements: "(\<And>x. x \<in> set xs \<Longrightarrow> d (enc x) z = (x, True)) \<Longrightarrow> dec_elements z d (map enc xs) [] = (xs, True)"
  by (induction xs) auto

lemma decode_setup: "dec_struct
    [(''postgres'', at_field Postgres Postgres_update dec_bool), (''build'', at_field setup_Build setup_Build_update dec_bool),
     (''migrations'', at_field setup_Migrations setup_Migrations_update dec_bool),
     (''serviceReady'', at_field Ready Ready_update dec_bool),
     (''evidence'', at_field setup_Evidence setup_Evidence_update dec_string)] (setup_json s)
    \<lparr>Postgres = False, setup_Build = False, setup_Migrations = False, Ready = False, setup_Evidence = ''''\<rparr> = (s, True)"
  by (cases s) (simp add: setup_json_def dec_struct_def select_field_def at_field_def)

lemma unknown_report_fields:
  "select_field [''completeSuccess'', ''setup'', ''behaviorCases''] ''schemaVersion'' = None"
  "select_field [''completeSuccess'', ''setup'', ''behaviorCases''] ''candidate'' = None"
  "select_field [''completeSuccess'', ''setup'', ''behaviorCases''] ''task'' = None"
  "select_field [''completeSuccess'', ''setup'', ''behaviorCases''] ''startedAt'' = None"
  "select_field [''completeSuccess'', ''setup'', ''behaviorCases''] ''finishedAt'' = None"
  "select_field [''completeSuccess'', ''setup'', ''behaviorCases''] ''serviceLogs'' = None"
  by (simp_all add: select_field_def fold_char_def)

lemma decode_report:
  "dec_evaluatorResult (evaluation_json_of started finished r) no_evaluatorResult =
     (\<lparr>er_CompleteSuccess = res_CompleteSuccess r, Setup = res_Setup r, er_BehaviorCases = res_BehaviorCases r\<rparr>, True)"
proof -
  have known: "select_field [''completeSuccess'', ''setup'', ''behaviorCases''] k = Some k"
    if "k \<in> {''completeSuccess'', ''setup'', ''behaviorCases''}" for k using that by (simp add: select_field_def)
  have fields: "dec_slice \<lparr>ec_ID = '''', ec_Applicable = False, ec_Passed = None, ec_Evidence = ''''\<rparr> (dec_struct
      [(''id'', at_field ec_ID ec_ID_update dec_string), (''applicable'', at_field ec_Applicable ec_Applicable_update dec_bool),
       (''passed'', at_field ec_Passed ec_Passed_update (dec_ptr False dec_bool)),
       (''evidence'', at_field ec_Evidence ec_Evidence_update dec_string)])
      (JArray (map case_result_json (res_BehaviorCases r))) [] = (res_BehaviorCases r, True)"
    unfolding dec_slice_def json.case by (rule decode_elements) (rule decode_case)
  show ?thesis
    unfolding dec_evaluatorResult_def evaluation_json_of_def no_evaluatorResult_def dec_struct_def [of "[(''completeSuccess'', _), _, _]"]
    by (simp add: unknown_report_fields known at_field_def fields decode_setup)
qed

lemma ascii_json_time: "json_time t = Some s \<Longrightarrow> ascii s"
  by (auto simp: json_time_def split: if_splits)

text \<open>A report whose texts are valid UTF-8.\<close>

definition text_report :: "evaluation_result \<Rightarrow> bool" where
  "text_report r \<longleftrightarrow> utf8 (res_Candidate r) \<and> utf8 (res_Task r) \<and> utf8 (setup_Evidence (res_Setup r)) \<and> utf8 (ServiceLogs r)
     \<and> list_all (\<lambda>c. utf8 (ec_ID c) \<and> utf8 (ec_Evidence c)) (res_BehaviorCases r)"

lemma int_literal_one: "int_literal (FormatInt 1)" by (simp add: int_literal_def exI [of _ 1])

lemma report_printable:
  assumes "text_report r" "utf8 started" "utf8 finished"
  shows "printable 0 (evaluation_json_of started finished r)"
proof -
  have "printable d (case_result_json c)" if "c \<in> set (res_BehaviorCases r)" "d < 9000" for c d
    using that assms(1) by (cases "ec_Passed c") (simp_all add: case_result_json_def text_report_def list_all_iff del: printable.simps(1))
  moreover have "printable d (setup_json (res_Setup r))" if "d < 9000" for d
    using that assms(1) by (simp add: setup_json_def text_report_def del: printable.simps(1))
  ultimately show ?thesis
    using assms int_literal_one by (simp add: evaluation_json_of_def text_report_def)
qed

lemma report_read_back:
  assumes "evaluation_report r = Some report" "text_report r"
  shows "Unmarshal dec_evaluatorResult no_evaluatorResult report =
    (\<lparr>er_CompleteSuccess = res_CompleteSuccess r, Setup = res_Setup r, er_BehaviorCases = res_BehaviorCases r\<rparr>, True)"
proof -
  obtain started finished where t: "json_time (res_StartedAt r) = Some started" "json_time (res_FinishedAt r) = Some finished"
    and report: "report = MarshalIndent (evaluation_json_of started finished r) @ [CHR 0x0A]"
    using assms(1) by (auto simp: evaluation_report_def bind_eq_Some_conv)
  have "parse_json report = Some (evaluation_json_of started finished r)"
    unfolding report by (rule parse_printed) (use report_printable [OF assms(2)] t ascii_json_time in \<open>auto simp: ends_value_def skip_ws_def is_ws_def\<close>)
  then show ?thesis by (simp add: Unmarshal_def decode_report)
qed

lemma manifest_case:
  assumes "(i, t) \<in> set registry"
  shows "expected_cases case_manifest i = Some (t, True)"
proof -
  have spec: "map (\<lambda>item. (mc_ID item, mc_Task item, manifest_case.Required item)) case_manifest = map (\<lambda>(i, t). (i, t, True)) registry"
    by (simp add: case_manifest_def registry_def)
  have "distinct (map fst (rev (map (\<lambda>(i, t). (i, t, True)) registry)))"
    using registry_distinct by (simp only: rev_map [symmetric] map_map distinct_rev) (simp add: comp_def case_prod_beta)
  moreover have "(i, t, True) \<in> set (rev (map (\<lambda>(i, t). (i, t, True)) registry))" using assms by force
  ultimately show ?thesis unfolding expected_cases_def spec by (rule map_of_is_SomeI)
qed

lemma evidence_not_blank:
  assumes "\<And>err. TrimSpace (Error P err) \<noteq> ''''" "e \<in> evidence_texts P"
  shows "TrimSpace e \<noteq> ''''"
proof -
  have "TrimSpace (CHR ''p'' # s) \<noteq> ''''" "TrimSpace (CHR ''r'' # s) \<noteq> ''''" "TrimSpace (CHR ''n'' # s) \<noteq> ''''" for s
    by (rule TrimSpace_head; simp add: IsSpace_def)+
  then show ?thesis using assms unfolding evidence_texts_def by auto
qed

lemma reported_cases:
  assumes "all_reported P task cases" "\<And>err. TrimSpace (Error P err) \<noteq> ''''"
  shows "list_all (reported task case_manifest) cases" "checkRoster cases ManifestIDs = None"
proof -
  have ids: "map ec_ID cases = map fst registry"
    using assms(1) unfolding all_reported_def
    by (auto simp: list_all2_conv_all_nth case_reported_def intro: nth_equalityI)
  have "set ManifestIDs = set (map fst registry)" by (simp add: ManifestIDs_def registry_def image_image)
  then show "checkRoster cases ManifestIDs = None" unfolding checkRoster_None ids using registry_distinct by simp
  show "list_all (reported task case_manifest) cases"
  proof (unfold list_all_iff, rule ballI)
    fix c assume "c \<in> set cases"
    then obtain i t where spec: "(i, t) \<in> set registry" "case_reported P task (i, t) c"
      using assms(1) unfolding all_reported_def list_all2_iff
      by (metis in_set_impl_in_set_zip2 in_set_zipE case_prodD surj_pair)
    then show "reported task case_manifest c"
      using manifest_case [OF spec(1)] evidence_not_blank [OF assms(2)]
      by (auto simp: reported_def case_reported_def applies_def taskAll_def split: if_splits)
  qed
qed

lemma manifest_ids: "set ManifestIDs = set (map mc_ID case_manifest)"
  by (simp add: ManifestIDs_def case_manifest_def image_image)

text \<open>
  C3: from the evaluator to the frozen protocol. When the program the assembler starts is this evaluator, whose report is valid UTF-8 and whose
  errors have a text, and PostgreSQL came up, the assembler of a direct run embeds an evaluation, and the embedded evaluation
  meets the contract that \<open>freezecheck run\<close> enforces against the case manifest; it is a complete success only if the evaluator said so.
\<close>

theorem evaluator_report_accepted:
  assumes "Evaluate P E dir (Task c) w = Some (r, w')" "evaluation_report r = Some report"
    "text_report r" "\<And>err. TrimSpace (Error P err) \<noteq> ''''" "Postgres (res_Setup r)" "Treatment c \<noteq> ''codegen''"
    "evaluator_process ext (evaluator_command bin (Task c) ws) (withoutProviderCredentials environment)
       = Exited (if res_CompleteSuccess r then 0 else 1) report stderr"
  shows "\<exists>raw ev. evaluateCandidate ext environment fs opts bin root ws c ManifestIDs = (raw, Inr ev)
    \<and> evaluation_contract (Task c) case_manifest (as_evaluation ev)
    \<and> (eval_CompleteSuccess ev \<longrightarrow> filter case_failed (res_BehaviorCases r) = [])"
proof -
  let ?s = "\<lparr>er_CompleteSuccess = res_CompleteSuccess r, Setup = res_Setup r, er_BehaviorCases = res_BehaviorCases r\<rparr>"
  let ?ev = "embed_evaluation ext fs root ws c ?s"
  note read = report_read_back [OF assms(2,3)]
  have all: "all_reported P (Task c) (res_BehaviorCases r)" using Evaluate_sound [OF assms(1)] by (simp add: sound_result_def)
  note rep = reported_cases [OF all assms(4)]
  have "registry \<noteq> []" by (simp add: registry_def caseDefinitions_def)
  then have "res_BehaviorCases r \<noteq> []" using all by (auto simp: all_reported_def)
  then have "\<exists>raw. evaluateCandidate ext environment fs opts bin root ws c ManifestIDs = (raw, Inr ?ev)"
    using assms(5,6) rep(2) read unfolding evaluateCandidate_def Let_def assms(7) by (simp add: process_failure_def command_stdout_def)
  moreover have "evaluation_contract (Task c) case_manifest (as_evaluation ?ev)"
    by (rule embedded_contract [OF _ manifest_ids]) (use rep in \<open>simp_all add: case_manifest_def list_all_iff\<close>)
  moreover have "eval_CompleteSuccess ?ev \<longrightarrow> filter case_failed (res_BehaviorCases r) = []"
    by (simp add: embed_evaluation_def Let_def filter_empty_conv list_ex_iff split: prod.splits)
  ultimately show ?thesis by blast
qed

lemma broken_report:
  fixes r defines "r \<equiv> failSetup broken_platform (stage (Postgres_update (\<lambda>_. True)) (new_result broken_platform ''/candidate'' ''cursor-pagination''))
     (command_error ''build candidate: %w: %s'' (tailEvidence ''no rule'' evidenceLogLimit) ''exit status 2'')"
  shows "text_report r" "\<exists>report. evaluation_report r = Some report" "\<not> res_CompleteSuccess r" "Postgres (res_Setup r)"
proof -
  have "year_of_days 719162 = (1970, 0)" by (simp add: year_of_days_def)
  then have "year_of 0 = 1970" "year_of 5000000 = 1970" by (simp_all add: year_of_def time_fields_def case_prod_beta)
  then show "\<exists>report. evaluation_report r = Some report"
    by (simp add: r_def evaluation_report_def json_time_def failSetup_def stage_def new_result_def broken_platform_def
        plain_platform_def UnixMilli_def)
  show "\<not> res_CompleteSuccess r" "Postgres (res_Setup r)"
    by (simp_all add: r_def failSetup_def stage_def new_result_def)
  have "list_all (\<lambda>(i, t). ascii i) registry" by (simp add: registry_def caseDefinitions_def case_of_def)
  then have "list_all (\<lambda>c. utf8 (ec_ID c) \<and> utf8 (ec_Evidence c)) (setupFailureCases (caseDefinitions :: unit caseDefinition list)
      ''cursor-pagination'' ''failed'')"
    by (auto simp: setupFailureCases_def registry_def list_all_iff judged_case_def skipped_case_def)
  then show "text_report r"
    by (simp add: r_def text_report_def failSetup_def stage_def new_result_def broken_platform_def plain_platform_def no_evaluatorResult_def)
qed

theorem evaluator_report_accepted_witness:
  "\<exists>report raw ev. evaluateCandidate (sample_ext\<lparr>evaluator_process := (\<lambda>_ _. Exited 1 report '''')\<rparr>) [] sample_fs sample_options ''e''
       ''/'' ''/run'' (sample_cell\<lparr>Task := ''cursor-pagination''\<rparr>) ManifestIDs = (raw, Inr ev)
     \<and> evaluation_contract ''cursor-pagination'' case_manifest (as_evaluation ev)"
proof -
  let ?c = "sample_cell\<lparr>Task := ''cursor-pagination''\<rparr>"
  obtain report where r: "evaluation_report (failSetup broken_platform
      (stage (Postgres_update (\<lambda>_. True)) (new_result broken_platform ''/candidate'' ''cursor-pagination''))
      (command_error ''build candidate: %w: %s'' (tailEvidence ''no rule'' evidenceLogLimit) ''exit status 2'')) = Some report"
    using broken_report(2) by blast
  have error: "TrimSpace (Error broken_platform err) \<noteq> ''''" for err
    using TrimSpace_head [of "CHR ''f''" "''ailed''"] by (simp add: broken_platform_def plain_platform_def IsSpace_def)
  have "Evaluate broken_platform silent_environment ''/candidate'' (Task ?c) () = Some (failSetup broken_platform
      (stage (Postgres_update (\<lambda>_. True)) (new_result broken_platform ''/candidate'' ''cursor-pagination''))
      (command_error ''build candidate: %w: %s'' (tailEvidence ''no rule'' evidenceLogLimit) ''exit status 2''), ())"
    using broken_evaluation by simp
  from evaluator_report_accepted [OF this r broken_report(1) error broken_report(4), where
      ext = "sample_ext\<lparr>evaluator_process := (\<lambda>_ _. Exited 1 report '''')\<rparr>" and bin = "''e''" and ws = "''/run''" and
      environment = "[]" and stderr = "''''" and fs = sample_fs and opts = sample_options and root = "''/''"] broken_report(3)
  have "\<exists>raw ev. evaluateCandidate (sample_ext\<lparr>evaluator_process := (\<lambda>_ _. Exited 1 report '''')\<rparr>) [] sample_fs sample_options ''e''
       ''/'' ''/run'' ?c ManifestIDs = (raw, Inr ev) \<and> evaluation_contract (Task ?c) case_manifest (as_evaluation ev)"
    by (simp add: sample_cell_def) blast
  then show ?thesis by auto
qed

section \<open>The exit code\<close>

text \<open>
  The exit code says what happened. The command exits with 0 exactly when it delivered the report of a complete success, with 1
  when it delivered the report of anything else, and otherwise with 2; an exit with 2 prints nothing, and
  without an output file no exit changes a file.
\<close>

theorem exit_codes:
  assumes "evaluator_main P E flags fs w = Some (code, printed, fs')"
  shows "code \<in> {0, 1, 2} \<and> (code = 2 \<longrightarrow> printed = '''')
    \<and> (code \<noteq> 2 \<longrightarrow> (\<exists>r w' report. Evaluate P E (Abs fs (flag_candidate flags)) (flag_task flags) w = Some (r, w')
         \<and> context_error P = None \<and> evaluation_report r = Some report \<and> (code = 0 \<longleftrightarrow> res_CompleteSuccess r)
         \<and> (if flag_output flags = ''-'' then printed = report
            else writeAtomic (temp_name P) fs (flag_output flags) report = (True, fs'))))
    \<and> (flag_output flags = ''-'' \<longrightarrow> fs' = fs)"
  using assms
  by (cases "flag_output flags = ''-''")
    (auto simp: evaluator_main_def Let_def split: if_splits option.splits prod.splits bool.splits)

theorem exit_codes_witness:
  "\<exists>printed fs'. evaluator_main broken_platform silent_environment
       \<lparr>flag_candidate = '''', flag_task = ''nullable-patch'', flag_output = ''-'', positional = []\<rparr> sample_fs () = Some (2, printed, fs')
     \<and> printed = '''' \<and> fs' = sample_fs"
proof -
  have "evaluator_main broken_platform silent_environment
      \<lparr>flag_candidate = '''', flag_task = ''nullable-patch'', flag_output = ''-'', positional = []\<rparr> sample_fs () = Some (2, '''', sample_fs)"
    by (simp add: evaluator_main_def)
  with exit_codes [OF this] show ?thesis by simp
qed

section \<open>Credentials\<close>

lemma candidateEnvironment_key:
  "candidateEnvironment (before @ (''OPENROUTER_API_KEY='' @ key) # behind) extra = candidateEnvironment (before @ behind) extra"
  by (simp add: candidateEnvironment_def evaluator_credentials_def HasPrefix_iff)

lemma environ_fields:
  fixes P :: "'w platform"
  defines "Q \<equiv> \<lambda>env. P\<lparr>os_environ := env\<rparr>"
  shows "os_environ (Q env) = env" "postgres_run (Q env) = postgres_run P" "ConnectionString (Q env) = ConnectionString P"
    "run_program (Q env) = run_program P" "free_address (Q env) = free_address P" "service_start (Q env) = service_start P"
    "healthy (Q env) = healthy P" "ready_events (Q env) = ready_events P" "service_output (Q env) = service_output P"
    "open_pool (Q env) = open_pool P" "Error (Q env) = Error P" "time_started (Q env) = time_started P"
    "time_finished (Q env) = time_finished P"
  by (simp_all add: Q_def)

lemma run_cases_environ: "run_cases (P\<lparr>os_environ := env\<rparr>) E task ds s = run_cases P E task ds s"
proof (induction ds arbitrary: s)
  case (Cons d ds)
  have "run_case (P\<lparr>os_environ := env\<rparr>) E task d s = run_case P E task d s"
    unfolding run_case_def environ_fields by (rule refl)
  then show ?case unfolding run_cases.simps Cons.IH by simp
qed simp

text \<open>
  The candidate never sees the provider key. An evaluation runs the same, with the same environments for the candidate's build,
  migrations and service, whether or not the environment of the evaluator holds an \<open>OPENROUTER_API_KEY\<close> entry.
\<close>

theorem candidate_never_sees_key:
  "Evaluate (P\<lparr>os_environ := before @ (''OPENROUTER_API_KEY='' @ key) # behind\<rparr>) E dir task w
     = Evaluate (P\<lparr>os_environ := before @ behind\<rparr>) E dir task w"
  unfolding Evaluate_def build_and_migrate_def serve_def run_suite_def runCommand_def startService_def failSetup_def new_result_def
    logs_def environ_fields run_cases_environ candidateEnvironment_key by (rule refl)

end
