(* ===== verification/Eval_Props.thy ===== *)
theory Eval_Props
  imports Eval_Locking Eval_Pagination Go_Marshal Task_Core
begin

text \<open>
  What single checks of the evaluator decide: the race of two updates, the walk over all pages, the bound on
  evidence, and the patterns for identifiers and times.
\<close>

section \<open>The race\<close>

definition won :: "'w environment \<Rightarrow> go_error + http_response \<Rightarrow> string \<Rightarrow> bool" where
  "won E result title \<longleftrightarrow> (case result of Inl _ \<Rightarrow> False | Inr r \<Rightarrow>
     StatusCode r = 200 \<and> ETag r = quoted ''2''
     \<and> (case decodeTaskFor E r TaskLocking of Inl _ \<Rightarrow> False | Inr t \<Rightarrow> wire_Version t = Some 2 \<and> wire_Title t = title))"

definition lost :: "'w environment \<Rightarrow> go_error + http_response \<Rightarrow> bool" where
  "lost E result \<longleftrightarrow> (case result of Inl _ \<Rightarrow> False | Inr r \<Rightarrow>
     StatusCode r = 412 \<and> expectProblemResponse E r wanted_preconditionFailed = Inr ())"

lemma judge_step:
  "judge_outcomes E (x # rest) (n, m, t0) = Inr acc \<longleftrightarrow>
     (\<exists>t. won E x t \<and> judge_outcomes E rest (Suc n, m, t) = Inr acc)
     \<or> lost E x \<and> judge_outcomes E rest (n, Suc m, t0) = Inr acc"
  by (cases x) (auto simp: won_def lost_def split: sum.splits if_splits)

lemma not_both: "won E x t \<Longrightarrow> \<not> lost E x"
  by (auto simp: won_def lost_def split: sum.splits)

lemma single_winner_iff:
  "winner_of E [a, b] = Inr t \<longleftrightarrow> t \<in> {''first'', ''second''} \<and> (won E a t \<and> lost E b \<or> lost E a \<and> won E b t)"
proof -
  have "winner_of E [a, b] = Inr t \<longleftrightarrow> judge_outcomes E [a, b] (0, 0, '''') = Inr (1, 1, t) \<and> t \<in> {''first'', ''second''}"
    by (auto simp: winner_of_def simp del: judge_outcomes.simps split: sum.splits prod.splits if_splits)
  also have "judge_outcomes E [a, b] (0, 0, '''') = Inr (1, 1, t) \<longleftrightarrow> won E a t \<and> lost E b \<or> lost E a \<and> won E b t"
    by (auto simp: judge_step)
  finally show ?thesis by blast
qed

text \<open>
  C25: the order in which the two answers of the race arrive does not matter. The case accepts exactly the two outcomes in which
  one update succeeded with version 2 and one of the two titles and the other was refused as stale.
\<close>

theorem single_winner_exact:
  "winner_of E [a, b] = Inr t \<longleftrightarrow> t \<in> {''first'', ''second''} \<and> (won E a t \<and> lost E b \<or> lost E a \<and> won E b t)"
  by (rule single_winner_iff)

section \<open>All pages\<close>

text \<open>
  A candidate that pages correctly: \<open>token k\<close> is the cursor of page \<open>k\<close>, a page holds the next \<open>limit\<close> identifiers, and
  the last one has no cursor.
\<close>

definition pages_of :: "'w environment \<Rightarrow> 'w suite \<Rightarrow> nat \<Rightarrow> string list \<Rightarrow> (nat \<Rightarrow> string) \<Rightarrow> bool" where
  "pages_of E s limit ids token \<longleftrightarrow> (\<forall>k. k = 0 \<or> k * limit < length ids \<longrightarrow>
     (\<exists>page. fetchPage E (Some limit) (token k) s = Some (Inr page, s)
        \<and> map wire_ID (items page) = take limit (drop (k * limit) ids)
        \<and> NextCursor page = (if Suc k * limit < length ids then Some (JString (token (Suc k))) else None)))"

lemma collect_correct:
  assumes "pages_of E s limit ids token"
    "\<And>k. Suc k * limit < length ids \<Longrightarrow> token (Suc k) \<noteq> '''' \<and> token (Suc k) \<noteq> token k" "0 < limit"
    "length ids \<le> (k + left) * limit" "k = 0 \<or> k * limit < length ids" "0 < left"
  shows "collect_pages E left limit (token k) (take (k * limit) ids) s = Some (Inr ids, s)"
  using assms(4-6)
proof (induction left arbitrary: k)
  case (Suc left)
  obtain page where p: "fetchPage E (Some limit) (token k) s = Some (Inr page, s)"
    "map wire_ID (items page) = take limit (drop (k * limit) ids)"
    "NextCursor page = (if Suc k * limit < length ids then Some (JString (token (Suc k))) else None)"
    using assms(1) Suc.prems(2) unfolding pages_of_def by blast
  have step: "test_bind (fetchPage E (Some limit) (token k)) cont s = cont page s" for cont :: "taskList \<Rightarrow> ('a, 'b) test"
    using p(1) by (simp add: test_bind_def)
  have "length (items page) = length (take limit (drop (k * limit) ids))" using p(2) by (metis length_map)
  then have size: "length (items page) \<le> limit" by simp
  have sofar: "take (k * limit) ids @ map wire_ID (items page) = take (Suc k * limit) ids"
    unfolding p(2) using take_add [of "k * limit" limit ids] by (simp add: add.commute)
  show ?case
  proof (cases "Suc k * limit < length ids")
    case True
    have "pageCursor page = Inr (Some (token (Suc k)))" using p(3) True assms(2) [OF True] by (simp add: pageCursor_exact)
    moreover have "0 < left" using True Suc.prems(1) by (cases left) auto
    moreover have "length ids \<le> (Suc k + left) * limit" using Suc.prems(1) by simp
    ultimately show ?thesis
      using Suc.IH [of "Suc k"] True size assms(2) [OF True] sofar
      by (simp add: step del: mult_Suc)
  next
    case False
    then have "pageCursor page = Inr None" using p(3) by (simp add: pageCursor_exact)
    moreover have "take (Suc k * limit) ids = ids" using False by simp
    ultimately show ?thesis using size sofar
      by (simp add: step test_return_def del: mult_Suc)
  qed
qed simp

text \<open>
  The walk over the pages passes a correct candidate. When the pages of a candidate partition the identifiers and there
  are at most 100 of them, \<open>collectPages\<close> follows the cursors to the end, returns all identifiers in order and leaves
  the candidate as it was.
\<close>

theorem collect_pages_complete:
  assumes "pages_of E s limit ids token" "token 0 = ''''" "\<forall>k. token (Suc k) \<noteq> '''' \<and> token (Suc k) \<noteq> token k"
    "0 < limit" "length ids \<le> 100 * limit"
  shows "collectPages E limit s = Some (Inr ids, s)"
  using collect_correct [OF assms(1), where k = 0 and left = 100] assms(2-5) by (simp add: collectPages_def)

definition item_doc :: "string \<Rightarrow> json" where
  "item_doc i = JObject [(''id'', JString i), (''title'', JString ''t''), (''createdAt'', JString ''c'')]"

definition paged_doc :: "string \<Rightarrow> json" where
  "paged_doc path =
     (if path = ''/tasks?limit=2''
      then JObject [(''items'', JArray [item_doc ''a'', item_doc ''b'']), (''nextCursor'', JString ''x'')]
      else JObject [(''items'', JArray [item_doc ''c''])])"

definition paged_environment :: "unit environment" where
  "paged_environment = \<lparr>Do = (\<lambda>r w. (Inr \<lparr>StatusCode = 200, ContentType = ''application/json'', MediaType = Some ''application/json'',
       ETag = '''', Body = MarshalIndent (paged_doc (request_Path r)), BrokenOff = None\<rparr>, w)),
     DoTogether = (\<lambda>rs w. ([], w)), Exec = (\<lambda>sql args w. (None, w)), QueryRow = (\<lambda>sql args w. (Inl '''', w)),
     decoding_error = (\<lambda>_. ''''), url_error = (\<lambda>_. ''''), map_order = (\<lambda>m. m)\<rparr>"

definition paged_suite :: "unit suite" where
  "paged_suite = \<lparr>world = (), suite_task = ''cursor-pagination'', createdID = ''''\<rparr>"

lemma paged_fetch:
  assumes "dec_taskList (paged_doc (page_path (Some limit) cursor)) \<lparr>list_Items = None, NextCursor = None\<rparr> = (l, True)"
    "list_Items l = Some ts" "check_items ts ''cursor-pagination'' = Inr ()" "url_ok (page_path (Some limit) cursor)"
  shows "fetchPage paged_environment (Some limit) cursor paged_suite = Some (Inr l, paged_suite)"
proof -
  let ?r = "\<lparr>StatusCode = 200, ContentType = ''application/json'', MediaType = Some ''application/json'', ETag = '''',
    Body = MarshalIndent (paged_doc (page_path (Some limit) cursor)), BrokenOff = None\<rparr>"
  have "parse_json (MarshalIndent (paged_doc path)) = Some (paged_doc path)" for path
    using parse_printed [of "paged_doc path" "[]"] by (simp add: paged_doc_def item_doc_def)
  then have "decodeExact paged_environment dec_taskList \<lparr>list_Items = None, NextCursor = None\<rparr> ?r = Inr l"
    unfolding decodeExact_Inr using assms(1) by simp
  then have "decodeTaskListFor paged_environment ?r ''cursor-pagination'' = Inr l"
    using assms(2,3) by (simp add: decodeTaskListFor_def task_names)
  then show ?thesis using assms(4)
    by (simp add: fetchPage_def jsonRequest_def jsonRequestWithHeaders_def test_bind_def do_request_def make_request_def
        paged_environment_def paged_suite_def expectStatusAndType_def decodeTaskList_def test_get_def test_lift_def test_return_def)
qed

lemma paged_paths: "page_path (Some 2) '''' = ''/tasks?limit=2''" "page_path (Some 2) ''x'' = ''/tasks?cursor=x&limit=2''"
  using dec.simps [of 2] by (simp_all add: digit_char_def page_path_def QueryEscape_def FormatInt_def escape_byte_def unreserved_def is_digit_def)

lemma item_decoded:
  "dec_wire_task (item_doc i) no_wire_task = (\<lparr>wire_ID = i, wire_Title = ''t'', wire_CreatedAt = ''c'', DueAt = None, wire_Version = None\<rparr>, True)"
  by (simp add: item_doc_def dec_wire_task_def no_wire_task_def dec_strict_def select_field_def at_field_def)

theorem collect_pages_complete_witness:
  "collectPages paged_environment 2 paged_suite = Some (Inr [''a'', ''b'', ''c''], paged_suite)"
proof (rule collect_pages_complete [where token = "\<lambda>k. replicate k (CHR ''x'')"])
  let ?t = "\<lambda>i. \<lparr>wire_ID = i, wire_Title = ''t'', wire_CreatedAt = ''c'', DueAt = None, wire_Version = None\<rparr>"
  have shape: "check_items (map ?t is) ''cursor-pagination'' = Inr ()" if "\<forall>i \<in> set is. i \<noteq> ''''" for "is"
    using that by (induction "is") (simp_all add: validateTaskValue_def task_names)
  have one: "fetchPage paged_environment (Some 2) '''' paged_suite
      = Some (Inr \<lparr>list_Items = Some [?t ''a'', ?t ''b''], NextCursor = Some (JString ''x'')\<rparr>, paged_suite)"
    by (rule paged_fetch [where ts = "map ?t [''a'', ''b'']", OF _ _ shape]) (simp_all add: paged_paths paged_doc_def
      dec_taskList_def dec_strict_def select_field_def at_field_def dec_items_def dec_RawMessage_def item_decoded url_ok_def)
  have two: "fetchPage paged_environment (Some 2) ''x'' paged_suite
      = Some (Inr \<lparr>list_Items = Some [?t ''c''], NextCursor = None\<rparr>, paged_suite)"
    by (rule paged_fetch [where ts = "map ?t [''c'']", OF _ _ shape]) (simp_all add: paged_paths paged_doc_def
      dec_taskList_def dec_strict_def select_field_def at_field_def dec_items_def dec_RawMessage_def item_decoded url_ok_def)
  show "pages_of paged_environment paged_suite 2 [''a'', ''b'', ''c''] (\<lambda>k. replicate k (CHR ''x''))"
    unfolding pages_of_def
  proof (intro allI impI)
    fix k :: nat
    assume "k = 0 \<or> k * 2 < length [''a'', ''b'', ''c'']"
    then consider "k = 0" | "k = 1" by fastforce
    then show "\<exists>page. fetchPage paged_environment (Some 2) (replicate k (CHR ''x'')) paged_suite = Some (Inr page, paged_suite)
        \<and> map wire_ID (items page) = take 2 (drop (k * 2) [''a'', ''b'', ''c''])
        \<and> NextCursor page = (if Suc k * 2 < length [''a'', ''b'', ''c''] then Some (JString (replicate (Suc k) (CHR ''x''))) else None)"
    proof cases
      case 1
      show ?thesis by (intro exI conjI, simp add: 1, rule one) (simp_all add: 1 items_def)
    next
      case 2
      show ?thesis by (intro exI conjI, simp add: 2, rule two) (simp_all add: 2 items_def)
    qed
  qed
qed (auto dest: arg_cong [where f = length])

section \<open>Evidence\<close>

text \<open>
  Evidence is bounded. The output of a candidate command or service that is kept as evidence is the trimmed output or, behind a header of
  at most 60 bytes, exactly its last \<open>limit\<close> bytes.
\<close>

theorem tail_evidence_bounded:
  "\<exists>header kept. tailEvidence text evidenceLogLimit = header @ kept \<and> length header \<le> 60 \<and> length kept \<le> evidenceLogLimit
     \<and> (\<exists>dropped. TrimSpace text = dropped @ kept \<and> (dropped = [] \<longleftrightarrow> length (TrimSpace text) \<le> evidenceLogLimit) \<and> (dropped = [] \<longleftrightarrow> header = []))"
proof (cases "length (TrimSpace text) > evidenceLogLimit")
  case True
  let ?h = "''(truncated to last '' @ FormatInt (int evidenceLogLimit) @ '' bytes)'' @ [CHR 0x0A]"
  let ?n = "length (TrimSpace text) - evidenceLogLimit"
  have "tailEvidence text evidenceLogLimit = ?h @ drop ?n (TrimSpace text)"
    using True by (simp add: tailEvidence_def Let_def)
  moreover have "length ?h \<le> 60" using length_dec_le [of 16384 30] by (simp add: FormatInt_def)
  moreover have "TrimSpace text = take ?n (TrimSpace text) @ drop ?n (TrimSpace text)" by simp
  moreover have "take ?n (TrimSpace text) \<noteq> []" "?h \<noteq> []" "length (drop ?n (TrimSpace text)) \<le> evidenceLogLimit"
    "\<not> length (TrimSpace text) \<le> evidenceLogLimit" using True by auto
  ultimately show ?thesis by blast
next
  case False
  then show ?thesis by (intro exI [of _ "[]"] exI [of _ "TrimSpace text"]) (simp add: tailEvidence_def Let_def)
qed

end
