(* ===== verification/Bridge_Main.thy ===== *)
theory Bridge_Main
  imports Freeze_Run Run_Derive Go_Write
begin

text \<open>
  \<open>harness/bridge/main.go\<close>: the server that runs the native tools of the coding agent inside the tool
  container. A request names a tool and holds its arguments as raw text; \<open>validate\<close> keeps the paths in them below
  \<open>/workspace\<close> before the tool is started. The tool itself, the environment of the server, the contents of \<open>/proc\<close> and the
  order in which Go visits a map are in \<open>tool_host\<close>. An error is a constructor, one per message.
\<close>

definition bridge_workspace :: string where
  "bridge_workspace = ''/workspace''"

definition bridge_body_limit :: nat where
  "bridge_body_limit = 4 * 2 ^ 20"

datatype bridge_error =
    InvalidRequest
  | InvalidArguments string
  | UnsupportedTool string
  | PathRequired
  | OutsideWorkspace string
  | ResolveFailed string
  | NoExistingParent
  | NoFilePaths
  | ToolNotStarted string
  | ToolFailed string string
  | InvalidToolResponse string

section \<open>Requests\<close>

record bridge_request =
  input_Tool :: string
  Args :: string

text \<open>
  \<open>json.RawMessage\<close> keeps the text of a value from its first to its last byte. \<open>raw_members\<close> reads the members of an
  object that is known to be well formed, from behind its opening brace.
\<close>

definition raw_text :: "string \<Rightarrow> string \<Rightarrow> string" where
  "raw_text s rest = take (length (skip_ws s) - length rest) (skip_ws s)"

fun raw_members :: "nat \<Rightarrow> string \<Rightarrow> (string \<times> string) list" where
  "raw_members 0 s = []"
| "raw_members (Suc fuel) s =
     (case skip_ws s of
        [] \<Rightarrow> []
      | q # t \<Rightarrow>
          if q \<noteq> CHR 0x22 then []
          else case unquote t of
            None \<Rightarrow> []
          | Some (k, u) \<Rightarrow>
              (let w = drop 1 (skip_ws u) in
               case parse_value (2 * length w + 1) 1 w of
                 None \<Rightarrow> []
               | Some (v, x) \<Rightarrow> (k, raw_text w x) # raw_members fuel (drop 1 (skip_ws x))))"

definition store_request :: "string \<times> string \<Rightarrow> bridge_request option \<Rightarrow> bridge_request option" where
  "store_request = (\<lambda>(k, raw) acc.
     Option.bind acc (\<lambda>r. case select_field [''tool'', ''args''] k of
        None \<Rightarrow> None
      | Some n \<Rightarrow>
          if n = ''args'' then Some (r\<lparr>Args := raw\<rparr>)
          else Option.bind (parse_json raw) (\<lambda>v. map_option (\<lambda>t. r\<lparr>input_Tool := t\<rparr>) (decode_string v (input_Tool r)))))"

text \<open>One \<open>Decode\<close> with \<open>DisallowUnknownFields\<close> from a body cut off at the limit; what follows the value is not read.\<close>

definition decode_request :: "string \<Rightarrow> bridge_request option" where
  "decode_request body =
     (let text = take bridge_body_limit body; zero = \<lparr>input_Tool = '''', Args = ''''\<rparr> in
      case parse_value (2 * length text + 1) 0 text of
        Some (JNull, _) \<Rightarrow> Some zero
      | Some (JObject _, _) \<Rightarrow> fold store_request (raw_members (length text) (drop 1 (skip_ws text))) (Some zero)
      | _ \<Rightarrow> None)"

section \<open>Paths\<close>

text \<open>
  \<open>filepath.EvalSymlinks\<close> with the distinction the bridge makes of its errors: an entry that does not exist, in a directory that
  can be searched, is \<open>os.ErrNotExist\<close>.
\<close>

datatype eval_failure = EvalNotExist | EvalFailed

function walk_links :: "node \<Rightarrow> nat \<Rightarrow> string list \<Rightarrow> string list \<Rightarrow> eval_failure + string list" where
  "walk_links root links here [] = Inr here"
| "walk_links root links here (c # cs) =
     (if c = '''' \<or> c = ''.'' then walk_links root links here cs
      else if c = ''..'' then walk_links root links (butlast here) cs
      else case node_at root (here @ [c]) of
        None \<Rightarrow> (case node_at root here of
                    Some (Directory ok _) \<Rightarrow> if ok then Inl EvalNotExist else Inl EvalFailed
                  | _ \<Rightarrow> Inl EvalFailed)
      | Some (Link t) \<Rightarrow>
          (case links of
             0 \<Rightarrow> Inl EvalFailed
           | Suc left \<Rightarrow> walk_links root left (if IsAbs t then [] else here) (split_on (CHR ''/'') t @ cs))
      | Some (Directory _ _) \<Rightarrow> walk_links root links (here @ [c]) cs
      | Some _ \<Rightarrow> if cs = [] then Inr (here @ [c]) else Inl EvalFailed)"
  by pat_completeness auto
termination
  by (relation "measures [\<lambda>(root, links, here, cs). links, \<lambda>(root, links, here, cs). length cs]") auto

definition eval_path :: "filesystem \<Rightarrow> string \<Rightarrow> eval_failure + string" where
  "eval_path fs p =
     (case walk_links (fs_root fs) 255 (if IsAbs p then [] else clean_comps (fs_cwd fs)) (split_on (CHR ''/'') p) of
        Inl e \<Rightarrow> Inl e
      | Inr r \<Rightarrow> Inr (render_path True r))"

definition requireWorkspacePath :: "string \<Rightarrow> bridge_error option" where
  "requireWorkspacePath path =
     (case Rel bridge_workspace path of
        None \<Rightarrow> Some (OutsideWorkspace path)
      | Some rel \<Rightarrow> if rel = ''..'' \<or> HasPrefix rel ''../'' then Some (OutsideWorkspace path) else None)"

definition workspacePath :: "string \<Rightarrow> bridge_error + string" where
  "workspacePath name =
     (if name = '''' then Inl PathRequired
      else let path = Clean (if IsAbs name then name else Join bridge_workspace name) in
        case requireWorkspacePath path of Some e \<Rightarrow> Inl e | None \<Rightarrow> Inr path)"

definition validateExistingPath :: "filesystem \<Rightarrow> string \<Rightarrow> bridge_error option" where
  "validateExistingPath fs name =
     (case workspacePath name of
        Inl e \<Rightarrow> Some e
      | Inr path \<Rightarrow>
          (case eval_path fs path of Inl _ \<Rightarrow> Some (ResolveFailed path) | Inr resolved \<Rightarrow> requireWorkspacePath resolved))"

lemma Dir_nonempty: "Dir p \<noteq> ''''"
proof -
  have ok: "list_all comp_ok (clean_comps q)" for q by (metis clean_comps_ok)
  have "Clean q \<noteq> ''''" for q
    using join_on_hd [of "clean_comps q" "CHR ''/''"] ok [of q]
    by (cases "clean_comps q") (auto simp: Clean_def render_path_def comp_ok_def)
  then show ?thesis by (simp add: Dir_def)
qed

function validateNearestExistingParent :: "filesystem \<Rightarrow> string \<Rightarrow> bridge_error option" where
  "validateNearestExistingParent fs current =
     (case eval_path fs current of
        Inr resolved \<Rightarrow> requireWorkspacePath resolved
      | Inl EvalFailed \<Rightarrow> Some (ResolveFailed current)
      | Inl EvalNotExist \<Rightarrow>
          if Dir current = current then Some NoExistingParent else validateNearestExistingParent fs (Dir current))"
  by pat_completeness auto
termination
proof (relation "measure (\<lambda>(fs, p). if p = '''' then 3 else if p = ''.'' then 0 else Suc (length p))", goal_cases)
  case (2 fs current)
  have "Dir '''' = ''.''" by (simp add: Dir_def Clean_def clean_comps_def clean_step_def IsAbs_def render_path_def HasPrefix_def)
  moreover have "Dir ''.'' = ''.''" by (simp add: Dir_def Clean_def clean_comps_def clean_step_def IsAbs_def render_path_def HasPrefix_def)
  ultimately show ?case using 2 shorter_Dir [of current] Dir_nonempty [of current] by (cases "current = ''''") auto
qed simp

declare validateNearestExistingParent.simps [simp del]

section \<open>Validation\<close>

definition patch_openings :: "string list" where
  "patch_openings = [''*** Add File: '', ''*** Update File: '', ''*** Delete File: '', ''*** Move to: '']"

text \<open>The inner and the outer loop of \<open>validatePatchPaths\<close>; the flag is \<open>found\<close>.\<close>

fun check_prefixes :: "filesystem \<Rightarrow> string \<Rightarrow> string list \<Rightarrow> bool \<Rightarrow> bridge_error + bool" where
  "check_prefixes fs line [] found = Inr found"
| "check_prefixes fs line (opening # rest) found =
     (if \<not> HasPrefix line opening then check_prefixes fs line rest found
      else case workspacePath (TrimSpace (TrimPrefix line opening)) of
        Inl e \<Rightarrow> Inl e
      | Inr path \<Rightarrow>
          (case validateNearestExistingParent fs path of
             Some e \<Rightarrow> Inl e
           | None \<Rightarrow> check_prefixes fs line rest True))"

fun check_patch_lines :: "filesystem \<Rightarrow> string list \<Rightarrow> bool \<Rightarrow> bridge_error + bool" where
  "check_patch_lines fs [] found = Inr found"
| "check_patch_lines fs (line # rest) found =
     (case check_prefixes fs line patch_openings found of
        Inl e \<Rightarrow> Inl e
      | Inr found' \<Rightarrow> check_patch_lines fs rest found')"

definition validatePatchPaths :: "filesystem \<Rightarrow> string \<Rightarrow> bridge_error option" where
  "validatePatchPaths fs patch =
     (case check_patch_lines fs (split_on (CHR 0x0A) (crlf_to_lf patch)) False of
        Inl e \<Rightarrow> Some e
      | Inr found \<Rightarrow> if found then None else Some NoFilePaths)"

definition string_argument :: "string \<Rightarrow> string \<Rightarrow> string \<times> bool" where
  "string_argument field raw = Unmarshal (dec_struct [(field, dec_string)]) '''' raw"

definition validate :: "filesystem \<Rightarrow> bridge_request \<Rightarrow> bridge_error option" where
  "validate fs input =
     (if input_Tool input = ''read'' then
        (case string_argument ''filePath'' (Args input) of
           (_, False) \<Rightarrow> Some (InvalidArguments ''read'')
         | (name, True) \<Rightarrow> validateExistingPath fs name)
      else if input_Tool input = ''edit'' \<or> input_Tool input = ''write'' then
        (case string_argument ''filePath'' (Args input) of
           (_, False) \<Rightarrow> Some (InvalidArguments (input_Tool input))
         | (name, True) \<Rightarrow>
             (case workspacePath name of Inl e \<Rightarrow> Some e | Inr path \<Rightarrow> validateNearestExistingParent fs path))
      else if input_Tool input = ''bash'' then
        (case string_argument ''workdir'' (Args input) of
           (_, False) \<Rightarrow> Some (InvalidArguments ''bash'')
         | (name, True) \<Rightarrow> if name = '''' then None else validateExistingPath fs name)
      else if input_Tool input = ''apply_patch'' then
        (case string_argument ''patchText'' (Args input) of
           (_, False) \<Rightarrow> Some (InvalidArguments ''apply_patch'')
         | (patch, True) \<Rightarrow> validatePatchPaths fs patch)
      else Some (UnsupportedTool (input_Tool input)))"

section \<open>Killing a process tree\<close>

text \<open>The parent in a \<open>stat\<close> file: the second field behind the last closing parenthesis.\<close>

definition stat_parent :: "string \<Rightarrow> int option" where
  "stat_parent data =
     (if CHR '')'' \<notin> set data then None
      else let fields = Fields (rev (takeWhile (\<lambda>c. c \<noteq> CHR '')'') (rev data))) in
        if length fields < 2 then None else ParseInt64 (fields ! 1))"

definition read_parents :: "(string \<times> string option) list \<Rightarrow> (int \<times> int) list" where
  "read_parents entries =
     fold (\<lambda>(name, stat) parents.
        case ParseInt64 name of
          None \<Rightarrow> parents
        | Some pid \<Rightarrow>
            (case Option.bind stat stat_parent of
               None \<Rightarrow> parents
             | Some ppid \<Rightarrow> filter (\<lambda>(p, _). p \<noteq> pid) parents @ [(pid, ppid)])) entries []"

text \<open>
  A run of the tool: not started; ended with an error, of which the bridge shows the diagnostics; ended well, with its output; or given
  up by the client, with the process to kill.
\<close>

datatype tool_end = NotStarted string | EndedBadly string string | EndedWell string | ClientGone int

record tool_host =
  start_tool :: "string list \<Rightarrow> string list \<Rightarrow> tool_end"
  os_environ :: "string list"
  proc_entries :: "int list \<Rightarrow> (string \<times> string option) list"
  visit_order :: "(int \<times> int) list \<Rightarrow> (int \<times> int) list"

text \<open>
  One pass over the map and the passes until one kills nothing, with the recursive call as a parameter. A list is the signals
  sent so far, a negative number a process group; \<open>proc_entries\<close> shows \<open>/proc\<close> after them. The map is visited in the order
  \<open>visit_order\<close>; in a later pass, where no child of \<open>root\<close> is left, the order changes nothing.
\<close>

fun kill_pass :: "(int \<Rightarrow> int list \<Rightarrow> int list option) \<Rightarrow> int \<Rightarrow> (int \<times> int) list \<Rightarrow> int list
    \<Rightarrow> (int list \<times> (int \<times> int) list \<times> bool) option" where
  "kill_pass kill_below root [] sent = Some (sent, [], False)"
| "kill_pass kill_below root ((pid, parent) # rest) sent =
     (if parent \<noteq> root then
        map_option (\<lambda>(sent', left, killed). (sent', (pid, parent) # left, killed)) (kill_pass kill_below root rest sent)
      else Option.bind (kill_below pid sent) (\<lambda>sent'.
        map_option (\<lambda>(sent'', left, killed). (sent'', left, True)) (kill_pass kill_below root rest (sent' @ [pid]))))"

lemma kill_pass_left:
  "kill_pass kill_below root parents sent = Some (sent', left, killed) \<Longrightarrow>
     left = filter (\<lambda>(pid, parent). parent \<noteq> root) parents \<and> (killed \<longleftrightarrow> (\<exists>pid. (pid, root) \<in> set parents))"
proof (induction parents arbitrary: sent sent' left killed)
  case (Cons p parents)
  obtain pid parent where p: "p = (pid, parent)" by fastforce
  show ?case using Cons.prems
    by (cases "parent = root") (auto simp: p Option.bind_eq_Some_conv dest!: Cons.IH)
qed simp

lemma kill_pass_shorter:
  "kill_pass kill_below root parents sent = Some (sent', left, True) \<Longrightarrow> length left < length parents"
  using kill_pass_left [of kill_below root parents sent sent' left True]
  by (auto intro!: length_filter_less)

function kill_passes :: "(int \<Rightarrow> int list \<Rightarrow> int list option) \<Rightarrow> int \<Rightarrow> (int \<times> int) list \<Rightarrow> int list \<Rightarrow> int list option" where
  "kill_passes kill_below root parents sent =
     (case kill_pass kill_below root parents sent of
        None \<Rightarrow> None
      | Some (sent', left, killed) \<Rightarrow> if killed then kill_passes kill_below root left sent' else Some sent')"
  by pat_completeness auto
termination
  by (relation "measure (\<lambda>(kill_below, root, parents, sent). length parents)") (auto dest: kill_pass_shorter)

declare kill_passes.simps [simp del]

fun killProcessTree :: "tool_host \<Rightarrow> nat \<Rightarrow> int \<Rightarrow> int list \<Rightarrow> int list option" where
  "killProcessTree host 0 root sent = None"
| "killProcessTree host (Suc depth) root sent =
     map_option (\<lambda>sent'. sent' @ [- root, root])
       (kill_passes (killProcessTree host depth) root (visit_order host (read_parents (proc_entries host sent))) sent)"

section \<open>The handler\<close>

datatype bridge_outcome = Healthy | Refused nat bridge_error | Answered string | Abandoned "int list option"

definition debug_model :: "string \<Rightarrow> string" where
  "debug_model tool = (if tool = ''edit'' \<or> tool = ''write'' then ''openai/gpt-4.1'' else ''openai/gpt-5.6-sol'')"

definition tool_environment :: "string \<Rightarrow> string list" where
  "tool_environment model =
     [''OPENCODE_CONFIG_CONTENT={\"model\":\"'' @ model @ ''\",\"formatter\":false,\"lsp\":false,\"agent\":{\"experiment\":{\"mode\":\"primary\",\"model\":\"''
        @ model @ ''\",\"permission\":{\"*\":\"allow\"}}}}'',
      ''OPENCODE_DISABLE_PROJECT_CONFIG=1'', ''OPENCODE_DISABLE_DEFAULT_PLUGINS=1'', ''OPENCODE_DISABLE_EXTERNAL_SKILLS=1'',
      ''OPENCODE_DISABLE_CLAUDE_CODE=1'', ''OPENCODE_DISABLE_LSP_DOWNLOAD=1'', ''XDG_DATA_HOME=/tmp/opencode-data'',
      ''XDG_CACHE_HOME=/tmp/opencode-cache'', ''XDG_CONFIG_HOME=/tmp/opencode-config'', ''XDG_STATE_HOME=/tmp/opencode-state'']"

definition tool_arguments :: "bridge_request \<Rightarrow> string list" where
  "tool_arguments input = [''debug'', ''agent'', ''experiment'', ''--tool'', input_Tool input, ''--params'', Args input]"

text \<open>The member \<open>result\<close> of what the tool prints, as text; empty when there is none.\<close>

definition store_result :: "string \<times> string \<Rightarrow> string \<Rightarrow> string" where
  "store_result = (\<lambda>(k, raw) old. if select_field [''result''] k = None then old else raw)"

definition decode_envelope :: "string \<Rightarrow> string option" where
  "decode_envelope stdout =
     (case parse_json stdout of
        Some JNull \<Rightarrow> Some ''''
      | Some (JObject _) \<Rightarrow> Some (fold store_result (raw_members (length stdout) (drop 1 (skip_ws stdout))) '''')
      | _ \<Rightarrow> None)"

definition execute :: "filesystem \<Rightarrow> tool_host \<Rightarrow> nat \<Rightarrow> string \<Rightarrow> bridge_outcome" where
  "execute fs host depth body =
     (case decode_request body of
        None \<Rightarrow> Refused 400 InvalidRequest
      | Some input \<Rightarrow>
          (case validate fs input of
             Some err \<Rightarrow> Refused 400 err
           | None \<Rightarrow>
               (case start_tool host (tool_arguments input) (os_environ host @ tool_environment (debug_model (input_Tool input))) of
                  NotStarted err \<Rightarrow> Refused 500 (ToolNotStarted err)
                | EndedBadly err stderr \<Rightarrow> Refused 500 (ToolFailed err (TrimSpace stderr))
                | ClientGone pid \<Rightarrow> Abandoned (killProcessTree host depth pid [])
                | EndedWell stdout \<Rightarrow>
                    (case decode_envelope stdout of
                       None \<Rightarrow> Refused 500 (InvalidToolResponse (TrimSpace stdout))
                     | Some result \<Rightarrow>
                         if result = '''' then Refused 500 (InvalidToolResponse (TrimSpace stdout))
                         else Answered result))))"

text \<open>The routes of the server; another path or method never reaches a handler.\<close>

definition bridge_route :: "filesystem \<Rightarrow> tool_host \<Rightarrow> nat \<Rightarrow> string \<Rightarrow> string \<Rightarrow> string \<Rightarrow> bridge_outcome option" where
  "bridge_route fs host depth method path body =
     (if path = ''/healthz'' \<and> method \<in> {''GET'', ''HEAD''} then Some Healthy
      else if path = ''/execute'' \<and> method = ''POST'' then Some (execute fs host depth body)
      else None)"

end
