(* ===== verification/Bridge_Props.thy ===== *)
theory Bridge_Props
  imports Bridge_Main Driver_Files
begin

text \<open>
  What the validation of the bridge guarantees: reads and writes through an accepted path stay below \<open>/workspace\<close>, a patch is
  accepted exactly if all its paths are, and a cancelled tool is killed with all its descendants and nothing else. Three small
  file trees show where the guarantee ends: dangling links, \<open>..\<close> behind a link, and argument names in another case.
\<close>

section \<open>Accepted paths\<close>

lemma walk_links_resolve:
  "(case walk_links root links here cs of Inl _ \<Rightarrow> None | Inr r \<Rightarrow> Some r) = resolve root links here cs"
proof (induction root links here cs rule: walk_links.induct)
  case (2 root links here c cs)
  consider "c = '''' \<or> c = ''.''" | "c = ''..''" | (name) "\<not> (c = '''' \<or> c = ''.'')" "c \<noteq> ''..''" by blast
  then show ?case
  proof cases
    case name
    note IH = "2.IH"(3,4) [OF name]
    show ?thesis
    proof (cases "node_at root (here @ [c])")
      case None
      then show ?thesis using name by (auto split: option.splits node.splits)
    next
      case (Some n)
      then show ?thesis using name IH [OF Some] by (cases n; cases links) simp_all
    qed
  qed (use 2 in auto)
qed simp

lemma walk_links_Inr: "walk_links root links here cs = Inr r \<longleftrightarrow> resolve root links here cs = Some r"
  using walk_links_resolve [of root links here cs] by (auto split: sum.splits)

lemma eval_path_Inr:
  "IsAbs p \<Longrightarrow> eval_path fs p = Inr q \<longleftrightarrow> (\<exists>r. locate fs 255 p = Some r \<and> q = render_path True r)"
  using walk_links_resolve [of "fs_root fs" 255 "[]" "split_on (CHR ''/'') p"]
  by (cases p) (auto simp: eval_path_def locate_def IsAbs_def HasPrefix_def split: sum.splits simp flip: walk_links_resolve)

lemma clean_workspace: "clean_comps bridge_workspace = [''workspace'']" "IsAbs bridge_workspace"
  by (simp_all add: bridge_workspace_def clean_comps_def clean_step_def IsAbs_def HasPrefix_def)

lemma requireWorkspacePath_None:
  assumes "requireWorkspacePath p = None" "IsAbs p"
  obtains down where "clean_comps p = ''workspace'' # down"
proof -
  have "pathWithin bridge_workspace p"
    using assms(1) by (auto simp: requireWorkspacePath_def pathWithin_def split: option.splits if_splits)
  then show thesis using pathWithin_prefix [OF clean_workspace(2) assms(2)] clean_workspace(1) that by auto
qed

lemma requireWorkspacePath_render:
  "requireWorkspacePath (render_path True r) = None \<Longrightarrow> list_all name_ok r \<Longrightarrow> \<exists>down. r = ''workspace'' # down"
  by (erule requireWorkspacePath_None) (simp_all add: clean_comps_render)

text \<open>The path the bridge validates, which is the one the tool works on if it cleans its argument too.\<close>

definition tool_path :: "string \<Rightarrow> string" where
  "tool_path name = Clean (if IsAbs name then name else Join bridge_workspace name)"

lemma IsAbs_tool_path: "IsAbs (tool_path name)"
  by (simp add: tool_path_def IsAbs_Clean Join_def bridge_workspace_def) (simp add: IsAbs_def HasPrefix_def)

lemma workspacePath_Inr: "workspacePath name = Inr path \<longleftrightarrow> name \<noteq> '''' \<and> path = tool_path name \<and> requireWorkspacePath path = None"
  by (auto simp: workspacePath_def tool_path_def Let_def split: option.splits)

lemma tool_path_names:
  obtains cs where "list_all name_ok cs" "tool_path name = render_path True cs"
proof -
  let ?p = "if IsAbs name then name else Join bridge_workspace name"
  have abs: "IsAbs ?p" using IsAbs_tool_path [of name] by (simp add: tool_path_def IsAbs_Clean)
  obtain names n where n: "clean_comps ?p = replicate n ''..'' @ names" "''..'' \<notin> set names"
    "IsAbs ?p \<longrightarrow> n = 0" "list_all comp_ok (clean_comps ?p)"
    by (rule clean_comps_ok [of ?p])
  then have names: "clean_comps ?p = names" using abs by simp
  then have "list_all name_ok (clean_comps ?p)" using n(2,4) by (simp add: list_all_iff name_ok_def) metis
  then show thesis using that abs by (simp add: tool_path_def Clean_def)
qed

lemma existing_inside:
  assumes "validateExistingPath fs name = None" "locate fs 255 (tool_path name) = Some r"
  shows "\<exists>down. r = ''workspace'' # down"
proof -
  have "requireWorkspacePath (render_path True r) = None"
  proof -
    have "eval_path fs (tool_path name) = Inr (render_path True r)"
      using eval_path_Inr [OF IsAbs_tool_path] assms(2) by blast
    moreover have "workspacePath name = Inr (tool_path name)"
      using assms(1) by (cases "workspacePath name") (simp_all add: validateExistingPath_def workspacePath_Inr)
    ultimately show ?thesis using assms(1) by (simp add: validateExistingPath_def)
  qed
  then show ?thesis using locate_names [OF IsAbs_tool_path assms(2)] by (rule requireWorkspacePath_render)
qed

text \<open>Climbing: an accepted path resolves inside, or it does not exist and its parent is accepted.\<close>

lemma nearest_cases:
  assumes "validateNearestExistingParent fs p = None"
  obtains (here) resolved where "eval_path fs p = Inr resolved" "requireWorkspacePath resolved = None"
  | (climb) "eval_path fs p = Inl EvalNotExist" "validateNearestExistingParent fs (Dir p) = None"
  using assms by (subst (asm) validateNearestExistingParent.simps) (auto split: sum.splits eval_failure.splits if_splits)

lemma nearest_inside:
  assumes "validateNearestExistingParent fs p = None" "IsAbs p" "locate fs 255 p = Some r"
  shows "\<exists>down. r = ''workspace'' # down"
  using assms(1)
proof (cases rule: nearest_cases)
  case (here resolved)
  then have "resolved = render_path True r" using eval_path_Inr [OF assms(2), of fs resolved] assms(3) by simp
  then show ?thesis using here requireWorkspacePath_render locate_names [OF assms(2,3)] by simp
next
  case climb
  then show ?thesis using eval_path_Inr [OF assms(2), of fs "render_path True r"] assms(3) by simp
qed

lemma nearest_create:
  assumes "validateNearestExistingParent fs p = None" "p = render_path True cs" "list_all name_ok cs" "create_place fs p = Some r"
  shows "\<exists>down. r = ''workspace'' # down"
proof -
  have abs: "IsAbs p" and comps: "clean_comps p = cs" using assms(2,3) by (simp_all add: clean_comps_render)
  obtain q c where q: "cs = q @ [c]"
    using assms(4) comps by (cases cs rule: rev_cases) (auto simp: create_place_def)
  have "Option.bind (resolve (fs_root fs) 40 [] q) (\<lambda>d. case node_at (fs_root fs) d of
      Some (Directory True es) \<Rightarrow> if map_of es c = None then Some (d @ [c]) else None | _ \<Rightarrow> None) = Some r"
    using assms(4) unfolding create_place_def comps q by (simp add: abs)
  then obtain d es where d: "resolve (fs_root fs) 40 [] q = Some d" "node_at (fs_root fs) d = Some (Directory True es)"
    "map_of es c = None" "r = d @ [c]"
    by (clarsimp simp: Option.bind_eq_Some_conv) (auto split: option.splits node.splits bool.splits if_splits)
  have d255: "resolve (fs_root fs) 255 [] q = Some d" using d(1) by (rule resolve_mono) simp
  have ok: "list_all comp_ok cs" using assms(3) by (auto simp: list_all_iff name_ok_def)
  obtain left where "resolve (fs_root fs) 255 [] (q @ [c]) = resolve (fs_root fs) left d [c]"
    using resolve_append [OF d255 d(2)] by metis
  moreover have "node_at (fs_root fs) (d @ [c]) = None" using d(2,3) by (simp add: node_at_append)
  ultimately have "locate fs 255 p = None"
    using assms(2,3) q locate_render [OF ok] by (simp add: name_ok_def comp_ok_def)
  then have none: "eval_path fs p \<noteq> Inr resolved" for resolved using eval_path_Inr [OF abs] by simp
  from assms(1) have "validateNearestExistingParent fs (Dir p) = None"
    by (cases rule: nearest_cases) (use none in auto)
  then have "validateNearestExistingParent fs (render_path True q) = None"
    using Dir_render [of q c] assms(2,3) q by simp
  moreover have "locate fs 255 (render_path True q) = Some d" using locate_render [of q] ok q d255 by simp
  ultimately obtain down where "d = ''workspace'' # down" using nearest_inside by force
  then show ?thesis using d(4) by simp
qed

section \<open>Reading and writing through accepted requests\<close>

text \<open>
  Go takes an argument under any spelling of its name that differs in ASCII case only; the tools take the exact name, and of a
  repeated name the last value. They agree on objects that hold no other spelling.
\<close>

definition exact_names :: "string \<Rightarrow> json \<Rightarrow> bool" where
  "exact_names field v \<longleftrightarrow>
     (case v of JObject ms \<Rightarrow> list_all (\<lambda>(k, x). k = field \<or> map fold_char field \<noteq> map fold_char k) ms | _ \<Rightarrow> True)"

lemma string_argument_member:
  assumes "string_argument field raw = (name, True)" "parse_json raw = Some v" "exact_names field v"
    "member v field = Some (JString wanted)"
  shows "name = wanted"
proof -
  obtain ms where v: "v = JObject ms" using assms(4) by (cases v) (auto simp: member_def)
  let ?store = "\<lambda>(k, x) (r, ok).
    case Option.bind (select_field (map fst [(field, dec_string)]) k) (map_of [(field, dec_string)]) of
      None \<Rightarrow> (r, ok) | Some d \<Rightarrow> (let (r', good) = d x r in (r', ok \<and> good))"
  have "list_all (\<lambda>(k, x). k = field \<or> map fold_char field \<noteq> map fold_char k) ms \<Longrightarrow>
      map_of (rev ms) field = Some (JString wanted) \<Longrightarrow> fst (fold ?store ms (old, ok)) = wanted" for old ok
  proof (induction ms rule: rev_induct)
    case (snoc m ms)
    obtain k x where m: "m = (k, x)" by fastforce
    show ?case
    proof (cases "k = field")
      case True
      then show ?thesis using snoc.prems m
        by (simp add: select_field_def split: prod.splits)
    next
      case False
      then have "select_field (map fst [(field, dec_string)]) k = None" using snoc.prems(1) m by (simp add: select_field_def)
      then show ?thesis using snoc m False by (simp split: prod.splits)
    qed
  qed simp
  then have "fst (fold ?store ms ('''', True)) = wanted" using assms(3,4) v by (simp add: exact_names_def member_def)
  moreover have "string_argument field raw = fold ?store ms ('''', True)"
    unfolding string_argument_def Unmarshal_def dec_struct_def assms(2) v by simp
  ultimately show ?thesis using assms(1) by (metis fst_conv)
qed



section \<open>A sample tree\<close>

definition bridge_sample :: filesystem where
  "bridge_sample =
     \<lparr>fs_root = Directory True
        [(''workspace'', Directory True [(''a'', Reg True ''x''), (''out'', Link ''/etc''), (''new'', Link ''/etc/new'')]),
         (''etc'', Directory True [(''passwd'', Reg True ''y'')])],
      fs_cwd = ''/workspace''\<rparr>"

definition path_request :: "string \<Rightarrow> (string \<times> string) list \<Rightarrow> bridge_request" where
  "path_request tool args =
     \<lparr>input_Tool = tool, Args = MarshalIndent (JObject (map (\<lambda>(k, s). (k, JString s)) args))\<rparr>"

lemma parse_path_request:
  assumes "list_all (\<lambda>(k, s). ascii k \<and> ascii s) args"
  shows "parse_json (Args (path_request tool args)) = Some (JObject (map (\<lambda>(k, s). (k, JString s)) args))"
proof -
  have "utf8 k \<and> utf8 s" if "(k, s) \<in> set args" for k s
    using that assms ascii_utf8 [of k] ascii_utf8 [of s] by (force simp: list_all_iff)
  then have "printable 0 (JObject (map (\<lambda>(k, s). (k, JString s)) args))" by (auto simp: list_all_iff)
  then show ?thesis
    using parse_printed [of "JObject (map (\<lambda>(k, s). (k, JString s)) args)" "[]"]
    by (simp add: path_request_def ends_value_def skip_ws_def)
qed

lemmas bridge_eval = bridge_sample_def path_eval clean_workspace tool_path_def workspacePath_def requireWorkspacePath_def
  bridge_workspace_def validateExistingPath_def eval_path_def

lemma sample_paths:
  "validateExistingPath bridge_sample ''a'' = None" "workspacePath ''b'' = Inr ''/workspace/b''"
  "tool_path ''a'' = ''/workspace/a''" "tool_path ''b'' = ''/workspace/b''" 
  "tool_path ''/workspace/new'' = ''/workspace/new''" "workspacePath ''/workspace/new'' = Inr ''/workspace/new''"
  "ReadFile bridge_sample ''/workspace/a'' = Some ''x''"
  by (simp_all add: bridge_eval)

lemma sample_nearest_top: "validateNearestExistingParent bridge_sample ''/workspace'' = None"
  by (subst validateNearestExistingParent.simps) (simp add: bridge_eval)

lemma sample_nearest:
  "validateNearestExistingParent bridge_sample ''/workspace/b'' = None"
  "validateNearestExistingParent bridge_sample ''/workspace/new'' = None"
proof -
  have dir: "Dir ''/workspace/b'' = ''/workspace''" "Dir ''/workspace/new'' = ''/workspace''"
    by (simp_all add: Dir_def path_eval)
  have "eval_path bridge_sample ''/workspace/b'' = Inl EvalNotExist" "eval_path bridge_sample ''/workspace/new'' = Inl EvalNotExist"
    by (simp_all add: bridge_eval)
  then show "validateNearestExistingParent bridge_sample ''/workspace/b'' = None"
    "validateNearestExistingParent bridge_sample ''/workspace/new'' = None"
    by (subst validateNearestExistingParent.simps, simp add: dir sample_nearest_top)+
qed

lemma sample_request:
  assumes "list_all (\<lambda>(k, s). ascii k \<and> ascii s) [(''filePath'', s)]"
  shows "string_argument ''filePath'' (Args (path_request tool [(''filePath'', s)])) = (s, True)"
  using parse_path_request [OF assms]
  by (simp add: string_argument_def Unmarshal_def dec_struct_def select_field_def)



section \<open>Where the guarantee ends\<close>

text \<open>\<open>open\<close> with \<open>O_CREAT\<close> follows a last link whose target does not exist, and creates the target.\<close>

function open_creat :: "node \<Rightarrow> nat \<Rightarrow> string list \<Rightarrow> string list \<Rightarrow> string list option" where
  "open_creat root links here [] = Some here"
| "open_creat root links here (c # cs) =
     (if c = '''' \<or> c = ''.'' then open_creat root links here cs
      else if c = ''..'' then open_creat root links (butlast here) cs
      else case node_at root (here @ [c]) of
        None \<Rightarrow> if cs = [] then Some (here @ [c]) else None
      | Some (Link t) \<Rightarrow>
          (case links of
             0 \<Rightarrow> None
           | Suc left \<Rightarrow> open_creat root left (if IsAbs t then [] else here) (split_on (CHR ''/'') t @ cs))
      | Some (Directory _ _) \<Rightarrow> open_creat root links (here @ [c]) cs
      | Some _ \<Rightarrow> if cs = [] then Some (here @ [c]) else None)"
  by pat_completeness auto
termination
  by (relation "measures [\<lambda>(root, links, here, cs). links, \<lambda>(root, links, here, cs). length cs]") auto

text \<open>
  A link in the workspace to a place that does not exist yet is climbed over like a missing file: the request is
  accepted, and writing to it creates a file outside.
\<close>

lemma dangling_link_escapes:
  "validate bridge_sample (path_request ''write'' [(''filePath'', ''/workspace/new'')]) = None"
  "open_creat (fs_root bridge_sample) 40 [] (split_on (CHR ''/'') ''/workspace/new'') = Some [''etc'', ''new'']"
proof -
  have "list_all (\<lambda>(k, s). ascii k \<and> ascii s) [(''filePath'', ''/workspace/new'')]" by simp
  from sample_request [OF this, of "''write''"]
  show "validate bridge_sample (path_request ''write'' [(''filePath'', ''/workspace/new'')]) = None"
    using sample_paths(6) sample_nearest(2) by (simp add: validate_def) (simp add: path_request_def)
qed (simp add: bridge_sample_def IsAbs_def HasPrefix_def)

text \<open>The bridge cleans a path before it resolves it; a tool that opens the text it is given goes \<open>..\<close> from the target of a link.\<close>

lemma dots_behind_link:
  "workspacePath ''/workspace/out/../etc/passwd'' = Inr ''/workspace/etc/passwd''"
  "validateNearestExistingParent bridge_sample ''/workspace/etc/passwd'' = None"
  "locate bridge_sample 40 ''/workspace/out/../etc/passwd'' = Some [''etc'', ''passwd'']"
proof -
  have "Dir ''/workspace/etc/passwd'' = ''/workspace/etc''" "Dir ''/workspace/etc'' = ''/workspace''"
    by (simp_all add: Dir_def path_eval)
  moreover have "eval_path bridge_sample ''/workspace/etc/passwd'' = Inl EvalNotExist"
    "eval_path bridge_sample ''/workspace/etc'' = Inl EvalNotExist" by (simp_all add: bridge_eval)
  ultimately show "validateNearestExistingParent bridge_sample ''/workspace/etc/passwd'' = None"
    using sample_nearest_top validateNearestExistingParent.simps [of bridge_sample "''/workspace/etc/passwd''"]
      validateNearestExistingParent.simps [of bridge_sample "''/workspace/etc''"] by simp
qed (simp_all add: bridge_eval)

text \<open>A second spelling of the argument's name is what Go reads, and the first one what the tool reads.\<close>

lemma folded_name_escapes:
  fixes args defines "args \<equiv> [(''filePath'', ''/etc/passwd''), (''FILEPATH'', ''a'')]"
  shows "validate bridge_sample (path_request ''read'' args) = None"
    "Option.bind (parse_json (Args (path_request ''read'' args))) (\<lambda>v. member v ''filePath'') = Some (JString ''/etc/passwd'')"
proof -
  have parsed: "parse_json (Args (path_request ''read'' args)) = Some (JObject (map (\<lambda>(k, s). (k, JString s)) args))"
    by (rule parse_path_request) (simp add: args_def)
  then have "string_argument ''filePath'' (Args (path_request ''read'' args)) = (''a'', True)"
    by (simp add: string_argument_def Unmarshal_def dec_struct_def select_field_def args_def fold_char_def) (simp add: char_of_def bit_Suc_0_iff)
  then show "validate bridge_sample (path_request ''read'' args) = None"
    using sample_paths(1) by (simp add: validate_def) (simp add: path_request_def)
  show "Option.bind (parse_json (Args (path_request ''read'' args))) (\<lambda>v. member v ''filePath'') = Some (JString ''/etc/passwd'')"
    using parsed by (simp add: args_def member_def)
qed

section \<open>Patches\<close>

text \<open>The names behind the header lines of a patch, in order.\<close>

definition patch_names :: "string \<Rightarrow> string list" where
  "patch_names patch =
     concat (map (\<lambda>line. map (\<lambda>opening. TrimSpace (TrimPrefix line opening)) (filter (HasPrefix line) patch_openings))
       (split_on (CHR 0x0A) (crlf_to_lf patch)))"

text \<open>
  A place for a file: the longest part of the path that exists resolves to a place below \<open>/workspace\<close>, and everything
  beyond it is missing rather than unreadable or a loop.
\<close>

definition creatable :: "filesystem \<Rightarrow> string list \<Rightarrow> bool" where
  "creatable fs cs \<longleftrightarrow>
     (\<exists>k \<le> length cs. (\<exists>down. locate fs 255 (render_path True (take k cs)) = Some (''workspace'' # down))
        \<and> (\<forall>j. k < j \<and> j \<le> length cs \<longrightarrow> eval_path fs (render_path True (take j cs)) = Inl EvalNotExist))"

definition allowed_name :: "filesystem \<Rightarrow> string \<Rightarrow> bool" where
  "allowed_name fs name \<longleftrightarrow>
     name \<noteq> '''' \<and> (\<exists>down. clean_comps (tool_path name) = ''workspace'' # down) \<and> creatable fs (clean_comps (tool_path name))"

lemma requireWorkspacePath_inside:
  assumes "list_all name_ok (''workspace'' # down)"
  shows "requireWorkspacePath (render_path True (''workspace'' # down)) = None"
proof -
  have names: "clean_comps (render_path True (''workspace'' # down)) = ''workspace'' # down"
    by (rule clean_comps_render [OF assms])
  have rel: "Rel bridge_workspace (render_path True (''workspace'' # down)) = Some (render_path False down)"
    using clean_workspace names by (simp add: Rel_def)
  have "render_path False down \<noteq> ''..'' \<and> \<not> HasPrefix (render_path False down) ''../''"
  proof (cases "down = []")
    case False
    then have split: "split_on (CHR ''/'') (join_on (CHR ''/'') down) = down"
      using assms by (intro split_join) (auto simp: name_ok_def comp_ok_def list_all_iff)
    have "hd down \<noteq> ''..''" using assms False by (cases down) (auto simp: name_ok_def)
    then show ?thesis
      using False split split_on_append [of "CHR ''/''" "''..''"] by (auto simp: render_path_def HasPrefix_iff)
  qed (simp add: render_path_def HasPrefix_def)
  then show ?thesis by (simp add: requireWorkspacePath_def rel)
qed

lemma requireWorkspacePath_exact:
  "list_all name_ok cs \<Longrightarrow> requireWorkspacePath (render_path True cs) = None \<longleftrightarrow> (\<exists>down. cs = ''workspace'' # down)"
  using requireWorkspacePath_render requireWorkspacePath_inside by metis

lemma creatable_snoc:
  "creatable fs (cs @ [c]) \<longleftrightarrow>
     (\<exists>down. locate fs 255 (render_path True (cs @ [c])) = Some (''workspace'' # down))
     \<or> eval_path fs (render_path True (cs @ [c])) = Inl EvalNotExist \<and> creatable fs cs"
  (is "?L \<longleftrightarrow> ?H \<or> ?C")
proof
  assume ?L
  then obtain k where k: "k \<le> Suc (length cs)" "\<exists>down. locate fs 255 (render_path True (take k (cs @ [c]))) = Some (''workspace'' # down)"
    "\<And>j. k < j \<and> j \<le> Suc (length cs) \<Longrightarrow> eval_path fs (render_path True (take j (cs @ [c]))) = Inl EvalNotExist"
    by (auto simp: creatable_def)
  show "?H \<or> ?C"
  proof (cases "k = Suc (length cs)")
    case False
    then have "k \<le> length cs" using k(1) by simp
    have "eval_path fs (render_path True (take j cs)) = Inl EvalNotExist" if "k < j" "j \<le> length cs" for j
      using k(3) [of j] that by simp
    then have "creatable fs cs"
      unfolding creatable_def using k(2) \<open>k \<le> length cs\<close> by (intro exI [of _ k]) simp
    then show ?thesis using k(3) [of "Suc (length cs)"] \<open>k \<le> length cs\<close> by simp
  qed (use k(2) in simp)
next
  assume "?H \<or> ?C"
  then show ?L
  proof
    assume ?H
    then show ?thesis unfolding creatable_def by (intro exI [of _ "Suc (length cs)"]) auto
  next
    assume C: ?C
    then obtain k where k: "k \<le> length cs" "\<exists>down. locate fs 255 (render_path True (take k cs)) = Some (''workspace'' # down)"
      "\<And>j. k < j \<and> j \<le> length cs \<Longrightarrow> eval_path fs (render_path True (take j cs)) = Inl EvalNotExist"
      by (auto simp: creatable_def)
    have "eval_path fs (render_path True (take j (cs @ [c]))) = Inl EvalNotExist" if "k < j" "j \<le> Suc (length cs)" for j
      using that k(3) [of j] C by (cases "j = Suc (length cs)") simp_all
    then show ?thesis unfolding creatable_def using k(1,2) by (intro exI [of _ k]) auto
  qed
qed

lemma nearest_exact:
  "list_all name_ok cs \<Longrightarrow> validateNearestExistingParent fs (render_path True cs) = None \<longleftrightarrow> creatable fs cs"
proof (induction cs rule: rev_induct)
  case Nil
  have loc: "locate fs 255 (render_path True []) = Some []" by (simp add: path_eval)
  then have "eval_path fs (render_path True []) = Inr (render_path True [])" by (simp add: eval_path_Inr)
  then show ?case using loc requireWorkspacePath_exact [of "[]"]
    by (subst validateNearestExistingParent.simps) (simp add: creatable_def)
next
  case (snoc c cs)
  let ?p = "render_path True (cs @ [c])"
  have dir: "Dir ?p = render_path True cs" by (rule Dir_render [OF snoc.prems])
  have differs: "render_path True cs \<noteq> ?p"
    using clean_comps_render [OF snoc.prems] clean_comps_render [of cs] snoc.prems by force
  have IH: "validateNearestExistingParent fs (render_path True cs) = None \<longleftrightarrow> creatable fs cs" using snoc by simp
  show ?case
  proof (cases "eval_path fs ?p")
    case (Inl e)
    then have "locate fs 255 ?p = None" using eval_path_Inr [of ?p fs] by (cases "locate fs 255 ?p") auto
    then show ?thesis using Inl dir differs IH
      by (subst validateNearestExistingParent.simps) (simp add: creatable_snoc split: eval_failure.splits)
  next
    case (Inr q)
    then obtain r where r: "locate fs 255 ?p = Some r" "q = render_path True r" using eval_path_Inr [of ?p fs q] by auto
    have "list_all name_ok r" by (rule locate_names [OF _ r(1)]) simp
    then show ?thesis using Inr r requireWorkspacePath_exact
      by (subst validateNearestExistingParent.simps) (simp add: creatable_snoc)
  qed
qed

lemma allowed_name_checks:
  "(case workspacePath name of Inl e \<Rightarrow> Some e | Inr path \<Rightarrow> validateNearestExistingParent fs path) = None \<longleftrightarrow> allowed_name fs name"
proof -
  obtain cs where cs: "list_all name_ok cs" "tool_path name = render_path True cs" by (rule tool_path_names)
  then have comps: "clean_comps (tool_path name) = cs" by (simp add: clean_comps_render)
  show ?thesis
  proof (cases "workspacePath name")
    case (Inl e)
    then have "name = '''' \<or> requireWorkspacePath (tool_path name) \<noteq> None"
      using workspacePath_Inr [of name "tool_path name"] by auto
    then have "name = [] \<or> (\<nexists>down. cs = ''workspace'' # down)" using requireWorkspacePath_exact [OF cs(1)] cs(2) by simp
    then show ?thesis by (auto simp: Inl allowed_name_def comps)
  next
    case (Inr path)
    then have "name \<noteq> ''''" "path = render_path True cs" "requireWorkspacePath (render_path True cs) = None"
      using iffD1 [OF workspacePath_Inr Inr] cs(2) by auto
    then show ?thesis using nearest_exact [OF cs(1), of fs] requireWorkspacePath_exact [OF cs(1)]
      by (simp add: Inr allowed_name_def comps)
  qed
qed

lemma check_prefixes_exact:
  "check_prefixes fs line openings found = Inr b \<longleftrightarrow>
     list_all (allowed_name fs) (map (\<lambda>opening. TrimSpace (TrimPrefix line opening)) (filter (HasPrefix line) openings))
     \<and> b = (found \<or> filter (HasPrefix line) openings \<noteq> [])"
proof (induction openings arbitrary: found)
  case (Cons heading rest)
  show ?case
    using Cons allowed_name_checks [where name = "TrimSpace (TrimPrefix line heading)" and fs = fs]
    by (auto split: sum.splits option.splits)
qed auto

lemma check_patch_lines_exact:
  "check_patch_lines fs ls found = Inr b \<longleftrightarrow>
     (let names = concat (map (\<lambda>line. map (\<lambda>opening. TrimSpace (TrimPrefix line opening)) (filter (HasPrefix line) patch_openings)) ls)
      in list_all (allowed_name fs) names \<and> b = (found \<or> names \<noteq> []))"
proof (induction ls arbitrary: found)
  case (Cons line ls)
  show ?case
  proof (cases "check_prefixes fs line patch_openings found")
    case (Inl e)
    then show ?thesis
      using check_prefixes_exact [of fs line patch_openings found "found \<or> filter (HasPrefix line) patch_openings \<noteq> []"]
      by (simp add: Let_def)
  next
    case (Inr found')
    then show ?thesis using check_prefixes_exact [of fs line patch_openings found found'] Cons.IH [of found']
      by (auto simp: Let_def)
  qed
qed (auto simp: Let_def)

text \<open>
  C27: a patch is accepted exactly if it has a header line and every header line names a place for a file below
  \<open>/workspace\<close>, in the text of the path and in the file tree up to where the path exists.
\<close>

theorem patch_paths_exact:
  "validatePatchPaths fs patch = None \<longleftrightarrow> patch_names patch \<noteq> [] \<and> list_all (allowed_name fs) (patch_names patch)"
  using check_patch_lines_exact [of fs "split_on (CHR 0x0A) (crlf_to_lf patch)" False]
  by (cases "check_patch_lines fs (split_on (CHR 0x0A) (crlf_to_lf patch)) False")
    (auto simp: validatePatchPaths_def patch_names_def Let_def)

section \<open>Killing a process tree\<close>

lemma kill_passes_once: "kill_passes kill_below root parents sent = map_option fst (kill_pass kill_below root parents sent)"
proof (cases "kill_pass kill_below root parents sent")
  case (Some result)
  obtain sent' left killed where r: "result = (sent', left, killed)" by (cases result)
  have left: "left = filter (\<lambda>(pid, parent). parent \<noteq> root) parents" using kill_pass_left Some r by blast
  have "kill_pass kill_below root (filter (\<lambda>(pid, parent). parent \<noteq> root) ps) s =
      Some (s, filter (\<lambda>(pid, parent). parent \<noteq> root) ps, False)" for ps s
    by (induction ps) auto
  then have "kill_passes kill_below root left sent' = Some sent'"
    unfolding left by (subst kill_passes.simps) simp
  then show ?thesis using Some r by (subst kill_passes.simps) simp
qed (subst kill_passes.simps, simp)

text \<open>The processes below and at \<open>root\<close>, for pairs of a process and its parent.\<close>

definition process_tree :: "(int \<times> int) set \<Rightarrow> int \<Rightarrow> int set" where
  "process_tree edges root = {pid. (pid, root) \<in> edges\<^sup>*}"

definition shown :: "tool_host \<Rightarrow> int list \<Rightarrow> (int \<times> int) set" where
  "shown host sent = set (read_parents (proc_entries host sent))"

text \<open>
  What is assumed of \<open>/proc\<close> while the tree is killed: no process is started or changes its parent; a process disappears
  only after it was killed; a parent has a smaller rank than its children, like an earlier start time.
\<close>

definition quiet_proc :: "tool_host \<Rightarrow> (int \<times> int) set \<Rightarrow> (int \<Rightarrow> nat) \<Rightarrow> nat \<Rightarrow> bool" where
  "quiet_proc host edges rank depth \<longleftrightarrow>
     (\<forall>ps. set (visit_order host ps) = set ps)
     \<and> (\<forall>sent. shown host sent \<subseteq> edges \<and> (\<forall>(pid, parent) \<in> edges - shown host sent. pid \<in> set sent))
     \<and> (\<forall>(pid, parent) \<in> edges. 0 < pid \<and> 0 \<le> parent \<and> rank parent < rank pid \<and> rank pid < depth)"

text \<open>What one call leaves behind: everything below and at its process, and nothing else, was killed; killed processes have killed children.\<close>

definition killed_below :: "(int \<times> int) set \<Rightarrow> int list \<Rightarrow> bool" where
  "killed_below edges sent \<longleftrightarrow> (\<forall>(pid, parent) \<in> edges. parent \<in> set sent \<longrightarrow> pid \<in> set sent)"

definition kills :: "(int \<times> int) set \<Rightarrow> int set \<Rightarrow> int list \<Rightarrow> int list \<Rightarrow> bool" where
  "kills edges pids sent sent' \<longleftrightarrow>
     set sent \<union> pids \<subseteq> set sent' \<and> set sent' \<subseteq> set sent \<union> pids \<union> uminus ` pids \<and> killed_below edges sent'"

lemma kills_trans: "kills edges A sent sent' \<Longrightarrow> kills edges B sent' sent'' \<Longrightarrow> kills edges (A \<union> B) sent sent''"
  unfolding kills_def image_Un by blast

lemma process_tree_child: "(pid, root) \<in> edges \<Longrightarrow> process_tree edges pid \<subseteq> process_tree edges root"
  by (auto simp: process_tree_def intro: rtrancl.rtrancl_into_rtrancl)

lemma kill_pass_kills:
  assumes "\<And>pid s. (pid, root) \<in> set ps \<Longrightarrow> killed_below edges s \<Longrightarrow> 
      \<exists>s'. kill_below pid s = Some s' \<and> kills edges (process_tree edges pid) s s'"
    "killed_below edges sent"
  shows "\<exists>sent'. map_option fst (kill_pass kill_below root ps sent) = Some sent'
     \<and> kills edges (\<Union>pid \<in> {pid. (pid, root) \<in> set ps}. process_tree edges pid) sent sent'"
  using assms
proof (induction ps arbitrary: sent)
  case Nil
  then show ?case by (auto simp: kills_def)
next
  case (Cons p ps)
  obtain pid parent where p: "p = (pid, parent)" by fastforce
  show ?case
  proof (cases "parent = root")
    case False
    then have "{pid. (pid, root) \<in> set (p # ps)} = {pid. (pid, root) \<in> set ps}" using p by auto
    moreover have "\<exists>sent'. map_option fst (kill_pass kill_below root ps sent) = Some sent'
        \<and> kills edges (\<Union>pid \<in> {pid. (pid, root) \<in> set ps}. process_tree edges pid) sent sent'"
      by (rule Cons.IH) (use Cons.prems in auto)
    ultimately show ?thesis using p False by (auto simp: option.map_comp comp_def case_prod_beta)
  next
    case True
    obtain s where s: "kill_below pid sent = Some s" "kills edges (process_tree edges pid) sent s"
      using Cons.prems p True by fastforce
    have self: "pid \<in> process_tree edges pid" by (simp add: process_tree_def)
    then have s': "kills edges (process_tree edges pid) sent (s @ [pid])"
      using s(2) by (auto simp: kills_def killed_below_def)
    then have "killed_below edges (s @ [pid])" by (simp add: kills_def)
    then obtain s'' where rest: "map_option fst (kill_pass kill_below root ps (s @ [pid])) = Some s''"
      "kills edges (\<Union>pid \<in> {pid. (pid, root) \<in> set ps}. process_tree edges pid) (s @ [pid]) s''"
      using Cons.IH [of "s @ [pid]"] Cons.prems(1) by fastforce
    have "kills edges (process_tree edges pid \<union> (\<Union>pid \<in> {pid. (pid, root) \<in> set ps}. process_tree edges pid)) sent s''"
      by (rule kills_trans [OF s' rest(2)])
    moreover have "process_tree edges pid \<union> (\<Union>pid \<in> {pid. (pid, root) \<in> set ps}. process_tree edges pid) =
        (\<Union>pid \<in> {pid. (pid, root) \<in> set (p # ps)}. process_tree edges pid)" using p True by auto
    ultimately show ?thesis using s(1) rest(1) p True by (auto simp: option.map_comp comp_def case_prod_beta)
  qed
qed

lemma process_tree_step: "process_tree edges root = insert root (\<Union>pid \<in> {pid. (pid, root) \<in> edges}. process_tree edges pid)"
  by (auto simp: process_tree_def intro: rtrancl.rtrancl_into_rtrancl elim: rtranclE)

lemma kill_tree_kills:
  assumes "quiet_proc host edges rank bound" "killed_below edges sent" "bound \<le> depth + rank root" "rank root < bound" "0 < root"
  shows "\<exists>sent'. killProcessTree host depth root sent = Some sent' \<and> kills edges (process_tree edges root) sent sent'"
  using assms(2-5)
proof (induction depth arbitrary: root sent)
  case (Suc depth)
  let ?ps = "visit_order host (read_parents (proc_entries host sent))"
  let ?children = "{pid. (pid, root) \<in> set ?ps}"
  have ps: "set ?ps = shown host sent" using assms(1) by (simp add: quiet_proc_def shown_def)
  have edge: "(pid, parent) \<in> edges \<Longrightarrow> 0 < pid \<and> 0 \<le> parent \<and> rank parent < rank pid \<and> rank pid < bound" for pid parent
    using assms(1) by (auto simp: quiet_proc_def)
  have child: "(pid, root) \<in> set ?ps \<Longrightarrow> (pid, root) \<in> edges" for pid using assms(1) ps by (auto simp: quiet_proc_def)
  have "\<exists>s'. killProcessTree host depth pid s = Some s' \<and> kills edges (process_tree edges pid) s s'"
    if "(pid, root) \<in> set ?ps" "killed_below edges s" for pid s
    using Suc.IH [OF that(2), of pid] edge [OF child [OF that(1)]] Suc.prems(2) by simp
  then obtain s where s: "map_option fst (kill_pass (killProcessTree host depth) root ?ps sent) = Some s"
    "kills edges (\<Union>pid \<in> ?children. process_tree edges pid) sent s"
    using kill_pass_kills [of root ?ps edges "killProcessTree host depth" sent] Suc.prems(1) by blast
  have gone: "pid \<in> set sent" if "(pid, root) \<in> edges" "pid \<notin> ?children" for pid
    using assms(1) that unfolding ps quiet_proc_def by blast
  have closed: "pid \<in> set sent \<Longrightarrow> process_tree edges pid \<subseteq> set sent" for pid
  proof
    fix q assume "pid \<in> set sent" "q \<in> process_tree edges pid"
    then have "(q, pid) \<in> edges\<^sup>*" by (simp add: process_tree_def)
    then show "q \<in> set sent"
      by (induction rule: converse_rtrancl_induct) (use \<open>pid \<in> set sent\<close> Suc.prems(1) in \<open>auto simp: killed_below_def\<close>)
  qed
  have below: "process_tree edges pid \<subseteq> set s" if "(pid, root) \<in> edges" for pid
    using s(2) closed [of pid] gone [OF that] by (cases "pid \<in> ?children") (auto simp: kills_def)
  have tree: "process_tree edges root = insert root (\<Union>pid \<in> {pid. (pid, root) \<in> edges}. process_tree edges pid)"
    by (rule process_tree_step)
  have up: "(\<Union>pid \<in> ?children. process_tree edges pid) \<subseteq> process_tree edges root"
    using child process_tree_child by blast
  have "set s \<subseteq> set sent \<union> process_tree edges root \<union> uminus ` process_tree edges root"
    using s(2) up image_mono [OF up, of uminus] unfolding kills_def by blast
  moreover have "set sent \<union> process_tree edges root \<subseteq> set (s @ [- root, root])" "root \<in> process_tree edges root"
    using s(2) below unfolding kills_def tree by auto
  moreover have "killed_below edges (s @ [- root, root])"
    using s(2) below edge Suc.prems(4) unfolding kills_def killed_below_def process_tree_def by fastforce
  ultimately have "kills edges (process_tree edges root) sent (s @ [- root, root])"
    unfolding kills_def by auto
  then show ?case using s(1) by (auto simp: kill_passes_once)
qed simp

text \<open>
  C26: killing returns, with every process below and at the root killed and nothing but these processes and their groups, once the
  recursion may go as deep as the tree is.
\<close>

theorem kill_tree_exact:
  assumes "quiet_proc host edges rank depth" "rank root < depth" "0 < root"
  shows "\<exists>sent. killProcessTree host depth root [] = Some sent
     \<and> process_tree edges root \<subseteq> set sent
     \<and> set sent \<subseteq> process_tree edges root \<union> uminus ` process_tree edges root"
proof -
  have "killed_below edges []" by (simp add: killed_below_def)
  from kill_tree_kills [OF assms(1) this, of depth root] assms(2,3) show ?thesis by (auto simp: kills_def)
qed

definition sample_host :: tool_host where
  "sample_host =
     \<lparr>start_tool = \<lambda>args added. ClientGone 7, os_environ = [],
      proc_entries = \<lambda>sent. filter (\<lambda>(name, stat). name = ''9'' \<longrightarrow> 9 \<notin> set sent)
        [(''7'', Some ''7 (opencode) S 1 7''), (''8'', Some ''8 (a) b) S 7 7''), (''9'', Some ''9 (sh) S 8 7''), (''uptime'', None)],
      visit_order = rev\<rparr>"

definition sample_edges :: "(int \<times> int) set" where
  "sample_edges = {(7, 1), (8, 7), (9, 8)}"

lemma fields_step:
  "fields_from [] cur = (if cur = [] then [] else [cur])"
  "of_char c < (128 :: nat) \<Longrightarrow> fields_from (c # s) cur =
     (if IsSpace (of_char c) then (if cur = [] then [] else [cur]) @ fields_from s [] else fields_from s (cur @ [c]))"
  by (simp_all add: fields_from.simps [of "[]"] fields_from.simps [of "c # s"] DecodeRune_ascii)
lemma sample_fields: "read_parents (proc_entries sample_host sent) = [(7, 1), (8, 7)] @ (if 9 \<in> set sent then [] else [(9, 8)])"
proof -
  have "stat_parent ''7 (opencode) S 1 7'' = Some 1" "stat_parent ''8 (a) b) S 7 7'' = Some 7" "stat_parent ''9 (sh) S 8 7'' = Some 8"
    by (simp_all add: stat_parent_def Fields_def fields_step IsSpace_def ParseInt64_def ParseUint_def digit_value_def)
  moreover have "ParseInt64 ''7'' = Some 7" "ParseInt64 ''8'' = Some 8" "ParseInt64 ''9'' = Some 9" "ParseInt64 ''uptime'' = None"
    by (simp_all add: ParseInt64_def ParseUint_def digit_value_def)
  ultimately show ?thesis by (simp add: sample_host_def read_parents_def)
qed

lemma kill_tree_exact_witness:
  "\<exists>sent. killProcessTree sample_host 10 8 [] = Some sent \<and> {8, 9} \<subseteq> set sent \<and> 7 \<notin> set sent"
proof -
  have quiet: "quiet_proc sample_host sample_edges nat 10"
    by (auto simp: quiet_proc_def shown_def sample_fields sample_edges_def) (simp_all add: sample_host_def)
  have tree: "process_tree sample_edges 8 = {8, 9}"
  proof -
    have "process_tree sample_edges 9 = {9}" using process_tree_step [of sample_edges 9] by (auto simp: sample_edges_def)
    moreover have "{pid. (pid, 8) \<in> sample_edges} = {9}" by (auto simp: sample_edges_def)
    ultimately show ?thesis using process_tree_step [of sample_edges 8] by auto
  qed
  show ?thesis using kill_tree_exact [OF quiet, of 8] unfolding tree by auto
qed

end
