(* ===== verification/Analysis_Input.thy ===== *)
theory Analysis_Input
  imports Run_Props Driver_Files
begin

text \<open>
  \<open>analysis/input/main.go\<close>: the index over a directory of run results that the analysis starts from. What the JSON Schema library
  makes of a schema file is a parameter. The results it reads are the ones \<open>runresult\<close> wrote; the
  last section composes the two programs.
\<close>

section \<open>Documents\<close>

text \<open>\<open>evaluation\<close> is raw: nil when absent, and \<open>null\<close> is a value like any other.\<close>

record runInput =
  input_RunID :: string
  input_CellID :: string
  input_Repeat :: int
  input_Phase :: string
  input_Status :: string
  input_Evaluation :: "json option"

definition no_input :: runInput where
  "no_input = \<lparr>input_RunID = '''', input_CellID = '''', input_Repeat = 0, input_Phase = '''', input_Status = '''', input_Evaluation = None\<rparr>"

definition dec_runInput :: "runInput decoder" where
  "dec_runInput = dec_struct
     [(''runId'', at_field input_RunID input_RunID_update dec_string), (''cellId'', at_field input_CellID input_CellID_update dec_string),
      (''repeatIndex'', at_field input_Repeat input_Repeat_update dec_int), (''phase'', at_field input_Phase input_Phase_update dec_string),
      (''status'', at_field input_Status input_Status_update dec_string),
      (''evaluation'', at_field input_Evaluation input_Evaluation_update (\<lambda>v old. (Some v, True)))]"

record indexEntry =
  entry_RunID :: string
  entry_CellID :: string
  entry_RepeatIndex :: int
  entry_Phase :: string
  entry_Status :: string
  entry_CompleteSuccess :: "bool option"
  entry_CandidateFailure :: bool

definition index_entry_json :: "indexEntry \<Rightarrow> json" where
  "index_entry_json e = JObject
     [(''runId'', JString (entry_RunID e)), (''cellId'', JString (entry_CellID e)), (''repeatIndex'', jint (entry_RepeatIndex e)),
      (''phase'', JString (entry_Phase e)), (''status'', JString (entry_Status e)),
      (''completeSuccess'', jopt JBool (entry_CompleteSuccess e)), (''candidateFailure'', JBool (entry_CandidateFailure e))]"

definition analysis_json :: "indexEntry list \<Rightarrow> json" where
  "analysis_json runs = JObject [(''schemaVersion'', jint 1), (''runs'', JArray (map index_entry_json runs))]"

section \<open>Loading\<close>

datatype analysis_error =
    SchemaBroken
  | ResultsUnreadable
  | RunUnreadable string
  | RunUnparsable string
  | RunInvalidDocument string
  | RunUndecodable
  | RunDuplicated string string string
  | EvaluationUndecodable
  | NullEvaluation
  | NoRuns

definition dec_complete :: "bool decoder" where
  "dec_complete = dec_struct [(''completeSuccess'', dec_bool)]"

definition make_entry :: "runInput \<Rightarrow> analysis_error + indexEntry" where
  "make_entry run =
     (let item = \<lparr>entry_RunID = input_RunID run, entry_CellID = input_CellID run, entry_RepeatIndex = input_Repeat run,
        entry_Phase = input_Phase run, entry_Status = input_Status run, entry_CompleteSuccess = None, entry_CandidateFailure = False\<rparr> in
      case input_Evaluation run of
        None \<Rightarrow> Inl EvaluationUndecodable
      | Some v \<Rightarrow>
          if v \<noteq> JNull then
            (case dec_complete v False of
               (_, False) \<Rightarrow> Inl EvaluationUndecodable
             | (complete, True) \<Rightarrow>
                 Inr (item\<lparr>entry_CompleteSuccess := Some complete, entry_CandidateFailure := \<not> complete\<rparr>))
          else if input_Status run \<noteq> ''infrastructure-failure'' \<and> input_Status run \<noteq> ''harness-failure'' then Inl NullEvaluation
          else Inr item)"

definition load_run :: "(json \<Rightarrow> bool) \<Rightarrow> filesystem \<Rightarrow> string \<Rightarrow> string \<Rightarrow> analysis_error + runInput" where
  "load_run valid fs resultsDir name =
     (let path = Join (Join resultsDir name) ''run-result.json'' in
      case ReadFile fs path of
        None \<Rightarrow> Inl (RunUnreadable name)
      | Some data \<Rightarrow>
          (case parse_json data of
             None \<Rightarrow> Inl (RunUnparsable path)
           | Some v \<Rightarrow>
               if \<not> valid (to_any v) then Inl (RunInvalidDocument path)
               else (case dec_runInput v no_input of (_, False) \<Rightarrow> Inl RunUndecodable | (run, True) \<Rightarrow> Inr run)))"

text \<open>The loop over the entries; \<open>seen\<close> maps a run identifier to its directory.\<close>

fun load_entries :: "(json \<Rightarrow> bool) \<Rightarrow> filesystem \<Rightarrow> string \<Rightarrow> (string \<times> node) list \<Rightarrow> (string \<rightharpoonup> string) \<Rightarrow> indexEntry list
    \<Rightarrow> analysis_error + indexEntry list" where
  "load_entries valid fs resultsDir [] seen runs = Inr runs"
| "load_entries valid fs resultsDir ((name, n) # rest) seen runs =
     (if \<not> IsDir n then load_entries valid fs resultsDir rest seen runs
      else case load_run valid fs resultsDir name of
        Inl e \<Rightarrow> Inl e
      | Inr run \<Rightarrow>
          (case seen (input_RunID run) of
             Some previous \<Rightarrow> Inl (RunDuplicated (input_RunID run) previous name)
           | None \<Rightarrow>
               (case make_entry run of
                  Inl e \<Rightarrow> Inl e
                | Inr item \<Rightarrow> load_entries valid fs resultsDir rest (seen(input_RunID run \<mapsto> name)) (runs @ [item]))))"

definition load :: "(filesystem \<Rightarrow> string \<Rightarrow> (json \<Rightarrow> bool) option) \<Rightarrow> filesystem \<Rightarrow> string \<Rightarrow> string
    \<Rightarrow> analysis_error + indexEntry list" where
  "load compile_schema fs root resultsDir =
     (case compile_schema fs (Abs fs (Join (Join root ''schemas'') ''run-result.schema.json'')) of
        None \<Rightarrow> Inl SchemaBroken
      | Some valid \<Rightarrow>
          (case ReadDir fs resultsDir of
             None \<Rightarrow> Inl ResultsUnreadable
           | Some entries \<Rightarrow>
               (case load_entries valid fs resultsDir entries Map.empty [] of
                  Inl e \<Rightarrow> Inl e
                | Inr runs \<Rightarrow> if runs = [] then Inl NoRuns else Inr (sort_key entry_RunID runs))))"

text \<open>The command: its exit code, what it prints, and the file tree behind it.\<close>

record analysis_flags =
  analysis_root :: string
  analysis_results :: string
  analysis_output :: string
  analysis_args :: "string list"

definition analysis_main :: "(filesystem \<Rightarrow> string \<Rightarrow> (json \<Rightarrow> bool) option) \<Rightarrow> filesystem \<Rightarrow> analysis_flags \<Rightarrow> nat \<times> string \<times> filesystem" where
  "analysis_main compile_schema fs flags =
     (if analysis_args flags \<noteq> [] \<or> analysis_results flags = '''' then (2, '''', fs)
      else case load compile_schema fs (analysis_root flags) (analysis_results flags) of
        Inl _ \<Rightarrow> (2, '''', fs)
      | Inr runs \<Rightarrow>
          (let data = MarshalIndent (analysis_json runs) @ [CHR 0x0A] in
           if analysis_output flags = ''-'' then (0, data, fs)
           else case WriteFile fs (analysis_output flags) data of
             None \<Rightarrow> (2, '''', fs)
           | Some fs' \<Rightarrow> (0, '''', fs')))"

section \<open>The index\<close>

lemma make_entry_Inr:
  "make_entry run = Inr item \<Longrightarrow> entry_RunID item = input_RunID run
     \<and> (entry_CandidateFailure item \<longleftrightarrow> entry_CompleteSuccess item = Some False)
     \<and> (entry_CompleteSuccess item = None \<longrightarrow> entry_Status item \<in> {''infrastructure-failure'', ''harness-failure''})"
  by (auto simp: make_entry_def Let_def split: option.splits if_splits prod.splits bool.splits)

text \<open>What one directory contributes.\<close>

definition run_entry :: "(json \<Rightarrow> bool) \<Rightarrow> filesystem \<Rightarrow> string \<Rightarrow> string \<Rightarrow> indexEntry option" where
  "run_entry valid fs resultsDir name =
     (case load_run valid fs resultsDir name of
        Inl _ \<Rightarrow> None
      | Inr run \<Rightarrow> (case make_entry run of Inl _ \<Rightarrow> None | Inr item \<Rightarrow> Some item))"

abbreviation run_dirs :: "(string \<times> node) list \<Rightarrow> string list" where
  "run_dirs entries \<equiv> map fst (filter (\<lambda>(name, n). IsDir n) entries)"

lemma run_entry_Some:
  "run_entry valid fs resultsDir name = Some item \<longleftrightarrow>
     (\<exists>run. load_run valid fs resultsDir name = Inr run \<and> make_entry run = Inr item)"
  by (auto simp: run_entry_def split: sum.splits)

lemma load_entries_exact:
  "load_entries valid fs resultsDir entries seen runs = Inr all \<longleftrightarrow>
     (\<exists>new. map (run_entry valid fs resultsDir) (run_dirs entries) = map Some new \<and> all = runs @ new
        \<and> distinct (map entry_RunID new) \<and> entry_RunID ` set new \<inter> dom seen = {})"
proof (induction entries arbitrary: seen runs)
  case (Cons e entries)
  obtain name n where e: "e = (name, n)" by fastforce
  show ?case
  proof (cases "IsDir n")
    case True
    show ?thesis
    proof (cases "run_entry valid fs resultsDir name")
      case None
      then show ?thesis using e True
        by (auto simp: run_entry_def split: sum.splits option.splits)
    next
      case (Some item)
      then obtain run where run: "load_run valid fs resultsDir name = Inr run" "make_entry run = Inr item"
        by (auto simp: run_entry_Some)
      have i: "entry_RunID item = input_RunID run" using make_entry_Inr [OF run(2)] by simp
      show ?thesis
      proof (cases "seen (input_RunID run)")
        case None
        then have "entry_RunID item \<notin> dom seen" using i by auto
        then show ?thesis using e True run None Some i
          by (auto simp: Cons.IH Cons_eq_map_conv simp del: fun_upd_apply)
      next
        case (Some previous)
        then have "entry_RunID item \<in> dom seen" using i by auto
        then show ?thesis using e True run Some \<open>run_entry valid fs resultsDir name = Some item\<close> 
          by (auto simp: Cons_eq_map_conv)
      qed
    qed
  qed (use Cons e in simp)
qed auto

lemma load_exact:
  "load compile_schema fs root resultsDir = Inr runs \<longleftrightarrow>
     (\<exists>valid entries new.
        compile_schema fs (Abs fs (Join (Join root ''schemas'') ''run-result.schema.json'')) = Some valid
        \<and> ReadDir fs resultsDir = Some entries \<and> map (run_entry valid fs resultsDir) (run_dirs entries) = map Some new
        \<and> distinct (map entry_RunID new) \<and> new \<noteq> [] \<and> runs = sort_key entry_RunID new)"
proof -
  have "(case load_entries valid fs resultsDir entries Map.empty [] of
        Inl e \<Rightarrow> Inl e | Inr found \<Rightarrow> if found = [] then Inl NoRuns else Inr (sort_key entry_RunID found)) = Inr runs \<longleftrightarrow>
      (\<exists>new. load_entries valid fs resultsDir entries Map.empty [] = Inr new \<and> new \<noteq> [] \<and> runs = sort_key entry_RunID new)"
    for valid entries by (auto split: sum.splits)
  then show ?thesis by (auto simp: load_def load_entries_exact split: option.splits)
qed

text \<open>
  An index the command delivers has every run directory once, in strictly increasing order of run identifiers; it calls a
  run a failure of the candidate exactly if it was evaluated and not completely successful, and a run without evaluation is a failure of the
  infrastructure or the harness.
\<close>

theorem analysis_index_sound:
  assumes "load compile_schema fs root resultsDir = Inr runs" "ReadDir fs resultsDir = Some entries"
  shows "runs \<noteq> [] \<and> length runs = length (run_dirs entries) \<and> sorted_wrt (<) (map entry_RunID runs)
     \<and> list_all (\<lambda>e. (entry_CandidateFailure e \<longleftrightarrow> entry_CompleteSuccess e = Some False)
          \<and> (entry_CompleteSuccess e \<noteq> None \<or> entry_Status e \<in> {''infrastructure-failure'', ''harness-failure''})) runs"
proof -
  obtain valid new where new: "map (run_entry valid fs resultsDir) (run_dirs entries) = map Some new"
    "distinct (map entry_RunID new)" "new \<noteq> []" "runs = sort_key entry_RunID new"
    using assms unfolding load_exact by auto
  have "length (run_dirs entries) = length new" using arg_cong [OF new(1), of length] by simp
  moreover have "sorted_wrt (<) (map entry_RunID runs)"
    unfolding strict_sorted_iff using new(2,4) by (simp add: distinct_map)
  moreover have "(entry_CandidateFailure e \<longleftrightarrow> entry_CompleteSuccess e = Some False)
      \<and> (entry_CompleteSuccess e \<noteq> None \<or> entry_Status e \<in> {''infrastructure-failure'', ''harness-failure''})"
    if "e \<in> set new" for e
  proof -
    have "Some e \<in> set (map (run_entry valid fs resultsDir) (run_dirs entries))" using that new(1) by simp
    then obtain name where "run_entry valid fs resultsDir name = Some e" by auto
    then show ?thesis using make_entry_Inr unfolding run_entry_Some by blast
  qed
  moreover have "runs \<noteq> []" using new(3,4) by (metis length_0_conv length_sort)
  ultimately show ?thesis using new(4) by (simp add: list_all_iff)
qed

section \<open>From the assembled results to the index\<close>

text \<open>What the index shows of an assembled result.\<close>

definition summary :: "RunResult \<Rightarrow> indexEntry" where
  "summary r =
     \<lparr>entry_RunID = result_RunID r, entry_CellID = result_CellID r, entry_RepeatIndex = result_RepeatIndex r,
      entry_Phase = result_Phase r, entry_Status = result_Status r,
      entry_CompleteSuccess = map_option eval_CompleteSuccess (result_Evaluation r),
      entry_CandidateFailure = (case result_Evaluation r of None \<Rightarrow> False | Some ev \<Rightarrow> \<not> eval_CompleteSuccess ev)\<rparr>"

definition as_runInput :: "RunResult \<Rightarrow> runInput" where
  "as_runInput r =
     \<lparr>input_RunID = result_RunID r, input_CellID = result_CellID r, input_Repeat = result_RepeatIndex r, input_Phase = result_Phase r,
      input_Status = result_Status r, input_Evaluation = Some (jopt evaluation_json (result_Evaluation r))\<rparr>"

lemma input_unknown:
  "k \<in> {''schemaVersion'', ''stage'', ''task'', ''mode'', ''treatment'', ''protocolViolations'', ''infrastructure'', ''timing'',
     ''usage'', ''process'', ''artifacts''} \<Longrightarrow>
   select_field [''runId'', ''cellId'', ''repeatIndex'', ''phase'', ''status'', ''evaluation''] k = None"
proof -
  have "list_all (\<lambda>k. select_field [''runId'', ''cellId'', ''repeatIndex'', ''phase'', ''status'', ''evaluation''] k = None)
    [''schemaVersion'', ''stage'', ''task'', ''mode'', ''treatment'', ''protocolViolations'', ''infrastructure'', ''timing'',
     ''usage'', ''process'', ''artifacts'']" by code_simp
  then show "k \<in> {''schemaVersion'', ''stage'', ''task'', ''mode'', ''treatment'', ''protocolViolations'', ''infrastructure'', ''timing'',
     ''usage'', ''process'', ''artifacts''} \<Longrightarrow>
   select_field [''runId'', ''cellId'', ''repeatIndex'', ''phase'', ''status'', ''evaluation''] k = None" by auto
qed

lemma dec_input_json:
  "int64 (result_RepeatIndex r) \<Longrightarrow> dec_runInput (result_json r) no_input = (as_runInput r, True)"
  by (simp add: dec_runInput_def result_json_def no_input_def as_runInput_def dec_struct_def select_known input_unknown at_field_def
      dec_int_FormatInt)

lemma complete_unknown:
  "k \<in> {''commonGates'', ''behaviorCases'', ''codegenHealth'', ''candidateTests'', ''residualFailures''} \<Longrightarrow>
   select_field [''completeSuccess''] k = None"
  by (auto simp: select_field_def fold_char_def)

lemma dec_complete_json: "dec_complete (evaluation_json ev) old = (eval_CompleteSuccess ev, True)"
  by (simp add: dec_complete_def evaluation_json_def dec_struct_def select_known complete_unknown)

lemma make_entry_summary:
  assumes "result_Evaluation r = None \<longrightarrow> result_Status r \<in> {''infrastructure-failure'', ''harness-failure''}"
  shows "make_entry (as_runInput r) = Inr (summary r)"
proof (cases "result_Evaluation r")
  case (Some ev)
  have "evaluation_json ev \<noteq> JNull" by (simp add: evaluation_json_def)
  then show ?thesis using Some by (simp add: make_entry_def as_runInput_def summary_def dec_complete_json)
qed (use assms in \<open>auto simp: make_entry_def as_runInput_def summary_def\<close>)

text \<open>A directory of results as \<open>runresult\<close> leaves them: \<open>r\<close> gives the result assembled in a run directory.\<close>

definition assembled_results :: "(json \<Rightarrow> bool) \<Rightarrow> filesystem \<Rightarrow> string \<Rightarrow> string list \<Rightarrow> (string \<Rightarrow> RunResult) \<Rightarrow> bool" where
  "assembled_results valid fs resultsDir names r \<longleftrightarrow>
     names \<noteq> [] \<and> distinct (map (result_RunID \<circ> r) names)
     \<and> list_all (\<lambda>name.
          ReadFile fs (Join (Join resultsDir name) ''run-result.json'') = Some (MarshalIndent (result_json (r name)) @ [CHR 0x0A])
          \<and> printable 0 (result_json (r name)) \<and> int64 (result_RepeatIndex (r name)) \<and> valid (to_any (result_json (r name)))
          \<and> (result_Evaluation (r name) \<noteq> None \<or> result_Status (r name) \<in> {''infrastructure-failure'', ''harness-failure''})) names"

lemma run_entry_assembled:
  assumes "assembled_results valid fs resultsDir names r" "name \<in> set names"
  shows "run_entry valid fs resultsDir name = Some (summary (r name))"
proof -
  have a: "ReadFile fs (Join (Join resultsDir name) ''run-result.json'') = Some (MarshalIndent (result_json (r name)) @ [CHR 0x0A])"
    "printable 0 (result_json (r name))" "int64 (result_RepeatIndex (r name))" "valid (to_any (result_json (r name)))"
    "result_Evaluation (r name) = None \<longrightarrow> result_Status (r name) \<in> {''infrastructure-failure'', ''harness-failure''}"
    using assms unfolding assembled_results_def list_all_iff by blast+
  have "parse_json (MarshalIndent (result_json (r name)) @ [CHR 0x0A]) = Some (result_json (r name))"
    by (rule parse_printed [OF a(2)]) (simp_all add: ends_value_def skip_ws_def is_ws_def)
  then have "load_run valid fs resultsDir name = Inr (as_runInput (r name))"
    using a(1,4) by (simp add: load_run_def dec_input_json [OF a(3)])
  then show ?thesis using make_entry_summary [OF a(5)] by (simp add: run_entry_def)
qed

lemma map_Some_cong: "(\<And>x. x \<in> set xs \<Longrightarrow> f x = Some (g (h x))) \<Longrightarrow> map f xs = map Some (map (g \<circ> h) xs)"
  by (induction xs) auto

text \<open>
  C11: the index over a directory of assembled results has exactly their summaries, by run identifier: nothing of what
  \<open>runresult\<close> decided about a run is lost or changed on the way to the analysis.
\<close>

theorem index_of_results:
  assumes "compile_schema fs (Abs fs (Join (Join root ''schemas'') ''run-result.schema.json'')) = Some valid"
    "ReadDir fs resultsDir = Some entries" "assembled_results valid fs resultsDir (run_dirs entries) r"
  shows "load compile_schema fs root resultsDir = Inr (sort_key entry_RunID (map (summary \<circ> r) (run_dirs entries)))"
proof -
  have "map (run_entry valid fs resultsDir) (run_dirs entries) = map Some (map (summary \<circ> r) (run_dirs entries))"
    using run_entry_assembled [OF assms(3)] by (intro map_Some_cong)
  moreover have "distinct (map entry_RunID (map (summary \<circ> r) (run_dirs entries)))"
    using assms(3) by (simp add: assembled_results_def summary_def comp_def del: map_map) (simp add: comp_def)
  ultimately show ?thesis using assms(1,2,3) unfolding load_exact assembled_results_def by blast
qed

definition results_sample :: filesystem where
  "results_sample =
     \<lparr>fs_root = Directory True
        [(''results'', Directory True
           [(''a'', Directory True [(''run-result.json'', Reg True (MarshalIndent (result_json sample_result) @ [CHR 0x0A]))]),
            (''notes'', Reg True [])])],
      fs_cwd = ''/''\<rparr>"

lemma results_sample_dir:
  "ReadDir results_sample ''/results'' = Some
     [(''a'', Directory True [(''run-result.json'', Reg True (MarshalIndent (result_json sample_result) @ [CHR 0x0A]))]), (''notes'', Reg True [])]"
  by (simp add: results_sample_def ReadDir_def Stat_def locate_def IsAbs_def HasPrefix_def sort_key_simps)

lemma results_sample_assembled:
  "assembled_results (\<lambda>_. True) results_sample ''/results'' [''a''] (\<lambda>_. sample_result)"
proof -
  have "Join (Join ''/results'' ''a'') ''run-result.json'' = ''/results/a/run-result.json''" by (simp add: path_eval)
  moreover have "ReadFile results_sample ''/results/a/run-result.json'' = Some (MarshalIndent (result_json sample_result) @ [CHR 0x0A])"
    by (simp add: results_sample_def ReadFile_def Stat_def locate_def IsAbs_def HasPrefix_def)
  moreover have "int64 (result_RepeatIndex sample_result)" "result_Status sample_result \<in> {''infrastructure-failure'', ''harness-failure''}"
    by (simp_all add: sample_result_def)
  ultimately show ?thesis using sample_result_printable by (simp add: assembled_results_def)
qed

theorem index_of_results_witness:
  "load (\<lambda>_ _. Some (\<lambda>_. True)) results_sample ''/'' ''/results'' = Inr [summary sample_result]"
  using index_of_results [OF _ results_sample_dir, of "\<lambda>_ _. Some (\<lambda>_. True)" "''/''" "\<lambda>_. True" "\<lambda>_. sample_result"]
    results_sample_assembled by (simp add: IsDir_def)

theorem analysis_index_sound_witness:
  "\<exists>runs. load (\<lambda>_ _. Some (\<lambda>_. True)) results_sample ''/'' ''/results'' = Inr runs \<and> length runs = 1"
proof -
  have run: "run_entry (\<lambda>_. True) results_sample ''/results'' ''a'' = Some (summary sample_result)"
    using run_entry_assembled [OF results_sample_assembled] by simp
  have "load (\<lambda>_ _. Some (\<lambda>_. True)) results_sample ''/'' ''/results'' = Inr [summary sample_result]"
    unfolding load_exact
    by (rule exI [of _ "\<lambda>_. True"], rule exI [of _ "the (ReadDir results_sample ''/results'')"],
      rule exI [of _ "[summary sample_result]"]) (simp add: results_sample_dir run IsDir_def)
  from analysis_index_sound [OF this results_sample_dir] this show ?thesis by (simp add: IsDir_def)
qed

end
