(* ===== verification/Target_Check.thy ===== *)
theory Target_Check
  imports Driver_Workspace Run_Props
begin

text \<open>
  \<open>tasks/propagation/validate-targets.go\<close>: the check that the canonical formal targets of the three tasks are the files of both
  reference solutions. The paths are relative to the root of the repository.
\<close>

record target_manifest =
  manifest_Schema :: string
  manifest_SchemaVersion :: int
  manifest_Status :: string
  manifest_PatchSHA256 :: string
  manifest_Files :: "target_file list"

abbreviation dec_file_list :: "target_file list decoder" where
  "dec_file_list \<equiv> dec_slice \<lparr>target_Path = '''', target_SHA256 = ''''\<rparr>
     (dec_struct [(''path'', at_field target_Path target_Path_update dec_string),
                  (''sha256'', at_field target_SHA256 target_SHA256_update dec_string)])"

definition dec_target_manifest :: "target_manifest decoder" where
  "dec_target_manifest = dec_struct
     [(''$schema'', at_field manifest_Schema manifest_Schema_update dec_string),
      (''schemaVersion'', at_field manifest_SchemaVersion manifest_SchemaVersion_update dec_int),
      (''status'', at_field manifest_Status manifest_Status_update dec_string),
      (''formalPatchSha256'', at_field manifest_PatchSHA256 manifest_PatchSHA256_update dec_string),
      (''files'', at_field manifest_Files manifest_Files_update dec_file_list)]"

definition no_manifest :: target_manifest where
  "no_manifest = \<lparr>manifest_Schema = '''', manifest_SchemaVersion = 0, manifest_Status = '''', manifest_PatchSHA256 = '''', manifest_Files = []\<rparr>"

datatype target_error =
    ManifestUnread
  | ManifestUndecoded
  | ManifestMetadata
  | PatchUnread
  | PatchMismatch
  | FormalPath string
  | DirectUnread string
  | CodegenUnread string
  | FilesDiffer string
  | FileMismatch string

definition validFormalPath :: "string \<Rightarrow> bool" where
  "validFormalPath path \<longleftrightarrow>
     path = ''api/openapi.yaml'' \<or> path = ''db/queries/tasks.sql'' \<or> Dir path = Join ''db'' ''migrations''"

fun validate_files :: "filesystem \<Rightarrow> string \<Rightarrow> string \<Rightarrow> string list \<Rightarrow> target_file list \<Rightarrow> target_error option" where
  "validate_files fs direct codegen seen [] = None"
| "validate_files fs direct codegen seen (file # rest) =
     (let path = target_Path file in
      if path \<in> set seen \<or> \<not> validFormalPath path then Some (FormalPath path)
      else case ReadFile fs (Join direct path) of
        None \<Rightarrow> Some (DirectUnread path)
      | Some directData \<Rightarrow>
          (case ReadFile fs (Join codegen path) of
             None \<Rightarrow> Some (CodegenUnread path)
           | Some codegenData \<Rightarrow>
               if directData \<noteq> codegenData then Some (FilesDiffer path)
               else if sha256_hex directData \<noteq> target_SHA256 file then Some (FileMismatch path)
               else validate_files fs direct codegen (path # seen) rest))"

definition solution_path :: "string \<Rightarrow> string \<Rightarrow> string" where
  "solution_path track treatment = Join (Join ''fixtures'' ''task-solutions'') (track @ ''-'' @ treatment)"

definition validateTrack :: "filesystem \<Rightarrow> string \<Rightarrow> target_error option" where
  "validateTrack fs track =
     (let directory = Join (Join ''tasks'' ''propagation'') track in
      case ReadFile fs (Join directory ''target-manifest.json'') of
        None \<Rightarrow> Some ManifestUnread
      | Some manifestData \<Rightarrow>
          (case Unmarshal dec_target_manifest no_manifest manifestData of
             (_, False) \<Rightarrow> Some ManifestUndecoded
           | (manifest, True) \<Rightarrow>
               if manifest_Schema manifest \<noteq> ''../../../schemas/target-manifest.schema.json'' \<or> manifest_SchemaVersion manifest \<noteq> 1
                  \<or> manifest_Status manifest \<noteq> ''draft'' \<or> manifest_Files manifest = []
               then Some ManifestMetadata
               else case ReadFile fs (Join directory ''formal.patch'') of
                 None \<Rightarrow> Some PatchUnread
               | Some patchData \<Rightarrow>
                   if sha256_hex patchData \<noteq> manifest_PatchSHA256 manifest then Some PatchMismatch
                   else validate_files fs (solution_path track ''direct'') (solution_path track ''codegen'') []
                          (manifest_Files manifest)))"

definition target_main :: "filesystem \<Rightarrow> nat" where
  "target_main fs =
     (if list_all (\<lambda>track. validateTrack fs track = None) [''nullable-patch'', ''optimistic-locking'', ''cursor-pagination''] then 0 else 1)"

section \<open>A validated task passes the gate of the assembly\<close>

lemma select_field_unique:
  assumes "distinct (map (map fold_char) names)" "n \<in> set names"
  shows "select_field names k = Some n \<longleftrightarrow> map fold_char n = map fold_char k"
proof -
  have inj: "m = n" if "m \<in> set names" "map fold_char m = map fold_char n" for m
    using that assms by (auto simp: distinct_map dest: inj_onD)
  show ?thesis
  proof (cases "k \<in> set names")
    case True
    then show ?thesis using inj [of k] by (auto simp: select_field_def)
  next
    case False
    let ?P = "\<lambda>m. map fold_char m = map fold_char k"
    have found: "m \<in> set names \<and> ?P m" if "find ?P names = Some m" for m
      using that unfolding find_Some_iff by (metis nth_mem)
    have "find ?P names = Some n" if P: "?P n"
    proof (cases "find ?P names")
      case None
      then show ?thesis using P assms(2) unfolding find_None_iff by blast
    next
      case (Some m)
      then show ?thesis using found [of m] inj [of m] P by metis
    qed
    then have "find ?P names = Some n \<longleftrightarrow> ?P n" using found by blast
    then show ?thesis using False by (simp add: select_field_def)
  qed
qed

abbreviation manifest_names :: "string list" where
  "manifest_names \<equiv> [''$schema'', ''schemaVersion'', ''status'', ''formalPatchSha256'', ''files'']"

lemma select_files: "select_field manifest_names k = Some ''files'' \<longleftrightarrow> select_field [''files''] k = Some ''files''"
proof -
  have "distinct (map length (map (map fold_char) manifest_names))" by simp
  then have "distinct (map (map fold_char) manifest_names)" unfolding distinct_map by blast
  then have "select_field manifest_names k = Some ''files'' \<longleftrightarrow> map fold_char ''files'' = map fold_char k"
    by (rule select_field_unique) simp
  moreover have "select_field [''files''] k = Some ''files'' \<longleftrightarrow> map fold_char ''files'' = map fold_char k"
    by (rule select_field_unique) simp_all
  ultimately show ?thesis by blast
qed

text \<open>The assembly decodes the files only; what it gets is what the check got.\<close>

definition decode_member :: "(string \<times> 'r decoder) list \<Rightarrow> string \<times> json \<Rightarrow> 'r \<times> bool \<Rightarrow> 'r \<times> bool" where
  "decode_member fs = (\<lambda>(k, x) (r, ok).
     case Option.bind (select_field (map fst fs) k) (map_of fs) of
       None \<Rightarrow> (r, ok) | Some d \<Rightarrow> (let (r', good) = d x r in (r', ok \<and> good)))"

lemma dec_struct_fold: "dec_struct fs v old =
    (case v of JObject ms \<Rightarrow> fold (decode_member fs) ms (old, True) | JNull \<Rightarrow> (old, True) | _ \<Rightarrow> (old, False))"
  by (cases v) (simp_all add: dec_struct_def decode_member_def)

abbreviation manifest_fields :: "(string \<times> target_manifest decoder) list" where
  "manifest_fields \<equiv>
     [(''$schema'', at_field manifest_Schema manifest_Schema_update dec_string),
      (''schemaVersion'', at_field manifest_SchemaVersion manifest_SchemaVersion_update dec_int),
      (''status'', at_field manifest_Status manifest_Status_update dec_string),
      (''formalPatchSha256'', at_field manifest_PatchSHA256 manifest_PatchSHA256_update dec_string),
      (''files'', at_field manifest_Files manifest_Files_update dec_file_list)]"

lemma decode_member_files:
  assumes "decode_member manifest_fields (k, x) (r, ok) = (r', True)"
  shows "ok \<and> decode_member [(''files'', dec_file_list)] (k, x) (manifest_Files r, True) = (manifest_Files r', True)"
proof (cases "select_field [''files''] k = Some ''files''")
  case True
  then have "select_field manifest_names k = Some ''files''" by (simp only: select_files)
  then show ?thesis using True assms by (auto simp: decode_member_def at_field_def Let_def split: prod.splits)
next
  case False
  then have other: "select_field manifest_names k \<noteq> Some ''files''" by (simp only: select_files not_False_eq_True)
  have "select_field [''files''] k = None" using False by (auto simp: select_field_def split: if_splits)
  then have same: "decode_member [(''files'', dec_file_list)] (k, x) (manifest_Files r, True) = (manifest_Files r, True)"
    by (simp add: decode_member_def)
  have "ok \<and> manifest_Files r' = manifest_Files r"
    using assms other
    by (cases "select_field manifest_names k")
      (auto simp: decode_member_def at_field_def Let_def split: prod.splits if_splits)
  then show ?thesis using same by simp
qed

lemma files_only:
  assumes "dec_target_manifest v m = (m', True)"
  shows "dec_targetManifest v (manifest_Files m) = (manifest_Files m', True)"
proof -
  have "fold (decode_member manifest_fields) ms (r, ok) = (r', True) \<Longrightarrow>
      ok \<and> fold (decode_member [(''files'', dec_file_list)]) ms (manifest_Files r, True) = (manifest_Files r', True)" for ms r r' ok
  proof (induction ms arbitrary: r ok)
    case (Cons kx ms)
    obtain k x where kx: "kx = (k, x)" by fastforce
    obtain r1 ok1 where step: "decode_member manifest_fields (k, x) (r, ok) = (r1, ok1)" by fastforce
    have rest: "ok1 \<and> fold (decode_member [(''files'', dec_file_list)]) ms (manifest_Files r1, True) = (manifest_Files r', True)"
      using Cons.IH [of r1 ok1] Cons.prems step kx by (simp only: fold_simps)
    then have "ok \<and> decode_member [(''files'', dec_file_list)] (k, x) (manifest_Files r, True) = (manifest_Files r1, True)"
      using decode_member_files [of k x r ok r1] rest step by simp
    then show ?case using rest kx by simp
  qed simp
  then show ?thesis using assms
    by (cases v) (auto simp: dec_target_manifest_def dec_targetManifest_def dec_struct_fold)
qed

lemma validate_files_None:
  "validate_files fs direct codegen seen files = None \<Longrightarrow>
     scan_targets fs direct files = (True, '''') \<and> scan_targets fs codegen files = (True, '''')
     \<and> distinct (map target_Path files) \<and> set seen \<inter> set (map target_Path files) = {}
     \<and> list_all (\<lambda>f. validFormalPath (target_Path f)) files"
proof (induction files arbitrary: seen)
  case (Cons x files)
  then obtain data where data: "ReadFile fs (Join direct (target_Path x)) = Some data"
    "ReadFile fs (Join codegen (target_Path x)) = Some data" "sha256_hex data = target_SHA256 x"
    "validate_files fs direct codegen (target_Path x # seen) files = None"
    "target_Path x \<notin> set seen" "validFormalPath (target_Path x)"
    by (auto simp: Let_def split: if_splits option.splits)
  then show ?case using Cons.IH [OF data(4)] by (auto simp: EqualFold_def)
qed simp

text \<open>
  C39: the reference solutions pass the gate: when the check accepts a task, the formal-inputs gate of \<open>runresult\<close> accepts both
  reference solutions as propagated workspaces of the task, from the same manifest.
\<close>

theorem validated_track_passes_gate:
  assumes "validateTrack fs track = None" "treatment \<in> {''direct'', ''codegen''}"
  shows "checkPropagationTarget ext fs (solution_path track treatment) track ''tasks/propagation'' = (True, '''')"
proof -
  have path: "Join ''tasks'' ''propagation'' = ''tasks/propagation''" by (simp add: path_eval)
  obtain data manifest where m: "ReadFile fs (Join (Join ''tasks/propagation'' track) ''target-manifest.json'') = Some data"
    "Unmarshal dec_target_manifest no_manifest data = (manifest, True)"
    "validate_files fs (solution_path track ''direct'') (solution_path track ''codegen'') [] (manifest_Files manifest) = None"
    using assms(1) unfolding validateTrack_def path
    by (auto simp: Let_def split: option.splits prod.splits bool.splits if_splits)
  then obtain v where "parse_json data = Some v" "dec_target_manifest v no_manifest = (manifest, True)"
    by (auto simp: Unmarshal_def split: option.splits)
  then have "Unmarshal dec_targetManifest [] data = (manifest_Files manifest, True)"
    using files_only [of v no_manifest manifest] by (simp add: Unmarshal_def no_manifest_def)
  then show ?thesis
    using m(1) validate_files_None [OF m(3)] assms(2) by (auto simp: checkPropagationTarget_def Let_def)
qed

lemma ascii_hex: "ascii (sha256_hex s)"
proof -
  have "list_all (\<lambda>n. of_char (hex_digit n) < (128 :: nat)) [0..<16]" by (simp add: upt_rec hex_digit_def)
  then have digit: "n < 16 \<Longrightarrow> of_char (hex_digit n) < (128 :: nat)" for n by (simp add: list_all_iff)
  have "unat (b :: byte) div 16 < 16" for b
  proof -
    have "unat b < 2 ^ LENGTH(8)" by (rule unsigned_less)
    then show ?thesis by simp
  qed
  then have "ascii (hex_EncodeToString bs)" for bs by (induction bs) (simp_all add: digit)
  then show ?thesis by (simp add: sha256_hex_def)
qed

definition sample_target_json :: json where
  "sample_target_json = JObject
     [(''$schema'', JString ''../../../schemas/target-manifest.schema.json''), (''schemaVersion'', jint 1), (''status'', JString ''draft''),
      (''formalPatchSha256'', JString (sha256_hex ''p'')),
      (''files'', JArray [JObject [(''path'', JString ''api/openapi.yaml''), (''sha256'', JString (sha256_hex ''x''))]])]"

definition sample_repository :: filesystem where
  "sample_repository =
     (let solution = Directory True [(''api'', Directory True [(''openapi.yaml'', Reg True ''x'')])] in
      \<lparr>fs_root = Directory True
         [(''tasks'', Directory True [(''propagation'', Directory True [(''t'', Directory True
            [(''target-manifest.json'', Reg True (MarshalIndent sample_target_json)), (''formal.patch'', Reg True ''p'')])])]),
          (''fixtures'', Directory True [(''task-solutions'', Directory True [(''t-direct'', solution), (''t-codegen'', solution)])])],
       fs_cwd = ''/''\<rparr>)"

lemma sample_target_parsed:
  "Unmarshal dec_target_manifest no_manifest (MarshalIndent sample_target_json) =
     (\<lparr>manifest_Schema = ''../../../schemas/target-manifest.schema.json'', manifest_SchemaVersion = 1, manifest_Status = ''draft'',
       manifest_PatchSHA256 = sha256_hex ''p'', manifest_Files = [\<lparr>target_Path = ''api/openapi.yaml'', target_SHA256 = sha256_hex ''x''\<rparr>]\<rparr>, True)"
proof -
  have "printable 0 sample_target_json"
    by (simp add: sample_target_json_def ascii_hex del: printable.simps(1))
  then have "parse_json (MarshalIndent sample_target_json) = Some sample_target_json"
    using parse_printed [of sample_target_json "[]"] by (simp add: ends_value_def skip_ws_def)
  then show ?thesis
    by (simp add: Unmarshal_def dec_target_manifest_def sample_target_json_def no_manifest_def dec_struct_def select_known at_field_def
        dec_slice_def dec_int_FormatInt)
qed

theorem validated_track_passes_gate_witness:
  "\<forall>ext. checkPropagationTarget ext sample_repository ''fixtures/task-solutions/t-codegen'' ''t'' ''tasks/propagation'' = (True, '''')"
proof -
  have paths: "solution_path ''t'' ''direct'' = ''fixtures/task-solutions/t-direct''"
    "solution_path ''t'' ''codegen'' = ''fixtures/task-solutions/t-codegen''"
    by (simp_all add: solution_path_def path_eval)
  have read: "ReadFile sample_repository ''tasks/propagation/t/target-manifest.json'' = Some (MarshalIndent sample_target_json)"
    "ReadFile sample_repository ''tasks/propagation/t/formal.patch'' = Some ''p''"
    "ReadFile sample_repository ''fixtures/task-solutions/t-direct/api/openapi.yaml'' = Some ''x''"
    "ReadFile sample_repository ''fixtures/task-solutions/t-codegen/api/openapi.yaml'' = Some ''x''"
    by (simp_all add: sample_repository_def path_eval)
  have "validateTrack sample_repository ''t'' = None"
    using read sample_target_parsed by (simp add: validateTrack_def paths validFormalPath_def path_eval)
  from validated_track_passes_gate [OF this, of "''codegen''"] show ?thesis by (simp add: paths)
qed

end
