(* ===== verification/Egress_Relay.thy ===== *)
theory Egress_Relay
  imports Go_Strconv "HOL-Library.Sublist"
begin

text \<open>
  \<open>harness/egressproxy/main.go\<close>: the relay through which the coordinator reaches one fixed host. \<open>validAuthority\<close> checks the
  host at the start; \<open>relay_step\<close> is one accepted connection: two copying goroutines, the handler that closes both
  connections when the first of them ends, and the two peers.
\<close>

section \<open>The fixed authority\<close>

definition index_of :: "char \<Rightarrow> string \<Rightarrow> nat option" where
  "index_of c s = (if c \<in> set s then Some (length (takeWhile (\<lambda>d. d \<noteq> c) s)) else None)"

definition last_index_of :: "char \<Rightarrow> string \<Rightarrow> nat option" where
  "last_index_of c s = (if c \<in> set s then Some (length s - 1 - length (takeWhile (\<lambda>d. d \<noteq> c) (rev s))) else None)"

text \<open>\<open>net.SplitHostPort\<close>.\<close>

definition SplitHostPort :: "string \<Rightarrow> (string \<times> string) option" where
  "SplitHostPort hostport =
     (case last_index_of (CHR '':'') hostport of
        None \<Rightarrow> None
      | Some i \<Rightarrow>
          if HasPrefix hostport ''['' then
            (case index_of (CHR '']'') hostport of
               None \<Rightarrow> None
             | Some e \<Rightarrow>
                 if e + 1 \<noteq> i then None
                 else if CHR ''['' \<in> set (drop 1 hostport) \<or> CHR '']'' \<in> set (drop (e + 1) hostport) then None
                 else Some (drop 1 (take e hostport), drop (i + 1) hostport))
          else if CHR '':'' \<in> set (take i hostport) \<or> CHR ''['' \<in> set hostport \<or> CHR '']'' \<in> set hostport then None
          else Some (take i hostport, drop (i + 1) hostport))"

text \<open>\<open>net.ParseIP\<close>: dotted decimal without leading zeros, or eight groups of up to four hexadecimal digits of which one run may be
  left out and the last two may be dotted decimal; a zone is not an address.\<close>

definition is_octet :: "string \<Rightarrow> bool" where
  "is_octet s \<longleftrightarrow> s \<noteq> [] \<and> length s \<le> 3 \<and> list_all is_digit s \<and> (length s = 1 \<or> hd s \<noteq> CHR ''0'')
     \<and> (case dec_value 0 s of None \<Rightarrow> False | Some n \<Rightarrow> n \<le> 255)"

definition is_ipv4 :: "string \<Rightarrow> bool" where
  "is_ipv4 s \<longleftrightarrow> (let parts = split_on (CHR ''.'') s in length parts = 4 \<and> list_all is_octet parts)"

definition is_group :: "string \<Rightarrow> bool" where
  "is_group s \<longleftrightarrow> s \<noteq> [] \<and> length s \<le> 4
     \<and> list_all (\<lambda>c. is_digit c \<or> (CHR ''a'' \<le> c \<and> c \<le> CHR ''f'') \<or> (CHR ''A'' \<le> c \<and> c \<le> CHR ''F'')) s"

text \<open>The number of 16 bit groups a list of groups stands for; the last may be dotted decimal.\<close>

fun group_count :: "bool \<Rightarrow> string list \<Rightarrow> nat option" where
  "group_count dotted [] = Some 0"
| "group_count dotted [g] = (if is_group g then Some 1 else if dotted \<and> is_ipv4 g then Some 2 else None)"
| "group_count dotted (g # gs) = (if is_group g then map_option Suc (group_count dotted gs) else None)"

definition groups_of :: "string \<Rightarrow> string list" where
  "groups_of s = (if s = [] then [] else split_on (CHR '':'') s)"

fun split_ellipsis :: "string \<Rightarrow> (string \<times> string) option" where
  "split_ellipsis (c # d # s) = (if c = CHR '':'' \<and> d = CHR '':'' then Some ([], s)
     else map_option (\<lambda>(a, b). (c # a, b)) (split_ellipsis (d # s)))"
| "split_ellipsis s = None"

definition is_ipv6 :: "string \<Rightarrow> bool" where
  "is_ipv6 s \<longleftrightarrow>
     (case split_ellipsis s of
        None \<Rightarrow> group_count True (groups_of s) = Some 8
      | Some (front, back) \<Rightarrow>
          (case (group_count False (groups_of front), group_count True (groups_of back)) of
             (Some m, Some n) \<Rightarrow> m + n < 8 | _ \<Rightarrow> False))"

definition ParseIP :: "string \<Rightarrow> bool" where
  "ParseIP s \<longleftrightarrow>
     (case find (\<lambda>c. c = CHR ''.'' \<or> c = CHR '':'' \<or> c = CHR ''%'') s of
        None \<Rightarrow> False
      | Some c \<Rightarrow> if c = CHR ''.'' then is_ipv4 s else if c = CHR '':'' then is_ipv6 s else False)"

definition validAuthority :: "string \<Rightarrow> bool" where
  "validAuthority authority \<longleftrightarrow>
     (case SplitHostPort authority of
        None \<Rightarrow> False
      | Some (host, port) \<Rightarrow>
          host \<noteq> '''' \<and> port \<noteq> '''' \<and> \<not> ParseIP host \<and> CHR ''/'' \<notin> set host \<and> CHR ''@'' \<notin> set host)"

definition proxy_accepts :: "string list \<Rightarrow> string \<Rightarrow> bool" where
  "proxy_accepts args upstream \<longleftrightarrow> args = [] \<and> validAuthority upstream"

text \<open>The health handler: status and body.\<close>

definition healthHandler :: "string \<Rightarrow> string \<Rightarrow> nat \<times> string" where
  "healthHandler method path =
     (if method \<noteq> ''GET'' \<or> path \<noteq> ''/healthz'' then (404, ''404 page not found'' @ [CHR 0x0A]) else (200, ''ok'' @ [CHR 0x0A]))"

section \<open>One connection\<close>

datatype relay_phase = Dialing | Copying | Closing | Draining | Ended

text \<open>
  What a peer has sent and received are all its bytes so far. \<open>tokens\<close> is the content of the channel \<open>done\<close>. A copying
  goroutine ends at the end of its source or at an error of either side, which may be at any time; it then closes the
  writing side of its destination.
\<close>

record 'a relay_state =
  relay_phase :: relay_phase
  dialled :: "'a option"
  client_sent :: string
  upstream_received :: string
  upstream_sent :: string
  client_received :: string
  up_done :: bool
  down_done :: bool
  tokens :: nat
  upstream_eof :: bool
  client_eof :: bool
  client_closed :: bool
  upstream_closed :: bool

definition accepted :: "'a relay_state" where
  "accepted = \<lparr>relay_phase = Dialing, dialled = None, client_sent = '''', upstream_received = '''', upstream_sent = '''',
     client_received = '''', up_done = False, down_done = False, tokens = 0, upstream_eof = False, client_eof = False,
     client_closed = False, upstream_closed = True\<rparr>"

inductive relay_step :: "'a \<Rightarrow> 'a relay_state \<Rightarrow> 'a relay_state \<Rightarrow> bool" for upstream :: 'a where
  client_sends: "\<not> client_closed s \<Longrightarrow> relay_step upstream s (s\<lparr>client_sent := client_sent s @ bs\<rparr>)"
| upstream_sends: "\<not> upstream_closed s \<Longrightarrow> relay_step upstream s (s\<lparr>upstream_sent := upstream_sent s @ bs\<rparr>)"
| dial_fails: "relay_phase s = Dialing \<Longrightarrow> relay_step upstream s (s\<lparr>relay_phase := Ended, client_closed := True\<rparr>)"
| dial_ok: "relay_phase s = Dialing \<Longrightarrow>
    relay_step upstream s (s\<lparr>relay_phase := Copying, dialled := Some upstream, upstream_closed := False\<rparr>)"
| copy_up: "relay_phase s \<in> {Copying, Closing} \<Longrightarrow> \<not> up_done s \<Longrightarrow> client_sent s = upstream_received s @ bs @ rest \<Longrightarrow>
    relay_step upstream s (s\<lparr>upstream_received := upstream_received s @ bs\<rparr>)"
| copy_down: "relay_phase s = Copying \<Longrightarrow> \<not> down_done s \<Longrightarrow> upstream_sent s = client_received s @ bs @ rest \<Longrightarrow>
    relay_step upstream s (s\<lparr>client_received := client_received s @ bs\<rparr>)"
| end_up: "dialled s \<noteq> None \<Longrightarrow> \<not> up_done s \<Longrightarrow>
    relay_step upstream s (s\<lparr>up_done := True, upstream_eof := True, tokens := Suc (tokens s)\<rparr>)"
| end_down: "dialled s \<noteq> None \<Longrightarrow> \<not> down_done s \<Longrightarrow>
    relay_step upstream s (s\<lparr>down_done := True, client_eof := True, tokens := Suc (tokens s)\<rparr>)"
| first_done: "relay_phase s = Copying \<Longrightarrow> tokens s = Suc n \<Longrightarrow>
    relay_step upstream s (s\<lparr>relay_phase := Closing, tokens := n, client_closed := True\<rparr>)"
| close_upstream: "relay_phase s = Closing \<Longrightarrow> relay_step upstream s (s\<lparr>relay_phase := Draining, upstream_closed := True\<rparr>)"
| second_done: "relay_phase s = Draining \<Longrightarrow> tokens s = Suc n \<Longrightarrow> relay_step upstream s (s\<lparr>relay_phase := Ended, tokens := n\<rparr>)"
| second_late: "relay_phase s = Draining \<Longrightarrow> relay_step upstream s (s\<lparr>relay_phase := Ended\<rparr>)"

abbreviation relay_reachable :: "'a \<Rightarrow> 'a relay_state \<Rightarrow> bool" where
  "relay_reachable upstream s \<equiv> (relay_step upstream)\<^sup>*\<^sup>* accepted s"

definition relay_invariant :: "'a \<Rightarrow> 'a relay_state \<Rightarrow> bool" where
  "relay_invariant upstream s \<longleftrightarrow>
     prefix (upstream_received s) (client_sent s) \<and> prefix (client_received s) (upstream_sent s)
     \<and> (dialled s = None \<or> dialled s = Some upstream)
     \<and> (relay_phase s = Dialing \<longrightarrow> dialled s = None)
     \<and> (dialled s = None \<longrightarrow> relay_phase s \<in> {Dialing, Ended} \<and> upstream_received s = '''' \<and> upstream_closed s)
     \<and> (relay_phase s \<in> {Closing, Draining, Ended} \<longrightarrow> client_closed s)
     \<and> (relay_phase s \<in> {Draining, Ended} \<longrightarrow> upstream_closed s)"

lemma accepted_invariant: "relay_invariant upstream accepted"
  by (simp add: relay_invariant_def accepted_def)

lemma relay_step_invariant: "relay_step upstream s t \<Longrightarrow> relay_invariant upstream s \<Longrightarrow> relay_invariant upstream t"
  by (induction rule: relay_step.induct) (auto simp: relay_invariant_def)

lemma relay_reachable_invariant: "relay_reachable upstream s \<Longrightarrow> relay_invariant upstream s"
  by (induction rule: rtranclp_induct) (auto intro: accepted_invariant relay_step_invariant)


text \<open>
  The handler never hangs once a direction has ended: from every state with a token, or in which it has begun to close, it comes to its
  end by its own steps, whatever the other direction does.
\<close>

lemma ends_after_step:
  "relay_step upstream s t \<Longrightarrow> \<exists>u. (relay_step upstream)\<^sup>*\<^sup>* t u \<and> relay_phase u = Ended \<Longrightarrow>
     \<exists>u. (relay_step upstream)\<^sup>*\<^sup>* s u \<and> relay_phase u = Ended"
  by (meson converse_rtranclp_into_rtranclp)

lemma relay_ends:
  assumes "relay_phase s = Copying \<and> 0 < tokens s \<or> relay_phase s \<in> {Closing, Draining}"
  shows "\<exists>t. (relay_step upstream)\<^sup>*\<^sup>* s t \<and> relay_phase t = Ended"
proof -
  have draining: "\<exists>t. (relay_step upstream)\<^sup>*\<^sup>* u t \<and> relay_phase t = Ended" if "relay_phase u = Draining" for u
    by (rule ends_after_step [OF relay_step.second_late [OF that]]) auto
  have closing: "\<exists>t. (relay_step upstream)\<^sup>*\<^sup>* u t \<and> relay_phase t = Ended" if "relay_phase u = Closing" for u
    by (rule ends_after_step [OF relay_step.close_upstream [OF that]], rule draining) simp
  show ?thesis
  proof (cases "relay_phase s = Copying \<and> 0 < tokens s")
    case True
    then obtain n where n: "relay_phase s = Copying" "tokens s = Suc n" by (auto simp: gr0_conv_Suc)
    show ?thesis by (rule ends_after_step [OF relay_step.first_done [OF n]], rule closing) simp
  qed (use assms closing draining in blast)
qed

section \<open>A connection that is cut\<close>

text \<open>
  A client that ends its side after the request does not get the rest of the answer: the end of one direction closes the
  other one too, though the writing side of the destination was closed on its own before.
\<close>

definition cut_connection :: "string relay_state" where
  "cut_connection = \<lparr>relay_phase = Ended, dialled = Some ''up'', client_sent = ''q'', upstream_received = ''q'', upstream_sent = ''a'',
     client_received = '''', up_done = True, down_done = False, tokens = 0, upstream_eof = True, client_eof = False,
     client_closed = True, upstream_closed = True\<rparr>"

lemma half_close_cuts_answer: "relay_reachable ''up'' cut_connection"
proof -
  note step = rtranclp.rtrancl_into_rtrancl [of "relay_step ''up''" accepted]
  note r1 = step [OF rtranclp.rtrancl_refl relay_step.dial_ok]
  note r2 = step [OF r1 relay_step.client_sends [where bs = "''q''"]]
  note r3 = step [OF r2 relay_step.copy_up [where bs = "''q''" and rest = "[]"]]
  note r4 = step [OF r3 relay_step.upstream_sends [where bs = "''a''"]]
  note r5 = step [OF r4 relay_step.end_up]
  note r6 = step [OF r5 relay_step.first_done [where n = 0]]
  note r7 = step [OF r6 relay_step.close_upstream]
  note r8 = step [OF r7 relay_step.second_late]
  from r8 show ?thesis by (simp add: accepted_def cut_connection_def)
qed


section \<open>Authorities\<close>

text \<open>A host name with a port passes; addresses, missing parts, user names and paths do not.\<close>

lemma authority_samples:
  "validAuthority ''openrouter.ai:443''" "\<not> validAuthority ''openrouter.ai''" "\<not> validAuthority '':443''" "\<not> validAuthority ''a:''"
  "\<not> validAuthority ''10.0.0.1:443''" "\<not> validAuthority ''[::1]:443''" "\<not> validAuthority ''::1:443''"
  "\<not> validAuthority ''u@a:443''" "\<not> validAuthority ''a/b:443''" "validAuthority ''10.0.0.256:443''"
  by code_simp+

end
