(* ===== verification/Service_Replies.thy ===== *)
theory Service_Replies
  imports Service_Base
begin

text \<open>
  What the service of \<open>fixtures/base2-direct\<close> can answer, by the schemas of its \<open>api/openapi.yaml\<close>.
\<close>

definition task_shape :: "taskResponse \<Rightarrow> bool" where
  "task_shape i \<longleftrightarrow> validUUID (response_ID i) \<and> 1 \<le> RuneCount (response_Title i) \<and> RuneCount (response_Title i) \<le> 200
     \<and> Parse_RFC3339 (response_CreatedAt i) \<noteq> None"

definition reply_typed :: "taskResponse response \<Rightarrow> bool" where
  "reply_typed resp \<longleftrightarrow>
     (case payload resp of
        None \<Rightarrow> status resp = 204 \<and> headers resp = []
      | Some (Problem p) \<Rightarrow> p \<in> {validationProblem, notFoundProblem, internalProblem} \<and> status resp = problem_Status p
          \<and> headers resp = [(''Content-Type'', ''application/problem+json'')]
      | Some (Item i) \<Rightarrow> status resp \<in> {200, 201} \<and> headers resp = [(''Content-Type'', ''application/json'')] \<and> task_shape i
      | Some (Items is cursor) \<Rightarrow> status resp = 200 \<and> headers resp = [(''Content-Type'', ''application/json'')]
          \<and> cursor = None \<and> list_all task_shape is)"

lemma row_ok_shape: "row_ok t \<Longrightarrow> task_shape (responseFromTask t)"
proof -
  assume row: "row_ok t"
  then obtain b where "length b = 16" "ID t = uuid_format b" by (auto simp: row_ok_def)
  then have "validUUID (ID t)" using validUUID_format by simp
  moreover have "normalizeTitle (Title t) = Inr (Title t)" using row by (simp add: row_ok_def)
  moreover have "Parse_RFC3339 (Format_micro (CreatedAt t)) = Some (CreatedAt t)"
    using row by (intro Parse_Format) (auto simp: row_ok_def clock_ok_def)
  ultimately show ?thesis using normalizeTitle_Inr(2,3) by (simp add: task_shape_def responseFromTask_def)
qed

lemma problem_typed: "reply_typed (writeServiceError e)" "reply_typed (writeProblem validationProblem)"
  by (cases e; simp add: writeServiceError_def reply_typed_def writeProblem_def)+

lemma item_typed: "row_ok t \<Longrightarrow> code \<in> {200, 201} \<Longrightarrow> reply_typed (writeJSON code (Item (responseFromTask t)))"
  using row_ok_shape by (simp add: reply_typed_def writeJSON_def)

lemma base_step_typed:
  assumes "base_step db resp db'" "db_ok db"
  shows "reply_typed resp"
  using assms
proof (cases rule: base_step.cases)
  case (create call random r)
  from create(3) show ?thesis
  proof (cases rule: createTask_cases)
    case (ok title t)
    note c = base.service_create [OF assms(2) create(1,2) ok(3)]
    have "row_ok t" using c(1) c(2) [OF refl] by (simp add: db_ok_def)
    then show ?thesis using ok(4) item_typed [of t 201] by simp
  qed (use problem_typed in simp_all)
next
  case (get call r)
  obtain res where s: "Service_Get (pg_repository mk_task) call (taskId r) db = (res, db)"
    using base.service_get_state [of call "taskId r" db] by (metis prod.collapse)
  show ?thesis
  proof (cases res)
    case (Inl e)
    then show ?thesis using get s problem_typed by (auto simp: getTask_def)
  next
    case (Inr t)
    have "repo_Get (pg_repository mk_task) call (taskId r) db = (Inr t, db)"
      using s Inr by (simp add: Service_Get_def split: if_splits)
    then have "t \<in> set db" using base.get by fastforce
    then have "row_ok t" using assms(2) by (simp add: db_ok_def)
    then show ?thesis using get s Inr item_typed [of t 200] by (auto simp: getTask_def)
  qed
next
  case (list call)
  have "list_all task_shape (map responseFromTask (sql_list db))"
    using assms(2) row_ok_shape by (auto simp: list_all_iff db_ok_def)
  then show ?thesis using list problem_typed
    by (auto simp: listTasks_def Service_List_def pg_List_def read_rows_def reply_typed_def writeJSON_def split: db_fault.splits)
next
  case (delete call r)
  have "reply_typed (writeHeader 204)" by (simp add: reply_typed_def writeHeader_def)
  with delete show ?thesis by (cases rule: deleteTask_cases) (simp_all add: problem_typed)
qed

section \<open>Properties\<close>



end
