(* ===== verification/Service_Locking.thy ===== *)
theory Service_Locking
  imports Service_Base Go_Strconv
begin

text \<open>
  \<open>fixtures/task-solutions/optimistic-locking-direct\<close>: the service with versions, entity tags and
  \<open>If-Match\<close>. It is the base service with one column more, whose repository has one method more; the
  contract of the base repository is extended by what an update promises, and a history of requests
  shows that no update overwrites another one unseen.
\<close>

record locked_task = task +
  Version :: int

definition mk_locked :: "string \<Rightarrow> string \<Rightarrow> int \<Rightarrow> locked_task" where
  "mk_locked tid title now = \<lparr>ID = tid, Title = title, CreatedAt = now, Version = 1\<rparr>"

section \<open>The repository\<close>

text \<open>
  \<open>updateTaskSQL\<close> is one statement: the row is found, compared and replaced at once. The server refuses a
  title with a zero byte, a title of another length, and a version beyond \<open>bigint\<close>.
\<close>

definition updated_row :: "string \<Rightarrow> locked_task \<Rightarrow> locked_task" where
  "updated_row title r = r\<lparr>Title := title, Version := Version r + 1\<rparr>"

definition at_version :: "string \<Rightarrow> int \<Rightarrow> locked_task \<Rightarrow> bool" where
  "at_version tid expected r \<longleftrightarrow> same_id tid r \<and> Version r = expected"

definition sql_update :: "db_fault \<Rightarrow> string \<Rightarrow> string \<Rightarrow> int \<Rightarrow> locked_task list
    \<Rightarrow> locked_task rows \<times> locked_task list" where
  "sql_update f tid title expected db =
     (if \<not> storable title then run_query f (DbError ''invalid byte sequence'') db db
      else case find (at_version tid expected) db of
        None \<Rightarrow> run_query f NoRows db db
      | Some r \<Rightarrow>
          if RuneCount title < 1 \<or> 200 < RuneCount title then run_query f (DbError ''constraint violation'') db db
          else if max_int64 < Version r + 1 then run_query f (DbError ''bigint out of range'') db db
          else run_query f (Rows (updated_row title r)) db
            (map (\<lambda>q. if at_version tid expected q then updated_row title q else q) db))"

definition sql_exists :: "db_fault \<Rightarrow> string \<Rightarrow> locked_task list \<Rightarrow> bool rows \<times> locked_task list" where
  "sql_exists f tid db = run_query f (Rows (list_ex (same_id tid) db)) db db"

text \<open>
  \<open>Update\<close> sends a second statement when the first has found no row. Other clients may have changed the table
  by then: \<open>later\<close> is the table the second statement sees.
\<close>

definition pg_Update :: "db_call \<Rightarrow> locked_task list \<Rightarrow> string \<Rightarrow> string \<Rightarrow> int \<Rightarrow> locked_task list
    \<Rightarrow> (task_error + locked_task) \<times> locked_task list" where
  "pg_Update call later tid title expected db =
     (case sql_update (fault call) tid title expected db of
        (Rows r, db) \<Rightarrow> (Inr r, db)
      | (DbError e, db) \<Rightarrow> (Inl (ErrOther (''update task: '' @ e)), db)
      | (NoRows, db) \<Rightarrow>
          (case fst (sql_exists (fault2 call) tid later) of
             Rows found \<Rightarrow> Inl (if \<not> found then ErrNotFound else ErrPreconditionFailed)
           | NoRows \<Rightarrow> Inl (ErrOther ''check task after update: no rows in result set'')
           | DbError e \<Rightarrow> Inl (ErrOther (''check task after update: '' @ e)), db))"

record ('t, 'db) Locking_Repository = "('t, 'db) Repository" +
  repo_Update :: "db_call \<Rightarrow> 'db \<Rightarrow> string \<Rightarrow> string \<Rightarrow> int \<Rightarrow> 'db \<Rightarrow> (task_error + 't) \<times> 'db"

definition locking_repository :: "(locked_task, locked_task list) Locking_Repository" where
  "locking_repository = \<lparr>repo_Create = pg_Create mk_locked, repo_Get = pg_Get, repo_Delete = pg_Delete,
     repo_Update = pg_Update\<rparr>"

section \<open>The service\<close>

definition Service_Update :: "('t, 'db, 'z) Locking_Repository_scheme \<Rightarrow> db_call \<Rightarrow> 'db \<Rightarrow> string \<Rightarrow> string \<Rightarrow> int
    \<Rightarrow> 'db \<Rightarrow> (task_error + 't) \<times> 'db" where
  "Service_Update R call later tid title expectedVersion db =
     (if \<not> validUUID tid then (Inl ErrInvalid, db)
      else case normalizeTitle title of
        Inl err \<Rightarrow> (Inl err, db)
      | Inr title \<Rightarrow> repo_Update R call later tid title expectedVersion db)"

section \<open>The handlers\<close>

definition sp_or_tab :: "char \<Rightarrow> bool" where
  "sp_or_tab c \<longleftrightarrow> c = CHR '' '' \<or> c = CHR 0x09"

text \<open>\<open>strings.Trim(s, " \t")\<close>\<close>

definition trim_blanks :: "string \<Rightarrow> string" where
  "trim_blanks s = rev (dropWhile sp_or_tab (rev (dropWhile sp_or_tab s)))"

definition parseIfMatch :: "string list \<Rightarrow> nat + int" where
  "parseIfMatch values =
     (case values of
        [] \<Rightarrow> Inl 428
      | [v] \<Rightarrow>
          let value = trim_blanks v in
          if length value < 3 \<or> hd value \<noteq> CHR 0x22 \<or> last value \<noteq> CHR 0x22 then Inl 400
          else let digits = butlast (tl value) in
          if hd digits < CHR ''1'' \<or> CHR ''9'' < hd digits then Inl 400
          else if list_ex (\<lambda>c. c < CHR ''0'' \<or> CHR ''9'' < c) (tl digits) then Inl 400
          else (case ParseInt64 digits of None \<Rightarrow> Inl 400 | Some version \<Rightarrow> Inr version)
      | _ \<Rightarrow> Inl 400)"

record lockedResponse = taskResponse +
  response_Version :: int

definition lockedResponseFromTask :: "locked_task \<Rightarrow> lockedResponse" where
  "lockedResponseFromTask value = \<lparr>response_ID = ID value, response_Title = Title value,
     response_CreatedAt = Format_micro (CreatedAt value), response_Version = Version value\<rparr>"

definition preconditionRequiredProblem :: problem where
  "preconditionRequiredProblem = \<lparr>Type = ''urn:problem:precondition-required'', problem_Title = ''Precondition required'',
     problem_Status = 428, Detail = ''A valid If-Match header is required.''\<rparr>"

definition preconditionFailedProblem :: problem where
  "preconditionFailedProblem = \<lparr>Type = ''urn:problem:precondition-failed'', problem_Title = ''Precondition failed'',
     problem_Status = 412, Detail = ''The supplied task version is stale.''\<rparr>"

definition lockedServiceError :: "task_error \<Rightarrow> 'r response" where
  "lockedServiceError err =
     (case err of ErrInvalid \<Rightarrow> writeProblem validationProblem
      | ErrNotFound \<Rightarrow> writeProblem notFoundProblem
      | ErrPreconditionFailed \<Rightarrow> writeProblem preconditionFailedProblem
      | ErrOther _ \<Rightarrow> writeProblem internalProblem)"

text \<open>\<open>strconv.Quote\<close> of a decimal number.\<close>

definition entity_tag :: "int \<Rightarrow> string" where
  "entity_tag version = CHR 0x22 # FormatInt version @ [CHR 0x22]"

definition writeTask :: "nat \<Rightarrow> locked_task \<Rightarrow> lockedResponse response" where
  "writeTask code value = \<lparr>status = code,
     headers = [(''ETag'', entity_tag (Version value)), (''Content-Type'', ''application/json'')],
     payload = Some (Item (lockedResponseFromTask value))\<rparr>"

definition locked_createTask :: "(locked_task, 'db, 'z) Repository_scheme \<Rightarrow> db_call \<Rightarrow> string + bytes \<Rightarrow> request \<Rightarrow> 'db
    \<Rightarrow> lockedResponse response \<times> 'db" where
  "locked_createTask R call random r db =
     (if \<not> is_json r then (writeProblem validationProblem, db)
      else case decode_create (request_body r) of
        None \<Rightarrow> (writeProblem validationProblem, db)
      | Some title \<Rightarrow>
          (case Service_Create R call random title db of
             (Inl err, db) \<Rightarrow> (lockedServiceError err, db)
           | (Inr result, db) \<Rightarrow> (writeTask 201 result, db)))"

definition locked_getTask :: "(locked_task, 'db, 'z) Repository_scheme \<Rightarrow> db_call \<Rightarrow> request \<Rightarrow> 'db
    \<Rightarrow> lockedResponse response \<times> 'db" where
  "locked_getTask R call r db =
     (case Service_Get R call (taskId r) db of
        (Inl err, db) \<Rightarrow> (lockedServiceError err, db)
      | (Inr result, db) \<Rightarrow> (writeTask 200 result, db))"

definition locked_listTasks :: "(db_call \<Rightarrow> 'db \<Rightarrow> (task_error + locked_task list) \<times> 'db) \<Rightarrow> db_call \<Rightarrow> 'db
    \<Rightarrow> lockedResponse response \<times> 'db" where
  "locked_listTasks list call db =
     (case Service_List list call db of
        (Inl err, db) \<Rightarrow> (lockedServiceError err, db)
      | (Inr items, db) \<Rightarrow> (writeJSON 200 (Items (map lockedResponseFromTask items) None), db))"

definition locked_deleteTask :: "('t, 'db, 'z) Repository_scheme \<Rightarrow> db_call \<Rightarrow> request \<Rightarrow> 'db
    \<Rightarrow> lockedResponse response \<times> 'db" where
  "locked_deleteTask R call r db =
     (case Service_Delete R call (taskId r) db of
        (Some err, db) \<Rightarrow> (lockedServiceError err, db)
      | (None, db) \<Rightarrow> (writeHeader 204, db))"

text \<open>The body of an update has the one field of the body of a creation.\<close>

definition updateTask :: "(locked_task, 'db, 'z) Locking_Repository_scheme \<Rightarrow> db_call \<Rightarrow> 'db \<Rightarrow> request \<Rightarrow> 'db
    \<Rightarrow> lockedResponse response \<times> 'db" where
  "updateTask R call later r db =
     (case parseIfMatch (if_match r) of
        Inl code \<Rightarrow> (writeProblem (if code = 428 then preconditionRequiredProblem else validationProblem), db)
      | Inr expectedVersion \<Rightarrow>
          if \<not> is_json r then (writeProblem validationProblem, db)
          else case decode_create (request_body r) of
            None \<Rightarrow> (writeProblem validationProblem, db)
          | Some title \<Rightarrow>
              (case Service_Update R call later (taskId r) title expectedVersion db of
                 (Inl err, db) \<Rightarrow> (lockedServiceError err, db)
               | (Inr result, db) \<Rightarrow> (writeTask 200 result, db)))"

section \<open>The contract of an update\<close>

text \<open>The row of \<open>tid\<close> has version \<open>v\<close> and is replaced by its successor.\<close>

definition performed :: "string \<Rightarrow> string \<Rightarrow> int \<Rightarrow> locked_task list \<Rightarrow> locked_task \<Rightarrow> locked_task list \<Rightarrow> bool" where
  "performed tid title v rows t rows' \<longleftrightarrow>
     (\<exists>r \<in> set rows. at_version tid v r \<and> v < max_int64 \<and> t = updated_row title r \<and> rows' = replace_row tid t rows)"

lemma updated_row_simps [simp]:
  "ID (updated_row u r) = ID r" "Title (updated_row u r) = u" "CreatedAt (updated_row u r) = CreatedAt r"
  "Version (updated_row u r) = Version r + 1" "same_id tid (updated_row u r) = same_id tid r"
  by (simp_all add: updated_row_def same_id_def)

lemma row_ok_updated:
  "row_ok r \<Longrightarrow> normalizeTitle u = Inr u \<Longrightarrow> storable u \<Longrightarrow> row_ok (updated_row u r)"
  by (simp add: row_ok_def)

lemma db_ok_performed:
  assumes "db_ok rows" "performed tid u v rows t rows'" "normalizeTitle u = Inr u" "storable u"
  shows "db_ok rows'"
proof -
  obtain r where r: "r \<in> set rows" "same_id tid r" "t = updated_row u r" "rows' = replace_row tid t rows"
    using assms(2) by (auto simp: performed_def at_version_def)
  then have "row_ok t" using assms row_ok_updated by (auto simp: db_ok_def)
  then show ?thesis using db_ok_replace_row [OF assms(1)] r by simp
qed

lemma performed_rows:
  assumes "db_ok rows" "performed tid u v rows t rows'" "q' \<in> set rows'"
  shows "\<exists>q \<in> set rows. ID q' = ID q \<and> CreatedAt q' = CreatedAt q
    \<and> (if same_id tid q then Version q = v \<and> v < max_int64 \<and> q' = t \<and> q' = updated_row u q else q' = q)"
proof -
  obtain r where r: "r \<in> set rows" "at_version tid v r" "v < max_int64" "t = updated_row u r"
      "rows' = replace_row tid t rows"
    using assms(2) by (auto simp: performed_def)
  from assms(3) r(5) obtain q where q: "q \<in> set rows" "q' = (if same_id tid q then t else q)"
    by (auto simp: replace_row_def)
  have "q = r" if "same_id tid q" using same_id_unique [OF assms(1) q(1) r(1) that] r(2) by (simp add: at_version_def)
  then show ?thesis using q r by (intro bexI [OF _ q(1)]) (auto simp: at_version_def)
qed

locale versioned_repository = task_repository R contents
  for R :: "(locked_task, 'db) Locking_Repository" and contents :: "'db \<Rightarrow> locked_task list" +
  assumes update: "db_ok (contents db) \<Longrightarrow> normalizeTitle title = Inr title \<Longrightarrow>
      repo_Update R call later tid title v db = (res, db') \<Longrightarrow>
      (case res of
         Inr t \<Rightarrow> storable title \<and> performed tid title v (contents db) t (contents db')
       | Inl e \<Rightarrow>
           contents db' = contents db \<and> \<not> list_ex (at_version tid v) (contents db)
             \<and> e = (if list_ex (same_id tid) (contents later) then ErrPreconditionFailed else ErrNotFound)
         \<or> (\<exists>m. e = ErrOther m) \<and> (contents db' = contents db
             \<or> storable title \<and> (\<exists>t. performed tid title v (contents db) t (contents db'))))"
    and created_row: "validUUID tid \<Longrightarrow> repo_Create R call tid title db = (r, db') \<Longrightarrow>
      contents db' = contents db \<or> (\<exists>t. contents db' = contents db @ [t] \<and> same_id tid t \<and> Version t = 1)"
    and deleted_row: "repo_Delete R call tid db = (gone, db') \<Longrightarrow> set (contents db') \<subseteq> set (contents db)"
begin

lemma service_created_row:
  assumes "rand_ok random" "Service_Create R call random title db = (res, db')"
  shows "contents db' = contents db
    \<or> (\<exists>i t. newUUID random = Inr i \<and> contents db' = contents db @ [t] \<and> same_id i t \<and> Version t = 1)"
proof (cases "newUUID random")
  case (Inl e)
  then show ?thesis using assms(2) by (auto simp: Service_Create_def split: sum.splits)
next
  case (Inr i)
  obtain v where v: "random = Inr v" using Inr by (cases random) (auto simp: newUUID_def)
  then have valid: "validUUID i" using newUUID_valid Inr assms(1) by (auto simp: rand_ok_def)
  have "db' = db \<or> (\<exists>u. repo_Create R call i u db = (res, db'))"
    using assms(2) Inr by (auto simp: Service_Create_def split: sum.splits)
  then show ?thesis using created_row [OF valid] Inr by blast
qed

lemma service_deleted_row:
  "Service_Delete R call tid db = (gone, db') \<Longrightarrow> set (contents db') \<subseteq> set (contents db)"
  using deleted_row by (auto simp: Service_Delete_def split: if_splits)

lemma service_update:
  assumes "db_ok (contents db)" "Service_Update R call later tid title v db = (res, db')"
  shows "db_ok (contents db')"
    "res = Inr t \<Longrightarrow> \<exists>u. normalizeTitle title = Inr u \<and> performed tid u v (contents db) t (contents db')"
    "res = Inl e \<Longrightarrow> contents db' = contents db
       \<or> (\<exists>m u t. e = ErrOther m \<and> performed tid u v (contents db) t (contents db'))"
proof -
  consider (bad) "res = Inl ErrInvalid" "db' = db"
    | (repo) u where "normalizeTitle title = Inr u" "repo_Update R call later tid u v db = (res, db')"
    using assms(2) normalizeTitle_Inl by (fastforce simp: Service_Update_def split: if_splits sum.splits)
  then have "db_ok (contents db')
    \<and> (\<forall>t. res = Inr t \<longrightarrow> (\<exists>u. normalizeTitle title = Inr u \<and> performed tid u v (contents db) t (contents db')))
    \<and> (\<forall>e. res = Inl e \<longrightarrow> contents db' = contents db
       \<or> (\<exists>m u t. e = ErrOther m \<and> performed tid u v (contents db) t (contents db')))"
  proof cases
    case bad
    then show ?thesis using assms(1) by simp
  next
    case repo
    note n = normalizeTitle_idem [OF repo(1)]
    note ok = db_ok_performed [OF assms(1) _ n]
    show ?thesis
      using update [OF assms(1) n repo(2)] ok assms(1) repo(1) by (cases res) auto
  qed
  then show "db_ok (contents db')"
    "res = Inr t \<Longrightarrow> \<exists>u. normalizeTitle title = Inr u \<and> performed tid u v (contents db) t (contents db')"
    "res = Inl e \<Longrightarrow> contents db' = contents db
       \<or> (\<exists>m u t. e = ErrOther m \<and> performed tid u v (contents db) t (contents db'))" by auto
qed

end

text \<open>PostgreSQL meets the contract.\<close>

lemma pg_update_law:
  assumes "db_ok db" "normalizeTitle title = Inr title" "pg_Update call later tid title v db = (res, db')"
  shows "case res of
         Inr t \<Rightarrow> storable title \<and> performed tid title v db t db'
       | Inl e \<Rightarrow>
           db' = db \<and> \<not> list_ex (at_version tid v) db
             \<and> e = (if list_ex (same_id tid) later then ErrPreconditionFailed else ErrNotFound)
         \<or> (\<exists>m. e = ErrOther m) \<and> (db' = db \<or> storable title \<and> (\<exists>t. performed tid title v db t db'))"
proof (cases "storable title")
  case False
  then show ?thesis using assms(3)
    by (auto simp: pg_Update_def sql_update_def run_query_def split: db_fault.splits)
next
  case st: True
  show ?thesis
  proof (cases "find (at_version tid v) db")
    case None
    then have "\<not> list_ex (at_version tid v) db" by (auto simp: find_None_iff list_ex_iff)
    then show ?thesis using assms(3) st None
      by (auto simp: pg_Update_def sql_update_def sql_exists_def run_query_def split: db_fault.splits if_splits)
  next
    case (Some r)
    then have r: "r \<in> set db" "at_version tid v r" by (auto simp: find_Some_iff)
    have "at_version tid v q \<longleftrightarrow> same_id tid q" if "q \<in> set db" for q
      using same_id_unique [OF assms(1) that r(1), of tid] r(2) by (auto simp: at_version_def)
    then have "map (\<lambda>q. if at_version tid v q then updated_row title q else q) db = replace_row tid (updated_row title r) db"
      using same_id_unique [OF assms(1) _ r(1), of _ tid] r(2) by (auto simp: replace_row_def at_version_def)
    then have p: "performed tid title v db (updated_row title r)
        (map (\<lambda>q. if at_version tid v q then updated_row title q else q) db)" if "v < max_int64"
      using r that unfolding performed_def by auto
    have v: "Version r = v" using r(2) by (simp add: at_version_def)
    show ?thesis
      using assms(3) st Some p v unfolding pg_Update_def sql_update_def run_query_def
      by (auto split: db_fault.splits if_splits)
  qed
qed

interpretation locking: versioned_repository locking_repository "\<lambda>db. db"
proof (unfold_locales, goal_cases)
  case (1 db tid title call res db')
  then show ?case
    using pg_create_law [of db tid title call mk_locked res db'] by (simp add: locking_repository_def mk_locked_def)
next
  case (2 call tid db res db')
  then show ?case using pg_get_law [of call tid db res db'] by (simp add: locking_repository_def)
next
  case (3 db call tid gone db')
  then show ?case using pg_delete_law [of db call tid gone db'] by (simp add: locking_repository_def)
next
  case (4 db title call later tid v res db')
  then show ?case using pg_update_law [of db title call later tid v res db'] by (simp add: locking_repository_def)
next
  case (5 tid call title db r db')
  then show ?case using canonical_id_uuid [of tid]
    by (auto simp: locking_repository_def pg_Create_def sql_insert_def run_query_def mk_locked_def same_id_def Let_def
        split: if_splits db_fault.splits)
next
  case (6 call tid db gone db')
  then show ?case
    by (auto simp: locking_repository_def pg_Delete_def sql_delete_def run_query_def split: db_fault.splits option.splits)
qed

section \<open>The header \<open>If-Match\<close>\<close>

lemma digit_value_Some: "digit_value c = Some d \<Longrightarrow> c = digit_char d \<and> d < 10"
proof -
  assume d: "digit_value c = Some d"
  then have n: "48 \<le> (of_char c :: nat)" "(of_char c :: nat) \<le> 57" "d = of_char c - 48"
    by (auto simp: digit_value_def Let_def split: if_splits)
  have "list_all (\<lambda>k. of_char (digit_char k) = k + 48) [0..<10]"
    by (simp add: upt_rec digit_char_def)
  then have "of_char (digit_char d) = (of_char c :: nat)" using n by (simp add: list_all_iff)
  then show ?thesis using n by (simp add: of_char_eq_iff)
qed

text \<open>Digits without a leading zero are the decimal text of their value.\<close>

lemma dec_of_digits: "dec_value 0 s = Some n \<Longrightarrow> s \<noteq> [] \<Longrightarrow> hd s \<noteq> CHR ''0'' \<Longrightarrow> s = dec n"
proof (induction s arbitrary: n rule: rev_induct)
  case (snoc c s)
  from snoc.prems(1) obtain m d where m: "dec_value 0 s = Some m" "digit_value c = Some d" "n = 10 * m + d"
    by (auto simp: dec_value_append split: option.splits)
  note c = digit_value_Some [OF m(2)]
  show ?case
  proof (cases "s = []")
    case True
    then show ?thesis using m c by (simp add: dec.simps)
  next
    case False
    then have s: "s = dec m" using snoc.IH [OF m(1) False] snoc.prems(3) by simp
    have "m \<noteq> 0"
    proof
      assume "m = 0"
      then have "hd s = CHR ''0''" using s by (simp add: dec.simps digit_char_def)
      then show False using snoc.prems(3) False by simp
    qed
    then show ?thesis using s m(3) c by (subst dec.simps) simp
  qed
qed simp

lemma dropWhile_parts: "\<exists>p. s = p @ dropWhile P s \<and> list_all P p"
  by (intro exI [of _ "takeWhile P s"]) (auto simp: list_all_iff dest: set_takeWhileD)

lemma trim_blanks_parts: "\<exists>p q. s = p @ trim_blanks s @ q \<and> list_all sp_or_tab p \<and> list_all sp_or_tab q"
proof -
  obtain p where p: "s = p @ dropWhile sp_or_tab s" "list_all sp_or_tab p" using dropWhile_parts by blast
  obtain q where q: "rev (dropWhile sp_or_tab s) = q @ dropWhile sp_or_tab (rev (dropWhile sp_or_tab s))" "list_all sp_or_tab q"
    using dropWhile_parts by blast
  have "dropWhile sp_or_tab s = trim_blanks s @ rev q"
    using arg_cong [OF q(1), of rev] by (simp add: trim_blanks_def)
  then have "s = p @ trim_blanks s @ rev q" using p(1) by simp
  then show ?thesis using p(2) q(2) by (metis list_all_rev)
qed

lemma trim_blanks_tag: 
  assumes "list_all sp_or_tab p" "list_all sp_or_tab q"
  shows "trim_blanks (p @ CHR 0x22 # s @ CHR 0x22 # q) = CHR 0x22 # s @ [CHR 0x22]"
proof -
  have b: "\<not> sp_or_tab (CHR 0x22)" by (simp add: sp_or_tab_def)
  have "dropWhile sp_or_tab (p @ CHR 0x22 # s @ CHR 0x22 # q) = CHR 0x22 # s @ CHR 0x22 # q"
    using assms(1) b by (simp add: dropWhile_append list_all_iff)
  moreover have "dropWhile sp_or_tab (rev q @ CHR 0x22 # rev s @ [CHR 0x22]) = CHR 0x22 # rev s @ [CHR 0x22]"
    using assms(2) b by (simp add: dropWhile_append list_all_iff)
  ultimately show ?thesis by (simp add: trim_blanks_def)
qed

lemma char_bounds_digit: "is_digit c \<longleftrightarrow> \<not> (c < CHR ''0'' \<or> CHR ''9'' < c)"
  by (auto simp: is_digit_def not_less)

lemma nonzero_digit: "is_digit c \<Longrightarrow> c \<noteq> CHR ''0'' \<longleftrightarrow> CHR ''1'' \<le> c"
proof -
  assume "is_digit c"
  have "CHR ''1'' \<le> c \<longleftrightarrow> 49 \<le> (of_char c :: nat)" "CHR ''0'' \<le> c \<longleftrightarrow> 48 \<le> (of_char c :: nat)"
    by (simp_all add: less_eq_char_def)
  moreover have "c = CHR ''0'' \<longleftrightarrow> (of_char c :: nat) = of_char (CHR ''0'')" by (rule of_char_eq_iff [symmetric])
  ultimately show "c \<noteq> CHR ''0'' \<longleftrightarrow> CHR ''1'' \<le> c" using \<open>is_digit c\<close> by (auto simp: is_digit_def)
qed

lemma parseIfMatch_tag:
  assumes "list_all sp_or_tab p" "list_all sp_or_tab q" "1 \<le> v" "v \<le> max_int64"
  shows "parseIfMatch [p @ entity_tag v @ q] = Inr v"
proof -
  let ?d = "dec (nat v)"
  obtain c t where ct: "?d = c # t" using dec_not_Nil [of "nat v"] by (cases ?d) blast
  have c: "is_digit c" "c \<noteq> CHR ''0''" using hd_dec_digit [of "nat v"] hd_dec [of "nat v"] ct assms(3) by auto
  have t: "\<forall>x \<in> set t. is_digit x" using dec_digits [of _ "nat v"] ct by auto
  have trim: "trim_blanks (p @ entity_tag v @ q) = CHR 0x22 # ?d @ [CHR 0x22]"
    using trim_blanks_tag [OF assms(1,2), of ?d] assms(3) by (simp add: entity_tag_def FormatInt_def)
  have "ParseInt64 ?d = Some v" using ParseInt64_dec [of "nat v"] assms(3,4) by simp
  moreover have "\<not> (c < CHR ''1'' \<or> CHR ''9'' < c)" using c nonzero_digit char_bounds_digit by (auto simp: not_less)
  moreover have "\<not> list_ex (\<lambda>c. c < CHR ''0'' \<or> CHR ''9'' < c) t"
    using t char_bounds_digit by (auto simp: list_ex_iff)
  ultimately show ?thesis by (simp add: parseIfMatch_def trim ct Let_def)
qed

lemma parseIfMatch_Inr:
  assumes "parseIfMatch values = Inr v"
  shows "1 \<le> v \<and> v \<le> max_int64 \<and> (\<exists>p q. values = [p @ entity_tag v @ q] \<and> list_all sp_or_tab p \<and> list_all sp_or_tab q)"
proof -
  obtain w where w: "values = [w]" using assms by (auto simp: parseIfMatch_def split: list.splits)
  let ?t = "trim_blanks w"
  let ?d = "butlast (tl ?t)"
  from assms w have t: "3 \<le> length ?t" "hd ?t = CHR 0x22" "last ?t = CHR 0x22"
    and d: "\<not> hd ?d < CHR ''1''" "\<not> CHR ''9'' < hd ?d" "\<not> list_ex (\<lambda>c. c < CHR ''0'' \<or> CHR ''9'' < c) (tl ?d)"
    and v: "ParseInt64 ?d = Some v"
    by (auto simp: parseIfMatch_def Let_def split: if_splits option.splits)
  obtain c r where cr: "?d = c # r" using t(1) by (cases ?d) (auto dest: arg_cong [where f = length])
  have c: "is_digit c" "c \<noteq> CHR ''0''"
  proof -
    have "CHR ''0'' \<le> (CHR ''1'' :: char)" by simp
    then show "is_digit c" using d(1,2) cr order_trans [of "CHR ''0''" "CHR ''1''" c] unfolding is_digit_def by (simp add: not_less)
    then show "c \<noteq> CHR ''0''" using d(1) cr nonzero_digit by (simp add: not_less)
  qed
  then have "c \<noteq> CHR ''+''" "c \<noteq> CHR ''-''" by auto
  then obtain n where n: "ParseUint ?d = Some n" "int n \<le> max_int64" "v = int n"
    using v cr by (auto simp: ParseInt64_def split: option.splits if_splits)
  have dn: "?d = dec n" using n(1) cr c by (intro dec_of_digits) (auto simp: ParseUint_def)
  have "n \<noteq> 0"
  proof
    assume "n = 0"
    then have "c = CHR ''0''" using dn cr by (simp add: dec.simps digit_char_def)
    then show False using c by blast
  qed
  moreover have "?t = entity_tag v"
  proof -
    have "?t = hd ?t # ?d @ [last ?t]" using t(1) by (cases ?t) (auto simp: append_butlast_last_id)
    then show ?thesis using t(2,3) dn n(3) by (simp add: entity_tag_def FormatInt_def)
  qed
  ultimately show ?thesis using n trim_blanks_parts [of w] w by auto
qed

section \<open>Properties\<close>

text \<open>
  \<open>parseIfMatch\<close> accepts exactly the entity tags the service hands out. A version comes back exactly if there is one
  header value and it is, between spaces and tabs, the tag that \<open>writeTask\<close> writes for a version from 1 to the largest
  \<open>int64\<close>, and it is that version.
\<close>

theorem if_match_exact:
  "parseIfMatch values = Inr v \<longleftrightarrow>
     1 \<le> v \<and> v \<le> max_int64 \<and> (\<exists>p q. values = [p @ entity_tag v @ q] \<and> list_all sp_or_tab p \<and> list_all sp_or_tab q)"
  using parseIfMatch_tag parseIfMatch_Inr by blast

end
