(* ===== verification/Locking_Props.thy ===== *)
theory Locking_Props
  imports Service_Locking
begin

text \<open>
  Histories of the service with versions: many clients create, read, update and delete tasks, statements fail or their
  replies are lost, and no update overwrites another one unseen.
\<close>

section \<open>Histories\<close>

text \<open>
  What one client sees of one request: what it sent, as far as it matters, and what it was answered. The table a
  second statement of an update sees is any table.
\<close>

datatype locked_event =
    Created "string + bytes" "lockedResponse response"
  | Looked "lockedResponse response"
  | Put request "lockedResponse response"
  | Removed request "lockedResponse response"

inductive locked_step :: "locked_task list \<Rightarrow> locked_event \<Rightarrow> locked_task list \<Rightarrow> bool" where
  create: "clock_ok (clock call) \<Longrightarrow> rand_ok random \<Longrightarrow>
     locked_createTask locking_repository call random r db = (resp, db') \<Longrightarrow> locked_step db (Created random resp) db'"
| get: "locked_getTask locking_repository call r db = (resp, db') \<Longrightarrow> locked_step db (Looked resp) db'"
| list: "locked_listTasks pg_List call db = (resp, db') \<Longrightarrow> locked_step db (Looked resp) db'"
| put: "updateTask locking_repository call later r db = (resp, db') \<Longrightarrow> locked_step db (Put r resp) db'"
| delete: "locked_deleteTask locking_repository call r db = (resp, db') \<Longrightarrow> locked_step db (Removed r resp) db'"

inductive locked_history :: "locked_task list \<Rightarrow> locked_event list \<Rightarrow> locked_task list \<Rightarrow> bool" where
  start: "locked_history db [] db"
| more: "locked_history db events db' \<Longrightarrow> locked_step db' event db'' \<Longrightarrow> locked_history db (events @ [event]) db''"

definition locked_ok :: "locked_task list \<Rightarrow> bool" where
  "locked_ok db \<longleftrightarrow> db_ok db \<and> (\<forall>r \<in> set db. 1 \<le> Version r \<and> Version r \<le> max_int64)"

text \<open>
  \<open>concerns\<close>: an update of the task \<open>tid\<close>; \<open>granted_versions\<close>: the versions that the updates of \<open>tid\<close> answered with
  200 had named; \<open>redrawn\<close>: the random source has drawn the identifier \<open>tid\<close>.
\<close>

fun concerns :: "string \<Rightarrow> locked_event \<Rightarrow> bool" where
  "concerns tid (Put r resp) \<longleftrightarrow> uuid_value (taskId r) = uuid_value tid"
| "concerns tid _ \<longleftrightarrow> False"

fun answer :: "locked_event \<Rightarrow> lockedResponse response" where
  "answer (Created _ resp) = resp"
| "answer (Looked resp) = resp"
| "answer (Put _ resp) = resp"
| "answer (Removed _ resp) = resp"

fun named_version :: "locked_event \<Rightarrow> int" where
  "named_version (Put r resp) = (case parseIfMatch (if_match r) of Inr v \<Rightarrow> v | Inl _ \<Rightarrow> 0)"
| "named_version _ = 0"

definition granted :: "string \<Rightarrow> locked_event \<Rightarrow> bool" where
  "granted tid ev \<longleftrightarrow> concerns tid ev \<and> status (answer ev) = 200"

definition granted_versions :: "string \<Rightarrow> locked_event list \<Rightarrow> int list" where
  "granted_versions tid events = map named_version (filter (granted tid) events)"

definition redrawn :: "string \<Rightarrow> locked_event list \<Rightarrow> bool" where
  "redrawn tid events \<longleftrightarrow>
     list_ex (\<lambda>ev. case ev of Created random _ \<Rightarrow>
       (case newUUID random of Inr i \<Rightarrow> uuid_value i = uuid_value tid | Inl _ \<Rightarrow> False) | _ \<Rightarrow> False) events"

definition in_doubt :: "string \<Rightarrow> locked_event list \<Rightarrow> bool" where
  "in_doubt tid events \<longleftrightarrow> list_ex (\<lambda>ev. concerns tid ev \<and> status (answer ev) = 500) events"

lemma locked_reply_status [simp]:
  "status (writeTask code t) = code" "status (writeJSON code p) = code" "status (writeHeader code) = code"
  "status (writeProblem q) = problem_Status q"
  by (simp_all add: writeTask_def reply_defs)

lemma lockedServiceError_status:
  "status (lockedServiceError e) =
     (case e of ErrInvalid \<Rightarrow> 400 | ErrNotFound \<Rightarrow> 404 | ErrPreconditionFailed \<Rightarrow> 412 | ErrOther _ \<Rightarrow> 500)"
  by (cases e) (simp_all add: lockedServiceError_def problem_defs preconditionFailedProblem_def)

text \<open>What an update does to the table and answers.\<close>

lemma updateTask_cases:
  assumes "updateTask R call later r db = (resp, db')"
  obtains (refused) "db' = db" "status resp \<noteq> 200" "status resp \<noteq> 500"
  | (err) v title e where "parseIfMatch (if_match r) = Inr v" "resp = lockedServiceError e"
      "Service_Update R call later (taskId r) title v db = (Inl e, db')"
  | (ok) v title t where "parseIfMatch (if_match r) = Inr v" "resp = writeTask 200 t"
      "decode_create (request_body r) = Some title" "Service_Update R call later (taskId r) title v db = (Inr t, db')"
  using assms
  by (auto simp: updateTask_def problem_defs preconditionRequiredProblem_def
      split: sum.splits if_splits option.splits prod.splits)

lemma update_step:
  assumes "db_ok db" "updateTask locking_repository call later r db = (resp, db')"
  shows "db_ok db'"
    "status resp = 200 \<Longrightarrow> \<exists>v title u t. parseIfMatch (if_match r) = Inr v \<and> resp = writeTask 200 t
       \<and> decode_create (request_body r) = Some title \<and> normalizeTitle title = Inr u \<and> performed (taskId r) u v db t db'"
    "status resp = 500 \<Longrightarrow> db' = db \<or> (\<exists>u v t. performed (taskId r) u v db t db')"
    "status resp \<noteq> 200 \<Longrightarrow> status resp \<noteq> 500 \<Longrightarrow> db' = db"
proof -
  show ok: "db_ok db'" using assms(2)
  proof (cases rule: updateTask_cases)
    case (err v title e)
    then show ?thesis using locking.service_update(1) [OF assms(1)] by blast
  next
    case (ok v title t)
    then show ?thesis using locking.service_update(1) [OF assms(1)] by blast
  qed (use assms(1) in simp)
  show "\<exists>v title u t. parseIfMatch (if_match r) = Inr v \<and> resp = writeTask 200 t
       \<and> decode_create (request_body r) = Some title \<and> normalizeTitle title = Inr u \<and> performed (taskId r) u v db t db'"
    if "status resp = 200" using assms(2)
  proof (cases rule: updateTask_cases)
    case (err v title e)
    then show ?thesis using that by (cases e) (simp_all add: lockedServiceError_status)
  next
    case (ok v title t)
    then show ?thesis using locking.service_update(2) [OF assms(1) ok(4) refl] by blast
  qed (use that in simp)
  show "db' = db \<or> (\<exists>u v t. performed (taskId r) u v db t db')" if "status resp = 500" using assms(2)
  proof (cases rule: updateTask_cases)
    case (err v title e)
    then show ?thesis using locking.service_update(3) [OF assms(1) err(3) refl] by blast
  qed (use that in simp_all)
  show "db' = db" if "status resp \<noteq> 200" "status resp \<noteq> 500" using assms(2)
  proof (cases rule: updateTask_cases)
    case (err v title e)
    then show ?thesis
      using locking.service_update(3) [OF assms(1) err(3) refl] that by (auto simp: lockedServiceError_status)
  qed (use that in simp_all)
qed

text \<open>How the row of one task goes through one request.\<close>

lemma locked_create_rows:
  assumes "locked_createTask locking_repository call random r db = (resp, db')" "rand_ok random"
  shows "db' = db \<or> (\<exists>i t. newUUID random = Inr i \<and> db' = db @ [t] \<and> same_id i t \<and> Version t = 1)"
proof -
  have "db' = db \<or> (\<exists>title res. Service_Create locking_repository call random title db = (res, db'))"
    using assms(1) by (auto simp: locked_createTask_def split: if_splits option.splits prod.splits sum.splits)
  then show ?thesis using locking.service_created_row [OF assms(2)] by blast
qed

lemma locked_create_ok:
  assumes "locked_createTask locking_repository call random r db = (resp, db')"
    "db_ok db" "clock_ok (clock call)" "rand_ok random"
  shows "db_ok db'"
proof -
  have "db' = db \<or> (\<exists>title res. Service_Create locking_repository call random title db = (res, db'))"
    using assms(1) by (auto simp: locked_createTask_def split: if_splits option.splits prod.splits sum.splits)
  then show ?thesis using locking.service_create(1) [OF assms(2-4)] assms(2) by blast
qed

lemma locked_getTask_state: "snd (locked_getTask locking_repository call r db) = db"
  using locking.service_get_state [of call "taskId r" db]
  by (auto simp: locked_getTask_def split: prod.splits sum.splits)

lemma locked_listTasks_state: "snd (locked_listTasks pg_List call db) = db"
  by (auto simp: locked_listTasks_def Service_List_def pg_List_def split: prod.splits sum.splits)

lemma locked_delete_service:
  "locked_deleteTask R call r db = (resp, db') \<Longrightarrow> \<exists>res. Service_Delete R call (taskId r) db = (res, db')"
  by (auto simp: locked_deleteTask_def split: prod.splits option.splits)

lemma locked_step_db_ok:
  assumes "locked_step db ev db'" "db_ok db"
  shows "db_ok db'"
  using assms
proof (cases rule: locked_step.cases)
  case (create call random r resp)
  then show ?thesis using locked_create_ok assms(2) by blast
next
  case (get call r resp)
  then show ?thesis using locked_getTask_state [of call r db] assms(2) by simp
next
  case (list call resp)
  then show ?thesis using locked_listTasks_state [of call db] assms(2) by simp
next
  case (put call later r resp)
  then show ?thesis using update_step(1) assms(2) by blast
next
  case (delete call r resp)
  then obtain res where "Service_Delete locking_repository call (taskId r) db = (res, db')"
    using locked_delete_service [OF delete(2)] by blast
  then show ?thesis by (rule locking.service_delete(1) [OF assms(2)])
qed

lemma row_put:
  assumes "updateTask locking_repository call later r db = (resp, db')" "db_ok db" "q' \<in> set db'" "same_id tid q'"
  shows "\<exists>q \<in> set db. ID q' = ID q \<and> CreatedAt q' = CreatedAt q \<and> (q' = q \<or> Version q < max_int64) \<and>
    (if granted tid (Put r resp) then named_version (Put r resp) = Version q \<and> Version q' = Version q + 1 \<and> resp = writeTask 200 q'
     else if in_doubt tid [Put r resp] then Version q' = Version q \<or> Version q' = Version q + 1 else q' = q)"
proof -
  note s = update_step [OF assms(2,1)]
  let ?here = "uuid_value (taskId r) = uuid_value tid"
  have rows: "\<exists>q \<in> set db. ID q' = ID q \<and> CreatedAt q' = CreatedAt q \<and> (q' = q \<or> Version q < max_int64) \<and>
      (if ?here then Version q = v \<and> Version q' = v + 1 \<and> q' = t else q' = q)"
    if p: "performed (taskId r) u v db t db'" for u v t
  proof -
    obtain q where q: "q \<in> set db" "ID q' = ID q" "CreatedAt q' = CreatedAt q"
      "if same_id (taskId r) q then Version q = v \<and> v < max_int64 \<and> q' = t \<and> q' = updated_row u q else q' = q"
      using performed_rows [OF assms(2) p assms(3)] by blast
    have "same_id (taskId r) q \<longleftrightarrow> ?here" using assms(4) q(2) by (auto simp: same_id_def)
    then show ?thesis using q by (intro bexI [OF _ q(1)]) auto
  qed
  consider (ok) "status resp = 200" | (lost) "status resp = 500" | (other) "status resp \<noteq> 200" "status resp \<noteq> 500"
    by blast
  then show ?thesis
  proof cases
    case ok
    then obtain v u t where p: "parseIfMatch (if_match r) = Inr v" "performed (taskId r) u v db t db'" "resp = writeTask 200 t"
      using s(2) by blast
    from rows [OF p(2)] obtain q where q: "q \<in> set db" "ID q' = ID q" "CreatedAt q' = CreatedAt q"
      "q' = q \<or> Version q < max_int64" "if ?here then Version q = v \<and> Version q' = v + 1 \<and> q' = t else q' = q" by blast
    show ?thesis by (intro bexI [OF _ q(1)]) (use q ok p(1,3) in \<open>auto simp: granted_def in_doubt_def\<close>)
  next
    case lost
    then show ?thesis
    proof (cases "db' = db")
      case False
      then obtain u v t where p: "performed (taskId r) u v db t db'" using s(3) lost by blast
      from rows [OF p] obtain q where q: "q \<in> set db" "ID q' = ID q" "CreatedAt q' = CreatedAt q"
        "q' = q \<or> Version q < max_int64" "if ?here then Version q = v \<and> Version q' = v + 1 \<and> q' = t else q' = q" by blast
      show ?thesis by (intro bexI [OF _ q(1)]) (use q lost in \<open>auto simp: granted_def in_doubt_def split: if_splits\<close>)
    qed (use assms(3) in \<open>auto simp: granted_def\<close>)
  next
    case other
    then have "db' = db" using s(4) by blast
    then show ?thesis using assms(3) other by (auto simp: granted_def in_doubt_def)
  qed
qed

lemma row_step:
  assumes "locked_step db ev db'" "db_ok db" "q' \<in> set db'" "same_id tid q'" "\<not> redrawn tid [ev]"
  shows "\<exists>q \<in> set db. ID q' = ID q \<and> CreatedAt q' = CreatedAt q \<and> (q' = q \<or> Version q < max_int64) \<and>
    (if granted tid ev then named_version ev = Version q \<and> Version q' = Version q + 1 \<and> answer ev = writeTask 200 q'
     else if in_doubt tid [ev] then Version q' = Version q \<or> Version q' = Version q + 1 else q' = q)"
  using assms(1)
proof (cases rule: locked_step.cases)
  case (create call random r resp)
  have "q' \<in> set db"
  proof (rule ccontr)
    assume "q' \<notin> set db"
    then obtain i where i: "newUUID random = Inr i" "same_id i q'"
      using locked_create_rows [OF create(4,3)] assms(3) by auto
    then show False using assms(4,5) create(1) by (simp add: redrawn_def same_id_iff)
  qed
  then show ?thesis using create by (auto simp: granted_def in_doubt_def)
next
  case (get call r resp)
  then have "db' = db" using locked_getTask_state [of call r db] by simp
  then show ?thesis using assms(3) get by (auto simp: granted_def in_doubt_def)
next
  case (list call resp)
  then have "db' = db" using locked_listTasks_state [of call db] by simp
  then show ?thesis using assms(3) list by (auto simp: granted_def in_doubt_def)
next
  case (put call later r resp)
  show ?thesis unfolding put(1) answer.simps by (rule row_put [OF put(2) assms(2-4)])
next
  case (delete call r resp)
  then obtain res where "Service_Delete locking_repository call (taskId r) db = (res, db')"
    using locked_delete_service [OF delete(2)] by blast
  then have "set db' \<subseteq> set db" by (rule locking.service_deleted_row)
  then show ?thesis using assms(3) delete by (auto simp: granted_def in_doubt_def)
qed

lemma locked_step_ok:
  assumes "locked_step db ev db'" "locked_ok db"
  shows "locked_ok db'"
proof -
  have ok: "db_ok db" using assms(2) by (simp add: locked_ok_def)
  have "1 \<le> Version q' \<and> Version q' \<le> max_int64" if q': "q' \<in> set db'" for q'
  proof (cases "redrawn (ID q') [ev]")
    case True
    then obtain random resp where ev: "ev = Created random resp"
      by (cases ev) (simp_all add: redrawn_def)
    from assms(1) show ?thesis unfolding ev
    proof (cases rule: locked_step.cases)
      case (create call r)
      then show ?thesis using locked_create_rows [OF create(3,2)] assms(2) q' by (auto simp: locked_ok_def)
    qed
  next
    case False
    from row_step [OF assms(1) ok q' _ False] show ?thesis
      using assms(2) by (auto simp: locked_ok_def same_id_def split: if_splits)
  qed
  then show ?thesis using locked_step_db_ok [OF assms(1) ok] by (simp add: locked_ok_def)
qed

lemma locked_history_ok: "locked_history db events db' \<Longrightarrow> locked_ok db \<Longrightarrow> locked_ok db'"
  by (induction rule: locked_history.induct) (auto intro: locked_step_ok)

lemma event_list_simps [simp]:
  "granted_versions tid [] = []"
  "granted_versions tid (events @ [ev]) = granted_versions tid events @ (if granted tid ev then [named_version ev] else [])"
  "redrawn tid (events @ [ev]) \<longleftrightarrow> redrawn tid events \<or> redrawn tid [ev]"
  "in_doubt tid (events @ [ev]) \<longleftrightarrow> in_doubt tid events \<or> in_doubt tid [ev]"
  "\<not> redrawn tid []" "\<not> in_doubt tid []"
  by (auto simp: granted_versions_def redrawn_def in_doubt_def)

text \<open>The row that is there at the end was there all the time.\<close>

lemma row_history:
  assumes "locked_history db events db'" "db_ok db" "\<not> redrawn tid events" "q' \<in> set db'" "same_id tid q'"
  shows "\<exists>q \<in> set db. ID q' = ID q \<and> CreatedAt q' = CreatedAt q \<and> Version q \<le> Version q'
    \<and> sorted_wrt (<) (granted_versions tid events)
    \<and> (\<forall>v \<in> set (granted_versions tid events). Version q \<le> v \<and> v < Version q')
    \<and> (\<not> in_doubt tid events \<longrightarrow> granted_versions tid events = [Version q..Version q' - 1]
        \<and> (let done = filter (granted tid) events in if done = [] then q' = q else answer (last done) = writeTask 200 q'))"
  using assms
proof (induction arbitrary: q' rule: locked_history.induct)
  case (more db events db1 ev db2)
  have ok: "db_ok db1" using more.hyps(1) more.prems(1)
    by (induction rule: locked_history.induct) (auto intro: locked_step_db_ok)
  have nr: "\<not> redrawn tid events" "\<not> redrawn tid [ev]" using more.prems(2) by simp_all
  obtain q1 where q1: "q1 \<in> set db1" "ID q' = ID q1" "CreatedAt q' = CreatedAt q1"
    and v1: "if granted tid ev then named_version ev = Version q1 \<and> Version q' = Version q1 + 1 \<and> answer ev = writeTask 200 q'
      else if in_doubt tid [ev] then Version q' = Version q1 \<or> Version q' = Version q1 + 1 else q' = q1"
    using row_step [OF more.hyps(2) ok more.prems(3,4) nr(2)] by blast
  have s1: "same_id tid q1" using more.prems(4) q1(2) by (simp add: same_id_def)
  from more.IH [OF more.prems(1) nr(1) q1(1) s1] obtain q where q: "q \<in> set db" "ID q1 = ID q"
      "CreatedAt q1 = CreatedAt q" "Version q \<le> Version q1" "sorted_wrt (<) (granted_versions tid events)"
      "\<forall>v \<in> set (granted_versions tid events). Version q \<le> v \<and> v < Version q1"
      "\<not> in_doubt tid events \<longrightarrow> granted_versions tid events = [Version q..Version q1 - 1]
        \<and> (let done = filter (granted tid) events in if done = [] then q1 = q else answer (last done) = writeTask 200 q1)" by blast
  have up: "[Version q..Version q1] = [Version q..Version q1 - 1] @ [Version q1]"
    using q(4) by (simp add: upto_rec2)
  show ?case
  proof (cases "granted tid ev")
    case True
    then have "\<not> in_doubt tid [ev]" by (simp add: granted_def in_doubt_def)
    with True v1 q q1(2,3) up show ?thesis
      by (intro bexI [OF _ q(1)]) (simp add: sorted_wrt_append ball_Un order.strict_implies_order)
  next
    case False
    then have same: "granted_versions tid (events @ [ev]) = granted_versions tid events"
      "filter (granted tid) (events @ [ev]) = filter (granted tid) events" by simp_all
    have v: "q' = q1 \<or> Version q' = Version q1 + 1 \<and> in_doubt tid [ev] \<or> Version q' = Version q1 \<and> in_doubt tid [ev]"
      using False v1 by (cases "in_doubt tid [ev]") auto
    then have le: "Version q1 \<le> Version q'" by auto
    show ?thesis unfolding same
    proof (intro bexI [OF _ q(1)] conjI [of "_ = _"] conjI ballI impI)
      show "ID q' = ID q" "CreatedAt q' = CreatedAt q" using q(2,3) q1(2,3) by simp_all
      show "Version q \<le> Version q'" using q(4) le by simp
      show "sorted_wrt (<) (granted_versions tid events)" by (rule q(5))
      show "Version q \<le> x" "x < Version q'" if "x \<in> set (granted_versions tid events)" for x
        using q(6) that le by auto
      assume "\<not> in_doubt tid (events @ [ev])"
      then have "q' = q1" "\<not> in_doubt tid events" using v by simp_all
      then show "granted_versions tid events = [Version q..Version q' - 1]"
        "let done = filter (granted tid) events in if done = [] then q' = q else answer (last done) = writeTask 200 q'"
        using q(7) by (simp_all add: Let_def)
    qed
  qed
qed auto

lemma locked_history_db_ok: "locked_history db events db' \<Longrightarrow> db_ok db \<Longrightarrow> db_ok db'"
  by (induction rule: locked_history.induct) (auto intro: locked_step_db_ok)

text \<open>An accepted update leaves the row it has written.\<close>

lemma granted_row:
  assumes "locked_step db ev db'" "db_ok db" "granted tid ev"
  shows "\<exists>q' \<in> set db'. same_id tid q'"
proof -
  obtain r resp where ev: "ev = Put r resp" using assms(3) by (cases ev) (simp_all add: granted_def)
  from assms(1) obtain call later where u: "updateTask locking_repository call later r db = (resp, db')"
    unfolding ev by (cases rule: locked_step.cases) blast
  obtain v u t where p: "performed (taskId r) u v db t db'"
    using update_step(2) [OF assms(2) u] assms(3) ev by (auto simp: granted_def)
  then obtain q where q: "q \<in> set db" "same_id (taskId r) q" "t = updated_row u q" "db' = replace_row (taskId r) t db"
    by (auto simp: performed_def at_version_def)
  then have "t \<in> set db'" by (auto simp: replace_row_def)
  moreover have "same_id tid t" using q(2,3) assms(3) ev by (simp add: granted_def same_id_def)
  ultimately show ?thesis by blast
qed

lemma granted_sorted:
  assumes "locked_history db events db'" "db_ok db" "\<not> redrawn tid events"
  shows "sorted_wrt (<) (granted_versions tid events)"
  using assms
proof (induction rule: locked_history.induct)
  case (more db events db1 ev db2)
  have ok: "db_ok db1" by (rule locked_history_db_ok [OF more.hyps(1) more.prems(1)])
  show ?case
  proof (cases "granted tid ev")
    case True
    from granted_row [OF more.hyps(2) ok True] obtain q' where "q' \<in> set db2" "same_id tid q'" by blast
    from row_history [OF locked_history.more [OF more.hyps] more.prems this] show ?thesis by blast
  next
    case False
    then show ?thesis using more.IH more.prems by simp
  qed
qed simp

section \<open>Concrete updates\<close>

definition locked_sample :: locked_task where
  "locked_sample = \<lparr>ID = uuid_format sample_bytes, Title = ''a'', CreatedAt = 1000000, Version = 1\<rparr>"

definition sample_put :: request where
  "sample_put = \<lparr>media_type = Some ''application/json'', request_body = title_body ''a'',
     taskId = uuid_format sample_bytes, if_match = [entity_tag 1], query = Map.empty\<rparr>"

lemma locked_sample_ok: "locked_ok [locked_sample]"
proof -
  have "row_ok locked_sample"
    using sample_uuid(2) sample_title(1) sample_clock
    by (auto simp: row_ok_def locked_sample_def storable_def sample_call_def)
  then show ?thesis by (simp add: locked_ok_def db_ok_def locked_sample_def)
qed

lemma sample_service_update:
  "updateTask locking_repository sample_call later sample_put db =
     (case pg_Update sample_call later (uuid_format sample_bytes) ''a'' 1 db of
        (Inl err, db) \<Rightarrow> (lockedServiceError err, db) | (Inr result, db) \<Rightarrow> (writeTask 200 result, db))"
proof -
  have "parseIfMatch [entity_tag 1] = Inr 1" using parseIfMatch_tag [of "[]" "[]" 1] by simp
  moreover have "decode_create (title_body ''a'') = Some ''a''" by (rule decode_title_body) (simp_all add: plain_def)
  moreover have "validUUID (uuid_format sample_bytes)" using sample_uuid(2) by (rule validUUID_format)
  ultimately show ?thesis
    by (simp add: updateTask_def sample_put_def is_json_def Service_Update_def sample_title locking_repository_def
        split: prod.splits sum.splits)
qed

lemma sample_updates:
  "updateTask locking_repository sample_call later sample_put [locked_sample]
     = (writeTask 200 (updated_row ''a'' locked_sample), [updated_row ''a'' locked_sample])"
  "updateTask locking_repository sample_call [updated_row ''a'' locked_sample] sample_put [updated_row ''a'' locked_sample]
     = (writeProblem preconditionFailedProblem, [updated_row ''a'' locked_sample])"
  unfolding sample_service_update pg_Update_def sql_update_def sql_exists_def run_query_def
  by (simp_all add: at_version_def same_id_def locked_sample_def storable_def sample_title sample_call_def
      lockedServiceError_def updated_row_def)

section \<open>Properties\<close>

text \<open>
  C19: no update is lost. In every history of requests, with concurrent clients, deletions and database failures, the updates of
  a task that are answered with 200 named strictly increasing versions, so that of any number of updates based on the same
  version at most one succeeds. When no update of the task was answered with 500, the row that is left has gone through
  exactly these versions and is the one the last of these answers showed.
\<close>

theorem no_lost_update:
  assumes "locked_ok db" "locked_history db events db'" "\<not> redrawn tid events"
  shows "locked_ok db' \<and> sorted_wrt (<) (granted_versions tid events)
    \<and> (\<forall>q' \<in> set db'. same_id tid q' \<and> \<not> in_doubt tid events \<longrightarrow>
        (\<exists>q \<in> set db. ID q = ID q' \<and> granted_versions tid events = [Version q..Version q' - 1]
          \<and> (let done = filter (granted tid) events in if done = [] then q' = q else answer (last done) = writeTask 200 q')))"
proof -
  have ok: "db_ok db" using assms(1) by (simp add: locked_ok_def)
  show ?thesis
    using locked_history_ok [OF assms(2,1)] granted_sorted [OF assms(2) ok assms(3)]
      row_history [OF assms(2) ok assms(3)] by (metis (no_types, lifting))
qed

theorem no_lost_update_witness:
  "granted_versions (uuid_format sample_bytes)
     [Put sample_put (writeTask 200 (updated_row ''a'' locked_sample)), Put sample_put (writeProblem preconditionFailedProblem)] = [1]
   \<and> sorted_wrt (<) (granted_versions (uuid_format sample_bytes)
     [Put sample_put (writeTask 200 (updated_row ''a'' locked_sample)), Put sample_put (writeProblem preconditionFailedProblem)])"
proof -
  let ?t = "updated_row ''a'' locked_sample"
  let ?events = "[Put sample_put (writeTask 200 ?t), Put sample_put (writeProblem preconditionFailedProblem)]"
  have "locked_history [locked_sample] ([] @ [Put sample_put (writeTask 200 ?t)]) [?t]"
    by (rule locked_history.more [OF locked_history.start locked_step.put [OF sample_updates(1)]])
  from locked_history.more [OF this locked_step.put [OF sample_updates(2)]]
  have h: "locked_history [locked_sample] ?events [?t]" by simp
  have r: "\<not> redrawn (uuid_format sample_bytes) ?events" and d: "\<not> in_doubt (uuid_format sample_bytes) ?events"
    by (simp_all add: redrawn_def in_doubt_def preconditionFailedProblem_def)
  have t: "same_id (uuid_format sample_bytes) ?t" by (simp add: same_id_def locked_sample_def)
  note n = no_lost_update [OF locked_sample_ok h r]
  have "\<exists>q \<in> set [locked_sample]. granted_versions (uuid_format sample_bytes) ?events = [Version q..Version ?t - 1]"
    using n [THEN conjunct2, THEN conjunct2, THEN bspec, of ?t] t d by auto
  moreover have "[Version locked_sample..Version ?t - 1] = [1]" by (simp add: locked_sample_def)
  ultimately show ?thesis using n [THEN conjunct2, THEN conjunct1] by simp
qed

end
