(* ===== verification/Task_Text.thy ===== *)
theory Task_Text
  imports Task_Http Go_Marshal
begin

text \<open>
  The text of a reply of the task services: \<open>json.NewEncoder(w).Encode(value)\<close> on the documents of \<open>Task_Http\<close>, and the
  facts about times and identifiers that let such a document be read back.
\<close>

lemma ascii_dec_text: "ascii (dec n)"
proof -
  have "of_char c < (128 :: nat)" if "c \<in> set (dec n)" for c
    using dec_digits [OF that] by (auto simp: is_digit_def less_eq_char_def)
  then show ?thesis by (simp add: list_all_iff)
qed

lemma ascii_Format_micro: "ascii (Format_micro t)"
  using ascii_dec_text
  by (auto simp: Format_micro_def year_text_def zero_pad_def list_all_iff split: prod.splits)

lemma ascii_uuid_format: "ascii (uuid_format b)"
proof -
  have "ascii (hex_EncodeToString bs)" for bs
  proof (induction bs)
    case (Cons b bs)
    have "list_all (\<lambda>n. of_char (hex_digit n) < (128 :: nat)) [0..<16]" by (simp add: upt_rec hex_digit_def)
    moreover have "unat b div 16 < 16" "unat b mod 16 < 16" using unat_byte_less [of b] by simp_all
    ultimately show ?case using Cons by (simp add: list_all_iff)
  qed simp
  then show ?thesis by (simp add: uuid_format_def)
qed

definition problem_json :: "problem \<Rightarrow> json" where
  "problem_json p = JObject [(''type'', JString (Type p)), (''title'', JString (problem_Title p)),
     (''status'', JNumber (FormatInt (int (problem_Status p)))), (''detail'', JString (Detail p))]"

text \<open>\<open>item\<close> is the document of one task; \<open>nextCursor\<close> is omitted when it is empty.\<close>

definition payload_json :: "('r \<Rightarrow> json) \<Rightarrow> 'r payload \<Rightarrow> json" where
  "payload_json item p =
     (case p of
        Item i \<Rightarrow> item i
      | Items is cursor \<Rightarrow> JObject ((''items'', JArray (map item is)) #
          (case cursor of None \<Rightarrow> [] | Some c \<Rightarrow> [(''nextCursor'', JString c)]))
      | Problem q \<Rightarrow> problem_json q)"

definition reply_text :: "('r \<Rightarrow> json) \<Rightarrow> 'r response \<Rightarrow> string" where
  "reply_text item resp = (case payload resp of None \<Rightarrow> '''' | Some p \<Rightarrow> Encode (payload_json item p))"

definition header_value :: "string \<Rightarrow> 'r response \<Rightarrow> string" where
  "header_value name resp = (case map_of (headers resp) name of None \<Rightarrow> '''' | Some v \<Rightarrow> v)"

end
