(* ===== verification/Service_Pagination.thy ===== *)
theory Service_Pagination
  imports Service_Base Task_Text
begin

text \<open>
  \<open>fixtures/task-solutions/cursor-pagination-direct\<close>: the service whose listing comes in pages. A cursor is the text of a
  JSON document with the position of the last task of a page; the next page is what the table then holds behind that
  position. The lemmas follow a client from page to page over a table that other clients change meanwhile.
\<close>

record PagePosition =
  position_CreatedAt :: int
  position_ID :: string

record Page =
  page_Items :: "task list"
  page_NextCursor :: string

section \<open>Cursors\<close>

definition cursor_json :: "task \<Rightarrow> json" where
  "cursor_json item = JObject [(''createdAt'', JString (Format_micro (CreatedAt item))), (''id'', JString (ID item))]"

definition encodeCursor :: "task \<Rightarrow> string" where
  "encodeCursor item = RawURL_EncodeToString (Marshal (cursor_json item))"

definition store_cursor :: "string \<Rightarrow> json \<Rightarrow> string \<times> string \<Rightarrow> (string \<times> string) option" where
  "store_cursor name v old =
     (case old of (createdAt, i) \<Rightarrow>
        if name = ''createdAt'' then map_option (\<lambda>x. (x, i)) (decode_string v createdAt)
        else map_option (\<lambda>x. (createdAt, x)) (decode_string v i))"

definition decodeCursor :: "string \<Rightarrow> task_error + PagePosition" where
  "decodeCursor encoded =
     (if encoded = '''' then Inl ErrInvalid
      else case RawURL_Strict_DecodeString encoded of
        None \<Rightarrow> Inl ErrInvalid
      | Some data \<Rightarrow>
          (case Option.bind (parse_json data) (\<lambda>v. decode_struct [''createdAt'', ''id''] store_cursor v ('''', '''')) of
             None \<Rightarrow> Inl ErrInvalid
           | Some (createdAt, i) \<Rightarrow>
               (case Parse_RFC3339 createdAt of
                  None \<Rightarrow> Inl ErrInvalid
                | Some t \<Rightarrow>
                    if \<not> validUUID i then Inl ErrInvalid
                    else Inr \<lparr>position_CreatedAt = t, position_ID = i\<rparr>)))"

section \<open>The repository\<close>

text \<open>
  \<open>listTasksSQL\<close>. The type \<open>timestamptz\<close> counts microseconds: \<open>stored\<close> is what the driver makes of a time with
  nanoseconds.
\<close>

definition behind :: "(int \<Rightarrow> int) \<Rightarrow> PagePosition option \<Rightarrow> task \<Rightarrow> bool" where
  "behind stored position r =
     (case position of
        None \<Rightarrow> True
      | Some p \<Rightarrow> (stored (position_CreatedAt p), the (uuid_value (position_ID p))) < order_key r)"

definition sql_page :: "(int \<Rightarrow> int) \<Rightarrow> int \<Rightarrow> PagePosition option \<Rightarrow> task list \<Rightarrow> task list" where
  "sql_page stored pageSize position db = take (nat pageSize) (sort_key order_key (filter (behind stored position) db))"

definition pg_ListPage :: "(int \<Rightarrow> int) \<Rightarrow> db_call \<Rightarrow> int \<Rightarrow> PagePosition option \<Rightarrow> task list
    \<Rightarrow> (task_error + task list) \<times> task list" where
  "pg_ListPage stored call pageSize position db = (read_rows (fault call) (sql_page stored pageSize position db), db)"

section \<open>The service and its handler\<close>

definition Service_ListPage :: "(db_call \<Rightarrow> int \<Rightarrow> PagePosition option \<Rightarrow> 'db \<Rightarrow> (task_error + task list) \<times> 'db)
    \<Rightarrow> db_call \<Rightarrow> int option \<Rightarrow> string option \<Rightarrow> 'db \<Rightarrow> (task_error + Page) \<times> 'db" where
  "Service_ListPage list call requestedLimit encodedCursor db =
     (let limit = (case requestedLimit of None \<Rightarrow> 20 | Some l \<Rightarrow> l) in
      if limit < 1 \<or> 100 < limit then (Inl ErrInvalid, db)
      else case (case encodedCursor of None \<Rightarrow> Inr None | Some c \<Rightarrow> map_sum id Some (decodeCursor c)) of
        Inl _ \<Rightarrow> (Inl ErrInvalid, db)
      | Inr position \<Rightarrow>
          (case list call (limit + 1) position db of
             (Inl err, db) \<Rightarrow> (Inl err, db)
           | (Inr items, db) \<Rightarrow>
               (Inr (if limit < int (length items)
                     then (let kept = take (nat limit) items in \<lparr>page_Items = kept, page_NextCursor = encodeCursor (last kept)\<rparr>)
                     else \<lparr>page_Items = items, page_NextCursor = ''''\<rparr>), db)))"

definition listParameters :: "request \<Rightarrow> task_error + int option \<times> string option" where
  "listParameters r =
     (case (case query r ''limit'' of
              None \<Rightarrow> Inr None
            | Some [v] \<Rightarrow> (case ParseInt64 v of None \<Rightarrow> Inl ErrInvalid | Some parsed \<Rightarrow> Inr (Some parsed))
            | Some _ \<Rightarrow> Inl ErrInvalid) of
        Inl err \<Rightarrow> Inl err
      | Inr limit \<Rightarrow>
          (case query r ''cursor'' of
             None \<Rightarrow> Inr (limit, None)
           | Some [v] \<Rightarrow> Inr (limit, Some v)
           | Some _ \<Rightarrow> Inl ErrInvalid))"

definition listPage :: "(db_call \<Rightarrow> int \<Rightarrow> PagePosition option \<Rightarrow> 'db \<Rightarrow> (task_error + task list) \<times> 'db)
    \<Rightarrow> db_call \<Rightarrow> request \<Rightarrow> 'db \<Rightarrow> taskResponse response \<times> 'db" where
  "listPage list call r db =
     (case listParameters r of
        Inl _ \<Rightarrow> (writeProblem validationProblem, db)
      | Inr (limit, cursor) \<Rightarrow>
          (case Service_ListPage list call limit cursor db of
             (Inl err, db) \<Rightarrow> (writeServiceError err, db)
           | (Inr page, db) \<Rightarrow>
               (writeJSON 200 (Items (map responseFromTask (page_Items page))
                  (if page_NextCursor page = '''' then None else Some (page_NextCursor page))), db)))"

section \<open>A cursor stands for the position of its task\<close>

lemma cursor_round_trip:
  assumes "row_ok t"
  shows "decodeCursor (encodeCursor t) = Inr \<lparr>position_CreatedAt = CreatedAt t, position_ID = ID t\<rparr>"
proof -
  obtain b where b: "length b = 16" "ID t = uuid_format b" using assms by (auto simp: row_ok_def)
  have "printable 0 (cursor_json t)"
    using ascii_Format_micro ascii_uuid_format b(2) by (simp add: cursor_json_def)
  then have "parse_json (Marshal (cursor_json t)) = Some (cursor_json t)"
    using compact.parse_value_printed_layout [of "cursor_json t" "[]"] by (simp add: parse_json_def Marshal_def)
  moreover have "decode_struct [''createdAt'', ''id''] store_cursor (cursor_json t) ('''', '''')
      = Some (Format_micro (CreatedAt t), ID t)"
    by (simp add: decode_struct_def cursor_json_def select_field_def store_cursor_def decode_string_def)
  moreover have "Parse_RFC3339 (Format_micro (CreatedAt t)) = Some (CreatedAt t)"
    using assms by (intro Parse_Format) (auto simp: row_ok_def clock_ok_def)
  moreover have "Marshal (cursor_json t) \<noteq> ''''" by (simp add: Marshal_def cursor_json_def)
  ultimately show ?thesis
    using validUUID_format [OF b(1)] b(2) by (simp add: decodeCursor_def encodeCursor_def RawURL_Decode_Encode)
qed

section \<open>Walking over the pages\<close>

text \<open>
  A client takes a page and goes on with its cursor until there is none. Each request meets the table of its time: \<open>visits\<close>
  are the calls with these tables. The result is the tasks of all pages and whether the last page had no cursor.
\<close>

fun follow :: "(int \<Rightarrow> int) \<Rightarrow> int option \<Rightarrow> string option \<Rightarrow> (db_call \<times> task list) list \<Rightarrow> task list \<times> bool" where
  "follow stored limit cursor [] = ([], False)"
| "follow stored limit cursor ((call, db) # visits) =
     (case Service_ListPage (pg_ListPage stored) call limit cursor db of
        (Inl err, _) \<Rightarrow> ([], False)
      | (Inr page, _) \<Rightarrow>
          if page_NextCursor page = '''' then (page_Items page, True)
          else (case follow stored limit (Some (page_NextCursor page)) visits of
                  (rest, ended) \<Rightarrow> (page_Items page @ rest, ended)))"

definition keeps_micros :: "(int \<Rightarrow> int) \<Rightarrow> bool" where
  "keeps_micros stored \<longleftrightarrow> (\<forall>t. t mod 1000 = 0 \<longrightarrow> stored t = t)"

definition page_size :: "int option \<Rightarrow> int" where
  "page_size limit = (case limit of None \<Rightarrow> 20 | Some l \<Rightarrow> l)"

definition visits_ok :: "(db_call \<times> task list) list \<Rightarrow> bool" where
  "visits_ok visits \<longleftrightarrow> (\<forall>(call, db) \<in> set visits. fault call = NoFault \<and> db_ok db)"

text \<open>The tasks behind a position, in order; \<open>k\<close> is the key of the position.\<close>

definition rest_of :: "(int \<times> bytes) option \<Rightarrow> task list \<Rightarrow> task list" where
  "rest_of k db = filter (\<lambda>r. case k of None \<Rightarrow> True | Some x \<Rightarrow> x < order_key r) (sql_list db)"

definition cursor_at :: "(int \<Rightarrow> int) \<Rightarrow> string option \<Rightarrow> (int \<times> bytes) option \<Rightarrow> bool" where
  "cursor_at stored cursor k \<longleftrightarrow>
     (case cursor of
        None \<Rightarrow> k = None
      | Some c \<Rightarrow> (\<exists>p. decodeCursor c = Inr p \<and> k = Some (stored (position_CreatedAt p), the (uuid_value (position_ID p)))))"

lemma encodeCursor_not_empty: "encodeCursor t \<noteq> ''''"
  by (simp add: encodeCursor_def Marshal_def cursor_json_def)

lemma cursor_at_encode:
  assumes "row_ok t" "keeps_micros stored"
  shows "cursor_at stored (Some (encodeCursor t)) (Some (order_key t))"
proof -
  have "CreatedAt t mod 1000 = 0" using assms(1) by (simp add: row_ok_def clock_ok_def)
  then show ?thesis
    using cursor_round_trip [OF assms(1)] assms(2) by (simp add: cursor_at_def keeps_micros_def order_key_def)
qed

lemma strict_sql_list: "db_ok db \<Longrightarrow> sorted_wrt (<) (map order_key (sql_list db))"
proof -
  assume ok: "db_ok db"
  then have "distinct (map order_key (sql_list db))"
    using order_key_inj [OF ok] by (auto simp: distinct_map inj_on_def db_ok_def sql_list_def)
  then show ?thesis using sql_list_sorted [of db] by (simp add: sorted_strict_distinct)
qed

lemma strict_rest_of: "db_ok db \<Longrightarrow> sorted_wrt (<) (map order_key (rest_of k db))"
  using strict_sql_list [of db] by (simp add: rest_of_def sorted_wrt_map sorted_wrt_filter)

lemma set_rest_of: "set (rest_of k db) = {r \<in> set db. case k of None \<Rightarrow> True | Some x \<Rightarrow> x < order_key r}"
  by (auto simp: rest_of_def)

lemma sql_page_rest:
  assumes "cursor_at stored cursor k" "case cursor of None \<Rightarrow> position = None | Some c \<Rightarrow> (\<exists>p. decodeCursor c = Inr p \<and> position = Some p)"
  shows "sql_page stored n position db = take (nat n) (rest_of k db)"
proof -
  have "behind stored position = (\<lambda>r. case k of None \<Rightarrow> True | Some x \<Rightarrow> x < order_key r)"
    using assms by (auto simp: cursor_at_def behind_def fun_eq_iff split: option.splits)
  then show ?thesis by (simp add: sql_page_def rest_of_def sql_list_def filter_sort)
qed

text \<open>One page: the first tasks behind the cursor, and a cursor at the last of them if there are more.\<close>

lemma page_exact:
  assumes "fault call = NoFault" "1 \<le> page_size limit" "page_size limit \<le> 100" "cursor_at stored cursor k"
  shows "Service_ListPage (pg_ListPage stored) call limit cursor db =
    (let rest = rest_of k db; n = nat (page_size limit) in
     (Inr (if n < length rest then \<lparr>page_Items = take n rest, page_NextCursor = encodeCursor (rest ! (n - 1))\<rparr>
           else \<lparr>page_Items = rest, page_NextCursor = ''''\<rparr>), db))"
proof -
  let ?l = "page_size limit"
  let ?rest = "rest_of k db"
  obtain position where pos: "(case cursor of None \<Rightarrow> Inr None | Some c \<Rightarrow> map_sum id Some (decodeCursor c)) = Inr position"
    "case cursor of None \<Rightarrow> position = None | Some c \<Rightarrow> (\<exists>p. decodeCursor c = Inr p \<and> position = Some p)"
    using assms(4) by (cases cursor) (auto simp: cursor_at_def)
  have page: "pg_ListPage stored call (?l + 1) position db = (Inr (take (nat (?l + 1)) ?rest), db)"
    using assms(1) sql_page_rest [OF assms(4) pos(2)] by (simp add: pg_ListPage_def read_rows_def)
  have n: "nat (?l + 1) = Suc (nat ?l)" using assms(2) by simp
  have more: "?l < int (length (take (nat (?l + 1)) ?rest)) \<longleftrightarrow> nat ?l < length ?rest" using assms(2) n by auto
  have kept: "take (nat ?l) (take (nat (?l + 1)) ?rest) = take (nat ?l) ?rest" by (simp add: n min_def)
  have last: "last (take (nat ?l) ?rest) = ?rest ! (nat ?l - 1)" if "nat ?l < length ?rest"
  proof -
    have "take (nat ?l) ?rest \<noteq> []" using that assms(2) by auto
    then show ?thesis using that by (simp add: last_conv_nth min_def)
  qed
  have all: "take (nat (?l + 1)) ?rest = ?rest" if "\<not> nat ?l < length ?rest" using that n by simp
  show ?thesis
    unfolding Service_ListPage_def page_size_def [symmetric] Let_def
    using assms(2,3) pos(1) page more kept last all by (simp del: take_take)
qed

text \<open>The walk: strictly ordered, from the tables it met, and missing nothing that was there all the time.\<close>

lemma rest_of_split:
  assumes "db_ok db" "n < length (rest_of k db)" "0 < n"
  shows "\<forall>r \<in> set (take n (rest_of k db)). order_key r \<le> order_key (rest_of k db ! (n - 1))"
    "r \<in> set (rest_of k db) \<Longrightarrow> r \<in> set (take n (rest_of k db)) \<or> order_key (rest_of k db ! (n - 1)) < order_key r"
proof -
  let ?s = "rest_of k db"
  have lt: "order_key (?s ! i) < order_key (?s ! j)" if "i < j" "j < length ?s" for i j
    using strict_rest_of [OF assms(1), of k] that by (simp add: sorted_wrt_iff_nth_less)
  show "\<forall>r \<in> set (take n ?s). order_key r \<le> order_key (?s ! (n - 1))"
  proof
    fix r assume "r \<in> set (take n ?s)"
    then obtain i where i: "i < n" "r = ?s ! i" using assms(2) by (auto simp: in_set_conv_nth)
    show "order_key r \<le> order_key (?s ! (n - 1))"
    proof (cases "i = n - 1")
      case False
      then show ?thesis using lt [of i "n - 1"] i assms(2) by (simp add: order.strict_implies_order)
    qed (use i in simp)
  qed
  assume "r \<in> set ?s"
  then obtain j where j: "j < length ?s" "r = ?s ! j" by (auto simp: in_set_conv_nth)
  show "r \<in> set (take n ?s) \<or> order_key (?s ! (n - 1)) < order_key r"
  proof (cases "j < n")
    case True
    then show ?thesis using j by (auto simp: in_set_conv_nth intro: exI [of _ j])
  next
    case False
    then show ?thesis using lt [of "n - 1" j] j assms(3) by simp
  qed
qed

lemma follow_walk:
  assumes "visits_ok visits" "1 \<le> page_size limit" "page_size limit \<le> 100" "keeps_micros stored"
    "cursor_at stored cursor k" "follow stored limit cursor visits = (found, ended)"
  shows "sorted_wrt (<) (map order_key found)
    \<and> (\<forall>r \<in> set found. (\<exists>(call, db) \<in> set visits. r \<in> set db) \<and> (case k of None \<Rightarrow> True | Some x \<Rightarrow> x < order_key r))
    \<and> (ended \<longrightarrow> (\<forall>r. (\<forall>(call, db) \<in> set visits. r \<in> set db) \<and> (case k of None \<Rightarrow> True | Some x \<Rightarrow> x < order_key r)
          \<longrightarrow> r \<in> set found))"
  using assms(1,5,6)
proof (induction visits arbitrary: cursor k found ended)
  case (Cons visit visits)
  obtain call db where v: "visit = (call, db)" by fastforce
  let ?rest = "rest_of k db"
  let ?n = "nat (page_size limit)"
  have call: "fault call = NoFault" "db_ok db" and later: "visits_ok visits"
    using Cons.prems(1) v by (auto simp: visits_ok_def)
  note page = page_exact [OF call(1) assms(2,3) Cons.prems(2), of db]
  have strict: "sorted_wrt (<) (map order_key ?rest)" by (rule strict_rest_of [OF call(2)])
  show ?case
  proof (cases "?n < length ?rest")
    case False
    then have "found = ?rest" "ended" using Cons.prems(3) page by (simp_all add: v Let_def)
    then show ?thesis using strict by (auto simp: v set_rest_of)
  next
    case True
    let ?last = "?rest ! (?n - 1)"
    have n: "0 < ?n" using assms(2) by simp
    obtain more where f: "follow stored limit (Some (encodeCursor ?last)) visits = (more, ended)"
      and found: "found = take ?n ?rest @ more"
      using Cons.prems(3) page True encodeCursor_not_empty by (auto simp: v Let_def split: prod.splits)
    have mem: "?last \<in> set ?rest" using True n by simp
    then have "row_ok ?last" using call(2) by (simp add: set_rest_of db_ok_def)
    then have cur: "cursor_at stored (Some (encodeCursor ?last)) (Some (order_key ?last))"
      by (rule cursor_at_encode [OF _ assms(4)])
    note ih = Cons.IH [OF later cur f]
    note split = rest_of_split [OF call(2) True n]
    have more: "order_key ?last < order_key r \<and> (\<exists>(call, db) \<in> set visits. r \<in> set db)" if "r \<in> set more" for r
      using ih that by simp
    have below: "x < order_key ?last" if "k = Some x" for x using mem that by (simp add: set_rest_of)
    have sorted: "sorted_wrt (<) (map order_key (take ?n ?rest @ more))"
      unfolding map_append sorted_wrt_append
    proof (intro conjI ballI)
      show "sorted_wrt (<) (map order_key (take ?n ?rest))" using strict by (simp add: sorted_wrt_take flip: take_map)
      show "sorted_wrt (<) (map order_key more)" using ih by simp
      fix a b assume "a \<in> set (map order_key (take ?n ?rest))" "b \<in> set (map order_key more)"
      then show "a < b" using split(1) more by (auto intro: le_less_trans)
    qed
    have from_tables: "(\<exists>(call, db) \<in> set (visit # visits). r \<in> set db) \<and> (case k of None \<Rightarrow> True | Some x \<Rightarrow> x < order_key r)"
      if "r \<in> set found" for r
    proof (cases "r \<in> set more")
      case True
      then show ?thesis using more [OF True] below by (auto split: option.splits intro: less_trans)
    next
      case False
      then have "r \<in> set ?rest" using that found by (auto dest: in_set_takeD)
      then show ?thesis by (auto simp: v set_rest_of)
    qed
    have complete: "r \<in> set found" if "ended" "\<forall>(call, db) \<in> set (visit # visits). r \<in> set db"
      "case k of None \<Rightarrow> True | Some x \<Rightarrow> x < order_key r" for r
    proof -
      have "r \<in> set ?rest" using that(2,3) by (simp add: v set_rest_of)
      from split(2) [OF this] show ?thesis
      proof
        assume "order_key ?last < order_key r"
        then have "r \<in> set more" using ih that(1,2) by simp
        then show ?thesis by (simp add: found)
      qed (simp add: found)
    qed
    show ?thesis using sorted from_tables complete found by blast
  qed
qed simp

lemma rest_of_further:
  assumes "case k of None \<Rightarrow> True | Some x \<Rightarrow> x < y"
  shows "rest_of (Some y) db = filter (\<lambda>r. y < order_key r) (rest_of k db)"
proof -
  have "y < order_key r \<longleftrightarrow> (case k of None \<Rightarrow> True | Some x \<Rightarrow> x < order_key r) \<and> y < order_key r" for r :: task
    using assms by (cases k) (auto intro: less_trans)
  then show ?thesis by (simp add: rest_of_def)
qed

text \<open>Behind the last task of a page is what the page has left over.\<close>

lemma rest_behind:
  assumes "db_ok db" "n < length (rest_of k db)" "0 < n"
  shows "rest_of (Some (order_key (rest_of k db ! (n - 1)))) db = drop n (rest_of k db)"
proof -
  let ?rest = "rest_of k db"
  let ?last = "?rest ! (n - 1)"
  have "?last \<in> set ?rest" using assms(2,3) by simp
  then have last: "case k of None \<Rightarrow> True | Some x \<Rightarrow> x < order_key ?last" unfolding set_rest_of by blast
  have "filter (\<lambda>r. order_key ?last < order_key r) (take n ?rest) = []"
    using rest_of_split(1) [OF assms] by (auto simp: filter_empty_conv not_less)
  moreover have "filter (\<lambda>r. order_key ?last < order_key r) (drop n ?rest) = drop n ?rest"
  proof (rule filter_True, rule ballI)
    fix r assume "r \<in> set (drop n ?rest)"
    then obtain i where "i < length ?rest - n" "r = drop n ?rest ! i" unfolding in_set_conv_nth by auto
    then have "n + i < length ?rest" "r = ?rest ! (n + i)" by simp_all
    then show "order_key ?last < order_key r"
      using strict_rest_of [OF assms(1), of k] assms(3) by (simp add: sorted_wrt_iff_nth_less)
  qed
  ultimately have "filter (\<lambda>r. order_key ?last < order_key r) ?rest = drop n ?rest"
    by (metis append_take_drop_id filter_append self_append_conv2)
  then show ?thesis using rest_of_further [OF last] by simp
qed

text \<open>On a table that stands still, enough requests get the whole listing.\<close>

lemma follow_still:
  assumes "fault call = NoFault" "db_ok db" "1 \<le> page_size limit" "page_size limit \<le> 100" "keeps_micros stored"
    "cursor_at stored cursor k" "length (rest_of k db) \<le> nat (page_size limit) * m" "0 < m"
  shows "follow stored limit cursor (replicate m (call, db)) = (rest_of k db, True)"
  using assms(6-8)
proof (induction m arbitrary: cursor k)
  case (Suc m)
  let ?rest = "rest_of k db"
  let ?n = "nat (page_size limit)"
  note page = page_exact [OF assms(1,3,4) Suc.prems(1), of db]
  show ?case
  proof (cases "?n < length ?rest")
    case False
    then show ?thesis using page by (simp add: Let_def)
  next
    case True
    let ?last = "?rest ! (?n - 1)"
    have n: "0 < ?n" using assms(3) by simp
    have "?last \<in> set ?rest" using True n by simp
    then have "row_ok ?last" using assms(2) unfolding set_rest_of by (simp add: db_ok_def)
    then have cur: "cursor_at stored (Some (encodeCursor ?last)) (Some (order_key ?last))"
      by (rule cursor_at_encode [OF _ assms(5)])
    note behind = rest_behind [OF assms(2) True n]
    have "length (rest_of (Some (order_key ?last)) db) \<le> ?n * m" "0 < m"
      using Suc.prems(2) True unfolding behind by (auto intro: gr0I)
    from Suc.IH [OF cur this, unfolded behind]
    show ?thesis using page True encodeCursor_not_empty by (simp add: Let_def)
  qed
qed simp

section \<open>Properties\<close>

text \<open>
  C21: paging under change. A client follows the cursors with any accepted page size while other clients create and delete tasks
  between its requests. The tasks of all pages are in strictly increasing order of creation time and identifier, so none comes
  twice; each was in the table of some request; and when the last page carries no cursor, every task that was there all the
  time has come. On a table that stands still, requests for as many places as there are tasks give exactly the full listing.
\<close>

theorem paging_under_change:
  assumes "visits_ok visits" "1 \<le> page_size limit" "page_size limit \<le> 100" "keeps_micros stored"
    "follow stored limit None visits = (found, ended)"
  shows "sorted_wrt (<) (map order_key found)
    \<and> (\<forall>r \<in> set found. \<exists>(call, db) \<in> set visits. r \<in> set db)
    \<and> (ended \<longrightarrow> (\<forall>r. (\<forall>(call, db) \<in> set visits. r \<in> set db) \<longrightarrow> r \<in> set found))
    \<and> (\<forall>call db. visits \<noteq> [] \<and> set visits = {(call, db)} \<and> length db \<le> nat (page_size limit) * length visits
          \<longrightarrow> found = sql_list db \<and> ended)"
proof -
  have still: "found = sql_list db \<and> ended"
    if v: "visits \<noteq> []" "set visits = {(call, db)}" "length db \<le> nat (page_size limit) * length visits" for call db
  proof -
    have rep: "visits = replicate (length visits) (call, db)" using v(2) by (intro replicate_eqI) auto
    have ok: "fault call = NoFault" "db_ok db" using assms(1) v(2) by (auto simp: visits_ok_def)
    have "length (rest_of None db) \<le> nat (page_size limit) * length visits"
      using v(3) by (simp add: rest_of_def sql_list_def)
    from follow_still [OF ok assms(2-4), of None None, OF _ this]
    have "follow stored limit None visits = (rest_of None db, True)" using rep v(1) by (simp add: cursor_at_def)
    then show ?thesis using assms(5) by (simp add: rest_of_def)
  qed
  have "cursor_at stored None None" by (simp add: cursor_at_def)
  from follow_walk [OF assms(1-4) this assms(5)] still show ?thesis by simp
qed

lemma sample_task_ok: "db_ok [sample_task]"
proof -
  have "row_ok sample_task" using sample_uuid(2) sample_title(1) sample_clock
    by (auto simp: row_ok_def sample_task_def storable_def sample_call_def)
  then show ?thesis by (simp add: db_ok_def)
qed

theorem paging_under_change_witness:
  "follow id (Some 2) None [(sample_call, [sample_task])] = ([sample_task], True)"
proof -
  obtain found ended where f: "follow id (Some 2) None [(sample_call, [sample_task])] = (found, ended)" by fastforce
  have "visits_ok [(sample_call, [sample_task])]" using sample_task_ok by (simp add: visits_ok_def sample_call_def)
  moreover have "1 \<le> page_size (Some 2)" "page_size (Some 2) \<le> 100" "keeps_micros id"
    by (simp_all add: page_size_def keeps_micros_def)
  ultimately have "found = sql_list [sample_task] \<and> ended"
    using paging_under_change [OF _ _ _ _ f] by (simp add: page_size_def)
  then show ?thesis using f by (simp add: sql_list_def)
qed

end
