(* ===== verification/Service_Nullable.thy ===== *)
theory Service_Nullable
  imports Service_Base Task_Text
begin

text \<open>
  \<open>fixtures/task-solutions/nullable-patch-direct\<close>: the service with due dates and \<open>PATCH\<close>. A member of the body that is
  absent keeps what is stored, \<open>null\<close> clears a due date, a value replaces it; the code tells the cases apart by raw messages.
\<close>

record due_task = task +
  task_DueAt :: "int option"

definition mk_due :: "string \<Rightarrow> string \<Rightarrow> int \<Rightarrow> due_task" where
  "mk_due tid title now = \<lparr>ID = tid, Title = title, CreatedAt = now, task_DueAt = None\<rparr>"

record Patch =
  patch_Title :: "string option"
  DueAtPresent :: bool
  patch_DueAt :: "int option"

section \<open>The repository\<close>

text \<open>
  \<open>patchTaskSQL\<close> gets the title, or an empty text that is not used, and the due date, or null. \<open>stored\<close> is what
  the driver makes of a time with nanoseconds.
\<close>

definition patched_row :: "(int \<Rightarrow> int) \<Rightarrow> Patch \<Rightarrow> due_task \<Rightarrow> due_task" where
  "patched_row stored patch r = r\<lparr>
     Title := (case patch_Title patch of None \<Rightarrow> Title r | Some title \<Rightarrow> title),
     task_DueAt := (if DueAtPresent patch then map_option stored (patch_DueAt patch) else task_DueAt r)\<rparr>"

definition sql_patch :: "(int \<Rightarrow> int) \<Rightarrow> db_fault \<Rightarrow> string \<Rightarrow> Patch \<Rightarrow> due_task list \<Rightarrow> due_task rows \<times> due_task list" where
  "sql_patch stored f tid patch db =
     (if \<not> storable (case patch_Title patch of None \<Rightarrow> '''' | Some title \<Rightarrow> title)
      then run_query f (DbError ''invalid byte sequence'') db db
      else case find (same_id tid) db of
        None \<Rightarrow> run_query f NoRows db db
      | Some r \<Rightarrow>
          let t = patched_row stored patch r in
          if RuneCount (Title t) < 1 \<or> 200 < RuneCount (Title t) then run_query f (DbError ''constraint violation'') db db
          else run_query f (Rows t) db (replace_row tid t db))"

definition pg_Patch :: "(int \<Rightarrow> int) \<Rightarrow> db_call \<Rightarrow> string \<Rightarrow> Patch \<Rightarrow> due_task list
    \<Rightarrow> (task_error + due_task) \<times> due_task list" where
  "pg_Patch stored call tid patch db =
     (case sql_patch stored (fault call) tid patch db of
        (Rows r, db) \<Rightarrow> (Inr r, db)
      | (NoRows, db) \<Rightarrow> (Inl ErrNotFound, db)
      | (DbError e, db) \<Rightarrow> (Inl (ErrOther (''patch task: '' @ e)), db))"

section \<open>The service\<close>

definition Service_Patch :: "(db_call \<Rightarrow> string \<Rightarrow> Patch \<Rightarrow> 'db \<Rightarrow> (task_error + 't) \<times> 'db) \<Rightarrow> db_call \<Rightarrow> string \<Rightarrow> Patch
    \<Rightarrow> 'db \<Rightarrow> (task_error + 't) \<times> 'db" where
  "Service_Patch patch_repository call tid patch db =
     (if \<not> validUUID tid \<or> patch_Title patch = None \<and> \<not> DueAtPresent patch then (Inl ErrInvalid, db)
      else case patch_Title patch of
        None \<Rightarrow> patch_repository call tid patch db
      | Some title0 \<Rightarrow>
          (case normalizeTitle title0 of
             Inl err \<Rightarrow> (Inl err, db)
           | Inr title \<Rightarrow> patch_repository call tid (patch\<lparr>patch_Title := Some title\<rparr>) db))"

section \<open>The handlers\<close>

record dueResponse = taskResponse +
  response_DueAt :: "string option"

definition dueResponseFromTask :: "due_task \<Rightarrow> dueResponse" where
  "dueResponseFromTask value = \<lparr>response_ID = ID value, response_Title = Title value,
     response_CreatedAt = Format_micro (CreatedAt value), response_DueAt = map_option Format_micro (task_DueAt value)\<rparr>"

text \<open>
  \<open>patchTaskRequest\<close>: two fields of type \<open>json.RawMessage\<close>, which keep the value of the last member of their name,
  \<open>null\<close> included, and are nil without one.
\<close>

definition store_raw :: "string \<Rightarrow> json \<Rightarrow> json option \<times> json option \<Rightarrow> (json option \<times> json option) option" where
  "store_raw name v old =
     (case old of (title, dueAt) \<Rightarrow> Some (if name = ''title'' then (Some v, dueAt) else (title, Some v)))"

definition decode_patch :: "string \<Rightarrow> (json option \<times> json option) option" where
  "decode_patch text = decodeJSON [''title'', ''dueAt''] store_raw (None, None) text"

text \<open>\<open>json.Unmarshal\<close> of the raw title into a string, which \<open>null\<close> leaves empty.\<close>

definition raw_title :: "json option \<Rightarrow> string option option" where
  "raw_title raw = (case raw of None \<Rightarrow> Some None | Some v \<Rightarrow> map_option Some (decode_string v ''''))"

definition raw_due :: "json option \<Rightarrow> int option option" where
  "raw_due raw =
     (case raw of
        None \<Rightarrow> Some None
      | Some v \<Rightarrow>
          if v = JNull then Some None
          else (case decode_string v '''' of None \<Rightarrow> None | Some value \<Rightarrow> map_option Some (Parse_RFC3339 value)))"

definition patchTask :: "(db_call \<Rightarrow> string \<Rightarrow> Patch \<Rightarrow> 'db \<Rightarrow> (task_error + due_task) \<times> 'db) \<Rightarrow> db_call \<Rightarrow> request \<Rightarrow> 'db
    \<Rightarrow> dueResponse response \<times> 'db" where
  "patchTask patch_repository call r db =
     (if \<not> is_json r then (writeProblem validationProblem, db)
      else case decode_patch (request_body r) of
        None \<Rightarrow> (writeProblem validationProblem, db)
      | Some (rawTitle, rawDueAt) \<Rightarrow>
          if rawTitle = None \<and> rawDueAt = None then (writeProblem validationProblem, db)
          else case raw_title rawTitle of
            None \<Rightarrow> (writeProblem validationProblem, db)
          | Some title \<Rightarrow>
              (case raw_due rawDueAt of
                 None \<Rightarrow> (writeProblem validationProblem, db)
               | Some dueAt \<Rightarrow>
                   (case Service_Patch patch_repository call (taskId r)
                       \<lparr>patch_Title = title, DueAtPresent = (rawDueAt \<noteq> None), patch_DueAt = dueAt\<rparr> db of
                      (Inl err, db) \<Rightarrow> (writeServiceError err, db)
                    | (Inr result, db) \<Rightarrow> (writeJSON 200 (Item (dueResponseFromTask result)), db))))"

definition due_createTask :: "(due_task, 'db, 'z) Repository_scheme \<Rightarrow> db_call \<Rightarrow> string + bytes \<Rightarrow> request \<Rightarrow> 'db
    \<Rightarrow> dueResponse response \<times> 'db" where
  "due_createTask R call random r db =
     (if \<not> is_json r then (writeProblem validationProblem, db)
      else case decode_create (request_body r) of
        None \<Rightarrow> (writeProblem validationProblem, db)
      | Some title \<Rightarrow>
          (case Service_Create R call random title db of
             (Inl err, db) \<Rightarrow> (writeServiceError err, db)
           | (Inr result, db) \<Rightarrow> (writeJSON 201 (Item (dueResponseFromTask result)), db)))"

definition due_getTask :: "(due_task, 'db, 'z) Repository_scheme \<Rightarrow> db_call \<Rightarrow> request \<Rightarrow> 'db
    \<Rightarrow> dueResponse response \<times> 'db" where
  "due_getTask R call r db =
     (case Service_Get R call (taskId r) db of
        (Inl err, db) \<Rightarrow> (writeServiceError err, db)
      | (Inr result, db) \<Rightarrow> (writeJSON 200 (Item (dueResponseFromTask result)), db))"

definition due_listTasks :: "(db_call \<Rightarrow> 'db \<Rightarrow> (task_error + due_task list) \<times> 'db) \<Rightarrow> db_call \<Rightarrow> 'db
    \<Rightarrow> dueResponse response \<times> 'db" where
  "due_listTasks list call db =
     (case Service_List list call db of
        (Inl err, db) \<Rightarrow> (writeServiceError err, db)
      | (Inr items, db) \<Rightarrow> (writeJSON 200 (Items (map dueResponseFromTask items) None), db))"

section \<open>PostgreSQL meets the base contract\<close>

interpretation due: task_repository "pg_repository mk_due" "\<lambda>db. db"
proof (unfold_locales, goal_cases)
  case (1 db tid title call res db')
  then show ?case
    using pg_create_law [of db tid title call mk_due res db'] by (simp add: pg_repository_def mk_due_def)
next
  case (2 call tid db res db')
  then show ?case using pg_get_law [of call tid db res db'] by (simp add: pg_repository_def)
next
  case (3 db call tid gone db')
  then show ?case using pg_delete_law [of db call tid gone db'] by (simp add: pg_repository_def)
qed

section \<open>What a patch means\<close>

text \<open>What a member of the body makes of the stored value, or that it is not acceptable.\<close>

definition meant_title :: "json option \<Rightarrow> string \<Rightarrow> string option" where
  "meant_title raw old =
     (case raw of
        None \<Rightarrow> Some old
      | Some (JString s) \<Rightarrow> (case normalizeTitle s of Inl _ \<Rightarrow> None | Inr title \<Rightarrow> Some title)
      | Some _ \<Rightarrow> None)"

definition meant_due :: "(int \<Rightarrow> int) \<Rightarrow> json option \<Rightarrow> int option \<Rightarrow> int option option" where
  "meant_due stored raw old =
     (case raw of
        None \<Rightarrow> Some old
      | Some JNull \<Rightarrow> Some None
      | Some (JString s) \<Rightarrow> map_option (\<lambda>t. Some (stored t)) (Parse_RFC3339 s)
      | Some _ \<Rightarrow> None)"

lemma meant_due_raw:
  "meant_due stored raw old = map_option (\<lambda>due. if raw = None then old else map_option stored due) (raw_due raw)"
  by (cases raw) (auto simp: meant_due_def raw_due_def decode_string_def option.map_comp comp_def split: json.splits option.splits)

lemma meant_title_raw:
  "meant_title raw old = Option.bind (raw_title raw)
     (\<lambda>title. case title of None \<Rightarrow> Some old | Some s \<Rightarrow> (case normalizeTitle s of Inl _ \<Rightarrow> None | Inr u \<Rightarrow> Some u))"
proof -
  have "normalizeTitle '''' = Inl ErrInvalid" by (simp add: normalizeTitle_def TrimSpace_def TrimLeftSpace_id TrimRightSpace_id)
  then show ?thesis
    by (cases raw) (auto simp: meant_title_def raw_title_def decode_string_def split: json.splits sum.splits)
qed

lemma meant_title_normal:
  assumes "meant_title raw old = Some u" "normalizeTitle old = Inr old"
  shows "normalizeTitle u = Inr u"
  using assms normalizeTitle_idem by (auto simp: meant_title_def split: option.splits json.splits sum.splits)

text \<open>The repository on a task that is there.\<close>

lemma pg_patch_row:
  assumes "db_ok db" "fault call = NoFault" "q \<in> set db" "same_id tid q"
    "\<forall>u. patch_Title patch = Some u \<longrightarrow> normalizeTitle u = Inr u \<and> storable u"
  shows "pg_Patch stored call tid patch db = (Inr (patched_row stored patch q), replace_row tid (patched_row stored patch q) db)"
proof -
  have row: "row_ok q" using assms(1,3) by (simp add: db_ok_def)
  have "normalizeTitle (Title (patched_row stored patch q)) = Inr (Title (patched_row stored patch q))"
    using assms(5) row by (auto simp: patched_row_def row_ok_def split: option.splits)
  then have "1 \<le> RuneCount (Title (patched_row stored patch q))" "RuneCount (Title (patched_row stored patch q)) \<le> 200"
    using normalizeTitle_Inr by blast+
  moreover have "storable (case patch_Title patch of None \<Rightarrow> '''' | Some title \<Rightarrow> title)"
    using assms(5) by (simp add: storable_def split: option.splits)
  ultimately show ?thesis
    using find_same_id [OF assms(1,3,4)] assms(2)
    by (simp add: pg_Patch_def sql_patch_def run_query_def Let_def not_less)
qed

lemma row_valid: "row_ok q \<Longrightarrow> same_id tid q \<Longrightarrow> validUUID tid"
  by (metis option.distinct(1) row_ok_uuid same_id_def uuid_value_valid)

definition bad_request :: "due_task list \<Rightarrow> dueResponse response \<times> due_task list" where
  "bad_request db = (writeProblem validationProblem, db)"

text \<open>The handler on a task that is there, for any body.\<close>

lemma patch_task:
  assumes "db_ok db" "fault call = NoFault" "q \<in> set db" "same_id (taskId r) q" "is_json r"
    "decode_patch (request_body r) = Some (a, b)" "\<forall>u. meant_title a (Title q) = Some u \<longrightarrow> storable u"
  shows "patchTask (pg_Patch stored) call r db =
    (case (meant_title a (Title q), meant_due stored b (task_DueAt q)) of
       (Some title, Some due) \<Rightarrow>
         if a = None \<and> b = None then bad_request db
         else (let t = q\<lparr>Title := title, task_DueAt := due\<rparr>
               in (writeJSON 200 (Item (dueResponseFromTask t)), replace_row (taskId r) t db))
     | _ \<Rightarrow> bad_request db)"
proof -
  have row: "row_ok q" using assms(1,3) by (simp add: db_ok_def)
  note valid = row_valid [OF row assms(4)]
  note law = pg_patch_row [OF assms(1-4)]
  show ?thesis
  proof (cases "(a = None \<and> b = None) \<or> raw_title a = None \<or> raw_due b = None")
    case True
    then show ?thesis using assms(5,6)
      by (auto simp: patchTask_def bad_request_def meant_title_raw meant_due_raw split: option.splits)
  next
    case False
    then obtain title due where parts: "raw_title a = Some title" "raw_due b = Some due" "\<not> (a = None \<and> b = None)" by auto
    have absent: "title = None \<longleftrightarrow> a = None" using parts(1) by (cases a) (auto simp: raw_title_def)
    let ?p = "\<lparr>patch_Title = title, DueAtPresent = (b \<noteq> None), patch_DueAt = due\<rparr>"
    have handler: "patchTask (pg_Patch stored) call r db =
        (case Service_Patch (pg_Patch stored) call (taskId r) ?p db of
           (Inl err, db) \<Rightarrow> (writeServiceError err, db)
         | (Inr result, db) \<Rightarrow> (writeJSON 200 (Item (dueResponseFromTask result)), db))"
      using parts assms(5,6) by (auto simp: patchTask_def)
    have due: "meant_due stored b (task_DueAt q) = Some (if b = None then task_DueAt q else map_option stored due)"
      using parts(2) by (simp add: meant_due_raw)
    show ?thesis
    proof (cases title)
      case None
      have "Service_Patch (pg_Patch stored) call (taskId r) ?p db
          = (Inr (patched_row stored ?p q), replace_row (taskId r) (patched_row stored ?p q) db)"
        using law [of ?p stored] valid None absent parts(3) by (simp add: Service_Patch_def)
      moreover have "patched_row stored ?p q = q\<lparr>Title := Title q, task_DueAt := (if b = None then task_DueAt q else map_option stored due)\<rparr>"
        using None by (simp add: patched_row_def)
      moreover have "meant_title a (Title q) = Some (Title q)" using None absent by (simp add: meant_title_def)
      ultimately show ?thesis using handler due by (simp add: Let_def if_not_P [OF parts(3)])
    next
      case (Some s)
      show ?thesis
      proof (cases "normalizeTitle s")
        case (Inl e)
        then have "meant_title a (Title q) = None" using parts(1) Some by (simp add: meant_title_raw)
        moreover have "Service_Patch (pg_Patch stored) call (taskId r) ?p db = (Inl ErrInvalid, db)"
          using valid Some Inl normalizeTitle_Inl by (simp add: Service_Patch_def)
        ultimately show ?thesis using handler by (simp add: bad_request_def writeServiceError_def)
      next
        case (Inr u)
        then have title: "meant_title a (Title q) = Some u" using parts(1) Some by (simp add: meant_title_raw)
        let ?q = "?p\<lparr>patch_Title := Some u\<rparr>"
        have "Service_Patch (pg_Patch stored) call (taskId r) ?p db
            = (Inr (patched_row stored ?q q), replace_row (taskId r) (patched_row stored ?q q) db)"
          using law [of ?q stored] valid Some Inr title assms(7) normalizeTitle_idem [OF Inr] by (simp add: Service_Patch_def)
        moreover have "patched_row stored ?q q = q\<lparr>Title := u, task_DueAt := (if b = None then task_DueAt q else map_option stored due)\<rparr>"
          by (simp add: patched_row_def)
        ultimately show ?thesis using handler due title by (simp add: Let_def if_not_P [OF parts(3)])
      qed
    qed
  qed
qed

lemma meant_again:
  "meant_title a old = Some u \<Longrightarrow> meant_title a u = Some u"
  "meant_due stored b was = Some due \<Longrightarrow> meant_due stored b due = Some due"
  by (auto simp: meant_title_def meant_due_def split: option.splits json.splits sum.splits)

lemma replace_row_again:
  assumes "same_id tid t" shows "replace_row tid t (replace_row tid t db) = replace_row tid t db"
  using assms by (simp add: replace_row_def)

text \<open>A patch that was carried out is carried out again to no effect.\<close>

lemma patch_task_again:
  assumes "db_ok db" "fault call = NoFault" "q \<in> set db" "same_id (taskId r) q" "is_json r"
    "decode_patch (request_body r) = Some (a, b)" "\<not> (a = None \<and> b = None)"
    "meant_title a (Title q) = Some title" "storable title" "meant_due stored b (task_DueAt q) = Some due"
  shows "patchTask (pg_Patch stored) call r (snd (patchTask (pg_Patch stored) call r db)) = patchTask (pg_Patch stored) call r db"
proof -
  let ?t = "q\<lparr>Title := title, task_DueAt := due\<rparr>"
  have row: "row_ok q" using assms(1,3) by (simp add: db_ok_def)
  have first: "patchTask (pg_Patch stored) call r db
      = (writeJSON 200 (Item (dueResponseFromTask ?t)), replace_row (taskId r) ?t db)"
    using patch_task [OF assms(1-6), of stored] assms(8-10) by (simp add: Let_def if_not_P [OF assms(7)])
  have same: "same_id (taskId r) ?t" using assms(4) by (simp add: same_id_def)
  have "row_ok ?t" using row meant_title_normal [OF assms(8)] assms(9) by (simp add: row_ok_def)
  then have ok: "db_ok (replace_row (taskId r) ?t db)" by (rule db_ok_replace_row [OF assms(1) same])
  have mem: "?t \<in> set (replace_row (taskId r) ?t db)" by (rule replace_row_mem [OF assms(3,4)])
  have "patchTask (pg_Patch stored) call r (replace_row (taskId r) ?t db)
      = (writeJSON 200 (Item (dueResponseFromTask ?t)), replace_row (taskId r) ?t (replace_row (taskId r) ?t db))"
    using patch_task [OF ok assms(2) mem same assms(5,6), of stored] meant_again(1) [OF assms(8)] meant_again(2) [OF assms(10)]
      assms(8,9) by (simp add: Let_def if_not_P [OF assms(7)])
  then show ?thesis using first replace_row_again [OF same] by simp
qed

section \<open>Histories of requests\<close>

inductive due_step :: "(int \<Rightarrow> int) \<Rightarrow> due_task list \<Rightarrow> due_task list \<Rightarrow> bool" for stored where
  create: "clock_ok (clock call) \<Longrightarrow> rand_ok random \<Longrightarrow>
     due_createTask (pg_repository mk_due) call random r db = (resp, db') \<Longrightarrow> due_step stored db db'"
| get: "due_getTask (pg_repository mk_due) call r db = (resp, db') \<Longrightarrow> due_step stored db db'"
| list: "due_listTasks pg_List call db = (resp, db') \<Longrightarrow> due_step stored db db'"
| delete: "deleteTask (pg_repository mk_due) call r db = (resp :: dueResponse response, db') \<Longrightarrow> due_step stored db db'"
| patch: "patchTask (pg_Patch stored) call r db = (resp, db') \<Longrightarrow> due_step stored db db'"

inductive due_reachable :: "(int \<Rightarrow> int) \<Rightarrow> due_task list \<Rightarrow> bool" for stored where
  empty: "due_reachable stored []"
| step: "due_reachable stored db \<Longrightarrow> due_step stored db db' \<Longrightarrow> due_reachable stored db'"

lemma pg_patch_ok:
  assumes "db_ok db" "\<forall>u. patch_Title patch = Some u \<longrightarrow> normalizeTitle u = Inr u"
  shows "db_ok (snd (pg_Patch stored call tid patch db))"
proof -
  have "db_ok (replace_row tid (patched_row stored patch r) db)"
    if find: "find (same_id tid) db = Some r" and st: "storable (case patch_Title patch of None \<Rightarrow> '''' | Some u \<Rightarrow> u)" for r
  proof -
    have r: "r \<in> set db" "same_id tid r" using find_Some_same [OF find] by simp_all
    have "row_ok r" using assms(1) r(1) by (simp add: db_ok_def)
    then have "row_ok (patched_row stored patch r)"
      using assms(2) st by (auto simp: row_ok_def patched_row_def split: option.splits)
    moreover have "same_id tid (patched_row stored patch r)" using r(2) by (simp add: same_id_def patched_row_def)
    ultimately show ?thesis using db_ok_replace_row [OF assms(1)] by blast
  qed
  then show ?thesis using assms(1)
    by (auto simp: pg_Patch_def sql_patch_def run_query_def Let_def split: db_fault.splits option.splits)
qed

lemma service_patch_ok:
  assumes "db_ok db"
  shows "db_ok (snd (Service_Patch (pg_Patch stored) call tid patch db))"
proof -
  have titled: "db_ok (snd (pg_Patch stored call tid (patch\<lparr>patch_Title := Some u\<rparr>) db))" if "normalizeTitle t = Inr u" for t u
    using pg_patch_ok [OF assms, of "patch\<lparr>patch_Title := Some u\<rparr>"] normalizeTitle_idem [OF that] by simp
  have plain: "db_ok (snd (pg_Patch stored call tid patch db))" if "patch_Title patch = None"
    using pg_patch_ok [OF assms] that by simp
  show ?thesis using assms titled plain by (auto simp: Service_Patch_def split: option.splits sum.splits)
qed

lemma patchTask_service:
  assumes "patchTask R call r db = (resp, db')"
  shows "db' = db \<or> (\<exists>patch. db' = snd (Service_Patch R call (taskId r) patch db))"
  using assms
  by (simp add: patchTask_def split: if_splits option.splits prod.splits sum.splits) (metis snd_conv)+

lemma due_step_ok:
  assumes "due_step stored db db'" "db_ok db"
  shows "db_ok db'"
  using assms
proof cases
  case (create call random r resp)
  have "db' = db \<or> (\<exists>title res. Service_Create (pg_repository mk_due) call random title db = (res, db'))"
    using create(3) by (auto simp: due_createTask_def split: if_splits option.splits prod.splits sum.splits)
  then show ?thesis using due.service_create(1) [OF assms(2) create(1,2)] assms(2) by blast
next
  case (get call r resp)
  then show ?thesis using due.service_get_state [of call "taskId r" db] assms(2)
    by (auto simp: due_getTask_def split: prod.splits sum.splits)
next
  case (list call resp)
  then show ?thesis using assms(2)
    by (auto simp: due_listTasks_def Service_List_def pg_List_def split: prod.splits sum.splits)
next
  case (delete call r resp)
  from delete show ?thesis
    by (cases rule: deleteTask_cases) (use due.service_delete(1) assms(2) in blast)+
next
  case (patch call r resp)
  then show ?thesis using patchTask_service [OF patch] service_patch_ok [OF assms(2)] assms(2) by auto
qed

lemma due_reachable_ok: "due_reachable stored db \<Longrightarrow> db_ok db"
  by (induction rule: due_reachable.induct) (auto intro: due_step_ok)

section \<open>Properties\<close>


definition sample_due :: due_task where
  "sample_due = \<lparr>ID = uuid_format sample_bytes, Title = ''a'', CreatedAt = 1000000, task_DueAt = None\<rparr>"

definition sample_due_body :: json where
  "sample_due_body = JObject [(''dueAt'', JString (Format_micro 1000000))]"

lemma sample_due_reachable: "due_reachable id [sample_due]"
proof -
  have "decode_create (title_body ''a'') = Some ''a''" by (rule decode_title_body) (simp_all add: plain_def)
  then have c: "due_createTask (pg_repository mk_due) sample_call (Inr sample_bytes) (sample_request [] (title_body ''a'')) []
      = (writeJSON 201 (Item (dueResponseFromTask sample_due)), [sample_due])"
    using canonical_id_format [OF sample_uuid(2)]
    by (simp add: due_createTask_def is_json_def sample_request_def Service_Create_def sample_title sample_uuid
       pg_repository_def pg_Create_def sql_insert_def mk_due_def row_allowed_def storable_def run_query_def
       sample_call_def sample_due_def Let_def)
  have "rand_ok (Inr sample_bytes)" using sample_uuid(2) by (simp add: rand_ok_def)
  from due_reachable.step [OF due_reachable.empty due_step.create [OF sample_clock this c]] show ?thesis .
qed

lemma few_numbers:
  "dec 0 = ''0''" "dec (Suc 0) = ''1''" "dec 59 = ''59''" "dec 1000 = ''1000''" "dec 1970 = ''1970''" "dec 10000 = ''10000''"
proof -
  show zero: "dec 0 = ''0''" and one: "dec (Suc 0) = ''1''" by (simp_all add: dec.simps [of 0] dec.simps [of "Suc 0"] digit_char_def)
  show "dec 59 = ''59''" by (simp add: dec.simps [of 59] dec.simps [of 5] digit_char_def)
  show "dec 1970 = ''1970''" by (simp add: dec.simps [of 1970] dec.simps [of 197] dec.simps [of 19] one digit_char_def)
  show k: "dec 1000 = ''1000''" by (simp add: dec.simps [of 1000] dec.simps [of 100] dec.simps [of 10] one digit_char_def)
  show "dec 10000 = ''10000''" by (simp add: dec.simps [of 10000] k digit_char_def)
qed

lemma few_zeros: "replicate 2 (CHR ''0'') = ''00''" "replicate 5 (CHR ''0'') = ''00000''"
  by (simp_all add: numeral_eq_Suc)

lemma sample_time_text: "Format_micro 1000000 = ''1970-01-01T00:00:00.001000Z''"
proof -
  have "year_of_days 719162 = (1970, 0)" by (simp add: year_of_days_def)
  moreover have "\<not> is_leap 1970" by (simp add: is_leap_def)
  moreover have "month_day False 0 = (1, 1)" by (simp add: month_day_def month_starts_def days_before_def)
  ultimately have "time_fields 1000000 = (1970, 1, 1, 0, 0, 0, 1000000)" by (simp add: time_fields_def)
  then show ?thesis by (simp add: Format_micro_def year_text_def zero_pad_def few_numbers few_zeros)
qed

lemma decode_due_body: "decode_patch (Encode sample_due_body) = Some (None, Some (JString (Format_micro 1000000)))"
proof -
  have q: "json_quote s = CHR 0x22 # s @ [CHR 0x22]" if "list_all html_safe s" for s
    using quote_body_safe [of s] that by (simp add: json_quote_def list_all_iff)
  have "length (Encode sample_due_body) \<le> maxRequestBody"
    by (simp add: sample_due_body_def sample_time_text Encode_def Marshal_def q html_safe_def plain_def)
  moreover have "parse_json (Encode sample_due_body) = Some sample_due_body"
    by (rule parse_encoded) (simp add: sample_due_body_def ascii_Format_micro)
  ultimately show ?thesis
    by (simp add: decode_patch_def decodeJSON_def sample_due_body_def decode_struct_def select_field_def store_raw_def)
qed


text \<open>
  A due date with an offset can lie in the year 10000 of UTC. It is accepted and stored, and the answer shows a time that the
  service itself would refuse.
\<close>

lemma due_date_not_shown_as_time:
  "Parse_RFC3339 ''9999-12-31T23:59:59-01:00'' = Some 253402304399000000000"
  "Format_micro 253402304399000000000 = ''10000-01-01T00:59:59.000000Z''"
  "Parse_RFC3339 ''10000-01-01T00:59:59.000000Z'' = None"
proof -
  have year: "year_of_days 3652059 = (10000, 0)" "is_leap 10000" "\<not> is_leap 9999"
    by (simp_all add: year_of_days_def is_leap_def)
  have "month_day True 0 = (1, 1)" by (simp add: month_day_def month_starts_def days_before_def)
  then have "time_fields 253402304399000000000 = (10000, 1, 1, 0, 59, 59, 0)" using year by (simp add: time_fields_def)
  then show "Format_micro 253402304399000000000 = ''10000-01-01T00:59:59.000000Z''"
    by (simp add: Format_micro_def year_text_def zero_pad_def few_numbers few_zeros)
  show "Parse_RFC3339 ''10000-01-01T00:59:59.000000Z'' = None"
    by (simp add: Parse_RFC3339_def get_year_def digit_value_def skip_char_def)
  have "get_fraction ''-01:00'' = (0, ''-01:00'')" by (simp add: get_fraction_def)
  moreover have "get_zone ''-01:00'' = Some (-3600, [])" by (simp add: get_zone_def getnum_def digit_value_def)
  moreover have "get_year ''9999-12-31T23:59:59-01:00'' = Some (9999, ''-12-31T23:59:59-01:00'')"
    by (simp add: get_year_def digit_value_def)
  moreover have "make_time 9999 12 31 23 59 59 0 (-3600) = 253402304399000000000"
    using year by (simp add: make_time_def days_before_def month_starts_def days_to_year_def)
  ultimately show "Parse_RFC3339 ''9999-12-31T23:59:59-01:00'' = Some 253402304399000000000" using year
    by (simp add: Parse_RFC3339_def skip_char_def getnum_def digit_value_def days_in_def)
qed

end
