(* ===== verification/Eval_Solutions.thy ===== *)
theory Eval_Solutions
  imports Eval_Props Locking_Props Service_Pagination
begin

text \<open>
  The evaluator meets the reference solutions: a reply of a handler arrives as the response the cases judge. Two composed
  statements: the race of two updates of one version is judged as won by the one the database took first, and the walk over
  the pages returns the listing.
\<close>

section \<open>Replies on the wire\<close>

text \<open>\<open>mime.ParseMediaType\<close> returns a plain media type as it is and fails on an empty header.\<close>

definition delivered :: "('r \<Rightarrow> json) \<Rightarrow> 'r response \<Rightarrow> http_response" where
  "delivered item resp = (let content = header_value ''Content-Type'' resp in
     \<lparr>StatusCode = int (status resp), ContentType = content, MediaType = (if content = '''' then None else Some content),
      ETag = header_value ''ETag'' resp, Body = reply_text item resp, BrokenOff = None\<rparr>)"

definition locked_json :: "lockedResponse \<Rightarrow> json" where
  "locked_json i = JObject [(''id'', JString (response_ID i)), (''title'', JString (response_Title i)),
     (''createdAt'', JString (response_CreatedAt i)), (''version'', JNumber (FormatInt (response_Version i)))]"

definition task_json :: "taskResponse \<Rightarrow> json" where
  "task_json i = JObject [(''id'', JString (response_ID i)), (''title'', JString (response_Title i)),
     (''createdAt'', JString (response_CreatedAt i))]"

lemma delivered_simps:
  "StatusCode (delivered item (writeTask code t)) = int code"
  "ETag (delivered item (writeTask code t)) = entity_tag (Version t)"
  "Body (delivered item (writeTask code t)) = Encode (item (lockedResponseFromTask t))"
  "BrokenOff (delivered any_item resp) = None"
  "StatusCode (delivered item' (writeProblem p)) = int (problem_Status p)"
  "MediaType (delivered item' (writeProblem p)) = Some ''application/problem+json''"
  "Body (delivered item' (writeProblem p)) = Encode (problem_json p)"
  "StatusCode (delivered item'' (writeJSON code pl)) = int code"
  "MediaType (delivered item'' (writeJSON code pl)) = Some ''application/json''"
  "Body (delivered item'' (writeJSON code pl)) = Encode (payload_json item'' pl)"
  by (simp_all add: delivered_def writeTask_def writeProblem_def writeJSON_def header_value_def reply_text_def payload_json_def Let_def)

section \<open>The race of two updates\<close>

lemma quoted_tag: "0 \<le> v \<Longrightarrow> entity_tag v = quoted (dec (nat v))"
  by (simp add: entity_tag_def quoted_def FormatInt_def)

lemma dec_two: "dec 2 = ''2''" "dec (Suc 0) = ''1''"
  by (simp_all add: dec.simps [of 2] dec.simps [of "Suc 0"] digit_char_def)

lemma locked_reply_decoded:
  assumes "row_ok t" "ascii (Title t)" "1 \<le> Version t" "Version t \<le> max_int64"
  shows "decodeTaskFor E (delivered locked_json (writeTask code t)) TaskLocking =
    Inr \<lparr>wire_ID = ID t, wire_Title = Title t, wire_CreatedAt = Format_micro (CreatedAt t), DueAt = None, wire_Version = Some (Version t)\<rparr>"
proof -
  let ?i = "lockedResponseFromTask t"
  let ?w = "\<lparr>wire_ID = ID t, wire_Title = Title t, wire_CreatedAt = Format_micro (CreatedAt t), DueAt = None, wire_Version = Some (Version t)\<rparr>"
  obtain b where b: "length b = 16" "ID t = uuid_format b" using assms(1) by (auto simp: row_ok_def)
  have "printable 0 (locked_json ?i)"
    using ascii_Format_micro ascii_uuid_format b(2) assms(2) by (simp add: locked_json_def lockedResponseFromTask_def int_literal_def) blast
  then have parsed: "parse_json (Encode (locked_json ?i)) = Some (locked_json ?i)" by (rule parse_encoded)
  have "dec_int (JNumber (FormatInt (Version t))) 0 = (Version t, True)" using assms(3,4) by (intro dec_int_FormatInt) simp
  then have "dec_wire_task (locked_json ?i) no_wire_task = (?w, True)"
    by (simp add: locked_json_def lockedResponseFromTask_def dec_wire_task_def no_wire_task_def dec_strict_def select_field_def
        at_field_def dec_ptr_def)
  then have exact: "decodeExact E dec_wire_task no_wire_task (delivered locked_json (writeTask code t)) = Inr ?w"
    unfolding decodeExact_Inr using parsed by (simp add: delivered_simps)
  have "ID t \<noteq> ''''" using b length_uuid_format [OF b(1)] by auto
  moreover have "Title t \<noteq> ''''" using assms(1) normalizeTitle_Inr(2) by (fastforce simp: row_ok_def)
  moreover have "Format_micro (CreatedAt t) \<noteq> ''''" by (simp add: Format_micro_def split: prod.splits)
  ultimately have "validateTaskValue ?w TaskLocking = Inr ()"
    using assms(3) by (simp add: validateTaskValue_def task_names)
  then show ?thesis using exact by (simp add: decodeTaskFor_def)
qed

lemma stale_reply_accepted:
  "expectProblemResponse E (delivered item (writeProblem preconditionFailedProblem)) wanted_preconditionFailed = Inr ()"
proof -
  let ?p = "problem_json preconditionFailedProblem"
  have "printable 0 ?p" by (auto simp: problem_json_def preconditionFailedProblem_def int_literal_def)
  then have parsed: "parse_json (Encode ?p) = Some ?p" by (rule parse_encoded)
  have "dec_int (JNumber (FormatInt 412)) 0 = (412, True)" by (rule dec_int_FormatInt) simp
  then have "dec_problem_body ?p no_problem_body = (wanted_preconditionFailed, True)"
    by (simp add: problem_json_def preconditionFailedProblem_def dec_problem_body_def no_problem_body_def dec_strict_def
        select_field_def at_field_def wanted_preconditionFailed_def)
  then have "decodeExact E dec_problem_body no_problem_body (delivered item (writeProblem preconditionFailedProblem))
      = Inr wanted_preconditionFailed"
    unfolding decodeExact_Inr using parsed by (simp add: delivered_simps)
  then show ?thesis
    by (simp add: expectProblemResponse_def expectStatusAndType_def delivered_simps preconditionFailedProblem_def
        wanted_preconditionFailed_def)
qed

definition race_put :: "string \<Rightarrow> string \<Rightarrow> request" where
  "race_put tid title = \<lparr>media_type = Some ''application/json'', request_body = ''{\"title\":\"'' @ title @ ''\"}'',
     taskId = tid, if_match = [entity_tag 1], query = Map.empty\<rparr>"

lemma race_titles:
  assumes "t \<in> {''first'', ''second''}"
  shows "normalizeTitle t = Inr t" "storable t" "ascii t" "list_all plain t" "length t \<le> 6"
    "1 \<le> RuneCount t" "RuneCount t \<le> 200"
proof -
  have one: "normalizeTitle ''first'' = Inr ''first''" "normalizeTitle ''second'' = Inr ''second''"
    by (simp_all add: normalizeTitle_def TrimSpace_def RuneCount_code TrimLeftSpace_code TrimRightSpace_code
        DecodeLastRune_def DecodeRune_def byte_at_def IsSpace_def)
  then show n: "normalizeTitle t = Inr t" using assms by auto
  show "storable t" "ascii t" "list_all plain t" "length t \<le> 6" using assms by (auto simp: storable_def plain_def)
  show "1 \<le> RuneCount t" "RuneCount t \<le> 200" using normalizeTitle_Inr(2,3) [OF n] .
qed

lemma race_update:
  assumes "t \<in> {''first'', ''second''}" "validUUID tid"
  shows "updateTask locking_repository call later (race_put tid t) db =
    (case pg_Update call later tid t 1 db of
       (Inl err, db) \<Rightarrow> (lockedServiceError err, db) | (Inr result, db) \<Rightarrow> (writeTask 200 result, db))"
proof -
  have "parseIfMatch [entity_tag 1] = Inr 1" using parseIfMatch_tag [of "[]" "[]" 1] by simp
  moreover have "''{\"title\":\"'' @ t @ ''\"}'' = title_body t" by (simp add: title_body_def)
  then have "decode_create (''{\"title\":\"'' @ t @ ''\"}'') = Some t"
    using decode_title_body race_titles(4,5) [OF assms(1)] by simp
  ultimately show ?thesis
    using race_titles(1) [OF assms(1)] assms(2)
    by (simp add: updateTask_def race_put_def is_json_def Service_Update_def locking_repository_def split: prod.splits sum.splits)
qed

lemma find_at_version:
  assumes "db_ok db" "q \<in> set db" "same_id tid q" "Version q = v"
  shows "find (at_version tid v) db = Some q"
proof -
  have "find (at_version tid v) db \<noteq> None" using assms(2-4) by (auto simp: find_None_iff at_version_def)
  then obtain r where r: "find (at_version tid v) db = Some r" by blast
  then have "r \<in> set db" "same_id tid r" by (auto simp: find_Some_iff at_version_def)
  then show ?thesis using same_id_unique [OF assms(1) _ assms(2) _ assms(3)] r by blast
qed

lemma race_first:
  assumes "locked_ok db" "q \<in> set db" "same_id tid q" "Version q = 1" "fault call = NoFault" "t \<in> {''first'', ''second''}"
  shows "pg_Update call later tid t 1 db = (Inr (updated_row t q), replace_row tid (updated_row t q) db)"
proof -
  have ok: "db_ok db" using assms(1) by (simp add: locked_ok_def)
  have "map (\<lambda>r. if at_version tid 1 r then updated_row t r else r) db = replace_row tid (updated_row t q) db"
    using same_id_unique [OF ok _ assms(2) _ assms(3)] assms(3,4) by (auto simp: replace_row_def at_version_def)
  then show ?thesis
    using find_at_version [OF ok assms(2-4)] race_titles [OF assms(6)] assms(4,5)
    by (simp add: pg_Update_def sql_update_def run_query_def)
qed

lemma race_second:
  assumes "same_id tid t1" "Version t1 \<noteq> 1" "fault call = NoFault" "fault2 call = NoFault"
    "list_ex (same_id tid) later" "t \<in> {''first'', ''second''}"
  shows "pg_Update call later tid t 1 (replace_row tid t1 db) = (Inl ErrPreconditionFailed, replace_row tid t1 db)"
proof -
  have "find (at_version tid 1) (replace_row tid t1 db) = None"
    using assms(1,2) by (auto simp: find_None_iff at_version_def replace_row_def)
  then show ?thesis
    using race_titles(2) [OF assms(6)] assms(3-5) by (simp add: pg_Update_def sql_update_def sql_exists_def run_query_def)
qed

section \<open>The walk over the pages\<close>

text \<open>The request \<open>net/http\<close> hands to the handler for \<open>page_path\<close>: the query holds what the evaluator had escaped.\<close>

definition page_request :: "nat \<Rightarrow> string \<Rightarrow> request" where
  "page_request limit cursor = \<lparr>media_type = None, request_body = '''', taskId = '''', if_match = [],
     query = (if cursor = '''' then Map.empty else [''cursor'' \<mapsto> [cursor]])(''limit'' \<mapsto> [FormatInt (int limit)])\<rparr>"

text \<open>The candidate is the reference solution on the table \<open>db\<close>, for every cursor it can have handed out.\<close>

definition serves_pages :: "'w environment \<Rightarrow> 'w suite \<Rightarrow> (int \<Rightarrow> int) \<Rightarrow> task list \<Rightarrow> nat \<Rightarrow> bool" where
  "serves_pages E s stored db limit \<longleftrightarrow> (\<forall>cursor \<in> insert '''' (encodeCursor ` set db). \<exists>call. fault call = NoFault \<and>
     Do E (make_request ''GET'' (page_path (Some limit) cursor) '''' []) (world s)
       = (Inr (delivered task_json (fst (listPage (pg_ListPage stored) call (page_request limit cursor) db))), world s))"

definition wire_of :: "task \<Rightarrow> wire_task" where
  "wire_of t = \<lparr>wire_ID = ID t, wire_Title = Title t, wire_CreatedAt = Format_micro (CreatedAt t), DueAt = None, wire_Version = None\<rparr>"

definition path_char :: "char \<Rightarrow> bool" where
  "path_char c \<longleftrightarrow> unreserved c \<or> c \<in> set ''+%=&0123456789ABCDEF''"

lemma path_char_printable:
  assumes "path_char c"
  shows "32 \<le> (of_char c :: nat) \<and> (of_char c :: nat) \<noteq> 127 \<and> c \<noteq> CHR ''#''"
proof -
  have "48 \<le> (of_char c :: nat) \<and> of_char c \<le> (122 :: nat) \<or> c \<in> set ''-_.~+%=&0123456789ABCDEF''"
    using assms by (auto simp: path_char_def unreserved_def is_digit_def less_eq_char_def)
  then show ?thesis by auto
qed

lemma path_chars: "list_all path_char ''cursor=''" "list_all path_char ''limit=''" "path_char (CHR ''&'')"
  by (simp_all add: path_char_def unreserved_def is_digit_def)

lemma QueryEscape_chars: "list_all path_char (QueryEscape s)"
proof -
  have hex: "path_char (''0123456789ABCDEF'' ! n)" if "n < 16" for n
  proof -
    have "''0123456789ABCDEF'' ! n \<in> set ''0123456789ABCDEF''" using that by (intro nth_mem) simp
    then show ?thesis by (auto simp: path_char_def)
  qed
  have "list_all path_char (escape_byte c)" for c
  proof -
    have "(of_char c :: nat) < 256" by simp
    then have "(of_char c :: nat) div 16 < 16" "(of_char c :: nat) mod 16 < 16" by (intro less_mult_imp_div_less) simp_all
    from hex [OF this(1)] hex [OF this(2)] show ?thesis
      by (cases "unreserved c"; cases "c = CHR '' ''") (simp_all add: escape_byte_def Let_def path_char_def)
  qed
  then show ?thesis by (auto simp: QueryEscape_def list_all_iff)
qed

lemma page_path_ok: "url_ok (page_path (Some limit) cursor)"
proof -
  have "page_path (Some limit) cursor = ''/tasks?'' @
      (if cursor = '''' then [] else ''cursor='' @ QueryEscape cursor @ ''&'') @ ''limit='' @ QueryEscape (FormatInt (int limit))"
    by (simp add: page_path_def)
  then obtain q where q: "page_path (Some limit) cursor = ''/tasks?'' @ q" "list_all path_char q"
    using path_chars QueryEscape_chars by (cases "cursor = ''''") auto
  have "list_all (\<lambda>c. 32 \<le> (of_char c :: nat) \<and> (of_char c :: nat) \<noteq> 127) (page_path (Some limit) cursor)"
    unfolding q(1) using q(2) path_char_printable by (simp add: list_all_iff)
  moreover have "escapes_ok (dropWhile (\<lambda>c. c \<noteq> CHR ''#'') (page_path (Some limit) cursor))"
  proof -
    have "dropWhile (\<lambda>c. c \<noteq> CHR ''#'') (page_path (Some limit) cursor) = []"
      unfolding q(1) dropWhile_eq_Nil_conv using q(2) path_char_printable by (auto simp: list_all_iff)
    then show ?thesis by (simp only: escapes_ok.simps)
  qed
  moreover have "takeWhile (\<lambda>c. c \<noteq> CHR ''?'' \<and> c \<noteq> CHR ''#'') (page_path (Some limit) cursor) = ''/tasks''"
    unfolding q(1) by simp
  ultimately show ?thesis by (simp add: url_ok_def)
qed

lemma ascii_cursor: "ascii (encodeCursor t)"
proof -
  have "list_all (\<lambda>n. of_char (b64_char n) < (128 :: nat)) [0..<64]"
    by (simp add: upt_rec b64_char_def b64_alphabet_def)
  then have b: "of_char (b64_char n) < (128 :: nat)" if "n < 64" for n using that by (simp add: list_all_iff)
  have "ascii (b64_encode s)" if "\<forall>a \<in> set s. a < 256" for s
    using b64_split_less [OF that] b by (simp add: b64_encode_split list_all_iff)
  then show ?thesis by (simp add: encodeCursor_def RawURL_EncodeToString_def)
qed

text \<open>The document of a page and what the evaluator decodes from it.\<close>

lemma page_reply_decoded:
  assumes "\<forall>t \<in> set ts. row_ok t \<and> utf8 (Title t)" "cursor \<noteq> Some ''''" "\<forall>c. cursor = Some c \<longrightarrow> ascii c"
  shows "decodeTaskListFor E (delivered task_json (writeJSON 200 (Items (map responseFromTask ts) cursor))) TaskPagination
    = Inr \<lparr>list_Items = Some (map wire_of ts), NextCursor = map_option JString cursor\<rparr>"
proof -
  let ?reply = "delivered task_json (writeJSON 200 (Items (map responseFromTask ts) cursor))"
  let ?doc = "payload_json task_json (Items (map responseFromTask ts) cursor)"
  let ?zero = "\<lparr>list_Items = None, NextCursor = None\<rparr>"
  have item: "printable (Suc (Suc 0)) (task_json (responseFromTask t))" if "t \<in> set ts" for t
    using assms(1) that ascii_Format_micro ascii_uuid_format by (auto simp: task_json_def responseFromTask_def row_ok_def)
  have "printable 0 ?doc"
    using item assms(3) by (cases cursor) (auto simp: payload_json_def)
  then have parsed: "parse_json (Encode ?doc) = Some ?doc" by (rule parse_encoded)
  have one: "dec_wire_task (task_json (responseFromTask t)) no_wire_task = (wire_of t, True)" for t
    by (simp add: task_json_def responseFromTask_def dec_wire_task_def no_wire_task_def dec_strict_def select_field_def
        at_field_def wire_of_def)
  have "dec_elements no_wire_task dec_wire_task (map task_json (map responseFromTask ts)) [] = (map wire_of ts, True)"
    by (induction ts) (simp_all add: one)
  then have "dec_taskList ?doc ?zero = (\<lparr>list_Items = Some (map wire_of ts), NextCursor = map_option JString cursor\<rparr>, True)"
    by (cases cursor) (simp_all add: payload_json_def dec_taskList_def dec_strict_def select_field_def at_field_def dec_items_def
        dec_RawMessage_def)
  then have exact: "decodeExact E dec_taskList ?zero ?reply
      = Inr \<lparr>list_Items = Some (map wire_of ts), NextCursor = map_option JString cursor\<rparr>"
    unfolding decodeExact_Inr using parsed by (simp add: delivered_simps)
  have valid: "validateTaskValue (wire_of t) TaskPagination = Inr ()" if t: "t \<in> set ts" for t
  proof -
    obtain b where b: "length b = 16" "ID t = uuid_format b" using assms(1) t by (auto simp: row_ok_def)
    have "ID t \<noteq> ''''" using b length_uuid_format [OF b(1)] by auto
    moreover have "Title t \<noteq> ''''" using assms(1) t normalizeTitle_Inr(2) by (fastforce simp: row_ok_def)
    moreover have "Format_micro (CreatedAt t) \<noteq> ''''" by (simp add: Format_micro_def split: prod.splits)
    ultimately show ?thesis by (simp add: validateTaskValue_def wire_of_def task_names)
  qed
  have "check_items (map wire_of ts) TaskPagination = Inr ()" using valid by (induction ts) simp_all
  then show ?thesis using exact by (simp add: decodeTaskListFor_def)
qed

lemma page_query:
  assumes "int limit \<le> 100"
  shows "listParameters (page_request limit cursor) = Inr (Some (int limit), if cursor = '''' then None else Some cursor)"
proof -
  have "ParseInt64 (FormatInt (int limit)) = Some (int limit)" using assms by (intro ParseInt64_FormatInt) simp_all
  then show ?thesis by (simp add: listParameters_def page_request_def)
qed

lemma page_fetched:
  assumes "db_ok db" "\<forall>t \<in> set db. utf8 (Title t)" "0 < limit" "limit \<le> 100" "suite_task s = TaskPagination"
    "serves_pages E s stored db limit" "cursor = '''' \<or> cursor \<in> encodeCursor ` set db"
    "cursor_at stored (if cursor = '''' then None else Some cursor) k"
  shows "\<exists>page. fetchPage E (Some limit) cursor s = Some (Inr page, s)
    \<and> items page = map wire_of (take limit (rest_of k db))
    \<and> NextCursor page = (if limit < length (rest_of k db) then Some (JString (encodeCursor (rest_of k db ! (limit - 1)))) else None)"
proof -
  let ?rest = "rest_of k db"
  let ?more = "limit < length ?rest"
  let ?next = "if ?more then Some (encodeCursor (?rest ! (limit - 1))) else None"
  let ?reply = "delivered task_json (writeJSON 200 (Items (map responseFromTask (take limit ?rest)) ?next))"
  let ?page = "\<lparr>list_Items = Some (map wire_of (take limit ?rest)), NextCursor = map_option JString ?next\<rparr>"
  obtain call where call: "fault call = NoFault"
    and do: "Do E (make_request ''GET'' (page_path (Some limit) cursor) '''' []) (world s)
       = (Inr (delivered task_json (fst (listPage (pg_ListPage stored) call (page_request limit cursor) db))), world s)"
    using assms(6,7) unfolding serves_pages_def by (metis insertCI)
  have size: "1 \<le> page_size (Some (int limit))" "page_size (Some (int limit)) \<le> 100" "nat (page_size (Some (int limit))) = limit"
    using assms(3,4) by (simp_all add: page_size_def)
  have "fst (listPage (pg_ListPage stored) call (page_request limit cursor) db)
      = writeJSON 200 (Items (map responseFromTask (take limit ?rest)) ?next)"
    using page_exact [OF call size(1,2) assms(8), of db] assms(4) encodeCursor_not_empty
    by (simp add: listPage_def page_query size(3) Let_def)
  then have got: "Do E (make_request ''GET'' (page_path (Some limit) cursor) '''' []) (world s) = (Inr ?reply, world s)"
    using do by simp
  have rows: "\<forall>t \<in> set (take limit ?rest). row_ok t \<and> utf8 (Title t)"
    using assms(1,2) by (auto simp: set_rest_of db_ok_def dest!: in_set_takeD)
  have "decodeTaskListFor E ?reply TaskPagination = Inr ?page"
    by (rule page_reply_decoded [OF rows]) (use encodeCursor_not_empty ascii_cursor in auto)
  moreover have "expectStatusAndType ?reply 200 ''application/json'' = Inr ()"
    by (simp add: expectStatusAndType_def delivered_simps)
  ultimately have "fetchPage E (Some limit) cursor s = Some (Inr ?page, s)"
    using page_path_ok [of limit cursor] got assms(5)
    by (simp add: fetchPage_def jsonRequest_def jsonRequestWithHeaders_def test_bind_def do_request_def decodeTaskList_def
        test_get_def test_lift_def test_return_def)
  then show ?thesis by (intro exI [of _ ?page]) (simp add: items_def)
qed

text \<open>The cursor of page \<open>k\<close>.\<close>

definition page_token :: "task list \<Rightarrow> nat \<Rightarrow> nat \<Rightarrow> string" where
  "page_token db limit k = (if k = 0 then '''' else encodeCursor (sql_list db ! (k * limit - 1)))"

text \<open>The key the page begins behind.\<close>

definition page_key :: "task list \<Rightarrow> nat \<Rightarrow> nat \<Rightarrow> (int \<times> bytes) option" where
  "page_key db limit k = (if k = 0 then None else Some (order_key (sql_list db ! (k * limit - 1))))"

lemma page_rest:
  assumes "db_ok db" "0 < limit" "k = 0 \<or> k * limit < length (sql_list db)"
  shows "rest_of (page_key db limit k) db = drop (k * limit) (sql_list db)"
proof (cases "k = 0")
  case False
  have "rest_of None db = sql_list db" by (simp add: rest_of_def)
  then show ?thesis
    using rest_behind [OF assms(1), of "k * limit" None] assms(2,3) False by (simp add: page_key_def)
qed (simp add: page_key_def rest_of_def)

lemma encodeCursor_inj:
  assumes "row_ok t" "row_ok u" "encodeCursor t = encodeCursor u"
  shows "ID t = ID u"
  using cursor_round_trip [OF assms(1)] cursor_round_trip [OF assms(2)] assms(3) by simp

lemma reference_pages:
  assumes "db_ok db" "\<forall>t \<in> set db. utf8 (Title t)" "0 < limit" "limit \<le> 100" "suite_task s = TaskPagination"
    "serves_pages E s stored db limit" "keeps_micros stored"
  shows "pages_of E s limit (map ID (sql_list db)) (page_token db limit)"
  unfolding pages_of_def
proof (intro allI impI)
  fix k assume k: "k = 0 \<or> k * limit < length (map ID (sql_list db))"
  have rest: "rest_of (page_key db limit k) db = drop (k * limit) (sql_list db)"
    using page_rest [OF assms(1,3)] k by simp
  have in_table: "sql_list db ! (k * limit - 1) \<in> set db" if "k \<noteq> 0"
  proof -
    have "k * limit - 1 < length (sql_list db)" using k that assms(3) by auto
    then have "sql_list db ! (k * limit - 1) \<in> set (sql_list db)" by (rule nth_mem)
    then show ?thesis by simp
  qed
  have cursor: "page_token db limit k = '''' \<or> page_token db limit k \<in> encodeCursor ` set db"
    using in_table by (auto simp: page_token_def)
  have at: "cursor_at stored (if page_token db limit k = '''' then None else Some (page_token db limit k)) (page_key db limit k)"
  proof (cases "k = 0")
    case False
    then have "row_ok (sql_list db ! (k * limit - 1))" using in_table assms(1) by (simp add: db_ok_def)
    then show ?thesis
      using cursor_at_encode [OF _ assms(7)] encodeCursor_not_empty False by (simp add: page_token_def page_key_def)
  qed (simp add: page_token_def page_key_def cursor_at_def)
  have last: "drop (k * limit) (sql_list db) ! (limit - 1) = sql_list db ! (Suc k * limit - 1)"
    if "limit < length (drop (k * limit) (sql_list db))"
    using that assms(3) by (simp add: algebra_simps)
  from page_fetched [OF assms(1-6) cursor at, unfolded rest]
  show "\<exists>page. fetchPage E (Some limit) (page_token db limit k) s = Some (Inr page, s)
      \<and> map wire_ID (items page) = take limit (drop (k * limit) (map ID (sql_list db)))
      \<and> NextCursor page = (if Suc k * limit < length (map ID (sql_list db))
           then Some (JString (page_token db limit (Suc k))) else None)"
    using last by (auto simp: page_token_def wire_of_def comp_def drop_map take_map algebra_simps)
qed

lemma page_token_moves:
  assumes "db_ok db" "0 < limit" "Suc k * limit < length (sql_list db)"
  shows "page_token db limit (Suc k) \<noteq> '''' \<and> page_token db limit (Suc k) \<noteq> page_token db limit k"
proof (cases "k = 0")
  case False
  let ?s = "sql_list db"
  let ?i = "k * limit - 1" and ?j = "Suc k * limit - 1"
  have ij: "?i < ?j" "?j < length ?s"
  proof -
    have "0 < k * limit" using False assms(2) by simp
    then show "?i < ?j" "?j < length ?s" using assms(2,3) unfolding mult_Suc by linarith+
  qed
  then have lt: "order_key (?s ! ?i) < order_key (?s ! ?j)"
    using strict_sql_list [OF assms(1)] by (simp add: sorted_wrt_iff_nth_less)
  have "?i < length ?s" using ij by linarith
  then have mem: "?s ! ?i \<in> set db" "?s ! ?j \<in> set db"
    using nth_mem [of ?i ?s] nth_mem [OF ij(2)] unfolding set_sql_list by blast+
  then have ok: "row_ok (?s ! ?j)" "row_ok (?s ! ?i)" using assms(1) by (simp_all add: db_ok_def)
  have "encodeCursor (?s ! ?j) \<noteq> encodeCursor (?s ! ?i)"
  proof
    assume "encodeCursor (?s ! ?j) = encodeCursor (?s ! ?i)"
    then have "ID (?s ! ?j) = ID (?s ! ?i)" by (rule encodeCursor_inj [OF ok])
    then have "?s ! ?j = ?s ! ?i"
      using same_id_unique [OF assms(1) mem(2,1), of "ID (?s ! ?i)"] by (simp only: same_id_def)
    then show False using lt by (simp only: less_irrefl)
  qed
  then show ?thesis using False encodeCursor_not_empty unfolding page_token_def by (simp only: if_False nat.simps(3)) simp
qed (simp add: page_token_def encodeCursor_not_empty)

section \<open>Concrete candidates\<close>

definition one_task_environment :: "unit environment" where
  "one_task_environment = \<lparr>Do = (\<lambda>r w. (Inr (delivered task_json (fst (listPage (pg_ListPage id) sample_call
       (page_request 2 (if request_Path r = page_path (Some 2) '''' then '''' else encodeCursor sample_task)) [sample_task]))), w)),
     DoTogether = (\<lambda>rs w. ([], w)), Exec = (\<lambda>sql args w. (None, w)), QueryRow = (\<lambda>sql args w. (Inl '''', w)),
     decoding_error = (\<lambda>_. ''''), url_error = (\<lambda>_. ''''), map_order = (\<lambda>m. m)\<rparr>"

definition one_task_suite :: "unit suite" where
  "one_task_suite = \<lparr>world = (), suite_task = TaskPagination, createdID = ''''\<rparr>"

lemma one_task_served: "serves_pages one_task_environment one_task_suite id [sample_task] 2"
proof -
  have "page_path (Some 2) (encodeCursor sample_task) \<noteq> page_path (Some 2) ''''"
    using encodeCursor_not_empty by (simp add: page_path_def)
  then show ?thesis
    by (auto simp: serves_pages_def one_task_environment_def make_request_def sample_call_def intro!: exI [of _ sample_call])
qed

section \<open>Properties\<close>

text \<open>
  C20: the race of the evaluator, run against the reference solution. Two updates of one task at version 1, with the
  titles the evaluator sends, reach a working database in some order, interleaved in any way with the requests of other clients
  that leave the task there. Then the evaluator, in whatever order the answers arrive, names the title of the first as the one
  winner, and the database holds it with version 2.
\<close>

theorem race_is_won_once:
  assumes "locked_ok db" "q \<in> set db" "same_id tid q" "Version q = 1" "{t1, t2} = {''first'', ''second''}"
    "fault call1 = NoFault" "fault call2 = NoFault" "fault2 call2 = NoFault" "list_ex (same_id tid) later2"
    "updateTask locking_repository call1 later1 (race_put tid t1) db = (resp1, db1)"
    "updateTask locking_repository call2 later2 (race_put tid t2) db1 = (resp2, db2)"
  shows "winner_of E [Inr (delivered locked_json resp1), Inr (delivered locked_json resp2)] = Inr t1
    \<and> winner_of E [Inr (delivered locked_json resp2), Inr (delivered locked_json resp1)] = Inr t1
    \<and> (\<exists>q' \<in> set db2. same_id tid q' \<and> Title q' = t1 \<and> Version q' = 2)"
proof -
  let ?t = "updated_row t1 q"
  have t: "t1 \<in> {''first'', ''second''}" "t2 \<in> {''first'', ''second''}" using assms(5) by blast+
  have row: "row_ok q" using assms(1,2) by (auto simp: locked_ok_def db_ok_def)
  have valid: "validUUID tid" using row_ok_uuid [OF row] assms(3) uuid_value_valid by (metis option.distinct(1) same_id_def)
  have one: "resp1 = writeTask 200 ?t" "db1 = replace_row tid ?t db"
    using assms(10) race_first [OF assms(1-4,6) t(1)] race_update [OF t(1) valid] by simp_all
  have same: "same_id tid ?t" "Version ?t \<noteq> 1" using assms(3,4) by simp_all
  have two: "resp2 = writeProblem preconditionFailedProblem" "db2 = db1"
    using assms(11) race_second [OF same assms(7-9) t(2)] race_update [OF t(2) valid] one(2)
    by (simp_all add: lockedServiceError_def)
  have "won E (Inr (delivered locked_json resp1)) t1"
    using locked_reply_decoded [of ?t E 200] row_ok_updated [OF row race_titles(1,2) [OF t(1)]] race_titles(3) [OF t(1)] assms(4)
    by (simp add: won_def one delivered_simps quoted_tag dec_two)
  moreover have "lost E (Inr (delivered locked_json resp2))"
    using stale_reply_accepted by (simp add: lost_def two delivered_simps preconditionFailedProblem_def)
  moreover have "?t \<in> set db2" using replace_row_mem [OF assms(2,3)] by (simp add: two one)
  then have "\<exists>q' \<in> set db2. same_id tid q' \<and> Title q' = t1 \<and> Version q' = 2"
    by (intro bexI [of _ ?t]) (use same(1) assms(4) in simp_all)
  ultimately show ?thesis unfolding single_winner_iff using t(1) by blast
qed

theorem race_is_won_once_witness:
  "let first = updateTask locking_repository sample_call [] (race_put (uuid_format sample_bytes) ''first'') [locked_sample];
       second = updateTask locking_repository sample_call [locked_sample] (race_put (uuid_format sample_bytes) ''second'') (snd first)
   in winner_of one_task_environment
        [Inr (delivered locked_json (fst second)), Inr (delivered locked_json (fst first))] = Inr ''first''"
proof -
  let ?tid = "uuid_format sample_bytes"
  let ?first = "updateTask locking_repository sample_call [] (race_put ?tid ''first'') [locked_sample]"
  let ?second = "updateTask locking_repository sample_call [locked_sample] (race_put ?tid ''second'') (snd ?first)"
  have q: "locked_sample \<in> set [locked_sample]" "same_id ?tid locked_sample" "Version locked_sample = 1"
    "list_ex (same_id ?tid) [locked_sample]" by (simp_all add: same_id_def locked_sample_def)
  have "fault2 sample_call = NoFault" by (simp add: sample_call_def)
  from race_is_won_once [OF locked_sample_ok q(1-3) refl sample_call_ok sample_call_ok this q(4)
      surjective_pairing surjective_pairing, of one_task_environment "[]", THEN conjunct2, THEN conjunct1]
  show ?thesis unfolding Let_def .
qed

text \<open>
  C23: the evaluator collects the pages of the reference solution. When the candidate is that solution on a working database that
  stands still, with at most 100 pages of any size from 1 to 100, the walk of the evaluator ends with the identifiers of the
  whole listing in its order and leaves the candidate as it was.
\<close>

theorem reference_pages_collected:
  assumes "db_ok db" "\<forall>t \<in> set db. utf8 (Title t)" "0 < limit" "limit \<le> 100" "length db \<le> 100 * limit"
    "suite_task s = TaskPagination" "serves_pages E s stored db limit" "keeps_micros stored"
  shows "collectPages E limit s = Some (Inr (map ID (sql_list db)), s)"
proof -
  note pages = reference_pages [OF assms(1-4,6-8)]
  have "length (sql_list db) \<le> 100 * limit" using assms(5) by (simp add: sql_list_def)
  then show ?thesis
    using collect_correct [OF pages page_token_moves [OF assms(1,3)] assms(3), where k = 0 and left = 100]
    by (simp add: collectPages_def page_token_def)
qed

theorem reference_pages_collected_witness:
  "collectPages one_task_environment 2 one_task_suite = Some (Inr [uuid_format sample_bytes], one_task_suite)"
proof -
  have "keeps_micros id" by (simp add: keeps_micros_def)
  moreover have "suite_task one_task_suite = TaskPagination" by (simp add: one_task_suite_def)
  moreover have "\<forall>t \<in> set [sample_task]. utf8 (Title t)" by (simp add: sample_task_def)
  ultimately have "collectPages one_task_environment 2 one_task_suite = Some (Inr (map ID (sql_list [sample_task])), one_task_suite)"
    using reference_pages_collected [OF sample_task_ok _ _ _ _ _ one_task_served] by simp
  then show ?thesis by (simp add: sql_list_def sample_task_def)
qed

end
