(* ===== verification/Spec2Isabelle.thy ===== *)
theory Spec2Isabelle
  imports Service_Base Freeze_Experiment Freeze_Main Run_Props Run_Workspace Driver_Workspace Driver_Slots Driver_Metadata
    Eval_Report Eval_Props Bridge_Props Analysis_Input Target_Check Egress_Relay Service_Replies Locking_Props
    Service_Pagination Service_Nullable Eval_Solutions
begin

text \<open>
  This library verifies the programs of an experiment on coding agents. An experiment is a matrix of cells (a task, a way
  of working, a starting fixture); a schedule orders the runs of the cells; a run lets an agent change a Go service in
  a workspace; a hidden evaluator tests the changed service; the records of all runs are validated before they are
  counted. The Go programs and the theories that model them:

  \<^item> \<open>harness/freezecheck\<close> generates and validates the schedule, validates the configuration before and after the
    freeze, one run directory or a directory of them. \<open>Freeze_Schema\<close> (\<open>schema.go\<close>), \<open>Freeze_Types\<close> and
    \<open>Freeze_IO\<close> (\<open>types.go\<close>, reading JSON documents), \<open>Freeze_Stream\<close> and \<open>Freeze_Schedule\<close> (\<open>schedule.go\<close>: the
    SHA-256 counter stream, unbiased draws, the shuffle, strata, generation, validation), \<open>Freeze_Experiment\<close> (the
    matrix of \<open>config/experiment.json\<close>), \<open>Freeze_Config\<close> (\<open>config.go\<close>), \<open>Freeze_Run\<close> (\<open>run.go\<close>),
    \<open>Freeze_Results\<close> (\<open>results.go\<close>), \<open>Freeze_Main\<close> (\<open>main.go\<close>, publication of a schedule file).
  \<^item> \<open>harness/runresult\<close> assembles the result of one run. \<open>Run_Types\<close> (\<open>types.go\<close>), \<open>Run_Derive\<close> (\<open>derive.go\<close>:
    gates, formal inputs, candidate tests), \<open>Run_Transcript\<close> (\<open>transcript.go\<close>, \<open>diff.go\<close>), \<open>Run_Evaluator\<close>
    (\<open>evaluator.go\<close>), \<open>Run_Main\<close> (\<open>main.go\<close>, \<open>manifest.go\<close>, \<open>validate.go\<close>).
  \<^item> \<open>harness/rundriver\<close> carries out scheduled runs. \<open>Driver_Files\<close> (file trees), \<open>Driver_Main\<close> (\<open>main.go\<close>),
    \<open>Driver_Resolve\<close>, \<open>Driver_Production\<close> and \<open>Driver_Slots\<close> (\<open>production.go\<close>: resolution of a run, formal targets,
    the candidate phase, the lock files that bound concurrency, finalization).
  \<^item> \<open>evaluator\<close> is the hidden evaluator. \<open>Eval_Suite\<close> and \<open>Eval_Cases\<close> (\<open>evaluator.go\<close>: requests, decoding,
    baseline cases), \<open>Eval_Nullable\<close>, \<open>Eval_Locking\<close>, \<open>Eval_Pagination\<close> (the cases of the tasks), \<open>Eval_Main\<close>
    (set-up, \<open>Evaluate\<close>, the registry and the command).
  \<^item> \<open>harness/bridge\<close> runs the agent's tools in the tool container: \<open>Bridge_Main\<close>.
  \<^item> \<open>analysis/input\<close> makes the index of results that the analysis reads: \<open>Analysis_Input\<close>.
  \<^item> \<open>tasks/propagation/validate-targets.go\<close> checks the canonical formal targets: \<open>Target_Check\<close>.
  \<^item> \<open>harness/egressproxy\<close> relays the coordinator to one host: \<open>Egress_Relay\<close>.
  \<^item> \<open>fixtures/base2-direct\<close> is the service the runs start from. \<open>Task_Core\<close> (titles and identifiers), \<open>Task_Store\<close>
    (the SQL statements on a table), \<open>Task_Http\<close>, \<open>Task_Text\<close>, \<open>Service_Base\<close> and \<open>Service_Replies\<close> (service, handlers,
    replies).
  \<^item> \<open>fixtures/task-solutions\<close> holds a reference solution for each task; those with handwritten boundaries are modelled on top
    of the base service: \<open>Service_Locking\<close> and \<open>Locking_Props\<close> (\<open>optimistic-locking-direct\<close>: versions and \<open>If-Match\<close>),
    \<open>Service_Pagination\<close> (\<open>cursor-pagination-direct\<close>: cursors and pages), \<open>Service_Nullable\<close> (\<open>nullable-patch-direct\<close>:
    due dates and \<open>PATCH\<close>). \<open>Eval_Solutions\<close> lets the evaluator judge them.

  The programs meet in files, and the theories follow that: a document is a record; what a program writes is printed from a
  JSON tree, and what the next one reads is decoded from the text. The \<open>Go_\<close> theories hold what the code uses of Go's
  standard library, by its documented behaviour and on byte strings: \<open>Go_Strings\<close>, \<open>Go_Strconv\<close>, \<open>Go_Time\<close>, \<open>Go_Encoding\<close>,
  \<open>Go_Sha256\<close>, \<open>Go_JSON\<close> and \<open>Go_Decode\<close> (parsing and decoding), \<open>Go_Marshal\<close> (printing), \<open>Go_Path\<close>, \<open>Go_Fs\<close> and
  \<open>Go_Write\<close> (paths and a file tree with links). \<open>Prelude\<close> holds the shared types, lemmas and collections.

  How code becomes definitions. A struct is a record, an error or a message is a constructor with the values it
  shows, a function that can fail returns \<open>error + value\<close>, or the list of its messages where the code collects them. An \<open>int\<close>
  of Go is an \<^typ>\<open>int\<close> where its range is checked or cannot be exceeded, and a word where the code relies on wrap-around
  (the stream, hashes, identifiers). A Go map is an association list or a function; where its iteration order could show, the
  order is a parameter. File operations take a file tree and return it. The evaluator's cases are computations over an arbitrary
  world that holds the candidate and its database, with not returning as a value; drivers that share a machine
  and a relayed connection are the steps of an inductive relation; so are the requests of a history, where a request of two statements
  takes the table its second statement sees as an argument. Third-party code (JSON Schema and YAML libraries, PostgreSQL, git, containers, the agent) is a
  parameter: a function, or an answer that the environment gives.

  Loops and bounds. The parser has fuel of twice the length of its text and one; \<open>parse_enough_fuel\<close> shows that more changes
  nothing. Links are followed 40 times by the kernel and 255 times by \<open>EvalSymlinks\<close>, as in the sources. \<open>uintn\<close> draws until a
  value is accepted; the budget of draws makes a starving stream a value, and the correctness of the generator allows for
  exactly that outcome. \<open>collectPages\<close> stops after 100 pages, as the code does. \<open>acquireSlot\<close> and the readiness loop poll; they return
  under the stated condition on what they poll. \<open>killProcessTree\<close> has a depth, and a depth above that of the tree is shown to be enough.

  What the groups of lemmas show:

  \<^item> Schedule: the validator accepts exactly the declarative contract; the generator meets it; each order comes from one sequence of draws; a written schedule is read back.
  \<^item> Validation: the configuration, run, manifest, evaluation and replacement-link checks accept exactly what their
    declarative counterparts say; nothing outside a run directory is read through its artifacts.
  \<^item> Assembly: the decided result is accepted by \<open>freezecheck\<close>, its manifest verifies, its text is read back unchanged,
    and the index over assembled results has exactly their summaries.
  \<^item> Driver: copying is exact and ends; an accepted workspace has nothing the manifest misses; every scheduled run resolves;
    slots bound concurrency and are found; a refused run changes nothing; the metadata is what \<open>runresult\<close> reads.
  \<^item> Evaluator: it returns; every case is reported once; its report is assembled into an evaluation that is accepted; its
    judgement of races and of paging is exact; it does not depend on the provider key.
  \<^item> Bridge: what an accepted request reads or writes is below \<open>/workspace\<close>; a cancelled tool is killed with its tree.
  \<^item> Relay and targets: bytes are relayed unchanged to the fixed host only; validated targets pass the gate of the assembly.
  \<^item> Service: the table invariant holds in every reachable state; tasks are created, read, listed and deleted as promised;
    every reply is a document of the API.
  \<^item> Solutions: no update is lost in any history of concurrent requests with failing statements; following the cursors over a
    changing table gives what stays exactly once; a patch does what its members say; the evaluator judges the race and the
    pages of the solutions as it should.

  Interfaces are locales: the repository contract the services rely on, its extension by versioned updates, and the layout of
  printed JSON; each is interpreted on the definitions that provide it. Lemmas such as \<open>dangling_link_escapes\<close>, \<open>nested_workspace_header\<close> and
  \<open>folded_name_escapes\<close> show on small inputs where the code does not do what it is meant to do.

  Not modelled: the other fixtures and the solutions behind generated boundaries (the same behaviour again), generated code, service start-up, shell
  scripts and images, the agent's side of the bridge. Within the modelled programs: the texts of most messages, flag
  parsing beyond the arguments it yields, permission bits other than read access, clock and scheduling other than where a deadline
  decides an outcome.
\<close>

end
